(* ===== verification/Amq_Prelude.thy ===== *)
theory Amq_Prelude
  imports Main "HOL-Library.AList" "HOL-Library.Sublist" "HOL-Library.Char_ord" "HOL-Library.List_Lexorder"
begin

text \<open>
  The parts of the Go language and its standard library that every component shares:
  byte strings and the functions of the packages \<^verbatim>\<open>strings\<close>, \<^verbatim>\<open>bytes\<close> and \<^verbatim>\<open>strconv\<close> the
  sources call, Go error values with their wrapping structure (\<^verbatim>\<open>errors.Is\<close>,
  \<^verbatim>\<open>errors.As\<close>, \<^verbatim>\<open>os.IsNotExist\<close>), and the theorem collections of the development.

  A Go \<^verbatim>\<open>string\<close> or \<^verbatim>\<open>[]byte\<close> is a list of bytes, \<^typ>\<open>string\<close>. A slash-separated
  path below a queue root is the list of its components.
\<close>

section \<open>Theorem collections\<close>

named_theorems stable_rules
  \<comment> \<open>rules that propagate a relation between trees through a program\<close>
named_theorems go_defs
  \<comment> \<open>definitions to unfold when a program is run on a concrete state\<close>
named_theorems path_simps
  \<comment> \<open>facts that tell mailbox paths apart\<close>

section \<open>Types\<close>

type_synonym bytes = string
type_synonym path = "string list"

section \<open>The packages strings and bytes\<close>

definition hasPrefix :: "string \<Rightarrow> string \<Rightarrow> bool" where
  "hasPrefix s p \<longleftrightarrow> prefix p s"

definition hasSuffix :: "string \<Rightarrow> string \<Rightarrow> bool" where
  "hasSuffix s p \<longleftrightarrow> suffix p s"

definition contains :: "string \<Rightarrow> string \<Rightarrow> bool" where
  "contains s sub \<longleftrightarrow> sublist sub s"

text \<open>\<^verbatim>\<open>strings.TrimSpace\<close> strips the runes of \<^verbatim>\<open>unicode.IsSpace\<close> at both ends; a rune is found by its
  UTF-8 bytes, which no other rune's bytes end with or start with.\<close>

definition space_runes :: "bytes list" where
  "space_runes =
     [[CHR '' ''], [CHR 0x09], [CHR 0x0A], [CHR 0x0B], [CHR 0x0C], [CHR 0x0D],
      [CHR 0xC2, CHR 0x85], [CHR 0xC2, CHR 0xA0], [CHR 0xE1, CHR 0x9A, CHR 0x80],
      [CHR 0xE2, CHR 0x80, CHR 0x80], [CHR 0xE2, CHR 0x80, CHR 0x81], [CHR 0xE2, CHR 0x80, CHR 0x82],
      [CHR 0xE2, CHR 0x80, CHR 0x83], [CHR 0xE2, CHR 0x80, CHR 0x84], [CHR 0xE2, CHR 0x80, CHR 0x85],
      [CHR 0xE2, CHR 0x80, CHR 0x86], [CHR 0xE2, CHR 0x80, CHR 0x87], [CHR 0xE2, CHR 0x80, CHR 0x88],
      [CHR 0xE2, CHR 0x80, CHR 0x89], [CHR 0xE2, CHR 0x80, CHR 0x8A], [CHR 0xE2, CHR 0x80, CHR 0xA8],
      [CHR 0xE2, CHR 0x80, CHR 0xA9], [CHR 0xE2, CHR 0x80, CHR 0xAF], [CHR 0xE2, CHR 0x81, CHR 0x9F],
      [CHR 0xE3, CHR 0x80, CHR 0x80]]"

function strip :: "bytes list \<Rightarrow> bytes \<Rightarrow> bytes" where
  "strip ps s =
     (case find (\<lambda>p. p \<noteq> [] \<and> prefix p s) ps of None \<Rightarrow> s | Some p \<Rightarrow> strip ps (drop (length p) s))"
  by pat_completeness auto
termination
  by (relation "measure (\<lambda>(ps, s). length s)") (auto simp: find_Some_iff prefix_def)

declare strip.simps [simp del]

definition trimSpace :: "string \<Rightarrow> string" where
  "trimSpace s = rev (strip (map rev space_runes) (rev (strip space_runes s)))"

text \<open>\<^verbatim>\<open>strings.TrimRight\<close>.\<close>

definition trimRight :: "(char \<Rightarrow> bool) \<Rightarrow> string \<Rightarrow> string" where
  "trimRight P s = rev (dropWhile P (rev s))"

lemma strip_none: "(\<And>p. p \<in> set ps \<Longrightarrow> p = [] \<or> \<not> prefix p s) \<Longrightarrow> strip ps s = s"
proof -
  assume "\<And>p. p \<in> set ps \<Longrightarrow> p = [] \<or> \<not> prefix p s"
  then have "find (\<lambda>p. p \<noteq> [] \<and> prefix p s) ps = None" by (auto simp: find_None_iff)
  then show ?thesis by (subst strip.simps) simp
qed

text \<open>A byte of a white space rune.\<close>

definition spaceByte :: "char \<Rightarrow> bool" where
  "spaceByte c \<longleftrightarrow> c \<in> set '' '' \<union> {CHR 0x09, CHR 0x0A, CHR 0x0B, CHR 0x0C, CHR 0x0D} \<or> CHR 0x80 \<le> c"

lemma space_rune_bytes: "p \<in> set space_runes \<Longrightarrow> p \<noteq> [] \<and> (\<forall>c \<in> set p. spaceByte c)"
proof -
  have "list_all (\<lambda>p. p \<noteq> [] \<and> list_all spaceByte p) space_runes" by code_simp
  then show "p \<in> set space_runes \<Longrightarrow> ?thesis" by (auto simp: list_all_iff)
qed

lemma trimSpace_plain:
  assumes "\<forall>c \<in> set s. \<not> spaceByte c"
  shows "trimSpace s = s"
proof -
  have no: "\<not> prefix p t" if "p \<noteq> []" "\<forall>c \<in> set p. spaceByte c" "set t \<subseteq> set s" for p t
    using that assms by (cases p) (auto simp: prefix_def)
  have "strip space_runes s = s"
    by (rule strip_none) (use no space_rune_bytes in blast)
  moreover have "strip (map rev space_runes) (rev s) = rev s"
    by (rule strip_none) (use no [of _ "rev s"] space_rune_bytes in fastforce)
  ultimately show ?thesis by (simp add: trimSpace_def)
qed

text \<open>Texts without white space are met first when the function is evaluated.\<close>

lemma trimSpace_code [code]:
  "trimSpace s = (if list_all (\<lambda>c. \<not> spaceByte c) s then s else rev (strip (map rev space_runes) (rev (strip space_runes s))))"
  using trimSpace_plain [of s] by (simp add: trimSpace_def list_all_iff)

definition trimSuffix :: "string \<Rightarrow> string \<Rightarrow> string" where
  "trimSuffix s p = (if hasSuffix s p then take (length s - length p) s else s)"

text \<open>\<^verbatim>\<open>bytes.ReplaceAll(data, "\\r\\n", "\\n")\<close>.\<close>

fun crlf_to_lf :: "bytes \<Rightarrow> bytes" where
  "crlf_to_lf [] = []"
| "crlf_to_lf [c] = [c]"
| "crlf_to_lf (c # d # s) =
     (if c = CHR 0x0D \<and> d = CHR 0x0A then CHR 0x0A # crlf_to_lf s else c # crlf_to_lf (d # s))"

text \<open>\<^verbatim>\<open>bytes.Index\<close>, as the text before and after the first occurrence.\<close>

fun cutOn :: "string \<Rightarrow> string \<Rightarrow> (string \<times> string) option" where
  "cutOn sep s =
     (if prefix sep s then Some ([], drop (length sep) s)
      else case s of [] \<Rightarrow> None
           | c # r \<Rightarrow> (case cutOn sep r of None \<Rightarrow> None | Some (a, b) \<Rightarrow> Some (c # a, b)))"

declare cutOn.simps [simp del]

text \<open>\<^verbatim>\<open>strings.Split\<close> on a one-byte separator; never empty.\<close>

fun splitOn :: "char \<Rightarrow> string \<Rightarrow> string list" where
  "splitOn sep [] = [[]]"
| "splitOn sep (c # s) =
     (if c = sep then [] # splitOn sep s
      else case splitOn sep s of [] \<Rightarrow> [[c]] | w # ws \<Rightarrow> (c # w) # ws)"

lemma splitOn_plain: "sep \<notin> set s \<Longrightarrow> splitOn sep s = [s]"
  by (induction s) auto

lemma splitOn_append: "sep \<notin> set s \<Longrightarrow> splitOn sep (s @ sep # t) = s # splitOn sep t"
  by (induction s) auto

definition toLowerC :: "char \<Rightarrow> char" where
  "toLowerC c = (if CHR ''A'' \<le> c \<and> c \<le> CHR ''Z'' then char_of (of_char c + 32 :: nat) else c)"

definition toLower :: "string \<Rightarrow> string" where
  "toLower s = map toLowerC s"

text \<open>\<^verbatim>\<open>strings.EqualFold\<close> on ASCII text.\<close>

definition equalFold :: "string \<Rightarrow> string \<Rightarrow> bool" where
  "equalFold s t \<longleftrightarrow> toLower s = toLower t"

text \<open>\<^verbatim>\<open>strings.Join\<close>.\<close>

fun join :: "string \<Rightarrow> string list \<Rightarrow> string" where
  "join sep [] = []"
| "join sep [s] = s"
| "join sep (s # t # ss) = s @ sep @ join sep (t # ss)"

section \<open>The package strconv\<close>

definition digit :: "nat \<Rightarrow> char" where
  "digit n = char_of (48 + n)"

definition is_digit :: "char \<Rightarrow> bool" where
  "is_digit c \<longleftrightarrow> CHR ''0'' \<le> c \<and> c \<le> CHR ''9''"

definition digit_val :: "char \<Rightarrow> nat" where
  "digit_val c = of_char c - 48"

fun nat_str :: "nat \<Rightarrow> string" where
  "nat_str n = (if n < 10 then [digit n] else nat_str (n div 10) @ [digit (n mod 10)])"

declare nat_str.simps [simp del]

definition itoa :: "int \<Rightarrow> string" where
  "itoa i = (if i < 0 then CHR ''-'' # nat_str (nat (- i)) else nat_str (nat i))"

definition digits_val :: "string \<Rightarrow> nat" where
  "digits_val s = foldl (\<lambda>n c. 10 * n + digit_val c) 0 s"

definition hex_digit :: "nat \<Rightarrow> char" where
  "hex_digit n = (if n < 10 then char_of (48 + n) else char_of (87 + n))"

text \<open>\<^verbatim>\<open>hex.EncodeToString\<close>.\<close>

definition hex_str :: "bytes \<Rightarrow> string" where
  "hex_str bs = concat (map (\<lambda>b. [hex_digit (of_char b div 16), hex_digit (of_char b mod 16)]) bs)"

section \<open>Go errors\<close>

datatype errno =
  ENOENT | EEXIST | ENOTDIR | EISDIR | ENOTEMPTY | ELOOP | EXDEV | EINVAL | ENOTSUP | EIO | ENOSPC | EACCES

text \<open>
  An error value keeps what \<^verbatim>\<open>errors.Is\<close> and \<^verbatim>\<open>errors.As\<close> can see of it: which sentinel or
  typed error it is and what it wraps. Message texts are reduced to a label.
  \<open>Wrap\<close> is \<^verbatim>\<open>fmt.Errorf\<close> with one \<^verbatim>\<open>%w\<close>; \<open>WrapV\<close> prints its second error with \<^verbatim>\<open>%v\<close>, so only
  the first is wrapped; \<open>Join\<close> is \<^verbatim>\<open>errors.Join\<close> or two \<^verbatim>\<open>%w\<close>.
\<close>

datatype goerr =
    Sys errno
  | ErrNotExist
  | ErrDeadlineExceeded
  | ErrDeliveryRootChanged
  | ErrDLQRetryDelivered
  | ErrDLQRetryIndeterminate
  | Msg string
  | Wrap string goerr
  | WrapV string goerr goerr
  | Join goerr goerr
  | ClaimCollision path path
  | CommittedDurability path string goerr
  | DLQTransition path path goerr
  | PartialDelivery "(string \<times> path) list" string "string list" goerr
  | NotFound string

text \<open>\<^verbatim>\<open>os.IsNotExist\<close> looks through \<^verbatim>\<open>*PathError\<close>, \<^verbatim>\<open>*LinkError\<close> and \<^verbatim>\<open>*SyscallError\<close> only,
  not through wrapping errors.\<close>

fun osIsNotExist :: "goerr \<Rightarrow> bool" where
  "osIsNotExist (Sys e) = (e = ENOENT)"
| "osIsNotExist ErrNotExist = True"
| "osIsNotExist _ = False"

text \<open>\<^verbatim>\<open>errors.Is(err, os.ErrExist)\<close>: \<^verbatim>\<open>syscall.Errno\<close> counts \<^verbatim>\<open>EEXIST\<close> and \<^verbatim>\<open>ENOTEMPTY\<close>.\<close>

fun isErrExist :: "goerr \<Rightarrow> bool" where
  "isErrExist (Sys e) = (e = EEXIST \<or> e = ENOTEMPTY)"
| "isErrExist (Wrap _ e) = isErrExist e"
| "isErrExist (WrapV _ e _) = isErrExist e"
| "isErrExist (Join a b) = (isErrExist a \<or> isErrExist b)"
| "isErrExist (CommittedDurability _ _ e) = isErrExist e"
| "isErrExist (DLQTransition _ _ e) = isErrExist e"
| "isErrExist (PartialDelivery _ _ _ e) = isErrExist e"
| "isErrExist _ = False"

text \<open>\<^verbatim>\<open>errors.As(err, **CommittedDurabilityError)\<close>: the first one found, depth first.\<close>

fun asCommitted :: "goerr \<Rightarrow> (path \<times> string \<times> goerr) option" where
  "asCommitted (CommittedDurability p r e) = Some (p, r, e)"
| "asCommitted (Wrap _ e) = asCommitted e"
| "asCommitted (WrapV _ e _) = asCommitted e"
| "asCommitted (Join a b) = (case asCommitted a of None \<Rightarrow> asCommitted b | Some x \<Rightarrow> Some x)"
| "asCommitted (DLQTransition _ _ e) = asCommitted e"
| "asCommitted (PartialDelivery _ _ _ e) = asCommitted e"
| "asCommitted _ = None"

text \<open>\<^verbatim>\<open>errors.As(err, **DLQTransitionError)\<close>, as a test.\<close>

fun asTransition :: "goerr \<Rightarrow> bool" where
  "asTransition (DLQTransition _ _ _) = True"
| "asTransition (Wrap _ e) = asTransition e"
| "asTransition (WrapV _ e _) = asTransition e"
| "asTransition (Join a b) = (asTransition a \<or> asTransition b)"
| "asTransition (CommittedDurability _ _ e) = asTransition e"
| "asTransition (PartialDelivery _ _ _ e) = asTransition e"
| "asTransition _ = False"

text \<open>\<^verbatim>\<open>errors.Is(err, ErrDLQRetryDelivered)\<close>.\<close>

fun isRetryDelivered :: "goerr \<Rightarrow> bool" where
  "isRetryDelivered ErrDLQRetryDelivered = True"
| "isRetryDelivered (Wrap _ e) = isRetryDelivered e"
| "isRetryDelivered (WrapV _ e _) = isRetryDelivered e"
| "isRetryDelivered (Join a b) = (isRetryDelivered a \<or> isRetryDelivered b)"
| "isRetryDelivered (CommittedDurability _ _ e) = isRetryDelivered e"
| "isRetryDelivered (DLQTransition _ _ e) = isRetryDelivered e"
| "isRetryDelivered (PartialDelivery _ _ _ e) = isRetryDelivered e"
| "isRetryDelivered _ = False"

section \<open>Lemmas on strings\<close>

lemma crlf_to_lf_no_cr: "CHR 0x0D \<notin> set s \<Longrightarrow> crlf_to_lf s = s"
  by (induction s rule: crlf_to_lf.induct) auto

lemma crlf_to_lf_append:
  "CHR 0x0D \<notin> set s \<Longrightarrow> crlf_to_lf (s @ t) = s @ crlf_to_lf t"
proof (induction s)
  case Nil
  then show ?case by simp
next
  case (Cons c s)
  then show ?case by (cases "s @ t") auto
qed

lemma crlf_to_lf_length: "length (crlf_to_lf s) \<le> length s"
  by (induction s rule: crlf_to_lf.induct) auto

lemma cutOn_prefix: "cutOn sep (sep @ s) = Some ([], s)"
  by (subst cutOn.simps) simp

lemma cutOn_Some_append: "cutOn sep s = Some (a, b) \<Longrightarrow> s = a @ sep @ b"
proof (induction s arbitrary: a b)
  case Nil
  then show ?case by (auto simp: cutOn.simps [of sep "[]"] split: if_splits)
next
  case (Cons c s)
  show ?case
  proof (cases "prefix sep (c # s)")
    case True
    with Cons.prems have "a = []" and b: "b = drop (length sep) (c # s)"
      by (simp_all add: cutOn.simps [of sep "c # s"])
    moreover from True obtain r where "c # s = sep @ r" by (auto simp: prefix_def)
    ultimately show ?thesis by simp
  next
    case False
    with Cons.prems obtain a' where "cutOn sep s = Some (a', b)" and "a = c # a'"
      by (auto simp: cutOn.simps [of sep "c # s"] split: option.splits)
    with Cons.IH show ?thesis by simp
  qed
qed

lemma cutOn_skip: "\<not> prefix sep (c # s) \<Longrightarrow> cutOn sep (c # s) = map_option (map_prod (Cons c) id) (cutOn sep s)"
  by (subst cutOn.simps) (auto split: option.splits)

section \<open>Lemmas on numbers\<close>

lemma digit_val_digit [simp]: "n < 10 \<Longrightarrow> digit_val (digit n) = n"
  by (simp add: digit_val_def digit_def)

lemma is_digit_digit [simp]: "n < 10 \<Longrightarrow> is_digit (digit n)"
  by (simp add: is_digit_def digit_def less_eq_char_def)

lemma nat_str_digits: "\<forall>c \<in> set (nat_str n). is_digit c"
proof (induction n rule: nat_str.induct)
  case (1 n)
  show ?case by (subst nat_str.simps) (use 1 in auto)
qed

lemma nat_str_nonempty [simp]: "nat_str n \<noteq> []"
  by (subst nat_str.simps) simp

lemma digits_val_snoc: "digits_val (s @ [c]) = 10 * digits_val s + digit_val c"
  by (simp add: digits_val_def)

lemma digits_val_nat_str [simp]: "digits_val (nat_str n) = n"
proof (induction n rule: nat_str.induct)
  case (1 n)
  show ?case
  proof (cases "n < 10")
    case True
    then show ?thesis by (subst nat_str.simps) (simp add: digits_val_def)
  next
    case False
    then show ?thesis by (subst nat_str.simps) (simp add: digits_val_snoc 1)
  qed
qed

section \<open>Machine integers\<close>

text \<open>\<^verbatim>\<open>int\<close> arithmetic wraps at 64 bits.\<close>

definition wrap64 :: "int \<Rightarrow> int" where
  "wrap64 i = (i + 2 ^ 63) mod 2 ^ 64 - 2 ^ 63"

lemma wrap64_id: "- (2 ^ 63) \<le> i \<Longrightarrow> i < 2 ^ 63 \<Longrightarrow> wrap64 i = i"
  by (simp add: wrap64_def)

lemma wrap64_range: "- (2 ^ 63) \<le> wrap64 i \<and> wrap64 i < 2 ^ 63"
  by (simp add: wrap64_def)

end
