(* ===== verification/Posix.thy ===== *)
theory Posix
  imports Amq_Prelude
begin

text \<open>
  The operating system as the queue sees it through a pinned \<^verbatim>\<open>os.Root\<close>: a tree of nodes
  below the root, the system calls the sources issue, and the world they run in.

  Every system call takes one tick of the world. The schedule \<open>faults\<close> may make the call at
  any tick fail with any error number; a failing call leaves the tree as it was, except a
  failing \<^verbatim>\<open>write\<close>, which may leave a prefix of its data. A crash of the process at
  tick \<open>n\<close> leaves the tree that the schedule with a fault at every tick from \<open>n\<close> on
  leaves, so a fact proved for every schedule holds at every crash point as well.

  The lexical path of the queue root may be redirected by other processes at any time: the
  physical directory found there at a tick is given by \<open>ambient\<close>. Clock, process id and
  random bytes are inputs too.

  Directories below the root are real directories; a symbolic link is a leaf whose target is
  a path below the root.
\<close>

section \<open>Nodes and trees\<close>

text \<open>A directory carries its permission bits (448 is octal 0700).\<close>

datatype node = Dir nat | Reg bytes | Sym path | Special

type_synonym fs = "(path \<times> node) list"

definition node_at :: "fs \<Rightarrow> path \<Rightarrow> node option" where
  "node_at f p = (if p = [] then Some (Dir 448) else map_of f p)"

definition put :: "path \<Rightarrow> node \<Rightarrow> fs \<Rightarrow> fs" where
  "put p n f = AList.update p n f"

definition del :: "path \<Rightarrow> fs \<Rightarrow> fs" where
  "del p f = AList.delete p f"

fun isDir :: "node \<Rightarrow> bool" where
  "isDir (Dir _) = True"
| "isDir _ = False"

fun isRegular :: "node \<Rightarrow> bool" where
  "isRegular (Reg _) = True"
| "isRegular _ = False"

fun isSymlink :: "node \<Rightarrow> bool" where
  "isSymlink (Sym _) = True"
| "isSymlink _ = False"

text \<open>The error of resolving the directory part of a path, if there is one.\<close>

fun walk :: "fs \<Rightarrow> path \<Rightarrow> path \<Rightarrow> errno option" where
  "walk f seen [] = None"
| "walk f seen [x] = None"
| "walk f seen (x # y # r) =
     (case map_of f (seen @ [x]) of
        None \<Rightarrow> Some ENOENT
      | Some (Dir _) \<Rightarrow> walk f (seen @ [x]) (y # r)
      | Some _ \<Rightarrow> Some ENOTDIR)"

section \<open>System calls on a tree\<close>

definition lstat :: "path \<Rightarrow> fs \<Rightarrow> errno + node" where
  "lstat p f =
     (case walk f [] p of
        Some e \<Rightarrow> Inl e
      | None \<Rightarrow> (case node_at f p of None \<Rightarrow> Inl ENOENT | Some n \<Rightarrow> Inr n))"

text \<open>\<^verbatim>\<open>os.Root\<close> follows at most eight symbolic links.\<close>

fun follow :: "nat \<Rightarrow> path \<Rightarrow> fs \<Rightarrow> errno + path \<times> node" where
  "follow k p f =
     (case lstat p f of
        Inl e \<Rightarrow> Inl e
      | Inr (Sym t) \<Rightarrow> (case k of 0 \<Rightarrow> Inl ELOOP | Suc k' \<Rightarrow> follow k' t f)
      | Inr n \<Rightarrow> Inr (p, n))"

declare follow.simps [simp del]

definition stat :: "path \<Rightarrow> fs \<Rightarrow> errno + node" where
  "stat p f = (case follow 8 p f of Inl e \<Rightarrow> Inl e | Inr (q, n) \<Rightarrow> Inr n)"

definition children :: "path \<Rightarrow> fs \<Rightarrow> (string \<times> node) list" where
  "children d f = map (\<lambda>(p, n). (last p, n)) (filter (\<lambda>(p, n). p \<noteq> [] \<and> butlast p = d) f)"

definition readdir :: "path \<Rightarrow> fs \<Rightarrow> errno + (string \<times> node) list" where
  "readdir p f =
     (case follow 8 p f of
        Inl e \<Rightarrow> Inl e
      | Inr (q, Dir _) \<Rightarrow> Inr (children q f)
      | Inr _ \<Rightarrow> Inl ENOTDIR)"

text \<open>One level of \<^verbatim>\<open>MkdirAll\<close>: an existing directory, or a link to one, is accepted.\<close>

definition mkdir_level :: "nat \<Rightarrow> path \<Rightarrow> fs \<Rightarrow> errno + fs" where
  "mkdir_level perm p f =
     (case lstat p f of
        Inl ENOENT \<Rightarrow> (if walk f [] p = None then Inr (put p (Dir perm) f) else Inl ENOENT)
      | Inl e \<Rightarrow> Inl e
      | Inr (Dir _) \<Rightarrow> Inr f
      | Inr (Sym t) \<Rightarrow>
          (case stat t f of Inr (Dir _) \<Rightarrow> Inr f | Inr _ \<Rightarrow> Inl ENOTDIR | Inl e \<Rightarrow> Inl e)
      | Inr _ \<Rightarrow> Inl ENOTDIR)"

text \<open>\<^verbatim>\<open>open(O_CREATE|O_EXCL)\<close>: creates an empty regular file, never reuses a name.\<close>

definition create_excl :: "path \<Rightarrow> fs \<Rightarrow> errno + fs" where
  "create_excl p f =
     (case walk f [] p of
        Some e \<Rightarrow> Inl e
      | None \<Rightarrow> (case node_at f p of Some _ \<Rightarrow> Inl EEXIST | None \<Rightarrow> Inr (put p (Reg []) f)))"

text \<open>\<^verbatim>\<open>open(O_CREATE|O_RDWR)\<close> on the stable name of a lock file.\<close>

definition open_create :: "path \<Rightarrow> fs \<Rightarrow> errno + fs" where
  "open_create p f =
     (case walk f [] p of
        Some e \<Rightarrow> Inl e
      | None \<Rightarrow>
          (case node_at f p of
             None \<Rightarrow> Inr (put p (Reg []) f)
           | Some (Dir _) \<Rightarrow> Inl EISDIR
           | Some (Sym t) \<Rightarrow> (case stat t f of Inr (Dir _) \<Rightarrow> Inl EISDIR | Inr _ \<Rightarrow> Inr f | Inl e \<Rightarrow> Inl e)
           | Some _ \<Rightarrow> Inr f))"

definition remove :: "path \<Rightarrow> fs \<Rightarrow> errno + fs" where
  "remove p f =
     (case lstat p f of
        Inl e \<Rightarrow> Inl e
      | Inr (Dir _) \<Rightarrow>
          (if p = [] then Inl EINVAL else if children p f \<noteq> [] then Inl ENOTEMPTY else Inr (del p f))
      | Inr _ \<Rightarrow> Inr (del p f))"

text \<open>Moving a node; a directory takes its subtree along.\<close>

definition move :: "path \<Rightarrow> path \<Rightarrow> node \<Rightarrow> fs \<Rightarrow> fs" where
  "move p q n f =
     (if isDir n then map (\<lambda>(k, m). (if prefix p k then q @ drop (length p) k else k, m)) f
      else put q n (del p f))"

text \<open>\<^verbatim>\<open>renameat2\<close> with \<^verbatim>\<open>RENAME_NOREPLACE\<close>: an existing destination is never replaced.\<close>

definition rename_noreplace :: "path \<Rightarrow> path \<Rightarrow> fs \<Rightarrow> errno + fs" where
  "rename_noreplace p q f =
     (case walk f [] p of
        Some e \<Rightarrow> Inl e
      | None \<Rightarrow>
     (case walk f [] q of
        Some e \<Rightarrow> Inl e
      | None \<Rightarrow>
     (case node_at f p of
        None \<Rightarrow> Inl ENOENT
      | Some n \<Rightarrow>
          (if p = [] \<or> q = [] then Inl EINVAL
           else if node_at f q \<noteq> None then Inl EEXIST
           else if isDir n \<and> prefix p q then Inl EINVAL
           else Inr (move p q n f)))))"

text \<open>\<^verbatim>\<open>rename(2)\<close>: a file replaces a file, a directory only an empty directory.\<close>

definition rename :: "path \<Rightarrow> path \<Rightarrow> fs \<Rightarrow> errno + fs" where
  "rename p q f =
     (case walk f [] p of
        Some e \<Rightarrow> Inl e
      | None \<Rightarrow>
     (case walk f [] q of
        Some e \<Rightarrow> Inl e
      | None \<Rightarrow>
     (case node_at f p of
        None \<Rightarrow> Inl ENOENT
      | Some n \<Rightarrow>
          (if p = [] \<or> q = [] then Inl EINVAL
           else if p = q then Inr f
           else if isDir n then
             (if prefix p q then Inl EINVAL
              else case node_at f q of
                None \<Rightarrow> Inr (move p q n f)
              | Some (Dir _) \<Rightarrow>
                  (if children q f \<noteq> [] then Inl ENOTEMPTY else Inr (move p q n (del q f)))
              | Some _ \<Rightarrow> Inl ENOTDIR)
           else
             (case node_at f q of
                Some (Dir _) \<Rightarrow> Inl EISDIR
              | _ \<Rightarrow> Inr (move p q n f))))))"

section \<open>The world and programs\<close>

record world =
  fs :: fs
  tick :: nat
  faults :: "nat \<Rightarrow> (errno \<times> nat) option"
  ambient :: "nat \<Rightarrow> string \<Rightarrow> nat option"
  leases :: "nat \<Rightarrow> bool"
  next_lease :: nat
  now_ns :: "nat \<Rightarrow> nat"
  pid :: nat
  random :: "nat \<Rightarrow> bytes"

text \<open>
  A program runs in the world and returns a value; a Go function that returns
  \<^verbatim>\<open>(T, error)\<close> with one of them nil returns \<open>goerr + 'a\<close>, one that may return both
  a pair.
\<close>

type_synonym 'a io = "world \<Rightarrow> 'a \<times> world"

definition ret :: "'a \<Rightarrow> 'a io" where
  "ret x w = (x, w)"

text \<open>Sequencing.\<close>

definition bind :: "'a io \<Rightarrow> ('a \<Rightarrow> 'b io) \<Rightarrow> 'b io" where
  "bind m k w = (case m w of (x, w') \<Rightarrow> k x w')"

text \<open>\<^verbatim>\<open>x, err := m(); if err != nil { h(err) }; k(x)\<close>.\<close>

definition on_err :: "('e + 'a) io \<Rightarrow> ('e \<Rightarrow> 'b io) \<Rightarrow> ('a \<Rightarrow> 'b io) \<Rightarrow> 'b io" where
  "on_err m h k w = (case m w of (Inl e, w') \<Rightarrow> h e w' | (Inr x, w') \<Rightarrow> k x w')"

definition ok :: "'a \<Rightarrow> ('e + 'a) io" where
  "ok x = ret (Inr x)"

definition fail :: "'e \<Rightarrow> ('e + 'a) io" where
  "fail e = ret (Inl e)"

text \<open>\<^verbatim>\<open>if err := m(); err != nil { return err }\<close>.\<close>

abbreviation guard :: "('e + 'a) io \<Rightarrow> ('a \<Rightarrow> ('e + 'b) io) \<Rightarrow> ('e + 'b) io" where
  "guard m k \<equiv> on_err m fail k"

text \<open>A system call: one tick, a possible fault, else its effect on the tree.\<close>

definition sys :: "(fs \<Rightarrow> errno + 'a \<times> fs) \<Rightarrow> (goerr + 'a) io" where
  "sys call w =
     (let w' = w\<lparr>tick := Suc (tick w)\<rparr> in
      case faults w (tick w) of
        Some (e, _) \<Rightarrow> (Inl (Sys e), w')
      | None \<Rightarrow>
          (case call (fs w) of
             Inl e \<Rightarrow> (Inl (Sys e), w')
           | Inr (x, f') \<Rightarrow> (Inr x, w'\<lparr>fs := f'\<rparr>)))"

definition sys_upd :: "(fs \<Rightarrow> errno + fs) \<Rightarrow> (goerr + unit) io" where
  "sys_upd call = sys (\<lambda>f. case call f of Inl e \<Rightarrow> Inl e | Inr f' \<Rightarrow> Inr ((), f'))"

definition sys_query :: "(fs \<Rightarrow> errno + 'a) \<Rightarrow> (goerr + 'a) io" where
  "sys_query q = sys (\<lambda>f. case q f of Inl e \<Rightarrow> Inl e | Inr x \<Rightarrow> Inr (x, f))"

text \<open>A call on an open descriptor with no effect on the tree (\<^verbatim>\<open>fsync\<close>, \<^verbatim>\<open>close\<close>).\<close>

definition sys_noop :: "(goerr + unit) io" where
  "sys_noop = sys_query (\<lambda>f. Inr ())"

text \<open>\<^verbatim>\<open>write(2)\<close> on a descriptor of the file at \<open>p\<close>; a fault may leave a prefix of the data.\<close>

definition sys_write :: "path \<Rightarrow> bytes \<Rightarrow> (goerr + unit) io" where
  "sys_write p d w =
     (let w' = w\<lparr>tick := Suc (tick w)\<rparr> in
      case faults w (tick w) of
        Some (e, k) \<Rightarrow> (Inl (Sys e), w'\<lparr>fs := put p (Reg (take k d)) (fs w)\<rparr>)
      | None \<Rightarrow> (Inr (), w'\<lparr>fs := put p (Reg d) (fs w)\<rparr>))"

text \<open>\<^verbatim>\<open>os.Stat\<close> of a lexical path: the physical directory found there now.\<close>

definition sys_identity :: "string \<Rightarrow> (goerr + nat) io" where
  "sys_identity base w =
     (let w' = w\<lparr>tick := Suc (tick w)\<rparr> in
      case faults w (tick w) of
        Some (e, _) \<Rightarrow> (Inl (Sys e), w')
      | None \<Rightarrow>
          (case ambient w (tick w) base of
             None \<Rightarrow> (Inl (Sys ENOENT), w')
           | Some i \<Rightarrow> (Inr i, w')))"

text \<open>Time and random bytes.\<close>

definition get_now :: "nat io" where
  "get_now w = (now_ns w (tick w), w)"

definition get_pid :: "nat io" where
  "get_pid w = (pid w, w)"

definition read_random :: "nat \<Rightarrow> (goerr + bytes) io" where
  "read_random n w =
     (let w' = w\<lparr>tick := Suc (tick w)\<rparr> in
      case faults w (tick w) of
        Some (e, _) \<Rightarrow> (Inl (Sys e), w')
      | None \<Rightarrow> (Inr (take n (random w (tick w))), w'))"

text \<open>\<^verbatim>\<open>Root.MkdirAll\<close>: one call per missing level.\<close>

fun mkdirs :: "nat \<Rightarrow> path \<Rightarrow> path \<Rightarrow> (goerr + unit) io" where
  "mkdirs perm seen [] = ok ()"
| "mkdirs perm seen (x # r) =
     guard (sys_upd (mkdir_level perm (seen @ [x]))) (\<lambda>_. mkdirs perm (seen @ [x]) r)"

definition mkdirAll :: "path \<Rightarrow> nat \<Rightarrow> (goerr + unit) io" where
  "mkdirAll p perm = mkdirs perm [] p"

lemmas [go_defs] = ret_def bind_def on_err_def ok_def fail_def sys_def sys_upd_def sys_query_def
  sys_noop_def sys_write_def sys_identity_def get_now_def get_pid_def read_random_def mkdirAll_def
  Let_def

text \<open>A world in which no call fails and the root's path keeps naming the directory 7.\<close>

definition calm :: "fs \<Rightarrow> world" where
  "calm f = \<lparr>fs = f, tick = 0, faults = (\<lambda>_. None), ambient = (\<lambda>_ _. Some 7), leases = (\<lambda>_. False),
     next_lease = 0, now_ns = (\<lambda>t. t), pid = 1, random = (\<lambda>_. ''abcdef'')\<rparr>"

text \<open>A world in which one call fails.\<close>

definition fault_at :: "nat \<Rightarrow> fs \<Rightarrow> world" where
  "fault_at n f = (calm f)\<lparr>faults := (\<lambda>t. if t = n then Some (ENOSPC, 0) else None)\<rparr>"

text \<open>The process dies before the \<open>n\<close>-th call: no later call has an effect.\<close>

definition dies_at :: "nat \<Rightarrow> fs \<Rightarrow> world" where
  "dies_at n f = (calm f)\<lparr>faults := (\<lambda>t. if t < n then None else Some (EIO, 0))\<rparr>"

section \<open>Lookup after an update\<close>

lemma map_of_put [simp]: "map_of (put p n f) = (map_of f)(p \<mapsto> n)"
  by (simp add: put_def update_conv')

lemma map_of_del [simp]: "map_of (del p f) = (map_of f)(p := None)"
  by (simp add: del_def delete_conv')

lemma node_at_put: "p \<noteq> [] \<Longrightarrow> node_at (put p n f) q = (if q = p then Some n else node_at f q)"
  by (auto simp: node_at_def)

lemma node_at_del: "p \<noteq> [] \<Longrightarrow> node_at (del p f) q = (if q = p then None else node_at f q)"
  by (auto simp: node_at_def)

lemma node_at_map_of [simp]: "p \<noteq> [] \<Longrightarrow> node_at f p = map_of f p"
  by (simp add: node_at_def)

lemma node_at_root [simp]: "node_at f [] = Some (Dir 448)"
  by (simp add: node_at_def)

lemma map_of_move_file:
  "\<not> isDir n \<Longrightarrow> map_of (move p q n f) = (map_of f)(p := None, q \<mapsto> n)"
  by (simp add: move_def)

end
