(* ===== verification/Io_Logic.thy ===== *)
theory Io_Logic
  imports Posix
begin

text \<open>
  Reasoning about programs under every fault schedule. \<open>triple P m Q\<close> says that from
  every world whose tree satisfies \<open>P\<close> the program \<open>m\<close> ends with a value and a tree that
  satisfy \<open>Q\<close>; the schedule, the clock and the other inputs of the world are arbitrary.
  The rules follow the structure of programs. The locale \<open>tree_inv\<close> is the contract
  of a property of trees that creating directories keeps: every program built from calls that
  respect it keeps it too.
\<close>

definition triple :: "(fs \<Rightarrow> bool) \<Rightarrow> 'a io \<Rightarrow> ('a \<Rightarrow> fs \<Rightarrow> bool) \<Rightarrow> bool" where
  "triple P m Q \<longleftrightarrow> (\<forall>w. P (fs w) \<longrightarrow> (case m w of (x, w') \<Rightarrow> Q x (fs w')))"

definition keeps :: "(fs \<Rightarrow> bool) \<Rightarrow> 'a io \<Rightarrow> bool" where
  "keeps P m \<longleftrightarrow> triple P m (\<lambda>_. P)"

lemma triple_run:
  "triple P m Q \<Longrightarrow> P (fs w) \<Longrightarrow> Q (fst (m w)) (fs (snd (m w)))"
  by (auto simp: triple_def split: prod.splits)

lemma triple_elim:
  "triple P m Q \<Longrightarrow> P (fs w) \<Longrightarrow> m w = (x, w') \<Longrightarrow> Q x (fs w')"
  by (auto simp: triple_def split: prod.splits)

lemma triple_pre: "triple P' m Q \<Longrightarrow> (\<And>f. P f \<Longrightarrow> P' f) \<Longrightarrow> triple P m Q"
  by (auto simp: triple_def)

lemma triple_post: "triple P m Q' \<Longrightarrow> (\<And>x f. Q' x f \<Longrightarrow> Q x f) \<Longrightarrow> triple P m Q"
  by (fastforce simp: triple_def split: prod.splits)

lemma triple_conj:
  "triple P m Q \<Longrightarrow> triple P' m Q' \<Longrightarrow> triple (\<lambda>f. P f \<and> P' f) m (\<lambda>x f. Q x f \<and> Q' x f)"
  by (fastforce simp: triple_def split: prod.splits)

lemma triple_pure: "(C \<Longrightarrow> triple P m Q) \<Longrightarrow> triple (\<lambda>f. C \<and> P f) m Q"
  by (auto simp: triple_def)

lemma triple_pure2: "(C \<Longrightarrow> triple P m Q) \<Longrightarrow> triple (\<lambda>f. P f \<and> C) m Q"
  by (auto simp: triple_def)

lemma triple_ret: "(\<And>f. P f \<Longrightarrow> Q x f) \<Longrightarrow> triple P (ret x) Q"
  by (simp add: triple_def ret_def)

lemma triple_ok: "(\<And>f. P f \<Longrightarrow> Q (Inr x) f) \<Longrightarrow> triple P (ok x) Q"
  by (simp add: triple_def ok_def ret_def)

lemma triple_fail: "(\<And>f. P f \<Longrightarrow> Q (Inl e) f) \<Longrightarrow> triple P (fail e) Q"
  by (simp add: triple_def fail_def ret_def)

lemma triple_bind:
  "triple P m R \<Longrightarrow> (\<And>x. triple (R x) (k x) Q) \<Longrightarrow> triple P (bind m k) Q"
  by (fastforce simp: triple_def bind_def split: prod.splits)

lemma triple_on_err:
  "triple P m R \<Longrightarrow> (\<And>e. triple (R (Inl e)) (h e) Q) \<Longrightarrow> (\<And>x. triple (R (Inr x)) (k x) Q)
   \<Longrightarrow> triple P (on_err m h k) Q"
  by (fastforce simp: triple_def on_err_def split: prod.splits sum.splits)

lemma triple_if:
  "(b \<Longrightarrow> triple P m Q) \<Longrightarrow> (\<not> b \<Longrightarrow> triple P m' Q) \<Longrightarrow> triple P (if b then m else m') Q"
  by simp

lemma triple_any: "triple P m (\<lambda>_ _. True)"
  by (simp add: triple_def)

lemma triple_case_sum:
  "(\<And>e. x = Inl e \<Longrightarrow> triple P (h e) Q) \<Longrightarrow> (\<And>y. x = Inr y \<Longrightarrow> triple P (k y) Q) \<Longrightarrow>
   triple P (case x of Inl e \<Rightarrow> h e | Inr y \<Rightarrow> k y) Q"
  by (cases x) simp_all

lemma triple_case_option:
  "(x = None \<Longrightarrow> triple P h Q) \<Longrightarrow> (\<And>y. x = Some y \<Longrightarrow> triple P (k y) Q) \<Longrightarrow>
   triple P (case x of None \<Rightarrow> h | Some y \<Rightarrow> k y) Q"
  by (cases x) simp_all

lemma triple_sys:
  assumes "\<And>f e. P f \<Longrightarrow> Q (Inl (Sys e)) f"
    and "\<And>f x f'. P f \<Longrightarrow> call f = Inr (x, f') \<Longrightarrow> Q (Inr x) f'"
  shows "triple P (sys call) Q"
  using assms by (auto simp: triple_def sys_def Let_def split: option.splits sum.splits prod.splits)

lemma triple_sys_upd:
  assumes "\<And>f e. P f \<Longrightarrow> Q (Inl (Sys e)) f"
    and "\<And>f f'. P f \<Longrightarrow> call f = Inr f' \<Longrightarrow> Q (Inr ()) f'"
  shows "triple P (sys_upd call) Q"
  unfolding sys_upd_def by (rule triple_sys) (use assms in \<open>auto split: sum.splits\<close>)

lemma triple_sys_query:
  assumes "\<And>f e. P f \<Longrightarrow> Q (Inl (Sys e)) f"
    and "\<And>f x. P f \<Longrightarrow> q f = Inr x \<Longrightarrow> Q (Inr x) f"
  shows "triple P (sys_query q) Q"
  unfolding sys_query_def by (rule triple_sys) (use assms in \<open>auto split: sum.splits\<close>)

lemma triple_sys_write:
  assumes "\<And>f e k. P f \<Longrightarrow> Q (Inl (Sys e)) (put p (Reg (take k d)) f)"
    and "\<And>f. P f \<Longrightarrow> Q (Inr ()) (put p (Reg d) f)"
  shows "triple P (sys_write p d) Q"
  using assms by (auto simp: triple_def sys_write_def Let_def split: option.splits)

section \<open>Programs that keep a property\<close>

lemma keeps_triple: "keeps P m \<Longrightarrow> triple P m (\<lambda>_. P)"
  by (simp add: keeps_def)

lemma keeps_ret [stable_rules]: "keeps P (ret x)"
  by (simp add: keeps_def triple_ret)

lemma keeps_ok [stable_rules]: "keeps P (ok x)"
  by (simp add: keeps_def triple_ok)

lemma keeps_fail [stable_rules]: "keeps P (fail e)"
  by (simp add: keeps_def triple_fail)

lemma keeps_bind [stable_rules]: "keeps P m \<Longrightarrow> (\<And>x. keeps P (k x)) \<Longrightarrow> keeps P (bind m k)"
  unfolding keeps_def by (rule triple_bind)

lemma keeps_on_err [stable_rules]:
  "keeps P m \<Longrightarrow> (\<And>e. keeps P (h e)) \<Longrightarrow> (\<And>x. keeps P (k x)) \<Longrightarrow> keeps P (on_err m h k)"
  unfolding keeps_def by (rule triple_on_err)

lemma keeps_sys_query [stable_rules]: "keeps P (sys_query q)"
  unfolding keeps_def by (rule triple_sys_query)

lemma keeps_sys_noop [stable_rules]: "keeps P sys_noop"
  unfolding sys_noop_def by (rule keeps_sys_query)

lemma keeps_sys_identity [stable_rules]: "keeps P (sys_identity b)"
  by (auto simp: keeps_def triple_def sys_identity_def Let_def split: option.splits)

lemma keeps_get_now [stable_rules]: "keeps P get_now"
  by (simp add: keeps_def triple_def get_now_def)

lemma keeps_get_pid [stable_rules]: "keeps P get_pid"
  by (simp add: keeps_def triple_def get_pid_def)

lemma keeps_read_random [stable_rules]: "keeps P (read_random n)"
  by (auto simp: keeps_def triple_def read_random_def Let_def split: option.splits)

lemma keeps_sys_upd: "(\<And>f f'. P f \<Longrightarrow> call f = Inr f' \<Longrightarrow> P f') \<Longrightarrow> keeps P (sys_upd call)"
  unfolding keeps_def by (rule triple_sys_upd)

lemma keeps_if [stable_rules]: "keeps P m \<Longrightarrow> keeps P m' \<Longrightarrow> keeps P (if b then m else m')"
  by simp

lemma keeps_case_option [stable_rules]:
  "keeps P m \<Longrightarrow> (\<And>x. keeps P (k x)) \<Longrightarrow> keeps P (case y of None \<Rightarrow> m | Some x \<Rightarrow> k x)"
  by (simp split: option.splits)

lemma keeps_case_sum [stable_rules]:
  "(\<And>e. keeps P (h e)) \<Longrightarrow> (\<And>x. keeps P (k x)) \<Longrightarrow> keeps P (case y of Inl e \<Rightarrow> h e | Inr x \<Rightarrow> k x)"
  by (simp split: sum.splits)

lemma keeps_case_prod [stable_rules]:
  "(\<And>a b. keeps P (k a b)) \<Longrightarrow> keeps P (case y of (a, b) \<Rightarrow> k a b)"
  by (simp split: prod.splits)

lemma keeps_let [stable_rules]: "(\<And>x. keeps P (k x)) \<Longrightarrow> keeps P (let x = y in k x)"
  by simp

section \<open>The errors a program can return\<close>

definition errs :: "('e \<Rightarrow> bool) \<Rightarrow> ('e + 'a) io \<Rightarrow> bool" where
  "errs P m \<longleftrightarrow> (\<forall>w e. fst (m w) = Inl e \<longrightarrow> P e)"

lemma errs_ok [stable_rules]: "errs P (ok x)"
  by (simp add: errs_def ok_def ret_def)

lemma errs_fail: "P e \<Longrightarrow> errs P (fail e)"
  by (simp add: errs_def fail_def ret_def)

lemma errs_bind: "(\<And>x. errs P (k x)) \<Longrightarrow> errs P (bind m k)"
  by (auto simp: errs_def bind_def split: prod.splits)

lemma errs_on_err:
  "errs R m \<Longrightarrow> (\<And>e. R e \<Longrightarrow> errs P (h e)) \<Longrightarrow> (\<And>x. errs P (k x)) \<Longrightarrow> errs P (on_err m h k)"
  by (simp add: errs_def on_err_def split: prod.splits sum.splits) (metis fst_conv)

lemma errs_guard: "errs P m \<Longrightarrow> (\<And>x. errs P (k x)) \<Longrightarrow> errs P (guard m k)"
  by (rule errs_on_err [where R = P]) (auto intro: errs_fail)

lemma errs_sys: "(\<And>e. P (Sys e)) \<Longrightarrow> errs P (sys c)"
  by (auto simp: errs_def sys_def Let_def split: option.splits sum.splits prod.splits)

lemma errs_sys_upd: "(\<And>e. P (Sys e)) \<Longrightarrow> errs P (sys_upd c)"
  unfolding sys_upd_def by (rule errs_sys)

lemma errs_sys_query: "(\<And>e. P (Sys e)) \<Longrightarrow> errs P (sys_query c)"
  unfolding sys_query_def by (rule errs_sys)

lemma errs_sys_write: "(\<And>e. P (Sys e)) \<Longrightarrow> errs P (sys_write p d)"
  by (auto simp: errs_def sys_write_def Let_def split: option.splits)

lemma errs_read_random: "(\<And>e. P (Sys e)) \<Longrightarrow> errs P (read_random n)"
  by (auto simp: errs_def read_random_def Let_def split: option.splits)

lemma errs_sys_identity: "(\<And>e. P (Sys e)) \<Longrightarrow> errs P (sys_identity b)"
  by (auto simp: errs_def sys_identity_def Let_def split: option.splits)

lemma errs_mkdirs: "(\<And>e. P (Sys e)) \<Longrightarrow> errs P (mkdirs perm seen p)"
  by (induction p arbitrary: seen) (auto intro!: errs_guard errs_sys_upd errs_ok)

lemma errs_mkdirAll: "(\<And>e. P (Sys e)) \<Longrightarrow> errs P (mkdirAll p perm)"
  unfolding mkdirAll_def by (rule errs_mkdirs)

lemma triple_errs:
  assumes "triple P m Q" and "errs E m"
  shows "triple P m (\<lambda>x f. Q x f \<and> (\<forall>e. x = Inl e \<longrightarrow> E e))"
  unfolding triple_def
proof (intro allI impI)
  fix w :: world assume "P (fs w)"
  with assms(1) have "Q (fst (m w)) (fs (snd (m w)))" by (rule triple_run)
  moreover have "\<forall>e. fst (m w) = Inl e \<longrightarrow> E e" using assms(2) by (simp add: errs_def)
  ultimately show "case m w of (x, w') \<Rightarrow> Q x (fs w') \<and> (\<forall>e. x = Inl e \<longrightarrow> E e)"
    by (simp add: case_prod_beta)
qed

section \<open>What single calls do to a tree\<close>

lemma mkdir_level_cases:
  assumes "mkdir_level perm p f = Inr f'"
  obtains "f' = f" | "node_at f p = None" "f' = put p (Dir perm) f"
proof (cases "lstat p f")
  case (Inl e)
  with assms have "walk f [] p = None" and f': "f' = put p (Dir perm) f"
    by (cases e; simp add: mkdir_level_def split: if_splits)+
  with Inl have "node_at f p = None"
    by (simp add: lstat_def split: option.splits)
  with f' that show ?thesis by blast
next
  case (Inr n)
  with assms have "f' = f"
    by (cases n) (simp_all add: mkdir_level_def split: sum.splits node.splits)
  with that show ?thesis by blast
qed

lemma create_excl_cases:
  assumes "create_excl p f = Inr f'"
  shows "node_at f p = None \<and> f' = put p (Reg []) f"
  using assms by (auto simp: create_excl_def split: option.splits)

lemma remove_cases:
  assumes "remove p f = Inr f'"
  shows "p \<noteq> [] \<and> node_at f p \<noteq> None \<and> f' = del p f"
  using assms
  by (cases "p = []") (auto simp: remove_def lstat_def split: option.splits sum.splits node.splits if_splits)

lemma rename_noreplace_cases:
  assumes "rename_noreplace p q f = Inr f'"
  obtains n where "p \<noteq> []" "q \<noteq> []" "map_of f p = Some n" "map_of f q = None" "f' = move p q n f"
  using assms by (auto simp: rename_noreplace_def split: option.splits if_splits)

lemma rename_file_cases:
  assumes "rename p q f = Inr f'" and "map_of f p = Some (Reg c)"
  shows "f' = f \<and> p = q \<or> p \<noteq> q \<and> q \<noteq> [] \<and> p \<noteq> [] \<and> f' = put q (Reg c) (del p f) \<and> (\<forall>m. map_of f q \<noteq> Some (Dir m))"
proof -
  have "p \<noteq> []" and "q \<noteq> []"
    using assms(1) by (auto simp: rename_def split: option.splits if_splits)
  with assms show ?thesis
    by (auto simp: rename_def move_def split: option.splits if_splits node.splits)
qed

section \<open>Programs as relations on lookup maps\<close>

type_synonym tree = "path \<rightharpoonup> node"

text \<open>A triple may be proved for one arbitrary lookup map at a time.\<close>

lemma triple_by_map:
  "(\<And>g. P g \<Longrightarrow> triple (\<lambda>f. map_of f = g) m Q) \<Longrightarrow> triple (\<lambda>f. P (map_of f)) m Q"
  by (auto simp: triple_def)

lemma triple_by_map': 
  "(\<And>g. P g \<Longrightarrow> triple (\<lambda>f. map_of f = g) m (Q g)) \<Longrightarrow>
   (\<And>g x f. P g \<Longrightarrow> Q g x f \<Longrightarrow> R x f) \<Longrightarrow> triple (\<lambda>f. P (map_of f)) m R"
  by (fastforce simp: triple_def split: prod.splits)

section \<open>Properties that creating directories keeps\<close>

text \<open>
  \<open>I\<close> is a property of trees, \<open>D\<close> the paths at which it lets a missing directory be
  created.
\<close>

locale tree_inv =
  fixes I :: "tree \<Rightarrow> bool" and D :: "path \<Rightarrow> bool"
  assumes mkdir: "I g \<Longrightarrow> D p \<Longrightarrow> g p = None \<Longrightarrow> I (g(p \<mapsto> Dir 448))"
begin

lemma keeps_mkdirs:
  "(\<And>q. prefix q p \<Longrightarrow> q \<noteq> [] \<Longrightarrow> D (seen @ q)) \<Longrightarrow> keeps (\<lambda>f. I (map_of f)) (mkdirs 448 seen p)"
proof (induction p arbitrary: seen)
  case Nil
  show ?case by (simp add: keeps_ok)
next
  case (Cons x p)
  from Cons.prems [of "[x]"] have "D (seen @ [x])" by simp
  then have "keeps (\<lambda>f. I (map_of f)) (sys_upd (mkdir_level 448 (seen @ [x])))"
    by (intro keeps_sys_upd) (auto elim!: mkdir_level_cases intro: mkdir)
  moreover have "keeps (\<lambda>f. I (map_of f)) (mkdirs 448 (seen @ [x]) p)"
  proof (rule Cons.IH)
    fix q assume "prefix q p" and "q \<noteq> []"
    then show "D ((seen @ [x]) @ q)" using Cons.prems [of "x # q"] by simp
  qed
  ultimately show ?case by (auto intro: keeps_on_err keeps_fail)
qed

lemma keeps_mkdirAll:
  "(\<And>q. prefix q p \<Longrightarrow> q \<noteq> [] \<Longrightarrow> D q) \<Longrightarrow> keeps (\<lambda>f. I (map_of f)) (mkdirAll p 448)"
  unfolding mkdirAll_def by (rule keeps_mkdirs) simp

end

section \<open>Properties stated node by node\<close>

text \<open>
  Most properties compare a tree with the tree a program started from, one path at a time:
  \<open>N p x y\<close> says that the node \<open>x\<close> at \<open>p\<close> may have become \<open>y\<close>.
\<close>

definition pointwise :: "(path \<Rightarrow> node option \<Rightarrow> node option \<Rightarrow> bool) \<Rightarrow> tree \<Rightarrow> tree \<Rightarrow> bool" where
  "pointwise N g0 g \<longleftrightarrow> (\<forall>p. N p (g0 p) (g p))"

lemma pointwise_upd: "pointwise N g0 g \<Longrightarrow> N p (g0 p) v \<Longrightarrow> pointwise N g0 (g(p := v))"
  by (simp add: pointwise_def)

lemma pointwiseD: "pointwise N g0 g \<Longrightarrow> N p (g0 p) (g p)"
  by (simp add: pointwise_def)

lemma pointwiseI: "(\<And>p. N p (g0 p) (g p)) \<Longrightarrow> pointwise N g0 g"
  by (simp add: pointwise_def)

lemma pointwise_mono: "pointwise N g0 g \<Longrightarrow> (\<And>p x y. N p x y \<Longrightarrow> N' p x y) \<Longrightarrow> pointwise N' g0 g"
  by (simp add: pointwise_def)

locale node_policy =
  fixes N :: "path \<Rightarrow> node option \<Rightarrow> node option \<Rightarrow> bool" and D :: "path \<Rightarrow> bool"
  assumes same: "N p x x"
    and dir: "D p \<Longrightarrow> N p x None \<Longrightarrow> N p x (Some (Dir 448))"
begin

lemma refl: "pointwise N g g"
  by (simp add: pointwise_def same)

lemma mkdir_policy: "pointwise N g0 g \<Longrightarrow> D p \<Longrightarrow> g p = None \<Longrightarrow> pointwise N g0 (g(p \<mapsto> Dir 448))"
  by (metis dir pointwiseD pointwise_upd)

end

sublocale node_policy \<subseteq> tree_inv "pointwise N g0" D for g0
  by unfold_locales (rule mkdir_policy)

end
