(* ===== verification/Names.thy ===== *)
theory Names
  imports Amq_Prelude
begin

text \<open>
  Names the queue accepts and the paths it builds from them: message filenames
  (\<^verbatim>\<open>internal/fsq/filename.go\<close>), agent handles and the mailbox leaves
  (\<^verbatim>\<open>internal/fsq/layout.go\<close>), and the names of delivery attempts
  (\<^verbatim>\<open>internal/fsq/maildir.go\<close>). A validator returns \<open>None\<close> where the source returns nil.
\<close>

section \<open>Message filenames\<close>

definition ValidateMessageFilename :: "string \<Rightarrow> goerr option" where
  "ValidateMessageFilename filename =
     (if filename = [] then Some (Msg ''empty filename'')
      else if hasPrefix filename ''.'' then Some (Msg ''dotfile names are not allowed'')
      else if hasPrefix filename ''/'' then Some (Msg ''absolute path is not allowed'')
      else if contains filename ''/'' \<or> contains filename [CHR 0x5C]
        then Some (Msg ''path separators are not allowed'')
      else if contains filename [CHR 0x00] then Some (Msg ''NUL byte is not allowed'')
      else if filename = ''.'' \<or> filename = ''..'' then Some (Msg ''path traversal is not allowed'')
      else if \<not> hasSuffix filename ''.md'' then Some (Msg ''filename must end with .md'')
      else None)"

section \<open>Agent handles\<close>

definition handle_char :: "char \<Rightarrow> bool" where
  "handle_char c \<longleftrightarrow> CHR ''a'' \<le> c \<and> c \<le> CHR ''z'' \<or> is_digit c \<or> c = CHR ''_'' \<or> c = CHR ''-''"

text \<open>The regular expression \<^verbatim>\<open>^[a-z0-9_-]+$\<close>.\<close>

definition handleRe :: "string \<Rightarrow> bool" where
  "handleRe s \<longleftrightarrow> s \<noteq> [] \<and> list_all handle_char s"

definition validateLegacyInspectableHandle :: "string \<Rightarrow> goerr option" where
  "validateLegacyInspectableHandle agent =
     (if agent = [] \<or> trimSpace agent = [] then Some (Msg ''agent handle is empty'')
      else if contains agent ''..'' \<or> contains agent ''/''
        then Some (Msg ''agent handle contains path traversal'')
      else if \<not> handleRe agent then Some (Msg ''agent handle must match [a-z0-9_-]+'')
      else None)"

definition ValidateHandle :: "string \<Rightarrow> goerr option" where
  "ValidateHandle agent =
     (case validateLegacyInspectableHandle agent of
        Some e \<Rightarrow> Some e
      | None \<Rightarrow>
          (if hasPrefix agent ''-'' then Some (Msg ''agent handle must not start with -'') else None))"

section \<open>Mailbox leaves\<close>

datatype MailboxLeaf =
    MailboxInboxTmp | MailboxInboxNew | MailboxInboxCur | MailboxOutboxSent
  | MailboxDLQTmp | MailboxDLQNew | MailboxDLQCur | MailboxReceipts

fun leafPath :: "MailboxLeaf \<Rightarrow> path" where
  "leafPath MailboxInboxTmp = [''inbox'', ''tmp'']"
| "leafPath MailboxInboxNew = [''inbox'', ''new'']"
| "leafPath MailboxInboxCur = [''inbox'', ''cur'']"
| "leafPath MailboxOutboxSent = [''outbox'', ''sent'']"
| "leafPath MailboxDLQTmp = [''dlq'', ''tmp'']"
| "leafPath MailboxDLQNew = [''dlq'', ''new'']"
| "leafPath MailboxDLQCur = [''dlq'', ''cur'']"
| "leafPath MailboxReceipts = [''receipts'']"

definition requiredMailboxLeaves :: "MailboxLeaf list" where
  "requiredMailboxLeaves =
     [MailboxInboxTmp, MailboxInboxNew, MailboxInboxCur, MailboxOutboxSent,
      MailboxDLQTmp, MailboxDLQNew, MailboxDLQCur, MailboxReceipts]"

definition MailboxRootRelativePath :: "string \<Rightarrow> MailboxLeaf \<Rightarrow> path" where
  "MailboxRootRelativePath agent leaf = [''agents'', agent] @ leafPath leaf"

text \<open>The directories of an agent, relative to the queue root.\<close>

abbreviation inbox_tmp :: "string \<Rightarrow> path" where
  "inbox_tmp agent \<equiv> [''agents'', agent, ''inbox'', ''tmp'']"
abbreviation inbox_new :: "string \<Rightarrow> path" where
  "inbox_new agent \<equiv> [''agents'', agent, ''inbox'', ''new'']"
abbreviation inbox_cur :: "string \<Rightarrow> path" where
  "inbox_cur agent \<equiv> [''agents'', agent, ''inbox'', ''cur'']"
abbreviation dlq_tmp :: "string \<Rightarrow> path" where
  "dlq_tmp agent \<equiv> [''agents'', agent, ''dlq'', ''tmp'']"
abbreviation dlq_new :: "string \<Rightarrow> path" where
  "dlq_new agent \<equiv> [''agents'', agent, ''dlq'', ''new'']"
abbreviation dlq_cur :: "string \<Rightarrow> path" where
  "dlq_cur agent \<equiv> [''agents'', agent, ''dlq'', ''cur'']"

text \<open>A message in the boxes of an inbox.\<close>

abbreviation new_msg :: "string \<Rightarrow> string \<Rightarrow> path" where
  "new_msg agent filename \<equiv> [''agents'', agent, ''inbox'', ''new'', filename]"
abbreviation cur_msg :: "string \<Rightarrow> string \<Rightarrow> path" where
  "cur_msg agent filename \<equiv> [''agents'', agent, ''inbox'', ''cur'', filename]"

text \<open>An envelope in the boxes of the DLQ.\<close>

definition new_env :: "string \<Rightarrow> string \<Rightarrow> path" where
  "new_env agent filename = dlq_new agent @ [filename]"
definition cur_env :: "string \<Rightarrow> string \<Rightarrow> path" where
  "cur_env agent filename = dlq_cur agent @ [filename]"

section \<open>Attempt names\<close>

definition attemptTmpMatches :: "string \<Rightarrow> string \<Rightarrow> bool" where
  "attemptTmpMatches filename name \<longleftrightarrow>
     name = filename \<or> hasPrefix name (''.'' @ filename @ ''.tmp-'')"

section \<open>Facts about names\<close>

lemma valid_filename_no_dot:
  "ValidateMessageFilename filename = None \<Longrightarrow> \<not> hasPrefix filename ''.''"
  by (auto simp: ValidateMessageFilename_def split: if_splits)

lemma contains_single: "contains s [c] \<longleftrightarrow> c \<in> set s"
  by (auto simp: contains_def sublist_def in_set_conv_decomp)

lemma valid_filename_iff:
  "ValidateMessageFilename filename = None \<longleftrightarrow>
     \<not> hasPrefix filename ''.'' \<and> CHR ''/'' \<notin> set filename \<and> CHR 0x5C \<notin> set filename
     \<and> CHR 0x00 \<notin> set filename \<and> hasSuffix filename ''.md''"
proof -
  have "hasPrefix filename ''/'' \<Longrightarrow> CHR ''/'' \<in> set filename"
    by (auto simp: hasPrefix_def prefix_def)
  then show ?thesis
    by (auto simp: ValidateMessageFilename_def contains_single hasPrefix_def hasSuffix_def)
qed

lemma handle_char_plain: "handle_char c \<Longrightarrow> c \<noteq> CHR ''/'' \<and> c \<noteq> CHR ''.'' \<and> \<not> spaceByte c"
  by (auto simp: handle_char_def spaceByte_def is_digit_def less_eq_char_def)

lemma handle_chars_trim: "list_all handle_char s \<Longrightarrow> trimSpace s = s"
  by (rule trimSpace_plain) (auto simp: list_all_iff dest: handle_char_plain)

lemma sublist_set_subset: "sublist xs ys \<Longrightarrow> set xs \<subseteq> set ys"
  by (auto simp: sublist_def)

lemma validate_handle_iff:
  "ValidateHandle agent = None \<longleftrightarrow> handleRe agent \<and> \<not> hasPrefix agent ''-''"
proof -
  have "\<not> contains agent ''..'' \<and> \<not> contains agent ''/''" if "handleRe agent"
  proof -
    from that have "CHR ''.'' \<notin> set agent" and "CHR ''/'' \<notin> set agent"
      using handle_char_plain by (auto simp: handleRe_def list_all_iff)
    then show ?thesis using sublist_set_subset [of "''..''" agent]
      by (simp add: contains_single) (auto simp: contains_def)
  qed
  moreover have "trimSpace agent = agent" if "handleRe agent"
    using that by (simp add: handleRe_def handle_chars_trim)
  moreover have "agent \<noteq> []" if "handleRe agent"
    using that by (simp add: handleRe_def)
  ultimately show ?thesis
    by (cases "handleRe agent") (simp_all add: ValidateHandle_def validateLegacyInspectableHandle_def)
qed

lemma attempt_name_not_filename:
  "ValidateMessageFilename filename = None \<Longrightarrow> filename \<noteq> ''.'' @ s"
  by (auto simp: valid_filename_iff hasPrefix_def prefix_def)

end
