(* ===== verification/Delivery_Root.thy ===== *)
theory Delivery_Root
  imports Io_Logic Names
begin

text \<open>
  The pinned queue root (\<^verbatim>\<open>internal/fsq/delivery_root.go\<close>): an authorized directory
  capability with the identity it was opened with, and the file operations every other
  component uses. A root borrowed for a batch (\<^verbatim>\<open>WithPinnedBatch\<close>) carries a lease and is
  not checked against the lexical path again until the lease ends.
  Hooks that only tests set are left out.
\<close>

record droot =
  base :: string
  ident :: nat
  isopen :: bool
  lease :: "nat option"

text \<open>A root for examples, open on the directory 7.\<close>

definition root7 :: droot where
  "root7 = \<lparr>base = ''q'', ident = 7, isopen = True, lease = None\<rparr>"

definition displayPath :: "droot \<Rightarrow> path \<Rightarrow> path" where
  "displayPath r p = base r # p"

definition SnapshotDeliveryRoot :: "string \<Rightarrow> (goerr + nat) io" where
  "SnapshotDeliveryRoot b = on_err (sys_identity b) (\<lambda>e. fail (Wrap ''stat delivery root'' e)) ok"

definition OpenDeliveryRoot :: "string \<Rightarrow> nat option \<Rightarrow> (goerr + droot) io" where
  "OpenDeliveryRoot b expected =
     (case expected of
        None \<Rightarrow> fail (Msg ''missing authorized delivery root identity'')
      | Some want \<Rightarrow>
          on_err (sys_identity b) (\<lambda>e. fail (Wrap ''open delivery root'' e)) (\<lambda>got.
          on_err sys_noop (\<lambda>e. fail (Wrap ''stat delivery root'' e)) (\<lambda>_.
          if want \<noteq> got then fail (Wrap ''between authorization and capability open'' ErrDeliveryRootChanged)
          else ok \<lparr>base = b, ident = got, isopen = True, lease = None\<rparr>)))"

definition VerifyBase :: "droot \<Rightarrow> (goerr + unit) io" where
  "VerifyBase r =
     (if \<not> isopen r then fail (Msg ''delivery root is closed'')
      else case lease r of
        Some l \<Rightarrow> (\<lambda>w. (if leases w l then Inr () else Inl (Msg ''pinned delivery batch expired''), w))
      | None \<Rightarrow>
          on_err (sys_identity (base r)) (\<lambda>e. fail (Join ErrDeliveryRootChanged e)) (\<lambda>current.
          if ident r \<noteq> current then fail (Wrap ''re-run the command'' ErrDeliveryRootChanged) else ok ()))"

definition set_lease :: "nat \<Rightarrow> bool \<Rightarrow> unit io" where
  "set_lease l b w = ((), w\<lparr>leases := (leases w)(l := b)\<rparr>)"

definition new_lease :: "nat io" where
  "new_lease w = (next_lease w, w\<lparr>next_lease := Suc (next_lease w)\<rparr>)"

text \<open>The callback's own result is returned as it is; \<open>Inl\<close> means it did not run.\<close>

definition WithPinnedBatch :: "droot \<Rightarrow> (droot \<Rightarrow> 'a io) \<Rightarrow> (goerr + 'a) io" where
  "WithPinnedBatch r fn =
     guard (VerifyBase r) (\<lambda>_.
     bind new_lease (\<lambda>l.
     bind (set_lease l True) (\<lambda>_.
     bind (fn (r\<lparr>lease := Some l\<rparr>)) (\<lambda>x.
     bind (set_lease l False) (\<lambda>_.
     ok x)))))"

section \<open>Single operations\<close>

definition syncDir :: "path \<Rightarrow> (goerr + unit) io" where
  "syncDir dir =
     guard (sys_query (stat dir)) (\<lambda>_.
     bind sys_noop (\<lambda>syncErr.
     bind sys_noop (\<lambda>closeErr.
     case syncErr of
       Inl e \<Rightarrow> (if e = Sys EINVAL \<or> e = Sys ENOTSUP then ok () else fail e)
     | Inr _ \<Rightarrow> ret closeErr)))"

definition SyncDir :: "droot \<Rightarrow> path \<Rightarrow> (goerr + unit) io" where
  "SyncDir r name = guard (VerifyBase r) (\<lambda>_. syncDir name)"

definition writeAllAndSync :: "path \<Rightarrow> bytes \<Rightarrow> (goerr + unit) io" where
  "writeAllAndSync name d = guard (sys_write name d) (\<lambda>_. sys_noop)"

definition writeAndSync :: "path \<Rightarrow> bytes \<Rightarrow> (goerr + unit) io" where
  "writeAndSync name d =
     guard (sys_upd (create_excl name)) (\<lambda>_.
     bind (writeAllAndSync name d) (\<lambda>written.
     bind sys_noop (\<lambda>closed.
     case (case written of Inl e \<Rightarrow> Inl e | Inr _ \<Rightarrow> closed) of
       Inl e \<Rightarrow> bind (sys_upd (remove name)) (\<lambda>_. fail e)
     | Inr _ \<Rightarrow> ok ())))"

definition cleanupTemp :: "path \<Rightarrow> goerr \<Rightarrow> goerr io" where
  "cleanupTemp name primary =
     bind (sys_upd (remove name)) (\<lambda>r.
     case r of
       Inl e \<Rightarrow> ret (if osIsNotExist e then primary else WrapV ''cleanup'' primary e)
     | Inr _ \<Rightarrow> ret primary)"

definition dirExists :: "path \<Rightarrow> bool io" where
  "dirExists name = bind (sys_query (stat name)) (\<lambda>r. ret (case r of Inr (Dir _) \<Rightarrow> True | _ \<Rightarrow> False))"

definition CreateExclusiveFile :: "droot \<Rightarrow> path \<Rightarrow> bytes \<Rightarrow> (goerr + unit) io" where
  "CreateExclusiveFile r rel d =
     guard (VerifyBase r) (\<lambda>_.
     let dir = butlast rel in
     if dir \<noteq> [] then guard (mkdirAll dir 448) (\<lambda>_. writeAndSync rel d) else writeAndSync rel d)"

text \<open>Functions that can return a path and an error together return both.\<close>

definition WriteFileAtomic :: "droot \<Rightarrow> path \<Rightarrow> string \<Rightarrow> bytes \<Rightarrow> (path \<times> goerr option) io" where
  "WriteFileAtomic r dir filename d =
     on_err (VerifyBase r) (\<lambda>e. ret ([], Some e)) (\<lambda>_.
     on_err (mkdirAll dir 448) (\<lambda>e. ret ([], Some e)) (\<lambda>_.
     bind get_now (\<lambda>t.
     let tmpPath = dir @ [''.'' @ filename @ ''.tmp-'' @ nat_str t];
         finalPath = dir @ [filename] in
     on_err (writeAndSync tmpPath d) (\<lambda>e. ret ([], Some e)) (\<lambda>_.
     on_err (syncDir dir) (\<lambda>e. bind (cleanupTemp tmpPath e) (\<lambda>e'. ret ([], Some e'))) (\<lambda>_.
     on_err (sys_upd (rename tmpPath finalPath))
       (\<lambda>e. bind (cleanupTemp tmpPath e) (\<lambda>e'. ret ([], Some e'))) (\<lambda>_.
     let committedPath = displayPath r finalPath in
     on_err (syncDir dir) (\<lambda>e. ret (committedPath, Some (CommittedDurability committedPath [] e))) (\<lambda>_.
     ret (committedPath, None))))))))"

definition WriteFileExclusive :: "droot \<Rightarrow> path \<Rightarrow> string \<Rightarrow> bytes \<Rightarrow> (path \<times> goerr option) io" where
  "WriteFileExclusive r dir filename d =
     on_err (VerifyBase r) (\<lambda>e. ret ([], Some e)) (\<lambda>_.
     on_err (mkdirAll dir 448) (\<lambda>e. ret ([], Some e)) (\<lambda>_.
     let finalPath = dir @ [filename] in
     on_err (writeAndSync finalPath d) (\<lambda>e. ret ([], Some e)) (\<lambda>_.
     let committedPath = displayPath r finalPath in
     on_err (syncDir dir) (\<lambda>e. ret (committedPath, Some (CommittedDurability committedPath [] e))) (\<lambda>_.
     ret (committedPath, None)))))"

definition StatR :: "droot \<Rightarrow> path \<Rightarrow> (goerr + node) io" where
  "StatR r name = guard (VerifyBase r) (\<lambda>_. sys_query (stat name))"

definition RemoveR :: "droot \<Rightarrow> path \<Rightarrow> (goerr + unit) io" where
  "RemoveR r name = guard (VerifyBase r) (\<lambda>_. sys_upd (remove name))"

definition read_bytes :: "node \<Rightarrow> errno + bytes" where
  "read_bytes n = (case n of Reg c \<Rightarrow> Inr c | Dir _ \<Rightarrow> Inl EISDIR | _ \<Rightarrow> Inr [])"

definition ReadFileR :: "droot \<Rightarrow> path \<Rightarrow> (goerr + bytes) io" where
  "ReadFileR r name =
     guard (VerifyBase r) (\<lambda>_.
     sys_query (\<lambda>f. case stat name f of Inl e \<Rightarrow> Inl e | Inr n \<Rightarrow> read_bytes n))"

definition ReadDirR :: "droot \<Rightarrow> path \<Rightarrow> (goerr + (string \<times> node) list) io" where
  "ReadDirR r name =
     guard (VerifyBase r) (\<lambda>_.
     guard (sys_query (stat name)) (\<lambda>_.
     sys_query (readdir name)))"

definition validateRegularNoFollowFile :: "node \<Rightarrow> goerr option" where
  "validateRegularNoFollowFile n =
     (if isSymlink n then Some (Msg ''queue artifact must not be a symlink'')
      else if \<not> isRegular n then Some (Msg ''queue artifact must be a regular file'')
      else None)"

text \<open>The opened file, by its node; the comparison of the two nodes stands for \<^verbatim>\<open>os.SameFile\<close>.\<close>

definition OpenRegularNoFollow :: "droot \<Rightarrow> path \<Rightarrow> (goerr + node) io" where
  "OpenRegularNoFollow r name =
     guard (VerifyBase r) (\<lambda>_.
     guard (sys_query (lstat name)) (\<lambda>info.
     case validateRegularNoFollowFile info of Some e \<Rightarrow> fail e | None \<Rightarrow>
     guard (sys_query (lstat name)) (\<lambda>after.
     guard sys_noop (\<lambda>_.
     case validateRegularNoFollowFile after of Some e \<Rightarrow> fail e | None \<Rightarrow>
     if info \<noteq> after then fail (Msg ''queue artifact changed while opening'') else ok after))))"

definition ReadRegularNoFollow :: "droot \<Rightarrow> path \<Rightarrow> (goerr + bytes) io" where
  "ReadRegularNoFollow r name =
     guard (OpenRegularNoFollow r name) (\<lambda>n. sys_query (\<lambda>f. read_bytes n))"

definition renameNoReplace :: "path \<Rightarrow> path \<Rightarrow> (goerr + unit) io" where
  "renameNoReplace p q =
     guard (sys_query (stat (butlast p))) (\<lambda>_.
     guard (sys_query (stat (butlast q))) (\<lambda>_.
     sys_upd (rename_noreplace p q)))"

section \<open>Layout operations\<close>

fun mkdir_each :: "path list \<Rightarrow> (goerr + unit) io" where
  "mkdir_each [] = ok ()"
| "mkdir_each (d # ds) = guard (mkdirAll d 448) (\<lambda>_. mkdir_each ds)"

definition EnsureRootDirs :: "droot \<Rightarrow> (goerr + unit) io" where
  "EnsureRootDirs r = guard (VerifyBase r) (\<lambda>_. mkdir_each [[''agents''], [''threads''], [''meta'']])"

definition EnsureAgentDirs :: "droot \<Rightarrow> string \<Rightarrow> (goerr + unit) io" where
  "EnsureAgentDirs r agent =
     (case ValidateHandle agent of Some e \<Rightarrow> fail e | None \<Rightarrow>
      guard (VerifyBase r) (\<lambda>_.
      mkdir_each (map (MailboxRootRelativePath agent) requiredMailboxLeaves)))"

datatype LayoutState = LayoutInitialized | LayoutEmpty | LayoutForeign

fun classify_entries :: "(string \<times> node) list \<Rightarrow> goerr + LayoutState" where
  "classify_entries [] = Inr LayoutForeign"
| "classify_entries ((name, n) # es) =
     (if name \<noteq> ''agents'' then classify_entries es
      else if isSymlink n \<or> \<not> isDir n then Inl (Msg ''agents entry is not a real directory'')
      else Inr LayoutInitialized)"

definition ClassifyLayout :: "droot \<Rightarrow> (goerr + LayoutState) io" where
  "ClassifyLayout r =
     guard (ReadDirR r []) (\<lambda>entries.
     if entries = [] then ok LayoutEmpty else ret (classify_entries entries))"

section \<open>The envelope lock\<close>

definition lock_path :: "string \<Rightarrow> string \<Rightarrow> path" where
  "lock_path agent filename = [''agents'', agent, ''dlq'', ''locks'', filename @ ''.lock'']"

definition withExclusiveDLQEnvelopeLock :: "(goerr + 'a) io \<Rightarrow> (goerr + 'a) io" where
  "withExclusiveDLQEnvelopeLock fn =
     on_err sys_noop (\<lambda>e. fail (Wrap ''acquire DLQ envelope lock'' e)) (\<lambda>_.
     bind fn (\<lambda>x.
     bind sys_noop (\<lambda>_. ret x)))"

text \<open>The callback's own result is in the inner \<open>'a\<close>; \<open>Inl\<close> means it did not run.\<close>

definition WithDLQEnvelopeLock :: "droot \<Rightarrow> string \<Rightarrow> string \<Rightarrow> (droot \<Rightarrow> 'a io) \<Rightarrow> (goerr + 'a) io" where
  "WithDLQEnvelopeLock r agent filename fn =
     (case ValidateHandle agent of Some e \<Rightarrow> fail e | None \<Rightarrow>
      case ValidateMessageFilename filename of Some e \<Rightarrow> fail e | None \<Rightarrow>
      bind (WithPinnedBatch r (\<lambda>batch.
        on_err (mkdirAll [''agents'', agent, ''dlq'', ''locks''] 448)
          (\<lambda>e. fail (Wrap ''prepare DLQ envelope lock directory'' e)) (\<lambda>_.
        on_err (sys_upd (open_create (lock_path agent filename)))
          (\<lambda>e. fail (Wrap ''open DLQ envelope lock'' e)) (\<lambda>_.
        bind (withExclusiveDLQEnvelopeLock (guard (VerifyBase r) (\<lambda>_. bind (fn batch) ok))) (\<lambda>x.
        bind sys_noop (\<lambda>_. ret x))))))
      (\<lambda>x. ret (case x of Inl e \<Rightarrow> Inl e | Inr y \<Rightarrow> y)))"

lemmas [go_defs] = displayPath_def SnapshotDeliveryRoot_def OpenDeliveryRoot_def VerifyBase_def
  set_lease_def new_lease_def WithPinnedBatch_def syncDir_def SyncDir_def writeAllAndSync_def
  writeAndSync_def cleanupTemp_def dirExists_def CreateExclusiveFile_def WriteFileAtomic_def
  WriteFileExclusive_def StatR_def RemoveR_def read_bytes_def ReadFileR_def ReadDirR_def
  validateRegularNoFollowFile_def OpenRegularNoFollow_def ReadRegularNoFollow_def
  renameNoReplace_def EnsureRootDirs_def EnsureAgentDirs_def ClassifyLayout_def lock_path_def
  withExclusiveDLQEnvelopeLock_def WithDLQEnvelopeLock_def

section \<open>Operations that leave the tree alone\<close>

lemma keeps_VerifyBase [stable_rules]: "keeps P (VerifyBase r)"
proof (cases "lease r")
  case None
  then show ?thesis unfolding VerifyBase_def by (auto intro!: stable_rules)
next
  case (Some l)
  then show ?thesis by (auto simp: VerifyBase_def keeps_def triple_def fail_def ret_def)
qed

lemma keeps_set_lease [stable_rules]: "keeps P (set_lease l b)"
  by (simp add: keeps_def triple_def set_lease_def)

lemma keeps_new_lease [stable_rules]: "keeps P new_lease"
  by (simp add: keeps_def triple_def new_lease_def)

lemma keeps_WithPinnedBatch [stable_rules]:
  "(\<And>r'. keeps P (fn r')) \<Longrightarrow> keeps P (WithPinnedBatch r fn)"
  unfolding WithPinnedBatch_def by (intro stable_rules)

lemma keeps_syncDir [stable_rules]: "keeps P (syncDir d)"
  unfolding syncDir_def by (intro stable_rules)

lemma keeps_SyncDir [stable_rules]: "keeps P (SyncDir r d)"
  unfolding SyncDir_def by (intro stable_rules)

lemma keeps_dirExists [stable_rules]: "keeps P (dirExists d)"
  unfolding dirExists_def by (intro stable_rules)

lemma keeps_StatR [stable_rules]: "keeps P (StatR r p)"
  unfolding StatR_def by (intro stable_rules)

lemma keeps_ReadFileR [stable_rules]: "keeps P (ReadFileR r p)"
  unfolding ReadFileR_def by (intro stable_rules)

lemma keeps_ReadDirR [stable_rules]: "keeps P (ReadDirR r p)"
  unfolding ReadDirR_def by (intro stable_rules)

lemma keeps_OpenRegularNoFollow [stable_rules]: "keeps P (OpenRegularNoFollow r p)"
  unfolding OpenRegularNoFollow_def by (intro stable_rules)

lemma keeps_ReadRegularNoFollow [stable_rules]: "keeps P (ReadRegularNoFollow r p)"
  unfolding ReadRegularNoFollow_def by (intro stable_rules)

lemma keeps_SnapshotDeliveryRoot [stable_rules]: "keeps P (SnapshotDeliveryRoot b)"
  unfolding SnapshotDeliveryRoot_def by (intro stable_rules)

lemma keeps_OpenDeliveryRoot [stable_rules]: "keeps P (OpenDeliveryRoot b e)"
  unfolding OpenDeliveryRoot_def by (intro stable_rules)

section \<open>The errors of single operations\<close>

lemma errs_syncDir: "(\<And>e. P (Sys e)) \<Longrightarrow> errs P (syncDir d)"
  by (auto simp: errs_def syncDir_def on_err_def bind_def fail_def ok_def ret_def sys_noop_def sys_query_def
      sys_def Let_def split: prod.splits sum.splits option.splits if_splits)

lemma errs_writeAndSync: "(\<And>e. P (Sys e)) \<Longrightarrow> errs P (writeAndSync p d)"
  by (auto simp: errs_def writeAndSync_def writeAllAndSync_def on_err_def bind_def fail_def ok_def ret_def
      sys_noop_def sys_query_def sys_upd_def sys_write_def sys_def Let_def
      split: prod.splits sum.splits option.splits if_splits)

lemma errs_VerifyBase:
  "(\<And>s. P (Msg s)) \<Longrightarrow> (\<And>e. P (Join ErrDeliveryRootChanged (Sys e))) \<Longrightarrow>
   (\<And>s. P (Wrap s ErrDeliveryRootChanged)) \<Longrightarrow> errs P (VerifyBase r)"
  by (auto simp: errs_def VerifyBase_def on_err_def fail_def ok_def ret_def sys_identity_def Let_def
      split: prod.splits sum.splits option.splits if_splits)

section \<open>What the writing operations do to the tree\<close>

lemma writeAllAndSync_spec:
  "triple (\<lambda>f. \<exists>c. map_of f = g(p \<mapsto> Reg c)) (writeAllAndSync p d)
     (\<lambda>x f. case x of Inl _ \<Rightarrow> \<exists>c. map_of f = g(p \<mapsto> Reg c) | Inr _ \<Rightarrow> map_of f = g(p \<mapsto> Reg d))"
  unfolding writeAllAndSync_def
  by (rule triple_on_err [where R = "\<lambda>x f. case x of Inl _ \<Rightarrow> \<exists>c. map_of f = g(p \<mapsto> Reg c)
        | Inr _ \<Rightarrow> map_of f = g(p \<mapsto> Reg d)"])
     (auto intro!: triple_sys_write triple_fail simp: sys_noop_def intro!: triple_sys_query)

text \<open>A new file appears whole or the caller is told; the name was free before.\<close>

lemma writeAndSync_spec:
  "triple (\<lambda>f. map_of f = g) (writeAndSync p d)
     (\<lambda>x f. case x of
        Inl _ \<Rightarrow> map_of f = g \<or> g p = None \<and> (\<exists>c. map_of f = g(p \<mapsto> Reg c))
      | Inr _ \<Rightarrow> g p = None \<and> map_of f = g(p \<mapsto> Reg d))"
  (is "triple _ _ ?Q")
  unfolding writeAndSync_def
proof (rule triple_on_err [where R = "\<lambda>x f. case x of Inl _ \<Rightarrow> map_of f = g
    | Inr _ \<Rightarrow> g p = None \<and> (\<exists>c. map_of f = g(p \<mapsto> Reg c))"])
  show "triple (\<lambda>f. map_of f = g) (sys_upd (create_excl p))
     (\<lambda>x f. case x of Inl _ \<Rightarrow> map_of f = g | Inr _ \<Rightarrow> g p = None \<and> (\<exists>c. map_of f = g(p \<mapsto> Reg c)))"
    by (rule triple_sys_upd) (auto dest!: create_excl_cases simp: node_at_def split: if_splits)
next
  show "triple (\<lambda>f. case Inl e of Inl _ \<Rightarrow> map_of f = g | Inr _ \<Rightarrow> g p = None \<and> (\<exists>c. map_of f = g(p \<mapsto> Reg c)))
     (fail e) ?Q" for e :: goerr
    by (rule triple_fail) simp
next
  fix u :: unit
  let ?W = "\<lambda>x f. g p = None \<and> (case x of Inl _ \<Rightarrow> \<exists>c. map_of f = g(p \<mapsto> Reg c) | Inr _ \<Rightarrow> map_of f = g(p \<mapsto> Reg d))"
  have W: "triple (\<lambda>f. g p = None \<and> (\<exists>c. map_of f = g(p \<mapsto> Reg c))) (writeAllAndSync p d) ?W"
    by (rule triple_pure, rule triple_post [OF writeAllAndSync_spec]) simp
  have undo: "triple (\<lambda>f. g p = None \<and> (\<exists>c. map_of f = g(p \<mapsto> Reg c)))
      (bind (sys_upd (remove p)) (\<lambda>_. fail e)) ?Q" for e
    by (rule triple_bind [where R = "\<lambda>x f. map_of f = g \<or> g p = None \<and> (\<exists>c. map_of f = g(p \<mapsto> Reg c))"])
       (auto intro!: triple_sys_upd triple_fail dest!: remove_cases)
  show "triple (\<lambda>f. case Inr u of Inl _ \<Rightarrow> map_of f = g | Inr _ \<Rightarrow> g p = None \<and> (\<exists>c. map_of f = g(p \<mapsto> Reg c)))
     (bind (writeAllAndSync p d) (\<lambda>written. bind sys_noop (\<lambda>closed.
       case (case written of Inl e \<Rightarrow> Inl e | Inr _ \<Rightarrow> closed) of
         Inl e \<Rightarrow> bind (sys_upd (remove p)) (\<lambda>_. fail e) | Inr _ \<Rightarrow> ok ()))) ?Q"
  proof (simp only: sum.case, rule triple_bind [OF W])
    fix written :: "goerr + unit"
    show "triple (?W written) (bind sys_noop (\<lambda>closed.
       case (case written of Inl e \<Rightarrow> Inl e | Inr _ \<Rightarrow> closed) of
         Inl e \<Rightarrow> bind (sys_upd (remove p)) (\<lambda>_. fail e) | Inr _ \<Rightarrow> ok ())) ?Q"
    proof (rule triple_bind [OF keeps_triple [OF keeps_sys_noop]])
      fix closed :: "goerr + unit"
      show "triple (?W written) (case (case written of Inl e \<Rightarrow> Inl e | Inr _ \<Rightarrow> closed) of
         Inl e \<Rightarrow> bind (sys_upd (remove p)) (\<lambda>_. fail e) | Inr _ \<Rightarrow> ok ()) ?Q"
        by (cases written; cases closed) (auto intro!: triple_pre [OF undo] triple_ok)
    qed
  qed
qed

lemma sys_remove_spec:
  "triple (\<lambda>f. map_of f = g) (sys_upd (remove p))
     (\<lambda>x f. case x of Inl _ \<Rightarrow> map_of f = g | Inr _ \<Rightarrow> map_of f = g(p := None))"
  by (rule triple_sys_upd) (auto dest!: remove_cases)

lemma cleanupTemp_spec:
  "triple (\<lambda>f. map_of f = g) (cleanupTemp p e) (\<lambda>_ f. map_of f = g \<or> map_of f = g(p := None))"
  unfolding cleanupTemp_def
  by (rule triple_bind [OF sys_remove_spec]) (auto intro!: triple_ret split: sum.splits)

text \<open>Publishing a regular file: either nothing changed, or the destination was free and has it.\<close>

lemma renameNoReplace_spec:
  assumes "g p = Some (Reg c)"
  shows "triple (\<lambda>f. map_of f = g) (renameNoReplace p q)
     (\<lambda>x f. case x of Inl _ \<Rightarrow> map_of f = g | Inr _ \<Rightarrow> g q = None \<and> map_of f = g(p := None, q \<mapsto> Reg c))"
proof -
  have main: "triple (\<lambda>f. map_of f = g) (sys_upd (rename_noreplace p q))
     (\<lambda>x f. case x of Inl _ \<Rightarrow> map_of f = g | Inr _ \<Rightarrow> g q = None \<and> map_of f = g(p := None, q \<mapsto> Reg c))"
    using assms by (auto intro!: triple_sys_upd elim!: rename_noreplace_cases simp: map_of_move_file)
  show ?thesis
    unfolding renameNoReplace_def
    by (rule triple_on_err [where R = "\<lambda>_ f. map_of f = g"],
        rule triple_sys_query, simp, simp, rule triple_fail, simp,
        rule triple_on_err [where R = "\<lambda>_ f. map_of f = g"],
        rule triple_sys_query, simp, simp, rule triple_fail, simp, rule main)
qed

text \<open>What a read returned was there, and the tree is as before.\<close>

lemma OpenRegularNoFollow_spec:
  "triple (\<lambda>f. map_of f = g) (OpenRegularNoFollow r p)
     (\<lambda>x f. map_of f = g \<and> (\<forall>n. x = Inr n \<longrightarrow> isRegular n \<and> g p = Some n))"
proof -
  have query: "triple (\<lambda>f. map_of f = g) (sys_query (lstat p))
      (\<lambda>x f. map_of f = g \<and> (\<forall>n. x = Inr n \<longrightarrow> (p = [] \<and> n = Dir 448) \<or> g p = Some n))"
    by (rule triple_sys_query) (auto simp: lstat_def node_at_def split: option.splits if_splits)
  show ?thesis
    unfolding OpenRegularNoFollow_def
    apply (rule triple_on_err [OF keeps_triple [OF keeps_VerifyBase]])
     apply (rule triple_fail, simp)
    apply (rule triple_on_err [OF query])
     apply (rule triple_fail, simp)
    apply (simp add: validateRegularNoFollowFile_def split: option.splits)
    apply (intro conjI impI; (rule triple_fail, simp)?)
    apply (rule triple_on_err [OF triple_pre [OF query]], simp)
     apply (rule triple_fail, simp)
    apply (rule triple_on_err [OF keeps_triple [OF keeps_sys_noop]])
     apply (rule triple_fail, simp)
    apply (auto intro!: triple_fail triple_ok)
    done
qed

lemma ReadRegularNoFollow_spec:
  "triple (\<lambda>f. map_of f = g) (ReadRegularNoFollow r p)
     (\<lambda>x f. map_of f = g \<and> (\<forall>c. x = Inr c \<longrightarrow> g p = Some (Reg c)))"
  unfolding ReadRegularNoFollow_def
  by (rule triple_on_err [OF OpenRegularNoFollow_spec])
     (auto intro!: triple_fail triple_sys_query simp: read_bytes_def split: node.splits)

end
