(* ===== verification/Maildir.thy ===== *)
theory Maildir
  imports Delivery_Root
begin

text \<open>
  Maildir delivery (\<^verbatim>\<open>internal/fsq/maildir.go\<close>): every recipient's copy is staged under a
  unique name in \<^verbatim>\<open>inbox/tmp\<close>, then published one by one into \<^verbatim>\<open>inbox/new\<close> with a rename
  that never replaces. The theorems hold for every fault schedule.
\<close>

section \<open>Model\<close>

record stagedDelivery =
  recipient :: string
  tmpDir :: path
  newDir :: path
  tmpPath :: path
  newPath :: path

definition uniqueAttemptTmpName :: "string \<Rightarrow> (goerr + string) io" where
  "uniqueAttemptTmpName filename =
     on_err (read_random 6) (\<lambda>e. fail (Wrap ''generate unique tmp name'' e)) (\<lambda>b.
     bind get_now (\<lambda>t.
     bind get_pid (\<lambda>p.
     ok (''.'' @ filename @ ''.tmp-'' @ nat_str t @ ''-'' @ nat_str p @ ''-'' @ hex_str b))))"

definition uniqueAttemptTmpPath :: "path \<Rightarrow> string \<Rightarrow> (goerr + path) io" where
  "uniqueAttemptTmpPath dir filename = guard (uniqueAttemptTmpName filename) (\<lambda>name. ok (dir @ [name]))"

definition resolvePublishCollision :: "droot \<Rightarrow> path \<Rightarrow> path \<Rightarrow> bytes \<Rightarrow> goerr \<Rightarrow> (goerr + unit) io" where
  "resolvePublishCollision r tp np d renameErr =
     on_err (ReadRegularNoFollow r np) (\<lambda>e. fail (WrapV ''inspect dest'' renameErr e)) (\<lambda>existing.
     if existing = d then
       bind (sys_upd (remove tp)) (\<lambda>x.
       case x of
         Inl e \<Rightarrow> (if osIsNotExist e then ok () else fail (Wrap ''remove idempotent tmp after collision'' e))
       | Inr _ \<Rightarrow> ok ())
     else fail renameErr)"

definition publishTmpNoReplace :: "droot \<Rightarrow> path \<Rightarrow> path \<Rightarrow> bytes \<Rightarrow> (goerr + unit) io" where
  "publishTmpNoReplace r tp np d =
     on_err (renameNoReplace tp np)
       (\<lambda>e. if isErrExist e then resolvePublishCollision r tp np d e else bind (cleanupTemp tp e) fail)
       ok"

definition joinErr :: "goerr option \<Rightarrow> goerr \<Rightarrow> goerr" where
  "joinErr acc e = (case acc of None \<Rightarrow> Wrap [] e | Some a \<Rightarrow> Join a e)"

fun cleanupTmpStages :: "goerr option \<Rightarrow> stagedDelivery list \<Rightarrow> goerr option io" where
  "cleanupTmpStages acc [] = ret acc"
| "cleanupTmpStages acc (s # ss) =
     bind (sys_upd (remove (tmpPath s))) (\<lambda>x.
     let acc1 = (case x of
                   Inl e \<Rightarrow> (if osIsNotExist e then acc else Some (joinErr acc (Wrap ''cleanup tmp'' e)))
                 | Inr _ \<Rightarrow> acc) in
     bind (syncDir (tmpDir s)) (\<lambda>y.
     cleanupTmpStages
       (case y of Inl e \<Rightarrow> Some (joinErr acc1 (Wrap ''sync tmp dir'' e)) | Inr _ \<Rightarrow> acc1) ss))"

definition cleanupStagedTmp :: "stagedDelivery list \<Rightarrow> goerr \<Rightarrow> goerr io" where
  "cleanupStagedTmp stages primary =
     bind (cleanupTmpStages None stages) (\<lambda>c.
     ret (case c of None \<Rightarrow> primary | Some e \<Rightarrow> WrapV ''cleanup'' primary e))"

definition delivered_map :: "droot \<Rightarrow> stagedDelivery list \<Rightarrow> (string \<times> path) list" where
  "delivered_map r stages = map (\<lambda>s. (recipient s, displayPath r (newPath s))) stages"

definition partialDeliveryError ::
    "droot \<Rightarrow> stagedDelivery list \<Rightarrow> stagedDelivery \<Rightarrow> stagedDelivery list \<Rightarrow> goerr \<Rightarrow> goerr io" where
  "partialDeliveryError r committed failed pending primary =
     (let undelivered = (if isErrExist primary then pending else failed # pending) in
      bind (cleanupTmpStages None undelivered) (\<lambda>c.
      ret (PartialDelivery (delivered_map r committed) (recipient failed) (map recipient pending)
             (case c of None \<Rightarrow> primary | Some e \<Rightarrow> WrapV ''cleanup'' primary e))))"

definition committedDeliveryError ::
    "droot \<Rightarrow> stagedDelivery list \<Rightarrow> stagedDelivery list \<Rightarrow> goerr \<Rightarrow> goerr io" where
  "committedDeliveryError r committed pending primary =
     bind (cleanupTmpStages None pending) (\<lambda>c.
     ret (PartialDelivery (delivered_map r committed) [] (map recipient pending)
            (case c of None \<Rightarrow> primary | Some e \<Rightarrow> WrapV ''cleanup'' primary e)))"

definition mk_stage :: "string \<Rightarrow> string \<Rightarrow> path \<Rightarrow> stagedDelivery" where
  "mk_stage rcp filename tp =
     \<lparr>recipient = rcp, tmpDir = inbox_tmp rcp, newDir = inbox_new rcp, tmpPath = tp,
      newPath = inbox_new rcp @ [filename]\<rparr>"

text \<open>The first loop of \<^verbatim>\<open>DeliverToInboxes\<close>: stage a copy for every recipient.\<close>

fun stageAll :: "string \<Rightarrow> bytes \<Rightarrow> stagedDelivery list \<Rightarrow> string list \<Rightarrow> (goerr + stagedDelivery list) io" where
  "stageAll filename d stages [] = ok stages"
| "stageAll filename d stages (rcp # rcps) =
     on_err (mkdirAll (inbox_tmp rcp) 448) (\<lambda>e. bind (cleanupStagedTmp stages e) fail) (\<lambda>_.
     on_err (mkdirAll (inbox_new rcp) 448) (\<lambda>e. bind (cleanupStagedTmp stages e) fail) (\<lambda>_.
     on_err (uniqueAttemptTmpPath (inbox_tmp rcp) filename)
       (\<lambda>e. bind (cleanupStagedTmp stages e) fail) (\<lambda>tp.
     on_err (writeAndSync tp d) (\<lambda>e. bind (cleanupStagedTmp stages e) fail) (\<lambda>_.
     on_err (syncDir (inbox_tmp rcp))
       (\<lambda>e. bind (cleanupTemp tp e) (\<lambda>e'. bind (cleanupStagedTmp stages e') fail)) (\<lambda>_.
     stageAll filename d (stages @ [mk_stage rcp filename tp]) rcps)))))"

text \<open>The second loop: publish the staged copies in order.\<close>

fun commitAll :: "droot \<Rightarrow> bytes \<Rightarrow> stagedDelivery list \<Rightarrow> stagedDelivery list \<Rightarrow> (goerr + unit) io" where
  "commitAll r d committed [] = ok ()"
| "commitAll r d committed (s # rest) =
     on_err (publishTmpNoReplace r (tmpPath s) (newPath s) d)
       (\<lambda>e. bind (partialDeliveryError r committed s rest (Wrap ''rename tmp->new'' e)) fail) (\<lambda>_.
     on_err (syncDir (newDir s))
       (\<lambda>e. bind (committedDeliveryError r (committed @ [s]) rest
                    (CommittedDurability (displayPath r (newPath s)) (recipient s) (Wrap ''sync new dir'' e)))
                 fail) (\<lambda>_.
     bind (syncDir (tmpDir s)) (\<lambda>_.
     commitAll r d (committed @ [s]) rest)))"

fun first_invalid :: "string list \<Rightarrow> goerr option" where
  "first_invalid [] = None"
| "first_invalid (h # hs) = (case ValidateHandle h of Some e \<Rightarrow> Some e | None \<Rightarrow> first_invalid hs)"

definition DeliverToInboxes ::
    "droot \<Rightarrow> string list \<Rightarrow> string \<Rightarrow> bytes \<Rightarrow> (goerr + (string \<times> path) list) io" where
  "DeliverToInboxes r recipients filename d =
     (if recipients = [] then fail (Msg ''no recipients provided'')
      else case ValidateMessageFilename filename of Some e \<Rightarrow> fail e | None \<Rightarrow>
      case first_invalid recipients of Some e \<Rightarrow> fail e | None \<Rightarrow>
      guard (VerifyBase r) (\<lambda>_.
      guard (stageAll filename d [] recipients) (\<lambda>stages.
      guard (commitAll r d [] stages) (\<lambda>_.
      ok (delivered_map r stages)))))"

definition DeliverToInbox :: "droot \<Rightarrow> string \<Rightarrow> string \<Rightarrow> bytes \<Rightarrow> (goerr + path) io" where
  "DeliverToInbox r agent filename d =
     guard (DeliverToInboxes r [agent] filename d) (\<lambda>paths.
     ok (case map_of paths agent of None \<Rightarrow> [] | Some p \<Rightarrow> p))"

lemmas [go_defs] = uniqueAttemptTmpName_def uniqueAttemptTmpPath_def resolvePublishCollision_def
  publishTmpNoReplace_def joinErr_def cleanupStagedTmp_def delivered_map_def partialDeliveryError_def
  committedDeliveryError_def mk_stage_def DeliverToInboxes_def DeliverToInbox_def

section \<open>The delivery invariant\<close>

text \<open>A name a delivery attempt of \<open>filename\<close> may use in some agent's \<^verbatim>\<open>inbox/tmp\<close>.\<close>

definition attempt_tmp :: "string \<Rightarrow> path \<Rightarrow> bool" where
  "attempt_tmp filename p \<longleftrightarrow>
     (\<exists>rcp name. p = inbox_tmp rcp @ [name] \<and> hasPrefix name (''.'' @ filename @ ''.tmp-''))"

text \<open>
  The tree \<open>g\<close> differs from \<open>g0\<close> by a delivery of \<open>d\<close> to the recipients \<open>rcps\<close>: every
  node of \<open>g0\<close> is still there unchanged; every other node is a directory, an attempt in
  \<^verbatim>\<open>inbox/tmp\<close>, or the complete message in \<^verbatim>\<open>inbox/new\<close> of one of the recipients.
\<close>

definition delivery_node :: "string \<Rightarrow> bytes \<Rightarrow> string list \<Rightarrow> path \<Rightarrow> node option \<Rightarrow> node option \<Rightarrow> bool" where
  "delivery_node filename d rcps p x y \<longleftrightarrow>
     (case x of
        Some n \<Rightarrow> y = Some n
      | None \<Rightarrow>
          (case y of
             None \<Rightarrow> True
           | Some (Dir m) \<Rightarrow> m = 448 \<and> length p \<le> 4
           | Some (Reg c) \<Rightarrow> attempt_tmp filename p \<or> c = d \<and> (\<exists>rcp \<in> set rcps. p = inbox_new rcp @ [filename])
           | Some _ \<Rightarrow> False))"

definition delivered_only :: "tree \<Rightarrow> string \<Rightarrow> bytes \<Rightarrow> string list \<Rightarrow> tree \<Rightarrow> bool" where
  "delivered_only g0 filename d rcps g \<longleftrightarrow> pointwise (delivery_node filename d rcps) g0 g"

definition stage_ok :: "string \<Rightarrow> stagedDelivery \<Rightarrow> bool" where
  "stage_ok filename s \<longleftrightarrow> s = mk_stage (recipient s) filename (tmpPath s) \<and> attempt_tmp filename (tmpPath s)"

text \<open>All of \<open>stages\<close> are staged and whole, under names of their own.\<close>

definition staged :: "tree \<Rightarrow> string \<Rightarrow> bytes \<Rightarrow> string list \<Rightarrow> stagedDelivery list \<Rightarrow> tree \<Rightarrow> bool" where
  "staged g0 filename d rcps stages g \<longleftrightarrow>
     delivered_only g0 filename d rcps g \<and> distinct (map tmpPath stages) \<and>
     (\<forall>s \<in> set stages. stage_ok filename s \<and> g0 (tmpPath s) = None \<and> g (tmpPath s) = Some (Reg d))"

interpretation dlv: node_policy "delivery_node fn d rcps" "\<lambda>p. length p \<le> 4" for fn d rcps
  by unfold_locales (auto simp: delivery_node_def split: option.splits node.splits)

lemma delivered_only_refl: "delivered_only g filename d rcps g"
  by (simp add: delivered_only_def dlv.refl)

lemma delivered_only_old: "delivered_only g0 fn d rcps g \<Longrightarrow> g0 p = Some n \<Longrightarrow> g p = Some n"
  unfolding delivered_only_def by (drule pointwiseD [of _ _ _ p]) (simp add: delivery_node_def)

lemma delivered_only_free: "delivered_only g0 fn d rcps g \<Longrightarrow> g p = None \<Longrightarrow> g0 p = None"
  by (cases "g0 p") (auto dest: delivered_only_old)

lemma delivered_only_mono:
  "delivered_only g0 fn d rcps g \<Longrightarrow> set rcps \<subseteq> set rcps' \<Longrightarrow> delivered_only g0 fn d rcps' g"
  unfolding delivered_only_def
  by (erule pointwise_mono) (auto simp: delivery_node_def split: option.splits node.splits)

lemma delivered_only_put_attempt:
  "delivered_only g0 fn d rcps g \<Longrightarrow> g0 p = None \<Longrightarrow> attempt_tmp fn p \<Longrightarrow>
   delivered_only g0 fn d rcps (g(p \<mapsto> Reg c))"
  unfolding delivered_only_def by (erule pointwise_upd) (simp add: delivery_node_def)

lemma delivered_only_drop:
  "delivered_only g0 fn d rcps g \<Longrightarrow> g0 p = None \<Longrightarrow> delivered_only g0 fn d rcps (g(p := None))"
  unfolding delivered_only_def by (erule pointwise_upd) (simp add: delivery_node_def)

lemma delivered_only_put_final:
  "delivered_only g0 fn d rcps g \<Longrightarrow> g0 p = None \<Longrightarrow> rcp \<in> set rcps \<Longrightarrow> p = inbox_new rcp @ [fn] \<Longrightarrow>
   delivered_only g0 fn d rcps (g(p \<mapsto> Reg d))"
  unfolding delivered_only_def by (erule pointwise_upd) (auto simp: delivery_node_def)

interpretation stg: tree_inv "staged g0 fn d rcps stages" "\<lambda>p. length p \<le> 4" for g0 fn d rcps stages
  by unfold_locales (auto simp: staged_def delivered_only_def intro: dlv.mkdir_policy)

lemma stagedD: "staged g0 fn d rcps stages g \<Longrightarrow> delivered_only g0 fn d rcps g"
  by (simp add: staged_def)

lemma attempt_new_disjoint: "attempt_tmp fn p \<Longrightarrow> p \<noteq> inbox_new rcp @ [x]"
  by (auto simp: attempt_tmp_def)

lemma stage_okD: "stage_ok fn s \<Longrightarrow> newPath s = inbox_new (recipient s) @ [fn] \<and> tmpDir s = inbox_tmp (recipient s)
   \<and> newDir s = inbox_new (recipient s) \<and> attempt_tmp fn (tmpPath s)"
  by (cases s) (auto simp: stage_ok_def mk_stage_def)

text \<open>Staging one more copy.\<close>

lemma staged_snoc:
  assumes "staged g0 fn d rcps stages g" and "g (tmpPath s) = None" and "stage_ok fn s"
  shows "staged g0 fn d rcps (stages @ [s]) (g(tmpPath s \<mapsto> Reg d))"
proof -
  from assms have g: "delivered_only g0 fn d rcps g" and a: "attempt_tmp fn (tmpPath s)"
    by (simp_all add: staged_def stage_okD)
  from g assms(2) have free: "g0 (tmpPath s) = None" by (rule delivered_only_free)
  have "delivered_only g0 fn d rcps (g(tmpPath s \<mapsto> Reg d))"
    using g free a by (rule delivered_only_put_attempt)
  moreover have "tmpPath s \<notin> tmpPath ` set stages"
    using assms(1,2) by (auto simp: staged_def)
  ultimately show ?thesis using assms free by (auto simp: staged_def)
qed

section \<open>Cleanup keeps the invariant\<close>

text \<open>Dropping what is at \<open>p\<close> keeps the property \<open>I\<close>.\<close>

definition droppable :: "(tree \<Rightarrow> bool) \<Rightarrow> path \<Rightarrow> bool" where
  "droppable I p \<longleftrightarrow> (\<forall>g. I g \<longrightarrow> I (g(p := None)))"

lemma droppableI: "(\<And>g. I g \<Longrightarrow> I (g(p := None))) \<Longrightarrow> droppable I p"
  unfolding droppable_def by blast

lemma keeps_remove: "droppable I p \<Longrightarrow> keeps (\<lambda>f. I (map_of f)) (sys_upd (remove p))"
  by (rule keeps_sys_upd) (auto simp: droppable_def dest!: remove_cases)

lemma cleanupTmpStages_keeps:
  assumes "\<And>s. s \<in> set ss \<Longrightarrow> droppable I (tmpPath s)"
  shows "keeps (\<lambda>f. I (map_of f)) (cleanupTmpStages acc ss)"
  using assms
proof (induction ss arbitrary: acc)
  case Nil
  show ?case by (simp add: keeps_ret)
next
  case (Cons s ss)
  then show ?case by (auto intro!: stable_rules keeps_remove)
qed

lemma droppable_delivered: "g0 p = None \<Longrightarrow> droppable (delivered_only g0 fn d rcps) p"
  by (rule droppableI) (rule delivered_only_drop)

section \<open>Publishing\<close>

lemma resolvePublishCollision_spec:
  "triple (\<lambda>f. map_of f = g) (resolvePublishCollision r tp np d e)
     (\<lambda>x f. (map_of f = g \<or> map_of f = g(tp := None)) \<and> (x = Inr () \<longrightarrow> g np = Some (Reg d)))"
  (is "triple _ _ ?Q")
  unfolding resolvePublishCollision_def
proof (rule triple_on_err [OF ReadRegularNoFollow_spec])
  show "triple (\<lambda>f. map_of f = g \<and> (\<forall>c. Inl ea = Inr c \<longrightarrow> g np = Some (Reg c)))
          (fail (WrapV ''inspect dest'' e ea)) ?Q" for ea
    by (rule triple_fail) simp
next
  fix c :: bytes
  have "triple (\<lambda>f. map_of f = g) (bind (sys_upd (remove tp)) (\<lambda>x. case x of
         Inl e \<Rightarrow> (if osIsNotExist e then ok () else fail (Wrap ''remove idempotent tmp after collision'' e))
       | Inr _ \<Rightarrow> ok ())) ?Q" if "g np = Some (Reg d)"
    by (rule triple_bind [OF sys_remove_spec])
       (use that in \<open>auto intro!: triple_ok triple_fail split: sum.splits\<close>)
  then show "triple (\<lambda>f. map_of f = g \<and> (\<forall>c'. Inr c = Inr c' \<longrightarrow> g np = Some (Reg c')))
     (if c = d then bind (sys_upd (remove tp)) (\<lambda>x. case x of
         Inl e \<Rightarrow> (if osIsNotExist e then ok () else fail (Wrap ''remove idempotent tmp after collision'' e))
       | Inr _ \<Rightarrow> ok ()) else fail e) ?Q"
    by (auto simp: triple_def fail_def ret_def)
qed

text \<open>Publishing a staged copy: it is in place afterwards, or it was there, or nothing was published.\<close>

lemma publishTmpNoReplace_spec:
  assumes "g tp = Some (Reg d)"
  shows "triple (\<lambda>f. map_of f = g) (publishTmpNoReplace r tp np d)
     (\<lambda>x f. case x of
        Inl _ \<Rightarrow> map_of f = g \<or> map_of f = g(tp := None)
      | Inr _ \<Rightarrow> g np = None \<and> map_of f = g(tp := None, np \<mapsto> Reg d)
               \<or> g np = Some (Reg d) \<and> (map_of f = g \<or> map_of f = g(tp := None)))"
  (is "triple _ _ ?Q")
  unfolding publishTmpNoReplace_def
proof (rule triple_on_err [OF renameNoReplace_spec [where g = g and p = tp and c = d, OF assms]])
  fix e :: goerr
  have "triple (\<lambda>f. map_of f = g) (bind (cleanupTemp tp e) fail) ?Q"
    by (rule triple_bind [OF cleanupTemp_spec]) (auto intro!: triple_fail)
  moreover have "triple (\<lambda>f. map_of f = g) (resolvePublishCollision r tp np d e) ?Q"
    by (rule triple_post [OF resolvePublishCollision_spec]) (auto split: sum.splits)
  ultimately show "triple (\<lambda>f. case Inl e of Inl _ \<Rightarrow> map_of f = g | Inr _ \<Rightarrow> g np = None \<and> map_of f = g(tp := None, np \<mapsto> Reg d))
     (if isErrExist e then resolvePublishCollision r tp np d e else bind (cleanupTemp tp e) fail) ?Q"
    by simp
next
  show "triple (\<lambda>f. case Inr x of Inl _ \<Rightarrow> map_of f = g | Inr _ \<Rightarrow> g np = None \<and> map_of f = g(tp := None, np \<mapsto> Reg d))
     (ok x) ?Q" for x :: unit
    by (rule triple_ok) simp
qed

section \<open>Staging\<close>

text \<open>The recipients an error reports as delivered.\<close>

fun published_to :: "goerr \<Rightarrow> string list" where
  "published_to (PartialDelivery D _ _ _) = map fst D"
| "published_to _ = []"

abbreviation (input) stage_post :: "tree \<Rightarrow> string \<Rightarrow> bytes \<Rightarrow> string list \<Rightarrow> goerr + stagedDelivery list \<Rightarrow> fs \<Rightarrow> bool" where
  "stage_post g0 fn d rcps x f \<equiv>
     (case x of
        Inl e \<Rightarrow> delivered_only g0 fn d [] (map_of f) \<and> published_to e = []
      | Inr st \<Rightarrow> staged g0 fn d [] st (map_of f) \<and> map recipient st = rcps)"

lemma cleanupStagedTmp_spec:
  assumes "\<forall>s \<in> set ss. g0 (tmpPath s) = None" and "published_to e = []"
  shows "triple (\<lambda>f. delivered_only g0 fn d rcps (map_of f)) (cleanupStagedTmp ss e)
     (\<lambda>e' f. delivered_only g0 fn d rcps (map_of f) \<and> published_to e' = [])"
  unfolding cleanupStagedTmp_def
  by (rule triple_bind [OF keeps_triple [OF cleanupTmpStages_keeps]])
     (use assms in \<open>auto intro!: triple_ret droppable_delivered split: option.splits\<close>)

lemma stage_abort:
  assumes "staged g0 fn d [] stages g" and "published_to e = []"
  shows "triple (\<lambda>f. delivered_only g0 fn d [] (map_of f)) (bind (cleanupStagedTmp stages e) fail)
     (stage_post g0 fn d rcps)"
  by (rule triple_bind [OF cleanupStagedTmp_spec]) (use assms in \<open>auto simp: staged_def intro!: triple_fail\<close>)

lemma stage_abort_at:
  assumes "published_to e = []"
  shows "triple (\<lambda>f. staged g0 fn d [] stages (map_of f)) (bind (cleanupStagedTmp stages e) fail)
     (stage_post g0 fn d rcps)"
  by (rule triple_by_map, rule triple_pre [OF stage_abort]) (use assms in \<open>auto dest: stagedD\<close>)

lemma uniqueAttemptTmpPath_spec:
  "triple P (uniqueAttemptTmpPath (inbox_tmp rcp) fn)
     (\<lambda>x f. P f \<and> (case x of Inl e \<Rightarrow> published_to e = [] | Inr tp \<Rightarrow> attempt_tmp fn tp))"
  by (auto simp: triple_def uniqueAttemptTmpPath_def uniqueAttemptTmpName_def on_err_def bind_def fail_def
      ok_def ret_def get_now_def get_pid_def read_random_def Let_def attempt_tmp_def hasPrefix_def
      split: prod.splits sum.splits option.splits)

lemma stage_write_spec:
  assumes "attempt_tmp fn tp"
  shows "triple (\<lambda>f. staged g0 fn d [] stages (map_of f)) (writeAndSync tp d)
     (\<lambda>x f. case x of
        Inl e \<Rightarrow> delivered_only g0 fn d [] (map_of f) \<and> (\<exists>g. staged g0 fn d [] stages g) \<and> published_to e = []
      | Inr _ \<Rightarrow> staged g0 fn d [] (stages @ [mk_stage rcp fn tp]) (map_of f) \<and> (\<exists>g. staged g0 fn d [] stages g))"
proof (rule triple_by_map' [OF triple_errs [OF writeAndSync_spec errs_writeAndSync]])
  have s: "stage_ok fn (mk_stage rcp fn tp)" and tp: "tmpPath (mk_stage rcp fn tp) = tp"
    using assms by (simp_all add: stage_ok_def mk_stage_def)
  fix g x f
  assume st: "staged g0 fn d [] stages g" and
    *: "(case x of
        Inl _ \<Rightarrow> map_of f = g \<or> g tp = None \<and> (\<exists>c. map_of f = g(tp \<mapsto> Reg c))
      | Inr _ \<Rightarrow> g tp = None \<and> map_of f = g(tp \<mapsto> Reg d)) \<and> (\<forall>e. x = Inl e \<longrightarrow> published_to e = [])"
  from st have dl: "delivered_only g0 fn d [] g" by (rule stagedD)
  show "case x of
        Inl e \<Rightarrow> delivered_only g0 fn d [] (map_of f) \<and> (\<exists>g. staged g0 fn d [] stages g) \<and> published_to e = []
      | Inr _ \<Rightarrow> staged g0 fn d [] (stages @ [mk_stage rcp fn tp]) (map_of f) \<and> (\<exists>g. staged g0 fn d [] stages g)"
  proof (cases x)
    case (Inl e)
    with * st dl assms show ?thesis
      by (auto intro!: delivered_only_put_attempt delivered_only_free [OF dl])
  next
    case (Inr u)
    with * have "g (tmpPath (mk_stage rcp fn tp)) = None" and m: "map_of f = g(tp \<mapsto> Reg d)"
      by (simp_all add: tp)
    then show ?thesis using staged_snoc [OF st _ s] st Inr by (auto simp: tp)
  qed
qed simp

lemma stageAll_spec:
  "triple (\<lambda>f. staged g0 fn d [] stages (map_of f)) (stageAll fn d stages rcps)
     (stage_post g0 fn d (map recipient stages @ rcps))"
proof (induction rcps arbitrary: stages)
  case Nil
  show ?case by (auto intro!: triple_ok)
next
  case (Cons rcp rcps)
  let ?S = "\<lambda>f. staged g0 fn d [] stages (map_of f)"
  let ?Q = "stage_post g0 fn d (map recipient stages @ rcp # rcps)"
  have mk: "triple ?S (mkdirAll p 448) (\<lambda>x f. ?S f \<and> (\<forall>e. x = Inl e \<longrightarrow> published_to e = []))"
    if "length p \<le> 4" for p
    by (rule triple_errs [OF keeps_triple [OF stg.keeps_mkdirAll] errs_mkdirAll])
       (use that in \<open>auto dest!: prefix_length_le\<close>)
  have len: "length (inbox_tmp rcp) \<le> 4" "length (inbox_new rcp) \<le> 4" by simp_all
  have undo: "triple (\<lambda>f. ?S f \<and> (\<forall>e'. Inl e = Inl e' \<longrightarrow> published_to e' = []))
      (bind (cleanupStagedTmp stages e) fail) ?Q" for e
    by (rule triple_pure2, rule stage_abort_at) simp
  let ?S' = "\<lambda>tp f. staged g0 fn d [] (stages @ [mk_stage rcp fn tp]) (map_of f) \<and> (\<exists>g. staged g0 fn d [] stages g)"
  have sync: "triple (?S' tp) (syncDir (inbox_tmp rcp)) (\<lambda>x f. ?S' tp f \<and> (\<forall>e. x = Inl e \<longrightarrow> published_to e = []))" for tp
    by (rule triple_errs [OF keeps_triple [OF keeps_syncDir] errs_syncDir]) simp
  have drop: "triple (\<lambda>f. ?S' tp f \<and> (\<forall>e'. Inl e = Inl e' \<longrightarrow> published_to e' = []))
      (bind (cleanupTemp tp e) (\<lambda>e'. bind (cleanupStagedTmp stages e') fail)) ?Q" for tp e
  proof (cases "published_to e = [] \<and> (\<exists>g. staged g0 fn d [] stages g) \<and> g0 tp = None")
    case True
    then obtain g where st: "staged g0 fn d [] stages g" by blast
    have "triple (\<lambda>f. delivered_only g0 fn d [] (map_of f)) (cleanupTemp tp e)
        (\<lambda>e' f. delivered_only g0 fn d [] (map_of f) \<and> published_to e' = [])"
      unfolding cleanupTemp_def
      by (rule triple_bind [where R = "\<lambda>_ f. delivered_only g0 fn d [] (map_of f)"])
         (use True in \<open>auto intro!: triple_sys_upd triple_ret dest!: remove_cases split: sum.splits
            intro: delivered_only_drop\<close>)
    then have "triple (\<lambda>f. delivered_only g0 fn d [] (map_of f))
        (bind (cleanupTemp tp e) (\<lambda>e'. bind (cleanupStagedTmp stages e') fail)) ?Q"
    proof (rule triple_bind)
      show "triple (\<lambda>f. delivered_only g0 fn d [] (map_of f) \<and> published_to e' = [])
          (bind (cleanupStagedTmp stages e') fail) ?Q" for e'
        by (rule triple_pure2, rule stage_abort [OF st])
    qed
    then show ?thesis by (rule triple_pre) (auto dest: stagedD)
  next
    case False
    then show ?thesis by (auto simp: triple_def staged_def mk_stage_def)
  qed
  have body: "triple ?S (on_err (writeAndSync tp d) (\<lambda>e. bind (cleanupStagedTmp stages e) fail) (\<lambda>_.
     on_err (syncDir (inbox_tmp rcp))
       (\<lambda>e. bind (cleanupTemp tp e) (\<lambda>e'. bind (cleanupStagedTmp stages e') fail)) (\<lambda>_.
     stageAll fn d (stages @ [mk_stage rcp fn tp]) rcps))) ?Q" if "attempt_tmp fn tp" for tp
  proof (rule triple_on_err [OF stage_write_spec [where rcp = rcp, OF that]], simp_all only: sum.case)
    show "triple (\<lambda>f. delivered_only g0 fn d [] (map_of f) \<and> (\<exists>g. staged g0 fn d [] stages g) \<and> published_to e = [])
        (bind (cleanupStagedTmp stages e) fail) ?Q" for e
      by (rule triple_pure2) (auto intro: stage_abort)
  next
    have "triple (?S' tp) (stageAll fn d (stages @ [mk_stage rcp fn tp]) rcps) ?Q"
      by (rule triple_post [OF triple_pre [OF Cons.IH]]) (auto simp: mk_stage_def split: sum.splits)
    then show "triple (?S' tp) (on_err (syncDir (inbox_tmp rcp))
       (\<lambda>e. bind (cleanupTemp tp e) (\<lambda>e'. bind (cleanupStagedTmp stages e') fail)) (\<lambda>_.
     stageAll fn d (stages @ [mk_stage rcp fn tp]) rcps)) ?Q"
      by (intro triple_on_err [OF sync] drop) (simp add: triple_pre)
  qed
  have unique: "triple ?S (on_err (uniqueAttemptTmpPath (inbox_tmp rcp) fn)
       (\<lambda>e. bind (cleanupStagedTmp stages e) fail) k) ?Q"
    if "\<And>tp. attempt_tmp fn tp \<Longrightarrow> triple ?S (k tp) ?Q" for k
    by (rule triple_on_err [OF uniqueAttemptTmpPath_spec]; rule triple_pure2)
       (auto intro: stage_abort_at that)
  have skip: "triple (\<lambda>f. ?S f \<and> (\<forall>e. Inr x = Inl e \<longrightarrow> published_to e = [])) m ?Q" if "triple ?S m ?Q"
    for m :: "(goerr + stagedDelivery list) io" and x :: unit
    by (rule triple_pre [OF that]) simp
  show ?case
    unfolding stageAll.simps
    by (rule triple_on_err [OF mk [OF len(1)] undo], rule skip,
        rule triple_on_err [OF mk [OF len(2)] undo], rule skip,
        rule unique, rule body)
qed

section \<open>Committing\<close>

text \<open>Exactly the recipients \<open>rcps\<close> have the message.\<close>

definition published :: "tree \<Rightarrow> string \<Rightarrow> bytes \<Rightarrow> string list \<Rightarrow> tree \<Rightarrow> bool" where
  "published g0 fn d rcps g \<longleftrightarrow>
     delivered_only g0 fn d rcps g \<and> (\<forall>rcp \<in> set rcps. g (inbox_new rcp @ [fn]) = Some (Reg d))"

definition committing :: "tree \<Rightarrow> string \<Rightarrow> bytes \<Rightarrow> stagedDelivery list \<Rightarrow> stagedDelivery list \<Rightarrow> tree \<Rightarrow> bool" where
  "committing g0 fn d committed pending g \<longleftrightarrow>
     published g0 fn d (map recipient committed) g \<and> staged g0 fn d (map recipient committed) pending g"

lemma published_refl: "published g fn d [] g"
  by (simp add: published_def delivered_only_refl)

lemma published_drop:
  "published g0 fn d rcps g \<Longrightarrow> g0 p = None \<Longrightarrow> attempt_tmp fn p \<Longrightarrow> published g0 fn d rcps (g(p := None))"
  by (auto simp: published_def delivered_only_drop dest: attempt_new_disjoint)

lemma cleanup_published:
  assumes "staged g0 fn d rs pending g" and "set ss \<subseteq> set pending"
  shows "keeps (\<lambda>f. published g0 fn d rcps (map_of f)) (cleanupTmpStages acc ss)"
proof (rule cleanupTmpStages_keeps)
  fix s assume "s \<in> set ss"
  with assms have "g0 (tmpPath s) = None" and "attempt_tmp fn (tmpPath s)"
    by (auto simp: staged_def dest: stage_okD)
  then show "droppable (published g0 fn d rcps) (tmpPath s)"
    by (intro droppableI published_drop)
qed

text \<open>The recipients that have the message, by the result of a delivery to \<open>rcps\<close>.\<close>

fun reported :: "string list \<Rightarrow> goerr + 'a \<Rightarrow> string list" where
  "reported rcps (Inl e) = published_to e"
| "reported rcps (Inr x) = rcps"

abbreviation (input) commit_post :: "tree \<Rightarrow> string \<Rightarrow> bytes \<Rightarrow> string list \<Rightarrow> goerr + 'a \<Rightarrow> fs \<Rightarrow> bool" where
  "commit_post g0 fn d rcps x f \<equiv>
     published g0 fn d (reported rcps x) (map_of f)"

lemma delivered_map_fst: "map fst (delivered_map r ss) = map recipient ss"
  by (simp add: delivered_map_def)

lemma partial_abort:
  assumes "staged g0 fn d rs (s # rest) g"
  shows "triple (\<lambda>f. published g0 fn d (map recipient committed) (map_of f))
     (bind (partialDeliveryError r committed s rest e) fail) (commit_post g0 fn d rcps)"
proof -
  have keep: "keeps (\<lambda>f. published g0 fn d (map recipient committed) (map_of f))
      (cleanupTmpStages None (if isErrExist e then rest else s # rest))"
    by (rule cleanup_published [OF assms]) auto
  show ?thesis
    unfolding partialDeliveryError_def Let_def
    by (intro triple_bind [OF triple_bind [OF keeps_triple [OF keep] triple_ret]] triple_fail)
       (auto simp: delivered_map_fst)
qed

lemma committed_abort:
  assumes "staged g0 fn d rs pending g"
  shows "triple (\<lambda>f. published g0 fn d (map recipient committed) (map_of f))
     (bind (committedDeliveryError r committed pending e) fail) (commit_post g0 fn d rcps)"
  unfolding committedDeliveryError_def
  by (intro triple_bind [OF triple_bind [OF keeps_triple [OF cleanup_published [OF assms]] triple_ret]] triple_fail)
     (auto simp: delivered_map_fst)

text \<open>One publication: the next recipient joins the committed ones.\<close>

lemma commit_one:
  assumes "committing g0 fn d committed (s # rest) g"
    and "g (newPath s) = None \<and> h = g(tmpPath s := None, newPath s \<mapsto> Reg d)
       \<or> g (newPath s) = Some (Reg d) \<and> (h = g \<or> h = g(tmpPath s := None))"
  shows "committing g0 fn d (committed @ [s]) rest h"
proof -
  let ?R = "map recipient committed" and ?R' = "map recipient (committed @ [s])"
  from assms(1) have g: "published g0 fn d ?R g" and st: "staged g0 fn d ?R (s # rest) g"
    by (simp_all add: committing_def)
  from st have ok: "stage_ok fn s" and t: "g0 (tmpPath s) = None" and nt: "tmpPath s \<notin> tmpPath ` set rest"
    by (auto simp: staged_def)
  from stage_okD [OF ok] have np: "newPath s = inbox_new (recipient s) @ [fn]" and at: "attempt_tmp fn (tmpPath s)"
    by simp_all
  from attempt_new_disjoint [OF at] have tn: "tmpPath s \<noteq> newPath s" by (simp add: np)
  have dl: "delivered_only g0 fn d ?R' g"
    using g by (auto simp: published_def intro: delivered_only_mono)
  have free: "g0 (newPath s) = None" if "g (newPath s) = None"
    using delivered_only_free [OF dl that] .
  have fin: "delivered_only g0 fn d ?R' (k(newPath s \<mapsto> Reg d))"
    if "delivered_only g0 fn d ?R' k" "g0 (newPath s) = None" for k
    by (rule delivered_only_put_final [OF that, of "recipient s"]) (simp_all add: np)
  have drop: "delivered_only g0 fn d ?R' (g(tmpPath s := None))"
    by (rule delivered_only_drop [OF dl t])
  have dlh: "delivered_only g0 fn d ?R' h"
    using assms(2) dl drop fin [OF drop] free by auto
  have "h (newPath s) = Some (Reg d)"
    using assms(2) tn by auto
  moreover have old: "h p = Some n" if "g p = Some n" "p \<noteq> tmpPath s" for p n
    using assms(2) that by auto
  ultimately have pub: "published g0 fn d ?R' h"
    using g dlh attempt_new_disjoint [OF at, THEN not_sym] by (auto simp: published_def np intro!: old)
  have "staged g0 fn d ?R' rest h"
    using st dlh nt by (auto simp: staged_def image_iff intro!: old)
  with pub show ?thesis by (simp add: committing_def)
qed

lemma committing_drop:
  assumes "committing g0 fn d committed (s # rest) g" and "h = g \<or> h = g(tmpPath s := None)"
  shows "published g0 fn d (map recipient committed) h"
  using assms by (auto simp: committing_def staged_def intro!: published_drop dest!: stage_okD)

lemma publish_committing:
  "triple (\<lambda>f. committing g0 fn d committed (s # rest) (map_of f)) (publishTmpNoReplace r (tmpPath s) (newPath s) d)
     (\<lambda>x f. case x of
        Inl _ \<Rightarrow> published g0 fn d (map recipient committed) (map_of f) \<and> (\<exists>g rs. staged g0 fn d rs (s # rest) g)
      | Inr _ \<Rightarrow> committing g0 fn d (committed @ [s]) rest (map_of f))"
proof (rule triple_by_map')
  fix g assume "committing g0 fn d committed (s # rest) g"
  then have "g (tmpPath s) = Some (Reg d)" by (simp add: committing_def staged_def)
  then show "triple (\<lambda>f. map_of f = g) (publishTmpNoReplace r (tmpPath s) (newPath s) d)
     (\<lambda>x f. case x of
        Inl _ \<Rightarrow> map_of f = g \<or> map_of f = g(tmpPath s := None)
      | Inr _ \<Rightarrow> g (newPath s) = None \<and> map_of f = g(tmpPath s := None, newPath s \<mapsto> Reg d)
               \<or> g (newPath s) = Some (Reg d) \<and> (map_of f = g \<or> map_of f = g(tmpPath s := None)))"
    by (rule publishTmpNoReplace_spec)
next
  fix g x f
  assume c: "committing g0 fn d committed (s # rest) g" and
    "case x of
        Inl _ \<Rightarrow> map_of f = g \<or> map_of f = g(tmpPath s := None)
      | Inr _ \<Rightarrow> g (newPath s) = None \<and> map_of f = g(tmpPath s := None, newPath s \<mapsto> Reg d)
               \<or> g (newPath s) = Some (Reg d) \<and> (map_of f = g \<or> map_of f = g(tmpPath s := None))"
  then show "case x of
        Inl _ \<Rightarrow> published g0 fn d (map recipient committed) (map_of f) \<and> (\<exists>g rs. staged g0 fn d rs (s # rest) g)
      | Inr _ \<Rightarrow> committing g0 fn d (committed @ [s]) rest (map_of f)"
    using commit_one [OF c] committing_drop [OF c] c
    by (cases x) (auto simp: committing_def [of _ _ _ _ "s # rest"])
qed

lemma commitAll_spec:
  "triple (\<lambda>f. committing g0 fn d committed pending (map_of f)) (commitAll r d committed pending)
     (commit_post g0 fn d (map recipient (committed @ pending)))"
proof (induction pending arbitrary: committed)
  case Nil
  show ?case by (auto intro!: triple_ok simp: committing_def)
next
  case (Cons s rest)
  let ?C = "\<lambda>f. committing g0 fn d (committed @ [s]) rest (map_of f)"
  let ?Q = "commit_post g0 fn d (map recipient (committed @ s # rest)) :: goerr + unit \<Rightarrow> fs \<Rightarrow> bool"
  have abort: "triple (\<lambda>f. published g0 fn d (map recipient committed) (map_of f) \<and> (\<exists>g rs. staged g0 fn d rs (s # rest) g))
      (bind (partialDeliveryError r committed s rest e) fail) ?Q" for e
    by (rule triple_pure2) (auto intro: partial_abort)
  have late: "triple ?C (bind (committedDeliveryError r (committed @ [s]) rest e) fail) ?Q" for e
  proof (rule triple_by_map)
    fix g assume c: "committing g0 fn d (committed @ [s]) rest g"
    then have "staged g0 fn d (map recipient (committed @ [s])) rest g"
      and p: "published g0 fn d (map recipient (committed @ [s])) g"
      by (simp_all add: committing_def)
    then show "triple (\<lambda>f. map_of f = g) (bind (committedDeliveryError r (committed @ [s]) rest e) fail) ?Q"
      by (intro triple_pre [OF committed_abort]) auto
  qed
  have rest: "triple ?C (bind (syncDir (tmpDir s)) (\<lambda>_. commitAll r d (committed @ [s]) rest)) ?Q"
    using Cons.IH [of "committed @ [s]"]
    by (intro triple_bind [OF keeps_triple [OF keeps_syncDir]]) simp
  show ?case
    unfolding commitAll.simps
    by (rule triple_on_err [OF publish_committing]; simp only: sum.case)
       (rule abort, rule triple_on_err [OF keeps_triple [OF keeps_syncDir] late rest])
qed

lemma first_invalid_msg: "first_invalid rs = Some e \<Longrightarrow> published_to e = []"
  by (induction rs)
     (auto simp: ValidateHandle_def validateLegacyInspectableHandle_def split: option.splits if_splits)

lemma filename_error_msg: "ValidateMessageFilename fn = Some e \<Longrightarrow> published_to e = []"
  by (auto simp: ValidateMessageFilename_def split: if_splits)

text \<open>The outcome of a delivery, for every fault schedule: the result says exactly who has the message.\<close>

lemma DeliverToInboxes_spec:
  "triple (\<lambda>f. map_of f = g0) (DeliverToInboxes r rcps fn d) (commit_post g0 fn d rcps)"
  (is "triple ?P _ ?Q")
proof -
  have start: "staged g0 fn d [] [] g0"
    by (simp add: staged_def delivered_only_refl)
  have verify: "triple ?P (VerifyBase r) (\<lambda>x f. ?P f \<and> (\<forall>e. x = Inl e \<longrightarrow> published_to e = []))"
    by (rule triple_errs [OF keeps_triple [OF keeps_VerifyBase] errs_VerifyBase]) simp_all
  have commit: "triple (\<lambda>f. staged g0 fn d [] st (map_of f) \<and> map recipient st = rcps)
      (guard (commitAll r d [] st) (\<lambda>_. ok (delivered_map r st))) ?Q" for st
  proof (rule triple_pure2, rule triple_on_err)
    assume st: "map recipient st = rcps"
    show "triple (\<lambda>f. staged g0 fn d [] st (map_of f)) (commitAll r d [] st) (commit_post g0 fn d rcps)"
      by (rule triple_post [OF triple_pre [OF commitAll_spec]])
         (auto simp: committing_def published_def staged_def st)
  qed (auto intro!: triple_fail triple_ok)
  have stage: "triple ?P (guard (stageAll fn d [] rcps) (\<lambda>stages.
      guard (commitAll r d [] stages) (\<lambda>_. ok (delivered_map r stages)))) ?Q"
  proof (rule triple_on_err [OF triple_pre [OF stageAll_spec]])
    show "staged g0 fn d [] [] (map_of f)" if "map_of f = g0" for f
      using that start by simp
    show "triple (stage_post g0 fn d (map recipient [] @ rcps) (Inl e)) (fail e) ?Q" for e
      by (rule triple_fail) (auto simp: published_def)
    show "triple (stage_post g0 fn d (map recipient [] @ rcps) (Inr st))
        (guard (commitAll r d [] st) (\<lambda>_. ok (delivered_map r st))) ?Q" for st
      using commit by simp
  qed
  show ?thesis
    unfolding DeliverToInboxes_def
    by (auto split: option.splits intro!: triple_on_err [OF verify] triple_pre [OF stage] triple_fail
        simp: published_refl first_invalid_msg filename_error_msg)
qed

section \<open>Guarantees of a delivery\<close>

lemma DeliverToInboxes_published:
  "published (map_of (fs w)) fn d (reported rcps (fst (DeliverToInboxes r rcps fn d w)))
     (map_of (fs (snd (DeliverToInboxes r rcps fn d w))))"
  by (rule triple_run [OF DeliverToInboxes_spec]) simp

lemma publishedD:
  assumes "published g0 fn d rcps g" and "g0 p = None" and "g p = Some n"
  shows "n = Dir 448 \<and> length p \<le> 4
     \<or> (\<exists>c rcp name. n = Reg c \<and> p = inbox_tmp rcp @ [name] \<and> hasPrefix name (''.'' @ fn @ ''.tmp-''))
     \<or> n = Reg d \<and> (\<exists>rcp \<in> set rcps. p = new_msg rcp fn)"
proof -
  from assms(1) have "delivery_node fn d rcps p (g0 p) (g p)"
    unfolding published_def delivered_only_def by (blast dest: pointwiseD)
  with assms(2,3) show ?thesis
    by (auto simp: delivery_node_def attempt_tmp_def split: node.splits)
qed

lemma published_absent:
  "published g0 fn d rcps g \<Longrightarrow> g0 (new_msg rcp fn) = None \<Longrightarrow> rcp \<notin> set rcps \<Longrightarrow> g (new_msg rcp fn) = None"
  by (cases "g (new_msg rcp fn)") (auto dest: publishedD)

text \<open>
  C6: when a delivery to several recipients returns success, every recipient has the whole message
  in its \<^verbatim>\<open>inbox/new\<close>, whatever calls failed on the way.
\<close>

theorem delivery_success_complete:
  assumes "fst (DeliverToInboxes r rcps fn d w) = Inr paths" and "rcp \<in> set rcps"
  shows "map_of (fs (snd (DeliverToInboxes r rcps fn d w))) (new_msg rcp fn) = Some (Reg d)"
  using DeliverToInboxes_published [of w fn d rcps r] assms by (auto simp: published_def)

theorem delivery_success_complete_witness:
  "map_of (fs (snd (DeliverToInboxes root7 [''a'', ''b''] ''m.md'' ''hi'' (calm [])))) (new_msg ''b'' ''m.md'')
     = Some (Reg ''hi'')"
  by (rule delivery_success_complete [where paths =
        "[(''a'', ''q'' # new_msg ''a'' ''m.md''), (''b'', ''q'' # new_msg ''b'' ''m.md'')]"])
     code_simp+

text \<open>
  C7: when a delivery returns an error, the recipients whose mailbox got the message are exactly
  those the error names (none, unless it is a partial-delivery error): no recipient is lost or
  silently served, at every point where a call can fail.
\<close>

theorem delivery_error_exact:
  assumes "fst (DeliverToInboxes r rcps fn d w) = Inl e" and "map_of (fs w) (new_msg rcp fn) = None"
  shows "map_of (fs (snd (DeliverToInboxes r rcps fn d w))) (new_msg rcp fn)
     = (if rcp \<in> set (published_to e) then Some (Reg d) else None)"
  using DeliverToInboxes_published [of w fn d rcps r] assms
  by (auto simp: published_absent published_def)

theorem delivery_error_exact_witness:
  "map_of (fs (snd (DeliverToInboxes root7 [''a'', ''b''] ''m.md'' ''hi'' (fault_at 36 [])))) (new_msg ''b'' ''m.md'') = None"
proof -
  let ?e = "PartialDelivery [(''a'', ''q'' # new_msg ''a'' ''m.md'')] [] [''b'']
     (CommittedDurability (''q'' # new_msg ''a'' ''m.md'') ''a'' (Wrap ''sync new dir'' (Sys ENOSPC)))"
  have "fst (DeliverToInboxes root7 [''a'', ''b''] ''m.md'' ''hi'' (fault_at 36 [])) = Inl ?e"
    by code_simp
  from delivery_error_exact [OF this, of "''b''"] show ?thesis
    by (simp add: fault_at_def calm_def)
qed

text \<open>
  C8: a delivery changes nothing that was there before, and all it may leave in the tree are mailbox
  directories, its own attempts in \<^verbatim>\<open>inbox/tmp\<close>, and whole copies of the message in
  \<^verbatim>\<open>inbox/new\<close> of recipients: a reader of \<^verbatim>\<open>inbox/new\<close> never sees a torn or
  replaced message, also when the process dies between any two system calls.
\<close>

theorem delivery_effects:
  assumes "map_of (fs (snd (DeliverToInboxes r rcps fn d w))) p \<noteq> map_of (fs w) p"
  shows "map_of (fs w) p = None \<and>
     (\<exists>n. map_of (fs (snd (DeliverToInboxes r rcps fn d w))) p = Some n \<and>
        (n = Dir 448 \<and> length p \<le> 4
         \<or> (\<exists>c rcp name. n = Reg c \<and> p = inbox_tmp rcp @ [name] \<and> hasPrefix name (''.'' @ fn @ ''.tmp-''))
         \<or> n = Reg d \<and> (\<exists>rcp \<in> set (reported rcps (fst (DeliverToInboxes r rcps fn d w))). p = new_msg rcp fn)))"
proof -
  let ?g = "map_of (fs w)" and ?h = "map_of (fs (snd (DeliverToInboxes r rcps fn d w)))"
  note pub = DeliverToInboxes_published [of w fn d rcps r]
  from pub have "?g p = None"
    using assms by (cases "?g p") (auto simp: published_def dest: delivered_only_old)
  with assms obtain n where n: "?h p = Some n" by (cases "?h p") auto
  show ?thesis by (intro conjI exI [of _ n] publishedD [OF pub] n \<open>?g p = None\<close>)
qed

theorem delivery_effects_witness:
  "map_of (fs (snd (DeliverToInboxes root7 [''a''] ''m.md'' ''hi'' (calm [])))) (new_msg ''a'' ''m.md'')
     \<noteq> map_of (fs (calm [])) (new_msg ''a'' ''m.md'') \<and>
   map_of (fs (calm [])) (new_msg ''a'' ''m.md'') = None"
proof
  show diff: "map_of (fs (snd (DeliverToInboxes root7 [''a''] ''m.md'' ''hi'' (calm [])))) (new_msg ''a'' ''m.md'')
     \<noteq> map_of (fs (calm [])) (new_msg ''a'' ''m.md'')"
    by code_simp
  show "map_of (fs (calm [])) (new_msg ''a'' ''m.md'') = None"
    by (rule delivery_effects [OF diff, THEN conjunct1])
qed

end
