(* ===== verification/Claim.thy ===== *)
theory Claim
  imports Delivery_Root
begin

text \<open>
  Claiming a message (\<^verbatim>\<open>internal/fsq/find.go\<close> and, for POSIX systems,
  \<^verbatim>\<open>internal/fsq/claim_rename_other.go\<close>): a consumer owns a message once it moved it from
  \<^verbatim>\<open>inbox/new\<close> to \<^verbatim>\<open>inbox/cur\<close>. The residue error of the Windows implementation of
  \<^verbatim>\<open>claimRename\<close> cannot occur here.
\<close>

section \<open>Model\<close>

datatype box = BoxNew | BoxCur

definition FindMessage :: "string \<Rightarrow> string \<Rightarrow> (goerr + path \<times> box) io" where
  "FindMessage agent filename =
     (case ValidateHandle agent of Some e \<Rightarrow> fail e | None \<Rightarrow>
      case ValidateMessageFilename filename of Some e \<Rightarrow> fail e | None \<Rightarrow>
      let newPath = inbox_new agent @ [filename]; curPath = inbox_cur agent @ [filename] in
      bind (sys_query (stat newPath)) (\<lambda>x.
      case x of
        Inr _ \<Rightarrow> ok (newPath, BoxNew)
      | Inl e \<Rightarrow>
          (if \<not> osIsNotExist e then fail e
           else bind (sys_query (stat curPath)) (\<lambda>y.
             case y of
               Inr _ \<Rightarrow> ok (curPath, BoxCur)
             | Inl e' \<Rightarrow> (if \<not> osIsNotExist e' then fail e' else fail ErrNotExist)))))"

definition claimRename :: "droot \<Rightarrow> path \<Rightarrow> path \<Rightarrow> (goerr + unit) io" where
  "claimRename r newPath curPath =
     on_err (renameNoReplace newPath curPath)
       (\<lambda>e. if \<not> isErrExist e then fail e
            else bind (sys_query (lstat newPath)) (\<lambda>x.
              case x of
                Inl se \<Rightarrow> (if osIsNotExist se then fail ErrNotExist
                           else fail (Wrap ''inspect claim source after collision'' se))
              | Inr _ \<Rightarrow> fail (ClaimCollision (displayPath r newPath) (displayPath r curPath))))
       ok"

definition MoveNewToCur :: "droot \<Rightarrow> string \<Rightarrow> string \<Rightarrow> (goerr + unit) io" where
  "MoveNewToCur r agent filename =
     (case ValidateHandle agent of Some e \<Rightarrow> fail e | None \<Rightarrow>
      case ValidateMessageFilename filename of Some e \<Rightarrow> fail e | None \<Rightarrow>
      guard (VerifyBase r) (\<lambda>_.
      let newPath = inbox_new agent @ [filename];
          curDir = inbox_cur agent;
          curPath = curDir @ [filename] in
      guard (mkdirAll curDir 448) (\<lambda>_.
      guard (claimRename r newPath curPath) (\<lambda>_.
      bind (syncDir curDir) (\<lambda>a.
      bind (syncDir (inbox_new agent)) (\<lambda>b.
      let err1 = (case a of Inl e \<Rightarrow> Some (Wrap ''sync inbox/cur dir'' e) | Inr _ \<Rightarrow> None);
          err2 = (case b of
                    Inl e \<Rightarrow> Some (case err1 of None \<Rightarrow> Wrap ''sync inbox/new dir'' e
                                    | Some e1 \<Rightarrow> Join e1 (Wrap ''sync inbox/new dir'' e))
                  | Inr _ \<Rightarrow> err1) in
      case err2 of
        Some e \<Rightarrow> fail (CommittedDurability (displayPath r curPath) agent e)
      | None \<Rightarrow> ok ()))))))"

lemmas [go_defs] = FindMessage_def claimRename_def MoveNewToCur_def

text \<open>A caller owns the message if the call succeeded or reported a committed claim.\<close>

definition claimed :: "goerr + 'a \<Rightarrow> bool" where
  "claimed x \<longleftrightarrow> (case x of Inr _ \<Rightarrow> True | Inl e \<Rightarrow> asCommitted e \<noteq> None)"

section \<open>Trees that differ by mailbox directories\<close>

definition dirs_node :: "path \<Rightarrow> node option \<Rightarrow> node option \<Rightarrow> bool" where
  "dirs_node p x y \<longleftrightarrow> y = x \<or> x = None \<and> y = Some (Dir 448) \<and> length p \<le> 4"

interpretation dirs: node_policy dirs_node "\<lambda>p. length p \<le> 4"
  by unfold_locales (auto simp: dirs_node_def)

abbreviation with_dirs :: "tree \<Rightarrow> tree \<Rightarrow> bool" where
  "with_dirs \<equiv> pointwise dirs_node"

lemma with_dirs_deep: "with_dirs g h \<Longrightarrow> 4 < length p \<Longrightarrow> h p = g p"
  by (drule pointwiseD [of _ _ _ p]) (auto simp: dirs_node_def)

lemma with_dirs_old: "with_dirs g h \<Longrightarrow> g p = Some n \<Longrightarrow> h p = Some n"
  by (drule pointwiseD [of _ _ _ p]) (auto simp: dirs_node_def)

lemma with_dirs_trans: "with_dirs g h \<Longrightarrow> with_dirs h k \<Longrightarrow> with_dirs g k"
  unfolding pointwise_def dirs_node_def by metis

lemma keeps_mailbox_dir:
  "length p \<le> 4 \<Longrightarrow> keeps (\<lambda>f. with_dirs g (map_of f)) (mkdirAll p 448)"
  by (rule dirs.keeps_mkdirAll) (auto dest!: prefix_length_le)

section \<open>The claim\<close>

lemma claimRename_spec:
  assumes "\<forall>m. g p \<noteq> Some (Dir m)"
  shows "triple (\<lambda>f. map_of f = g) (claimRename r p q)
     (\<lambda>x f. case x of
        Inl e \<Rightarrow> map_of f = g \<and> asCommitted e = None
      | Inr _ \<Rightarrow> \<exists>n. g p = Some n \<and> g q = None \<and> map_of f = g(p := None, q \<mapsto> n))"
  (is "triple ?P _ ?Q")
proof -
  have main: "triple ?P (renameNoReplace p q)
      (\<lambda>x f. case x of Inl e \<Rightarrow> map_of f = g \<and> asCommitted e = None
        | Inr _ \<Rightarrow> \<exists>n. g p = Some n \<and> g q = None \<and> map_of f = g(p := None, q \<mapsto> n))"
  proof -
    have last: "triple ?P (sys_upd (rename_noreplace p q)) (\<lambda>x f. case x of Inl e \<Rightarrow> map_of f = g \<and> asCommitted e = None
        | Inr _ \<Rightarrow> \<exists>n. g p = Some n \<and> g q = None \<and> map_of f = g(p := None, q \<mapsto> n))"
    proof (rule triple_sys_upd)
      fix f f' assume f: "map_of f = g" and "rename_noreplace p q f = Inr f'"
      from this(2) obtain n where n: "map_of f p = Some n" "map_of f q = None" "f' = move p q n f"
        by (rule rename_noreplace_cases)
      with f assms have "\<not> isDir n" by (cases n) auto
      with f n show "case Inr () of Inl e \<Rightarrow> map_of f' = g \<and> asCommitted e = None
        | Inr _ \<Rightarrow> \<exists>n. g p = Some n \<and> g q = None \<and> map_of f' = g(p := None, q \<mapsto> n)"
        by (simp add: map_of_move_file)
    qed simp
    show ?thesis
      unfolding renameNoReplace_def
      by (intro triple_on_err [where R = "\<lambda>x f. map_of f = g \<and> (\<forall>e. x = Inl e \<longrightarrow> asCommitted e = None)"]
          triple_sys_query triple_fail triple_pre [OF last]) auto
  qed
  show ?thesis
    unfolding claimRename_def
  proof (rule triple_on_err [OF main]; simp only: sum.case)
    fix e
    have "triple ?P (bind (sys_query (lstat p)) (\<lambda>x. case x of
                Inl se \<Rightarrow> (if osIsNotExist se then fail ErrNotExist
                           else fail (Wrap ''inspect claim source after collision'' se))
              | Inr _ \<Rightarrow> fail (ClaimCollision (displayPath r p) (displayPath r q)))) ?Q"
      by (rule triple_bind [OF triple_errs [OF keeps_triple [OF keeps_sys_query] errs_sys_query [where P = "\<lambda>e. asCommitted e = None"]]])
         (auto intro!: triple_fail split: sum.splits)
    then show "triple (\<lambda>f. map_of f = g \<and> asCommitted e = None)
       (if \<not> isErrExist e then fail e else bind (sys_query (lstat p)) (\<lambda>x. case x of
                Inl se \<Rightarrow> (if osIsNotExist se then fail ErrNotExist
                           else fail (Wrap ''inspect claim source after collision'' se))
              | Inr _ \<Rightarrow> fail (ClaimCollision (displayPath r p) (displayPath r q)))) ?Q"
      by (auto intro: triple_fail triple_pre)
  qed (auto intro!: triple_ok)
qed

text \<open>
  The outcome of a claim of the message at \<open>p\<close>, to be moved to \<open>q\<close>: \<open>h\<close> is the old tree with
  mailbox directories added; an owner's claim moved the message and found \<open>q\<close> free.
\<close>

definition claim_post :: "tree \<Rightarrow> path \<Rightarrow> path \<Rightarrow> goerr + unit \<Rightarrow> fs \<Rightarrow> bool" where
  "claim_post g p q x f \<longleftrightarrow>
     (\<exists>h. with_dirs g h \<and>
        (if claimed x then \<exists>n. g p = Some n \<and> g q = None \<and> map_of f = h(p := None, q \<mapsto> n)
         else map_of f = h))"

lemma triple_claim_fail:
  "asCommitted e = None \<Longrightarrow> triple (\<lambda>f. with_dirs g (map_of f)) (fail e) (claim_post g p q)"
  by (rule triple_fail) (auto simp: claim_post_def claimed_def)

lemma claim_names_error:
  "ValidateHandle agent = Some e \<or> ValidateMessageFilename fn = Some e \<Longrightarrow> asCommitted e = None"
  by (auto simp: ValidateHandle_def validateLegacyInspectableHandle_def ValidateMessageFilename_def
      split: option.splits if_splits)

lemma MoveNewToCur_spec:
  assumes nd: "\<forall>m. g (new_msg agent fn) \<noteq> Some (Dir m)"
  shows "triple (\<lambda>f. with_dirs g (map_of f)) (MoveNewToCur r agent fn)
     (claim_post g (new_msg agent fn) (cur_msg agent fn))"
  (is "triple ?W _ ?Q")
proof (cases "ValidateHandle agent = None \<and> ValidateMessageFilename fn = None")
  case False
  then show ?thesis
    by (auto simp: MoveNewToCur_def split: option.splits intro!: triple_claim_fail claim_names_error)
next
  case True
  let ?p = "new_msg agent fn" and ?q = "cur_msg agent fn"
  let ?M = "\<lambda>f. \<exists>h n. with_dirs g h \<and> g ?p = Some n \<and> g ?q = None \<and> map_of f = h(?p := None, ?q \<mapsto> n)"
  have step: "triple ?W (guard m k) ?Q"
    if "errs (\<lambda>e. asCommitted e = None) m" "keeps ?W m" "\<And>x. triple ?W (k x) ?Q" for m and k :: "'x \<Rightarrow> (goerr + unit) io"
    by (rule triple_on_err [OF triple_errs [OF keeps_triple [OF that(2)] that(1)]])
       (auto intro: triple_pure2 triple_claim_fail triple_pre [OF that(3)])
  have cl: "triple ?W (claimRename r ?p ?q)
      (\<lambda>x f. case x of Inl e \<Rightarrow> ?W f \<and> asCommitted e = None | Inr _ \<Rightarrow> ?M f)"
  proof (rule triple_by_map' [OF claimRename_spec])
    fix h assume h: "with_dirs g h"
    then have hp: "h ?p = g ?p" and hq: "h ?q = g ?q" by (auto intro: with_dirs_deep)
    with nd show "\<forall>m. h ?p \<noteq> Some (Dir m)" by simp
    fix x f assume "case x of Inl e \<Rightarrow> map_of f = h \<and> asCommitted e = None
      | Inr _ \<Rightarrow> \<exists>n. h ?p = Some n \<and> h ?q = None \<and> map_of f = h(?p := None, ?q \<mapsto> n)"
    then show "case x of Inl e \<Rightarrow> ?W f \<and> asCommitted e = None | Inr _ \<Rightarrow> ?M f"
      using h hp hq by (cases x) auto
  qed
  have finish: "triple ?M (bind (syncDir (inbox_cur agent)) (\<lambda>a. bind (syncDir (inbox_new agent)) (\<lambda>b. ret (k a b)))) ?Q"
    if "\<And>a b. claimed (k a b)" for k
    by (intro triple_bind [OF keeps_triple [OF keeps_syncDir]] triple_ret)
       (use that in \<open>auto simp: claim_post_def\<close>)
  let ?k = "\<lambda>a b. case (case b of
                    Inl e \<Rightarrow> Some (case (case a of Inl e \<Rightarrow> Some (Wrap ''sync inbox/cur dir'' e) | Inr _ \<Rightarrow> None) of
                        None \<Rightarrow> Wrap ''sync inbox/new dir'' e
                      | Some e1 \<Rightarrow> Join e1 (Wrap ''sync inbox/new dir'' e))
                  | Inr _ \<Rightarrow> (case a of Inl e \<Rightarrow> Some (Wrap ''sync inbox/cur dir'' e) | Inr _ \<Rightarrow> None)) of
        Some e \<Rightarrow> Inl (CommittedDurability (displayPath r (inbox_cur agent @ [fn])) agent e)
      | None \<Rightarrow> Inr ()"
  have prog: "MoveNewToCur r agent fn = guard (VerifyBase r) (\<lambda>_. guard (mkdirAll (inbox_cur agent) 448) (\<lambda>_.
      guard (claimRename r ?p ?q) (\<lambda>_. bind (syncDir (inbox_cur agent)) (\<lambda>a.
      bind (syncDir (inbox_new agent)) (\<lambda>b. ret (?k a b))))))"
  proof -
    have ret: "(case z of Some e \<Rightarrow> fail (c e) | None \<Rightarrow> ok ()) = ret (case z of Some e \<Rightarrow> Inl (c e) | None \<Rightarrow> Inr ())"
      for z :: "goerr option" and c :: "goerr \<Rightarrow> goerr"
      by (simp add: fail_def ok_def split: option.splits)
    show ?thesis using True by (simp add: MoveNewToCur_def Let_def ret)
  qed
  have fin: "triple ?M (bind (syncDir (inbox_cur agent)) (\<lambda>a. bind (syncDir (inbox_new agent)) (\<lambda>b. ret (?k a b)))) ?Q"
    by (rule finish) (simp add: claimed_def split: option.split)
  have core: "triple ?W (guard (claimRename r ?p ?q) (\<lambda>_. bind (syncDir (inbox_cur agent)) (\<lambda>a.
      bind (syncDir (inbox_new agent)) (\<lambda>b. ret (?k a b))))) ?Q"
    by (rule triple_on_err [OF cl]; simp only: sum.case) (rule triple_pure2, erule triple_claim_fail, rule fin)
  show ?thesis
    unfolding prog
    by (rule step, rule errs_VerifyBase, simp_all add: keeps_VerifyBase,
        rule step, rule errs_mkdirAll, simp_all add: keeps_mailbox_dir, rule core)
qed

section \<open>Rival claims, one after the other\<close>

text \<open>The results of several consumers claiming the same message in turn.\<close>

fun claims :: "droot list \<Rightarrow> string \<Rightarrow> string \<Rightarrow> (goerr + unit) list io" where
  "claims [] agent filename = ret []"
| "claims (r # rs) agent filename =
     bind (MoveNewToCur r agent filename) (\<lambda>x. bind (claims rs agent filename) (\<lambda>xs. ret (x # xs)))"

lemma claim_postD:
  assumes "claim_post g (new_msg a fn) (cur_msg a fn) x f"
  shows "\<not> claimed x \<Longrightarrow> with_dirs g (map_of f)"
    and "claimed x \<Longrightarrow> g (new_msg a fn) \<noteq> None \<and> g (cur_msg a fn) = None \<and>
           map_of f (new_msg a fn) = None \<and> map_of f (cur_msg a fn) = g (new_msg a fn)"
  using assms by (auto simp: claim_post_def)

lemma claim_post_kept:
  assumes "claim_post g p0 q x f" and "g p = Some n"
  shows "map_of f p = (if claimed x \<and> p = p0 \<and> p \<noteq> q then None else Some n)"
proof -
  from assms(1) obtain h where h: "with_dirs g h"
    and f: "if claimed x then \<exists>n. g p0 = Some n \<and> g q = None \<and> map_of f = h(p0 := None, q \<mapsto> n) else map_of f = h"
    unfolding claim_post_def by blast
  from h assms(2) have "h p = Some n" by (rule with_dirs_old)
  with f assms(2) show ?thesis by (cases "claimed x") auto
qed

lemma claims_none_left:
  "g (new_msg a fn) = None \<Longrightarrow>
   triple (\<lambda>f. with_dirs g (map_of f)) (claims rs a fn)
     (\<lambda>xs f. filter claimed xs = [] \<and> with_dirs g (map_of f))"
proof (induction rs)
  case Nil
  then show ?case by (auto intro: triple_ret)
next
  case (Cons r rs)
  have "triple (\<lambda>f. with_dirs g (map_of f)) (MoveNewToCur r a fn)
      (\<lambda>x f. with_dirs g (map_of f) \<and> \<not> claimed x)"
    by (rule triple_post [OF MoveNewToCur_spec]) (use Cons.prems in \<open>auto simp: claim_post_def split: if_splits\<close>)
  then show ?case
    unfolding claims.simps
    by (rule triple_bind) (rule triple_pure2, rule triple_bind [OF Cons.IH], auto intro: triple_ret simp: Cons.prems)
qed

lemma claims_spec:
  assumes "\<forall>m. g (new_msg a fn) \<noteq> Some (Dir m)"
  shows "triple (\<lambda>f. with_dirs g (map_of f)) (claims rs a fn)
     (\<lambda>xs f. length (filter claimed xs) \<le> 1 \<and>
        (filter claimed xs \<noteq> [] \<longrightarrow> map_of f (cur_msg a fn) = g (new_msg a fn)))"
proof (induction rs)
  case Nil
  then show ?case by (auto intro: triple_ret)
next
  case (Cons r rs)
  let ?p = "new_msg a fn" and ?q = "cur_msg a fn"
  show ?case
    unfolding claims.simps
  proof (rule triple_bind [OF MoveNewToCur_spec [of g a fn, OF assms]])
    fix x
    show "triple (claim_post g ?p ?q x) (bind (claims rs a fn) (\<lambda>xs. ret (x # xs)))
      (\<lambda>xs f. length (filter claimed xs) \<le> 1 \<and> (filter claimed xs \<noteq> [] \<longrightarrow> map_of f ?q = g ?p))"
    proof (cases "claimed x")
      case False
      then show ?thesis
        by (intro triple_bind [OF triple_pre [OF Cons.IH]] triple_ret) (auto dest: claim_postD)
    next
      case True
      have "triple (\<lambda>f. map_of f = h) (bind (claims rs a fn) (\<lambda>xs. ret (x # xs)))
        (\<lambda>xs f. length (filter claimed xs) \<le> 1 \<and> (filter claimed xs \<noteq> [] \<longrightarrow> map_of f ?q = g ?p))"
        if "h ?p = None" "h ?q = g ?p" for h
        by (intro triple_bind [OF triple_pre [OF claims_none_left [of h]]] triple_ret)
           (use that True in \<open>auto simp: dirs.refl dest!: with_dirs_deep [of _ _ ?q]\<close>)
      then have "triple (\<lambda>f. map_of f ?p = None \<and> map_of f ?q = g ?p) (bind (claims rs a fn) (\<lambda>xs. ret (x # xs)))
        (\<lambda>xs f. length (filter claimed xs) \<le> 1 \<and> (filter claimed xs \<noteq> [] \<longrightarrow> map_of f ?q = g ?p))"
        by (rule triple_by_map [where P = "\<lambda>h. h ?p = None \<and> h ?q = g ?p"]) auto
      then show ?thesis
        by (rule triple_pre) (use True in \<open>auto dest: claim_postD(2)\<close>)
    qed
  qed
qed

section \<open>Rival claims, interleaved\<close>

text \<open>
  Any number of consumers and deliverers at the granularity of system calls. A consumer's only
  call that touches a message is the rename of \<open>claimRename\<close>; between any two steps other
  deliveries may publish (also again under the same name, as a DLQ retry does) and directories may
  appear. Consumers that got the rename through are the winners.
\<close>

record race =
  rfs :: fs
  winners :: "nat set"
  losers :: "nat set"

inductive race_step :: "path \<Rightarrow> path \<Rightarrow> race \<Rightarrow> race \<Rightarrow> bool" for p q where
  win: "rename_noreplace p q (rfs s) = Inr f \<Longrightarrow> i \<notin> winners s \<union> losers s \<Longrightarrow>
    race_step p q s (s\<lparr>rfs := f, winners := insert i (winners s)\<rparr>)"
| lose: "rename_noreplace p q (rfs s) = Inl e \<Longrightarrow> i \<notin> winners s \<union> losers s \<Longrightarrow>
    race_step p q s (s\<lparr>losers := insert i (losers s)\<rparr>)"
| publish: "rename_noreplace t dst (rfs s) = Inr f \<Longrightarrow> map_of (rfs s) t = Some (Reg d) \<Longrightarrow> t \<noteq> q \<Longrightarrow> t \<noteq> p \<Longrightarrow>
    race_step p q s (s\<lparr>rfs := f\<rparr>)"
| mkdir: "mkdir_level perm d (rfs s) = Inr f \<Longrightarrow> d \<noteq> q \<Longrightarrow> d \<noteq> p \<Longrightarrow> race_step p q s (s\<lparr>rfs := f\<rparr>)"

inductive_cases race_stepE: "race_step p q s s'"

text \<open>While nobody won, the claimed name is free of a consumer's file; after that it is taken for good.\<close>

definition race_inv :: "path \<Rightarrow> path \<Rightarrow> race \<Rightarrow> bool" where
  "race_inv p q s \<longleftrightarrow>
     finite (winners s) \<and> card (winners s) \<le> 1 \<and> (\<forall>m. map_of (rfs s) p \<noteq> Some (Dir m)) \<and>
     (winners s \<noteq> {} \<longrightarrow> map_of (rfs s) q \<noteq> None)"

lemma race_inv_step:
  assumes "race_step p q s s'" and "race_inv p q s" and "p \<noteq> q"
  shows "race_inv p q s'"
  using assms(1)
proof cases
  case (win f i)
  from win(2) obtain n where n: "map_of (rfs s) p = Some n" "map_of (rfs s) q = None" "f = move p q n (rfs s)"
    by (rule rename_noreplace_cases)
  with assms have "winners s = {}" and "\<not> isDir n" by (cases n; auto simp: race_inv_def)+
  with n win(1) assms(3) show ?thesis by (simp add: race_inv_def map_of_move_file)
next
  case (lose e i)
  with assms show ?thesis by (simp add: race_inv_def)
next
  case (publish t dst f d)
  from publish(2) obtain n where n: "map_of (rfs s) t = Some n" "map_of (rfs s) dst = None" "f = move t dst n (rfs s)"
    by (rule rename_noreplace_cases)
  with publish assms show ?thesis by (auto simp: race_inv_def map_of_move_file)
next
  case (mkdir perm d f)
  from mkdir(2) show ?thesis
    by (rule mkdir_level_cases) (use mkdir assms in \<open>auto simp: race_inv_def\<close>)
qed

lemma race_reachable:
  "(race_step p q)\<^sup>*\<^sup>* s s' \<Longrightarrow> race_inv p q s \<Longrightarrow> p \<noteq> q \<Longrightarrow> race_inv p q s'"
  by (induction rule: rtranclp_induct) (auto intro: race_inv_step)

section \<open>Guarantees of a claim\<close>

text \<open>
  C9: a claim that the caller owns (success, or an error that reports a committed claim) found the
  message in \<^verbatim>\<open>inbox/new\<close>, found its name free in \<^verbatim>\<open>inbox/cur\<close> and moved it there
  unchanged; any other claim left the message and every other node where they were.
\<close>

theorem claim_moves_whole_message:
  assumes "\<forall>m. map_of (fs w) (new_msg a fn) \<noteq> Some (Dir m)"
    and "map_of (fs w) p = Some n"
  shows "map_of (fs (snd (MoveNewToCur r a fn w))) p =
     (if claimed (fst (MoveNewToCur r a fn w)) \<and> p = new_msg a fn then None else Some n) \<and>
     (claimed (fst (MoveNewToCur r a fn w)) \<longrightarrow>
        map_of (fs w) (new_msg a fn) \<noteq> None \<and> map_of (fs w) (cur_msg a fn) = None \<and>
        map_of (fs (snd (MoveNewToCur r a fn w))) (cur_msg a fn) = map_of (fs w) (new_msg a fn))"
proof -
  have "claim_post (map_of (fs w)) (new_msg a fn) (cur_msg a fn)
      (fst (MoveNewToCur r a fn w)) (fs (snd (MoveNewToCur r a fn w)))"
    by (rule triple_run [OF MoveNewToCur_spec [of "map_of (fs w)" a fn, OF assms(1)]]) (rule dirs.refl)
  from claim_post_kept [OF this assms(2)] claim_postD(2) [OF this] show ?thesis by simp
qed

abbreviation one_new :: fs where
  "one_new \<equiv> [([''agents''], Dir 448), ([''agents'', ''a''], Dir 448), ([''agents'', ''a'', ''inbox''], Dir 448),
     (inbox_new ''a'', Dir 448), (new_msg ''a'' ''m.md'', Reg ''hi'')]"

theorem claim_moves_whole_message_witness:
  "map_of (fs (snd (MoveNewToCur root7 ''a'' ''m.md'' (calm one_new)))) (new_msg ''a'' ''m.md'') = None \<and>
   map_of (fs (snd (MoveNewToCur root7 ''a'' ''m.md'' (calm one_new)))) (cur_msg ''a'' ''m.md'') = Some (Reg ''hi'')"
proof -
  have c: "claimed (fst (MoveNewToCur root7 ''a'' ''m.md'' (calm one_new)))" by code_simp
  have m: "map_of (fs (calm one_new)) (new_msg ''a'' ''m.md'') = Some (Reg ''hi'')" by code_simp
  then have "\<forall>k. map_of (fs (calm one_new)) (new_msg ''a'' ''m.md'') \<noteq> Some (Dir k)" by simp
  from claim_moves_whole_message [OF this m, of root7] c m show ?thesis by simp
qed

text \<open>
  Of any number of consumers that claim the same message in turn, at most one owns it, and
  then the message is in \<^verbatim>\<open>inbox/cur\<close> with the content it had in \<^verbatim>\<open>inbox/new\<close>.
\<close>

lemma claims_at_most_one:
  assumes "\<forall>m. map_of (fs w) (new_msg a fn) \<noteq> Some (Dir m)"
  shows "length (filter claimed (fst (claims rs a fn w))) \<le> 1 \<and>
     (filter claimed (fst (claims rs a fn w)) \<noteq> [] \<longrightarrow>
        map_of (fs (snd (claims rs a fn w))) (cur_msg a fn) = map_of (fs w) (new_msg a fn))"
  using triple_run [OF claims_spec [of "map_of (fs w)" a fn, OF assms] dirs.refl] by simp

text \<open>
  In every interleaving of any number of consumers' claim renames with deliveries (also of the same
  name) and directory creation, at most one consumer wins the message.
\<close>

lemma race_at_most_one_winner:
  assumes "(race_step (new_msg a fn) (cur_msg a fn))\<^sup>*\<^sup>* \<lparr>rfs = f, winners = {}, losers = {}\<rparr> s"
    and "\<forall>m. map_of f (new_msg a fn) \<noteq> Some (Dir m)"
  shows "finite (winners s) \<and> card (winners s) \<le> 1"
proof -
  have "race_inv (new_msg a fn) (cur_msg a fn) \<lparr>rfs = f, winners = {}, losers = {}\<rparr>"
    using assms(2) by (simp add: race_inv_def)
  then show ?thesis
    using race_reachable [OF assms(1)] by (simp add: race_inv_def)
qed

end
