(* ===== verification/Mailbox.thy ===== *)
theory Mailbox
  imports Maildir Claim
begin

text \<open>
  What a mailbox promises, apart from its files: every agent has messages that wait and messages that
  were taken, a delivery adds waiting messages, a claim takes one. The file operations of
  \<^verbatim>\<open>DeliverToInboxes\<close> and \<^verbatim>\<open>MoveNewToCur\<close> implement it under every schedule of faults,
  so what follows from the specification holds of every sequence of deliveries and claims.
\<close>

section \<open>The specification\<close>

text \<open>The waiting and the taken messages of every agent, by file name.\<close>

record mailboxes =
  unread :: "string \<Rightarrow> string \<Rightarrow> node option"
  taken :: "string \<Rightarrow> string \<Rightarrow> node option"

datatype mail_op =
    Deliver (op_root: droot) (op_rcps: "string list") (op_file: string) (op_data: bytes)
  | Take (op_root: droot) (op_agent: string) (op_file: string)

datatype mail_result = Delivered "goerr + (string \<times> path) list" | Taken "goerr + unit"

definition put_mail :: "string list \<Rightarrow> string \<Rightarrow> bytes \<Rightarrow> mailboxes \<Rightarrow> mailboxes" where
  "put_mail rcps fn d m =
     m\<lparr>unread := (\<lambda>a f. if f = fn \<and> a \<in> set rcps then Some (Reg d) else unread m a f)\<rparr>"

definition take_mail :: "string \<Rightarrow> string \<Rightarrow> mailboxes \<Rightarrow> mailboxes" where
  "take_mail a fn m =
     m\<lparr>unread := (unread m)(a := (unread m a)(fn := None)),
       taken := (taken m)(a := (taken m a)(fn := unread m a fn))\<rparr>"

text \<open>
  A step of the specification with the result the caller sees: a delivery replaces no message; a claim
  takes a waiting message, and only if none of its name was taken before.
\<close>

inductive mail_step :: "mail_op \<Rightarrow> mail_result \<Rightarrow> mailboxes \<Rightarrow> mailboxes \<Rightarrow> bool" where
  deliver: "\<forall>a \<in> set (reported rcps x). unread m a fn \<in> {None, Some (Reg d)} \<Longrightarrow>
    mail_step (Deliver r rcps fn d) (Delivered x) m (put_mail (reported rcps x) fn d m)"
| take_one: "claimed x \<Longrightarrow> unread m a fn \<noteq> None \<Longrightarrow> taken m a fn = None \<Longrightarrow>
    mail_step (Take r a fn) (Taken x) m (take_mail a fn m)"
| take_none: "\<not> claimed x \<Longrightarrow> mail_step (Take r a fn) (Taken x) m m"

inductive_cases mail_stepE: "mail_step a x m m'"

section \<open>Refinement of a specification by operations\<close>

text \<open>Operations in sequence, with their results; and the same on the side of the specification.\<close>

primrec runs :: "('a \<Rightarrow> 's \<Rightarrow> 'x \<times> 's) \<Rightarrow> 'a list \<Rightarrow> 's \<Rightarrow> 'x list \<times> 's" where
  "runs exec [] s = ([], s)"
| "runs exec (a # as) s =
     (let (x, s1) = exec a s; (xs, s2) = runs exec as s1 in (x # xs, s2))"

inductive spec_runs :: "('a \<Rightarrow> 'x \<Rightarrow> 'm \<Rightarrow> 'm \<Rightarrow> bool) \<Rightarrow> 'a list \<Rightarrow> 'x list \<Rightarrow> 'm \<Rightarrow> 'm \<Rightarrow> bool"
  for spec where
  empty: "spec_runs spec [] [] m m"
| step: "spec a x m m1 \<Longrightarrow> spec_runs spec as xs m1 m2 \<Longrightarrow> spec_runs spec (a # as) (x # xs) m m2"

text \<open>
  Operations on a state implement a specification if every one keeps the invariant and, seen through the
  abstraction, makes a step of the specification with the result it returns.
\<close>

locale implements =
  fixes exec :: "'a \<Rightarrow> 's \<Rightarrow> 'x \<times> 's"
    and view :: "'s \<Rightarrow> 'm"
    and wf :: "'s \<Rightarrow> bool"
    and spec :: "'a \<Rightarrow> 'x \<Rightarrow> 'm \<Rightarrow> 'm \<Rightarrow> bool"
  assumes exec_wf: "wf s \<Longrightarrow> wf (snd (exec a s))"
    and exec_spec: "wf s \<Longrightarrow> spec a (fst (exec a s)) (view s) (view (snd (exec a s)))"
begin

lemma runs_spec: "wf s \<Longrightarrow> spec_runs spec as (fst (runs exec as s)) (view s) (view (snd (runs exec as s)))"
proof (induction as arbitrary: s)
  case (Cons a as)
  show ?case
    using Cons.IH [OF exec_wf [OF Cons.prems, of a]] exec_spec [OF Cons.prems, of a]
    by (auto simp: case_prod_beta Let_def intro: spec_runs.step)
qed (simp add: spec_runs.empty)

lemma runs_wf: "wf s \<Longrightarrow> wf (snd (runs exec as s))"
  by (induction as arbitrary: s) (auto simp: case_prod_beta Let_def exec_wf)

lemma runs_invariant:
  assumes "wf s" and "Q (view s)"
    and "\<And>a x m m'. spec a x m m' \<Longrightarrow> Q m \<Longrightarrow> Q m'"
  shows "Q (view (snd (runs exec as s)))"
proof -
  have "spec_runs spec as xs m m' \<Longrightarrow> Q m \<Longrightarrow> Q m'" for xs m m'
    by (induction rule: spec_runs.induct) (auto dest: assms(3))
  with runs_spec [OF assms(1)] assms(2) show ?thesis by blast
qed

end

section \<open>The files implement the mailboxes\<close>

definition mail_exec :: "mail_op \<Rightarrow> mail_result io" where
  "mail_exec a = (case a of
       Deliver r rcps fn d \<Rightarrow> bind (DeliverToInboxes r rcps fn d) (\<lambda>x. ret (Delivered x))
     | Take r agent fn \<Rightarrow> bind (MoveNewToCur r agent fn) (\<lambda>x. ret (Taken x)))"

definition mail_view :: "fs \<Rightarrow> mailboxes" where
  "mail_view f = \<lparr>unread = (\<lambda>a fn. map_of f (new_msg a fn)), taken = (\<lambda>a fn. map_of f (cur_msg a fn))\<rparr>"

text \<open>No directory stands where a message is expected.\<close>

definition mail_wf :: "fs \<Rightarrow> bool" where
  "mail_wf f \<longleftrightarrow> (\<forall>p \<in> set (map fst f). 4 < length p \<longrightarrow> (case map_of f p of Some (Dir _) \<Rightarrow> False | _ \<Rightarrow> True))"

lemma mail_wf_iff: "mail_wf f \<longleftrightarrow> (\<forall>p m. 4 < length p \<longrightarrow> map_of f p \<noteq> Some (Dir m))"
proof -
  have "p \<in> fst ` set f" if "map_of f p = Some n" for p n
    using that by (force dest: map_of_SomeD)
  then show ?thesis
    by (fastforce simp: mail_wf_def split: option.splits node.splits)
qed

lemma mail_exec_simps:
  "mail_exec (Deliver r rcps fn d) w =
     (Delivered (fst (DeliverToInboxes r rcps fn d w)), snd (DeliverToInboxes r rcps fn d w))"
  "mail_exec (Take r agent fn) w =
     (Taken (fst (MoveNewToCur r agent fn w)), snd (MoveNewToCur r agent fn w))"
  by (simp_all add: mail_exec_def bind_def ret_def case_prod_beta)

lemma published_wf:
  assumes "published (map_of f) fn d rcps (map_of f')" and "mail_wf f"
  shows "mail_wf f'"
  unfolding mail_wf_iff
proof (intro allI impI)
  fix p m assume p: "4 < length (p :: path)"
  show "map_of f' p \<noteq> Some (Dir m)"
  proof (cases "map_of f p")
    case None
    then show ?thesis using publishedD [OF assms(1) None] p by auto
  next
    case (Some n)
    then show ?thesis using assms p by (auto simp: published_def mail_wf_iff dest: delivered_only_old)
  qed
qed

lemma published_step:
  assumes "published (map_of f) fn d (reported rcps x) (map_of f')"
  shows "mail_step (Deliver r rcps fn d) (Delivered x) (mail_view f) (mail_view f')"
proof -
  have kept: "map_of f' p = Some n" if "map_of f p = Some n" for p n
    using assms that by (auto simp: published_def dest: delivered_only_old)
  have at: "map_of f' (new_msg a fn) = Some (Reg d)" if "a \<in> set (reported rcps x)" for a
    using assms that by (simp add: published_def)
  have free: "\<forall>a \<in> set (reported rcps x). unread (mail_view f) a fn \<in> {None, Some (Reg d)}"
  proof
    fix a assume "a \<in> set (reported rcps x)"
    then show "unread (mail_view f) a fn \<in> {None, Some (Reg d)}"
      using at kept by (cases "map_of f (new_msg a fn)") (force simp: mail_view_def)+
  qed
  have same: "map_of f' p = map_of f p" if "4 < length p" "\<forall>a \<in> set (reported rcps x). p \<noteq> new_msg a fn"
    "\<forall>a c. p \<noteq> inbox_tmp a @ [c]" for p
    using that kept publishedD [OF assms, of p] by (cases "map_of f p"; cases "map_of f' p") auto
  have "mail_view f' = put_mail (reported rcps x) fn d (mail_view f)"
    by (auto simp: mail_view_def put_mail_def at intro!: ext same)
  with mail_step.deliver [OF free, of r] show ?thesis by simp
qed

lemma claim_step:
  assumes "claim_post (map_of f) (new_msg a fn) (cur_msg a fn) x f'"
  shows "mail_step (Take r a fn) (Taken x) (mail_view f) (mail_view f')"
proof (cases "claimed x")
  case True
  with assms obtain h n where h: "with_dirs (map_of f) h" "map_of f (new_msg a fn) = Some n" "map_of f (cur_msg a fn) = None"
      "map_of f' = h(new_msg a fn := None, cur_msg a fn \<mapsto> n)"
    by (auto simp: claim_post_def)
  have "mail_view f' = take_mail a fn (mail_view f)"
    using h by (auto simp: mail_view_def take_mail_def fun_eq_iff with_dirs_deep)
  with mail_step.take_one [of x "mail_view f" a fn r] True h show ?thesis by (simp add: mail_view_def)
next
  case False
  with assms have "with_dirs (map_of f) (map_of f')" by (simp add: claim_post_def)
  then have "mail_view f' = mail_view f" by (simp add: mail_view_def with_dirs_deep)
  with mail_step.take_none [OF False] show ?thesis by simp
qed

lemma claim_wf:
  assumes "claim_post (map_of f) (new_msg a fn) (cur_msg a fn) x f'" and "mail_wf f"
  shows "mail_wf f'"
proof -
  from assms(1) obtain h where h: "with_dirs (map_of f) h" "map_of f' = h \<or>
      (\<exists>n. map_of f (new_msg a fn) = Some n \<and> map_of f' = h(new_msg a fn := None, cur_msg a fn \<mapsto> n))"
    by (auto simp: claim_post_def split: if_splits)
  moreover have "h p = map_of f p" if "4 < length p" for p using h(1) that by (rule with_dirs_deep)
  moreover have "map_of f (new_msg a fn) \<noteq> Some (Dir m)" for m using assms(2) by (simp add: mail_wf_iff)
  ultimately show ?thesis using assms(2) unfolding mail_wf_iff by (auto split: if_splits)
qed

lemma MoveNewToCur_post:
  assumes "mail_wf (fs w)"
  shows "claim_post (map_of (fs w)) (new_msg a fn) (cur_msg a fn) (fst (MoveNewToCur r a fn w)) (fs (snd (MoveNewToCur r a fn w)))"
  by (rule triple_run [OF MoveNewToCur_spec]) (use assms in \<open>auto simp: mail_wf_iff dirs.refl\<close>)

interpretation mail: implements mail_exec "\<lambda>w. mail_view (fs w)" "\<lambda>w. mail_wf (fs w)" mail_step
proof unfold_locales
  fix a and w :: world assume "mail_wf (fs w)"
  then show "mail_wf (fs (snd (mail_exec a w)))"
    by (cases a) (auto simp: mail_exec_simps intro: published_wf DeliverToInboxes_published claim_wf MoveNewToCur_post)
  show "mail_step a (fst (mail_exec a w)) (mail_view (fs w)) (mail_view (fs (snd (mail_exec a w))))"
    using \<open>mail_wf (fs w)\<close>
    by (cases a) (auto simp: mail_exec_simps intro: published_step DeliverToInboxes_published claim_step MoveNewToCur_post)
qed

section \<open>What follows for every sequence of operations\<close>

text \<open>A message an agent has, waiting or taken.\<close>

definition holds_mail :: "string \<Rightarrow> string \<Rightarrow> node \<Rightarrow> mailboxes \<Rightarrow> bool" where
  "holds_mail a fn n m \<longleftrightarrow> unread m a fn = Some n \<or> taken m a fn = Some n"

lemma mail_step_holds: "mail_step b x m m' \<Longrightarrow> holds_mail a fn n m \<Longrightarrow> holds_mail a fn n m'"
  by (cases rule: mail_step.cases, assumption) (auto simp: holds_mail_def put_mail_def take_mail_def)

text \<open>The successful claims of a message in a history.\<close>

fun took :: "string \<Rightarrow> string \<Rightarrow> mail_op \<times> mail_result \<Rightarrow> bool" where
  "took a fn (Take r b f, Taken x) = (b = a \<and> f = fn \<and> claimed x)"
| "took a fn _ = False"

lemma mail_step_took:
  "mail_step b x m m' \<Longrightarrow> took a fn (b, x) \<Longrightarrow> taken m a fn = None \<and> taken m' a fn \<noteq> None"
  by (cases rule: mail_step.cases, assumption) (auto simp: take_mail_def)

lemma mail_step_taken: "mail_step b x m m' \<Longrightarrow> taken m a fn \<noteq> None \<Longrightarrow> taken m' a fn = taken m a fn"
  by (cases rule: mail_step.cases, assumption) (auto simp: put_mail_def take_mail_def)

lemma spec_took_none:
  "spec_runs mail_step as xs m m' \<Longrightarrow> taken m a fn \<noteq> None \<Longrightarrow> filter (took a fn) (zip as xs) = []"
  by (induction rule: spec_runs.induct) (auto dest: mail_step_took simp: mail_step_taken)

lemma spec_took_once:
  "spec_runs mail_step as xs m m' \<Longrightarrow> length (filter (took a fn) (zip as xs)) \<le> 1"
  by (induction rule: spec_runs.induct) (auto dest: mail_step_took spec_took_none)

text \<open>A delivery, a claim, a second claim, the message delivered again and a third claim.\<close>

definition story :: "mail_op list" where
  "story = [Deliver root7 [''a''] ''m.md'' ''hi'', Take root7 ''a'' ''m.md'', Take root7 ''a'' ''m.md'',
     Deliver root7 [''a''] ''m.md'' ''hi'', Take root7 ''a'' ''m.md'']"

lemma calm_wf: "mail_wf (fs (calm []))"
  by (simp add: mail_wf_def calm_def)

text \<open>
  C1: deliveries and claims implement the mailbox specification: whatever calls fail and wherever a process
  dies, every sequence of them, with the results its callers saw, is a sequence of the steps that add
  waiting messages to the recipients the result names and take a waiting message for one claimant.
\<close>

theorem mailbox_refinement:
  assumes "mail_wf (fs w)"
  shows "spec_runs mail_step ops (fst (runs mail_exec ops w)) (mail_view (fs w))
     (mail_view (fs (snd (runs mail_exec ops w))))"
  using assms by (rule mail.runs_spec)

theorem mailbox_refinement_witness:
  "spec_runs mail_step story (fst (runs mail_exec story (calm []))) (mail_view (fs (calm [])))
     (mail_view (fs (snd (runs mail_exec story (calm [])))))"
  by (rule mailbox_refinement [OF calm_wf])

text \<open>
  C2: a message reported as delivered to a recipient is not lost: after any later deliveries and claims, with
  any faults, its bytes are in the recipient's \<^verbatim>\<open>inbox/new\<close> or \<^verbatim>\<open>inbox/cur\<close> under its name.
\<close>

theorem delivered_never_lost:
  assumes "mail_wf (fs w)" and "a \<in> set (reported rcps (fst (DeliverToInboxes r rcps fn d w)))"
    and "w' = snd (runs mail_exec ops (snd (DeliverToInboxes r rcps fn d w)))"
  shows "map_of (fs w') (new_msg a fn) = Some (Reg d) \<or> map_of (fs w') (cur_msg a fn) = Some (Reg d)"
proof -
  let ?w = "snd (DeliverToInboxes r rcps fn d w)"
  note pub = DeliverToInboxes_published [of w fn d rcps r]
  have "holds_mail a fn (Reg d) (mail_view (fs w'))"
    unfolding assms(3)
  proof (rule mail.runs_invariant)
    show "mail_wf (fs ?w)" using published_wf [OF pub assms(1)] .
    show "holds_mail a fn (Reg d) (mail_view (fs ?w))"
      using pub assms(2) by (simp add: holds_mail_def mail_view_def published_def)
  qed (rule mail_step_holds)
  then show ?thesis by (simp add: holds_mail_def mail_view_def)
qed

theorem delivered_never_lost_witness:
  "map_of (fs (snd (runs mail_exec story (snd (DeliverToInboxes root7 [''a''] ''m.md'' ''hi'' (calm [])))))) (new_msg ''a'' ''m.md'')
     = Some (Reg ''hi'') \<or>
   map_of (fs (snd (runs mail_exec story (snd (DeliverToInboxes root7 [''a''] ''m.md'' ''hi'' (calm [])))))) (cur_msg ''a'' ''m.md'')
     = Some (Reg ''hi'')"
proof -
  have "''a'' \<in> set (reported [''a''] (fst (DeliverToInboxes root7 [''a''] ''m.md'' ''hi'' (calm []))))"
    by code_simp
  from delivered_never_lost [OF calm_wf this refl] show ?thesis .
qed

text \<open>
  C3: a message name is handed out once: in every sequence of deliveries, repeated deliveries and claims by
  any number of consumers, with any faults, at most one claim of it owns the message.
\<close>

theorem name_taken_once:
  assumes "mail_wf (fs w)"
  shows "length (filter (took a fn) (zip ops (fst (runs mail_exec ops w)))) \<le> 1"
  using mail.runs_spec [OF assms] by (rule spec_took_once)

theorem name_taken_once_witness:
  "length (filter (took ''a'' ''m.md'') (zip story (fst (runs mail_exec story (calm []))))) \<le> 1"
  by (rule name_taken_once [OF calm_wf])

end
