(* ===== verification/Json_String.thy ===== *)
theory Json_String
  imports Amq_Prelude
begin

text \<open>
  Strings in the package \<^verbatim>\<open>encoding/json\<close> (Go's standard library), which every durable
  record of the queue goes through: UTF-8 runes, the escaping of \<^verbatim>\<open>json.Marshal\<close> (with its HTML
  escaping and the replacement of invalid UTF-8) and the unquoting of \<^verbatim>\<open>json.Unmarshal\<close>.
\<close>

section \<open>UTF-8\<close>

definition code :: "char \<Rightarrow> nat" where
  "code c = of_char c"

definition contByte :: "char \<Rightarrow> bool" where
  "contByte c \<longleftrightarrow> 128 \<le> code c \<and> code c < 192"

text \<open>The well-formed sequences of two, three and four bytes.\<close>

definition seq2 :: "char \<Rightarrow> char \<Rightarrow> bool" where
  "seq2 a b \<longleftrightarrow> 194 \<le> code a \<and> code a < 224 \<and> contByte b"

definition seq3 :: "char \<Rightarrow> char \<Rightarrow> char \<Rightarrow> bool" where
  "seq3 a b c \<longleftrightarrow> 224 \<le> code a \<and> code a < 240
     \<and> (if code a = 224 then 160 else 128) \<le> code b \<and> code b \<le> (if code a = 237 then 159 else 191) \<and> contByte c"

definition seq4 :: "char \<Rightarrow> char \<Rightarrow> char \<Rightarrow> char \<Rightarrow> bool" where
  "seq4 a b c d \<longleftrightarrow> 240 \<le> code a \<and> code a < 245
     \<and> (if code a = 240 then 144 else 128) \<le> code b \<and> code b \<le> (if code a = 244 then 143 else 191)
     \<and> contByte c \<and> contByte d"

text \<open>\<^verbatim>\<open>utf8.DecodeRune\<close>: the length of the rune at the head, 0 where the bytes are invalid.\<close>

fun rune_len :: "bytes \<Rightarrow> nat" where
  "rune_len [] = 0"
| "rune_len (a # s) =
     (if code a < 128 then 1
      else if (case s of b # _ \<Rightarrow> seq2 a b | _ \<Rightarrow> False) then 2
      else if (case s of b # c # _ \<Rightarrow> seq3 a b c | _ \<Rightarrow> False) then 3
      else if (case s of b # c # d # _ \<Rightarrow> seq4 a b c d | _ \<Rightarrow> False) then 4
      else 0)"

declare rune_len.simps [simp del]

definition ch :: "nat \<Rightarrow> char" where
  "ch n = char_of n"

text \<open>\<^verbatim>\<open>utf8.AppendRune\<close> for a code point below \<^verbatim>\<open>0x200000\<close>.\<close>

definition encode_rune :: "nat \<Rightarrow> bytes" where
  "encode_rune u =
     (if u < 128 then [ch u]
      else if u < 2048 then [ch (192 + u div 64), ch (128 + u mod 64)]
      else if u < 65536 then [ch (224 + u div 4096), ch (128 + u div 64 mod 64), ch (128 + u mod 64)]
      else [ch (240 + u div 262144), ch (128 + u div 4096 mod 64), ch (128 + u div 64 mod 64), ch (128 + u mod 64)])"

definition replacement :: bytes where
  "replacement = encode_rune 65533"

function valid_utf8 :: "bytes \<Rightarrow> bool" where
  "valid_utf8 s =
     (if s = [] then True else if rune_len s = 0 then False else valid_utf8 (drop (rune_len s) s))"
  by pat_completeness auto
termination by (relation "measure length") auto

declare valid_utf8.simps [simp del]

section \<open>Marshal: appendString with HTML escaping\<close>

definition hex4 :: "nat \<Rightarrow> string" where
  "hex4 n = [hex_digit (n div 4096 mod 16), hex_digit (n div 256 mod 16), hex_digit (n div 16 mod 16), hex_digit (n mod 16)]"

definition esc_u :: "nat \<Rightarrow> string" where
  "esc_u n = CHR 0x5C # CHR ''u'' # hex4 n"

definition esc_char :: "char \<Rightarrow> string" where
  "esc_char c =
     (if c = CHR 0x5C \<or> c = CHR 0x22 then [CHR 0x5C, c]
      else if c = CHR 0x08 then [CHR 0x5C, CHR ''b'']
      else if c = CHR 0x0C then [CHR 0x5C, CHR ''f'']
      else if c = CHR 0x0A then [CHR 0x5C, CHR ''n'']
      else if c = CHR 0x0D then [CHR 0x5C, CHR ''r'']
      else if c = CHR 0x09 then [CHR 0x5C, CHR ''t'']
      else if code c < 32 \<or> c = CHR ''<'' \<or> c = CHR ''>'' \<or> c = CHR ''&'' then esc_u (code c)
      else [c])"

definition line_sep :: bytes where "line_sep = encode_rune 8232"
definition para_sep :: bytes where "para_sep = encode_rune 8233"

function esc :: "bytes \<Rightarrow> bytes" where
  "esc [] = []"
| "esc (c # s) =
     (if code c < 128 then esc_char c @ esc s
      else
        (let n = rune_len (c # s) in
         if n = 0 then esc_u 65533 @ esc s
         else (if take n (c # s) = line_sep then esc_u 8232
               else if take n (c # s) = para_sep then esc_u 8233
               else take n (c # s))
              @ esc (drop n (c # s))))"
  by pat_completeness auto
termination by (relation "measure length") auto

definition quote :: "string \<Rightarrow> bytes" where
  "quote s = CHR 0x22 # esc s @ [CHR 0x22]"

section \<open>Unmarshal: unquote\<close>

definition hex_val :: "char \<Rightarrow> nat option" where
  "hex_val c =
     (if is_digit c then Some (code c - 48)
      else if CHR ''a'' \<le> c \<and> c \<le> CHR ''f'' then Some (code c - 87)
      else if CHR ''A'' \<le> c \<and> c \<le> CHR ''F'' then Some (code c - 55)
      else None)"

fun getu4 :: "bytes \<Rightarrow> (nat \<times> bytes) option" where
  "getu4 (a # b # c # d # s) =
     (case (hex_val a, hex_val b, hex_val c, hex_val d) of
        (Some w, Some x, Some y, Some z) \<Rightarrow> Some (((w * 16 + x) * 16 + y) * 16 + z, s)
      | _ \<Rightarrow> None)"
| "getu4 _ = None"

text \<open>\<^verbatim>\<open>utf16.DecodeRune\<close>.\<close>

definition decode_pair :: "nat \<Rightarrow> nat \<Rightarrow> nat" where
  "decode_pair u l = (u - 55296) * 1024 + (l - 56320) + 65536"

text \<open>A \<^verbatim>\<open>\\u\<close> escape after its \<open>u\<close>: one code unit, or a surrogate pair; a lone surrogate is replaced.\<close>

definition unescape_u :: "bytes \<Rightarrow> (bytes \<times> bytes) option" where
  "unescape_u s =
     (case getu4 s of
        None \<Rightarrow> None
      | Some (u, r) \<Rightarrow>
          (if 55296 \<le> u \<and> u < 57344 then
             (case r of
                b # v # r1 \<Rightarrow>
                  (if b = CHR 0x5C \<and> v = CHR ''u'' then
                     (case getu4 r1 of
                        Some (l, r2) \<Rightarrow>
                          (if u < 56320 \<and> 56320 \<le> l \<and> l < 57344
                           then Some (encode_rune (decode_pair u l), r2)
                           else Some (replacement, r))
                      | None \<Rightarrow> Some (replacement, r))
                   else Some (replacement, r))
              | _ \<Rightarrow> Some (replacement, r))
           else Some (encode_rune u, r)))"

definition unescape_short :: "char \<Rightarrow> char option" where
  "unescape_short e =
     (if e = CHR 0x22 \<or> e = CHR 0x5C \<or> e = CHR ''/'' then Some e
      else if e = CHR ''b'' then Some (CHR 0x08)
      else if e = CHR ''f'' then Some (CHR 0x0C)
      else if e = CHR ''n'' then Some (CHR 0x0A)
      else if e = CHR ''r'' then Some (CHR 0x0D)
      else if e = CHR ''t'' then Some (CHR 0x09)
      else None)"

definition unescape :: "bytes \<Rightarrow> (bytes \<times> bytes) option" where
  "unescape s =
     (case s of
        [] \<Rightarrow> None
      | e # r \<Rightarrow>
          (if e = CHR ''u'' then unescape_u r
           else case unescape_short e of None \<Rightarrow> None | Some c \<Rightarrow> Some ([c], r)))"

lemma getu4_length: "getu4 s = Some (u, r) \<Longrightarrow> length r < length s"
  by (induction s rule: getu4.induct) (auto split: option.splits)

lemma unescape_length: "unescape s = Some (x, r) \<Longrightarrow> length r < length s"
  by (auto simp: unescape_def unescape_u_def dest!: getu4_length split: list.splits if_splits option.splits)

text \<open>The text after an opening quote: the string and what follows the closing quote.\<close>

function unquote :: "bytes \<Rightarrow> (bytes \<times> bytes) option" where
  "unquote [] = None"
| "unquote (c # s) =
     (if c = CHR 0x22 then Some ([], s)
      else if c = CHR 0x5C then
        (case unescape s of
           None \<Rightarrow> None
         | Some (x, r) \<Rightarrow> (case unquote r of None \<Rightarrow> None | Some (y, t) \<Rightarrow> Some (x @ y, t)))
      else if code c < 32 then None
      else
        (let n = rune_len (c # s) in
         if n = 0 then (case unquote s of None \<Rightarrow> None | Some (y, t) \<Rightarrow> Some (replacement @ y, t))
         else (case unquote (drop n (c # s)) of
                 None \<Rightarrow> None
               | Some (y, t) \<Rightarrow> Some (take n (c # s) @ y, t))))"
  by pat_completeness auto
termination
  by (relation "measure length") (auto dest: unescape_length)

declare unquote.simps(2) [simp del] esc.simps(2) [simp del]

section \<open>Round trip\<close>

lemma code_lt [simp]: "code c < 256"
  by (simp add: code_def nat_of_char_less_256)

lemma code_ch [simp]: "n < 256 \<Longrightarrow> code (ch n) = n"
  by (simp add: code_def ch_def)

lemma code_eq_iff [simp]: "code c = code d \<longleftrightarrow> c = d"
  by (simp add: code_def)

lemma code_le_char: "c \<le> d \<longleftrightarrow> code c \<le> code d"
  by (simp add: code_def less_eq_char_def)

lemma hex_val_digit [simp]: "n < 16 \<Longrightarrow> hex_val (hex_digit n) = Some n"
  by (auto simp: hex_val_def hex_digit_def is_digit_def code_def less_eq_char_def)

lemma hex_digits_sum:
  assumes "n < (65536 :: nat)"
  shows "((n div 4096 mod 16 * 16 + n div 256 mod 16) * 16 + n div 16 mod 16) * 16 + n mod 16 = n"
proof -
  have "n div 4096 = n div 256 div 16" and "n div 256 = n div 16 div 16"
    by (simp_all add: div_mult2_eq [symmetric])
  moreover have "n div 4096 mod 16 = n div 4096" using assms by simp
  ultimately have "n div 256 = 16 * (n div 4096 mod 16) + n div 256 mod 16"
    and "n div 16 = 16 * (n div 256) + n div 16 mod 16"
    using mult_div_mod_eq [of 16 "n div 256"] mult_div_mod_eq [of 16 "n div 16"] by linarith+
  then show ?thesis using mult_div_mod_eq [of 16 n] by (simp only: algebra_simps)
qed

lemma getu4_hex4: "n < 65536 \<Longrightarrow> getu4 (hex4 n @ s) = Some (n, s)"
  using hex_digits_sum [of n] by (simp add: hex4_def)

lemma unescape_esc_u:
  "n < 65536 \<Longrightarrow> \<not> (55296 \<le> n \<and> n < 57344) \<Longrightarrow> unescape (CHR ''u'' # hex4 n @ s) = Some (encode_rune n, s)"
  by (auto simp: unescape_def unescape_u_def getu4_hex4)

lemma unquote_esc_u:
  assumes "n < 65536" and "\<not> (55296 \<le> n \<and> n < 57344)" and "unquote s = Some (y, t)"
  shows "unquote (esc_u n @ s) = Some (encode_rune n @ y, t)"
  using unescape_esc_u [OF assms(1,2)] assms(3)
  by (simp add: esc_u_def unquote.simps(2) code_def)

lemma unquote_esc_char:
  assumes c: "code c < 128" and s: "unquote s = Some (y, t)"
  shows "unquote (esc_char c @ s) = Some (c # y, t)"
proof -
  have u: "unquote (esc_u (code c) @ s) = Some (c # y, t)"
    using unquote_esc_u [of "code c" s y t] c s by (simp add: encode_rune_def ch_def code_def)
  have plain: "unquote (c # s) = Some (c # y, t)" if "c \<noteq> CHR 0x22" "c \<noteq> CHR 0x5C" "\<not> code c < 32"
    using that c s by (simp add: unquote.simps(2) rune_len.simps Let_def)
  have short: "unquote (CHR 0x5C # e # s) = Some (d # y, t)"
    if "unescape_short e = Some d" "e \<noteq> CHR ''u''" for e d
    using that s by (simp add: unquote.simps(2) unescape_def)
  show ?thesis
    unfolding esc_char_def using u plain
    by (simp add: short unescape_short_def)
qed

lemma rune_len_cases:
  assumes "rune_len (a # s) = n" and "n \<noteq> 0"
  obtains "n = 1" "code a < 128"
    | b t where "n = 2" "\<not> code a < 128" "s = b # t" "seq2 a b"
    | b c t where "n = 3" "\<not> code a < 128" "s = b # c # t" "\<not> seq2 a b" "seq3 a b c"
    | b c d t where "n = 4" "\<not> code a < 128" "s = b # c # d # t" "\<not> seq2 a b" "\<not> seq3 a b c" "seq4 a b c d"
  using assms that by (auto simp: rune_len.simps split: if_splits list.splits)

lemma rune_len_prefix:
  assumes "rune_len (c # s) = n" and "n \<noteq> 0"
  shows "rune_len (take n (c # s) @ r) = n"
  using assms by (rule rune_len_cases) (simp_all add: rune_len.simps)

lemma rune_len_bound: "rune_len (c # s) = n \<Longrightarrow> n \<noteq> 0 \<Longrightarrow> n \<le> length (c # s)"
  by (erule rune_len_cases) simp_all

lemma unquote_copy:
  assumes "\<not> code c < 128" and "rune_len (c # s) = n" and "n \<noteq> 0" and "unquote r = Some (y, t)"
  shows "unquote (take n (c # s) @ r) = Some (take n (c # s) @ y, t)"
proof -
  obtain m where n: "n = Suc m" using assms(3) by (cases n) auto
  have ne: "c \<noteq> CHR 0x22" "c \<noteq> CHR 0x5C" "\<not> code c < 32"
    using assms(1) by (auto simp: code_def)
  have len: "rune_len (take n (c # s) @ r) = n"
    using assms(2,3) by (rule rune_len_prefix)
  have l: "length (take n (c # s)) = n"
    using rune_len_bound [OF assms(2,3)] by simp
  have "unquote (c # take m s @ r) = Some ((c # take m s) @ y, t)"
    using ne len l assms(4) by (subst unquote.simps(2)) (simp add: n Let_def)
  then show ?thesis by (simp add: n)
qed

lemma unquote_esc:
  assumes "valid_utf8 s"
  shows "unquote (esc s @ CHR 0x22 # r) = Some (s, r)"
  using assms
proof (induction s rule: esc.induct)
  case 1
  show ?case by (simp add: unquote.simps(2))
next
  case (2 c s)
  let ?n = "rune_len (c # s)" and ?r = "CHR 0x22 # r"
  from "2.prems" have n: "?n \<noteq> 0" and v: "valid_utf8 (drop ?n (c # s))"
    by (simp_all add: valid_utf8.simps [of "c # s"] split: if_splits)
  show ?case
  proof (cases "code c < 128")
    case True
    then have "?n = 1" by (simp add: rune_len.simps)
    with v have "valid_utf8 s" by simp
    with True 2 show ?thesis by (simp add: esc.simps(2) unquote_esc_char)
  next
    case False
    have rest: "unquote (esc (drop ?n (c # s)) @ ?r) = Some (drop ?n (c # s), r)"
      using "2.IH"(3) [OF False HOL.refl n v] .
    have whole: "take ?n (c # s) @ drop ?n (c # s) = c # s" by (rule append_take_drop_id)
    note u = unquote_esc_u [OF _ _ rest]
    have "unquote ((if take ?n (c # s) = line_sep then esc_u 8232
               else if take ?n (c # s) = para_sep then esc_u 8233
               else take ?n (c # s)) @ esc (drop ?n (c # s)) @ ?r) = Some (take ?n (c # s) @ drop ?n (c # s), r)"
      using u [of 8232] u [of 8233] unquote_copy [OF False HOL.refl n rest]
      by (simp add: line_sep_def para_sep_def del: append_take_drop_id)
    then show ?thesis
      using False n by (simp add: esc.simps(2) Let_def whole)
  qed
qed

section \<open>What escaped text contains\<close>

lemma code_hex_digit: "n < 16 \<Longrightarrow> 32 \<le> code (hex_digit n)"
  by (auto simp: hex_digit_def code_def)

lemma esc_u_printable: "\<forall>c \<in> set (esc_u n). 32 \<le> code c"
  by (simp add: esc_u_def hex4_def code_hex_digit) (simp add: code_def)

lemma esc_char_printable: "\<forall>d \<in> set (esc_char c). 32 \<le> code d"
proof -
  have "32 \<le> code (CHR 0x5C)" "32 \<le> code (CHR 0x22)" "32 \<le> code (CHR ''b'')" "32 \<le> code (CHR ''f'')"
    "32 \<le> code (CHR ''n'')" "32 \<le> code (CHR ''r'')" "32 \<le> code (CHR ''t'')"
    by (simp_all add: code_def)
  then show ?thesis
    using esc_u_printable [of "code c"] by (auto simp: esc_char_def split: if_splits)
qed

lemma rune_printable:
  assumes "rune_len (c # s) = n" and "n \<noteq> 0" and "\<not> code c < 128"
  shows "\<forall>d \<in> set (take n (c # s)). 32 \<le> code d"
  using assms(1,2) by (rule rune_len_cases)
    (use assms(3) in \<open>auto simp: seq2_def seq3_def seq4_def contByte_def split: if_splits\<close>)

lemma esc_printable: "\<forall>c \<in> set (esc s). 32 \<le> code c"
proof (induction s rule: esc.induct)
  case (2 c s)
  show ?case
  proof (cases "code c < 128 \<or> rune_len (c # s) = 0")
    case True
    with "2.IH"(1,2) show ?thesis
      using esc_char_printable [of c] esc_u_printable [of 65533] by (auto simp: esc.simps(2) Let_def)
  next
    case False
    then have "\<forall>d \<in> set (esc (drop (rune_len (c # s)) (c # s))). 32 \<le> code d"
      using "2.IH"(3) by blast
    with False show ?thesis
      using rune_printable [of c s "rune_len (c # s)"] esc_u_printable [of 8232] esc_u_printable [of 8233]
      by (auto simp: esc.simps(2) Let_def simp del: take_Suc_Cons)
  qed
qed simp

section \<open>Decoded text is valid UTF-8\<close>

lemma valid_append_rune:
  "x \<noteq> [] \<Longrightarrow> rune_len (x @ y) = length x \<Longrightarrow> valid_utf8 (x @ y) = valid_utf8 y"
  by (subst valid_utf8.simps) auto

lemma encode2: "128 \<le> u \<Longrightarrow> u < 2048 \<Longrightarrow> seq2 (ch (192 + u div 64)) (ch (128 + u mod 64))"
proof -
  assume u: "128 \<le> u" "u < 2048"
  then have "2 \<le> u div 64" "u div 64 < 32" "u mod 64 < 64" by auto
  then show ?thesis by (simp add: seq2_def contByte_def)
qed

lemma seq3I:
  "a < 16 \<Longrightarrow> b < 64 \<Longrightarrow> c < 64 \<Longrightarrow> (a = 0 \<Longrightarrow> 32 \<le> b) \<Longrightarrow> (a = 13 \<Longrightarrow> b < 32) \<Longrightarrow>
   seq3 (ch (224 + a)) (ch (128 + b)) (ch (128 + c))"
  by (auto simp: seq3_def contByte_def)

lemma seq4I:
  "a < 5 \<Longrightarrow> b < 64 \<Longrightarrow> c < 64 \<Longrightarrow> d < 64 \<Longrightarrow> (a = 0 \<Longrightarrow> 16 \<le> b) \<Longrightarrow> (a = 4 \<Longrightarrow> b < 16) \<Longrightarrow>
   seq4 (ch (240 + a)) (ch (128 + b)) (ch (128 + c)) (ch (128 + d))"
  by (auto simp: seq4_def contByte_def)

lemma encode3:
  assumes "2048 \<le> u" "u < 65536" "\<not> (55296 \<le> u \<and> u < 57344)"
  shows "seq3 (ch (224 + u div 4096)) (ch (128 + u div 64 mod 64)) (ch (128 + u mod 64))"
proof -
  have "u div 4096 < 16" using assms(2) by auto
  moreover have "u div 64 = 64 * (u div 4096) + u div 64 mod 64"
    using mult_div_mod_eq [of 64 "u div 64"] by (simp add: div_mult2_eq [symmetric])
  moreover have "u = 64 * (u div 64) + u mod 64" by simp
  moreover have "u mod 64 < 64" and "u div 64 mod 64 < 64" by simp_all
  moreover have "32 \<le> u div 64 mod 64" if "u div 4096 = 0" using calculation that assms(1) by linarith
  moreover have "u div 64 mod 64 < 32" if "u div 4096 = 13" using calculation that assms(3) by linarith
  ultimately show ?thesis by (intro seq3I)
qed

lemma encode4:
  assumes "65536 \<le> u" "u < 1114112"
  shows "seq4 (ch (240 + u div 262144)) (ch (128 + u div 4096 mod 64)) (ch (128 + u div 64 mod 64)) (ch (128 + u mod 64))"
proof -
  have "u div 262144 < 5" using assms(2) by auto
  moreover have "u div 4096 = 64 * (u div 262144) + u div 4096 mod 64"
    using mult_div_mod_eq [of 64 "u div 4096"] by (simp add: div_mult2_eq [symmetric])
  moreover have "16 \<le> u div 4096" and "u div 4096 < 272" using assms by auto
  moreover have "u mod 64 < 64" "u div 64 mod 64 < 64" "u div 4096 mod 64 < 64" by simp_all
  moreover have "16 \<le> u div 4096 mod 64" if "u div 262144 = 0" using calculation that by linarith
  moreover have "u div 4096 mod 64 < 16" if "u div 262144 = 4" using calculation that by linarith
  ultimately show ?thesis by (intro seq4I)
qed

lemma seq_ranges:
  "seq2 a b \<Longrightarrow> \<not> code a < 128" "seq3 a b c \<Longrightarrow> \<not> code a < 128 \<and> \<not> seq2 a b"
  "seq4 a b c d \<Longrightarrow> \<not> code a < 128 \<and> \<not> seq2 a b \<and> \<not> seq3 a b c"
  by (auto simp: seq2_def seq3_def seq4_def)

lemma encode_rune_valid:
  assumes "u < 1114112" "\<not> (55296 \<le> u \<and> u < 57344)"
  shows "valid_utf8 (encode_rune u @ y) = valid_utf8 y"
proof (rule valid_append_rune)
  show "encode_rune u \<noteq> []" by (simp add: encode_rune_def)
  consider "u < 128" | "128 \<le> u" "u < 2048" | "2048 \<le> u" "u < 65536" | "65536 \<le> u" by linarith
  then show "rune_len (encode_rune u @ y) = length (encode_rune u)"
  proof cases
    case 1
    then show ?thesis by (simp add: encode_rune_def rune_len.simps)
  next
    case 2
    with encode2 [of u] seq_ranges(1) [OF encode2 [of u]] show ?thesis
      by (simp add: encode_rune_def rune_len.simps)
  next
    case 3
    with encode3 [of u] assms seq_ranges(2) [OF encode3 [of u]] show ?thesis
      by (simp add: encode_rune_def rune_len.simps)
  next
    case 4
    with encode4 [of u] assms seq_ranges(3) [OF encode4 [of u]] show ?thesis
      by (simp add: encode_rune_def rune_len.simps)
  qed
qed

lemma replacement_valid: "valid_utf8 (replacement @ y) = valid_utf8 y"
  unfolding replacement_def by (rule encode_rune_valid) simp_all

lemma hex_val_bound: "hex_val c = Some n \<Longrightarrow> n < 16"
  by (auto simp: hex_val_def is_digit_def less_eq_char_def code_def split: if_splits)

lemma getu4_bound: "getu4 s = Some (u, r) \<Longrightarrow> u < 65536"
proof (induction s rule: getu4.induct)
  case (1 a b c d s)
  then obtain w x y z where "hex_val a = Some w" "hex_val b = Some x" "hex_val c = Some y" "hex_val d = Some z"
    and u: "u = ((w * 16 + x) * 16 + y) * 16 + z"
    by (auto split: option.splits)
  then have "w < 16" "x < 16" "y < 16" "z < 16" by (simp_all add: hex_val_bound)
  then show ?case unfolding u by simp
qed simp_all

lemma unescape_u_valid:
  assumes "unescape_u s = Some (x, r)"
  shows "valid_utf8 (x @ y) = valid_utf8 y"
proof -
  obtain u t where g: "getu4 s = Some (u, t)" using assms by (auto simp: unescape_u_def split: option.splits)
  show ?thesis
  proof (cases "55296 \<le> u \<and> u < 57344")
    case False
    with assms g getu4_bound [OF g] show ?thesis by (auto simp: unescape_u_def intro!: encode_rune_valid)
  next
    case True
    with assms g have "x = replacement \<or> (\<exists>l. u < 56320 \<and> l < 57344 \<and> x = encode_rune (decode_pair u l))"
      by (auto simp: unescape_u_def split: list.splits if_splits option.splits)
    moreover have "valid_utf8 (encode_rune (decode_pair u l) @ y) = valid_utf8 y" if "u < 56320" "l < 57344" for l
      by (rule encode_rune_valid) (use that in \<open>auto simp: decode_pair_def\<close>)
    ultimately show ?thesis by (auto simp: replacement_valid)
  qed
qed

lemma valid_ascii_Cons: "code c < 128 \<Longrightarrow> valid_utf8 (c # y) = valid_utf8 y"
  using valid_append_rune [of "[c]" y] by (simp add: rune_len.simps)

lemma unescape_valid:
  assumes "unescape s = Some (x, r)"
  shows "valid_utf8 (x @ y) = valid_utf8 y"
proof -
  have "valid_utf8 (c # y) = valid_utf8 y" if "unescape_short e = Some c" for e c
    using that by (intro valid_ascii_Cons) (auto simp: unescape_short_def code_def split: if_splits)
  with assms show ?thesis
    by (auto simp: unescape_def unescape_u_valid split: list.splits if_splits option.splits)
qed

lemma unquote_valid: "unquote s = Some (x, r) \<Longrightarrow> valid_utf8 x"
proof (induction s arbitrary: x r rule: unquote.induct)
  case (2 c s)
  consider "c = CHR 0x22" | "c = CHR 0x5C" | "c \<noteq> CHR 0x22" "c \<noteq> CHR 0x5C" by blast
  then show ?case
  proof cases
    case 1
    with "2.prems" show ?thesis by (simp add: unquote.simps(2) valid_utf8.simps)
  next
    case 2
    with "2.prems" obtain a t y where u: "unescape s = Some (a, t)" "unquote t = Some (y, r)" "x = a @ y"
      by (auto simp: unquote.simps(2) split: option.splits)
    with "2.IH"(1) [of "(a, t)" a t y r] 2 have "valid_utf8 y" by simp
    with u unescape_valid [OF u(1)] show ?thesis by simp
  next
    case 3
    let ?n = "rune_len (c # s)"
    from 3 "2.prems" have big: "\<not> code c < 32" by (auto simp: unquote.simps(2) split: if_splits)
    show ?thesis
    proof (cases "?n = 0")
      case True
      with 3 big "2.prems" obtain y where y: "unquote s = Some (y, r)" "x = replacement @ y"
        by (auto simp: unquote.simps(2) split: option.splits)
      with "2.IH"(2) [of ?n y r] 3 big True have "valid_utf8 y" by simp
      with y show ?thesis by (simp add: replacement_valid)
    next
      case False
      with 3 big "2.prems" obtain y where y: "unquote (drop ?n (c # s)) = Some (y, r)" "x = take ?n (c # s) @ y"
        by (auto simp: unquote.simps(2) Let_def split: option.splits)
      with "2.IH"(3) [of ?n y r] 3 big False have v: "valid_utf8 y" by simp
      have "length (take ?n (c # s)) = ?n" using rune_len_bound [OF HOL.refl False] by simp
      with rune_len_prefix [OF HOL.refl False, of y] have "valid_utf8 (take ?n (c # s) @ y) = valid_utf8 y"
        by (intro valid_append_rune) (use False in auto)
      with v y(2) show ?thesis by simp
    qed
  qed
qed simp

end
