(* ===== verification/Json.thy ===== *)
theory Json
  imports Json_String
begin

text \<open>
  JSON values as \<^verbatim>\<open>encoding/json\<close> writes and reads them: the layout of
  \<^verbatim>\<open>json.MarshalIndent(v, "", "  ")\<close>, a parser of the whole grammar (the nesting limit of 10000 is
  left out), the decoding of members into struct fields, and two contracts: a \<open>codec\<close> reads
  back what it wrote, and a \<open>frontmatter\<close> file puts such a header before an arbitrary body.
  The fuel of the parser is the length of its input, which the round trip shows to be enough.
\<close>

datatype json =
    JNull
  | JBool bool
  | JNum string
  | JStr string
  | JArr "json list"
  | JObj "(string \<times> json) list"

section \<open>MarshalIndent\<close>

definition nl :: "nat \<Rightarrow> bytes" where
  "nl i = CHR 0x0A # replicate (2 * i) (CHR '' '')"

fun pp :: "nat \<Rightarrow> json \<Rightarrow> bytes"
and pp_elems :: "nat \<Rightarrow> json list \<Rightarrow> bytes"
and pp_members :: "nat \<Rightarrow> (string \<times> json) list \<Rightarrow> bytes" where
  "pp i JNull = ''null''"
| "pp i (JBool b) = (if b then ''true'' else ''false'')"
| "pp i (JNum l) = l"
| "pp i (JStr s) = quote s"
| "pp i (JArr []) = ''[]''"
| "pp i (JArr (x # xs)) = CHR ''['' # nl (Suc i) @ pp_elems (Suc i) (x # xs) @ nl i @ '']''"
| "pp i (JObj []) = ''{}''"
| "pp i (JObj (m # ms)) = CHR ''{'' # nl (Suc i) @ pp_members (Suc i) (m # ms) @ nl i @ ''}''"
| "pp_elems i [] = []"
| "pp_elems i [x] = pp i x"
| "pp_elems i (x # y # xs) = pp i x @ CHR '','' # nl i @ pp_elems i (y # xs)"
| "pp_members i [] = []"
| "pp_members i [(k, v)] = quote k @ '': '' @ pp i v"
| "pp_members i ((k, v) # m # ms) = quote k @ '': '' @ pp i v @ CHR '','' # nl i @ pp_members i (m # ms)"

definition MarshalIndent :: "json \<Rightarrow> bytes" where
  "MarshalIndent j = pp 0 j"

section \<open>The parser\<close>

definition isWs :: "char \<Rightarrow> bool" where
  "isWs c \<longleftrightarrow> c = CHR '' '' \<or> c = CHR 0x09 \<or> c = CHR 0x0A \<or> c = CHR 0x0D"

definition skipWs :: "bytes \<Rightarrow> bytes" where
  "skipWs s = dropWhile isWs s"

definition scan_digits :: "bytes \<Rightarrow> (bytes \<times> bytes) option" where
  "scan_digits s =
     (let d = takeWhile is_digit s in if d = [] then None else Some (d, dropWhile is_digit s))"

definition scan_int :: "bytes \<Rightarrow> (bytes \<times> bytes) option" where
  "scan_int s =
     (case s of
        [] \<Rightarrow> None
      | c # t \<Rightarrow> (if c = CHR ''0'' then Some ([c], t) else scan_digits s))"

definition scan_frac :: "bytes \<Rightarrow> (bytes \<times> bytes) option" where
  "scan_frac s =
     (case s of
        [] \<Rightarrow> Some ([], s)
      | c # t \<Rightarrow>
          (if c = CHR ''.'' then map_option (\<lambda>(d, r). (c # d, r)) (scan_digits t) else Some ([], s)))"

definition scan_exp :: "bytes \<Rightarrow> (bytes \<times> bytes) option" where
  "scan_exp s =
     (case s of
        [] \<Rightarrow> Some ([], s)
      | c # t \<Rightarrow>
          (if c = CHR ''e'' \<or> c = CHR ''E'' then
             (case t of
                [] \<Rightarrow> None
              | g # u \<Rightarrow>
                  (if g = CHR ''+'' \<or> g = CHR ''-''
                   then map_option (\<lambda>(d, r). (c # g # d, r)) (scan_digits u)
                   else map_option (\<lambda>(d, r). (c # d, r)) (scan_digits t)))
           else Some ([], s)))"

definition scan_num :: "bytes \<Rightarrow> (bytes \<times> bytes) option" where
  "scan_num s =
     (let (sign, s1) = (case s of c # t \<Rightarrow> (if c = CHR ''-'' then ([c], t) else ([], s)) | [] \<Rightarrow> ([], s)) in
      case scan_int s1 of None \<Rightarrow> None | Some (i, s2) \<Rightarrow>
      case scan_frac s2 of None \<Rightarrow> None | Some (f, s3) \<Rightarrow>
      case scan_exp s3 of None \<Rightarrow> None | Some (e, s4) \<Rightarrow> Some (sign @ i @ f @ e, s4))"

definition scan_lit :: "bytes \<Rightarrow> json \<Rightarrow> bytes \<Rightarrow> (json \<times> bytes) option" where
  "scan_lit l v s = (if prefix l s then Some (v, drop (length l) s) else None)"

fun pv :: "nat \<Rightarrow> bytes \<Rightarrow> (json \<times> bytes) option"
and p_elems :: "nat \<Rightarrow> bytes \<Rightarrow> (json list \<times> bytes) option"
and p_members :: "nat \<Rightarrow> bytes \<Rightarrow> ((string \<times> json) list \<times> bytes) option" where
  "pv 0 s = None"
| "pv (Suc n) s =
     (case skipWs s of
        [] \<Rightarrow> None
      | c # t \<Rightarrow>
          (if c = CHR ''{'' then
             (if take 1 (skipWs t) = ''}'' then Some (JObj [], drop 1 (skipWs t))
              else map_option (\<lambda>(ms, r). (JObj ms, r)) (p_members n t))
           else if c = CHR ''['' then
             (if take 1 (skipWs t) = '']'' then Some (JArr [], drop 1 (skipWs t))
              else map_option (\<lambda>(vs, r). (JArr vs, r)) (p_elems n t))
           else if c = CHR 0x22 then map_option (\<lambda>(x, r). (JStr x, r)) (unquote t)
           else if c = CHR ''t'' then scan_lit ''true'' (JBool True) (c # t)
           else if c = CHR ''f'' then scan_lit ''false'' (JBool False) (c # t)
           else if c = CHR ''n'' then scan_lit ''null'' JNull (c # t)
           else map_option (\<lambda>(l, r). (JNum l, r)) (scan_num (c # t))))"
| "p_elems 0 s = None"
| "p_elems (Suc n) s =
     (case pv n s of
        None \<Rightarrow> None
      | Some (v, t) \<Rightarrow>
          (case skipWs t of
             [] \<Rightarrow> None
           | c # u \<Rightarrow>
               (if c = CHR '','' then map_option (\<lambda>(vs, r). (v # vs, r)) (p_elems n u)
                else if c = CHR '']'' then Some ([v], u)
                else None)))"
| "p_members 0 s = None"
| "p_members (Suc n) s =
     (case skipWs s of
        [] \<Rightarrow> None
      | q # s1 \<Rightarrow>
          (if q \<noteq> CHR 0x22 then None
           else case unquote s1 of
             None \<Rightarrow> None
           | Some (k, s2) \<Rightarrow>
               (case skipWs s2 of
                  [] \<Rightarrow> None
                | d # s3 \<Rightarrow>
                    (if d \<noteq> CHR '':'' then None
                     else case pv n s3 of
                       None \<Rightarrow> None
                     | Some (v, t) \<Rightarrow>
                         (case skipWs t of
                            [] \<Rightarrow> None
                          | c # u \<Rightarrow>
                              (if c = CHR '','' then map_option (\<lambda>(ms, r). ((k, v) # ms, r)) (p_members n u)
                               else if c = CHR ''}'' then Some ([(k, v)], u)
                               else None))))))"

definition parse_json :: "bytes \<Rightarrow> json option" where
  "parse_json s =
     (case pv (length s) s of
        Some (j, r) \<Rightarrow> (if skipWs r = [] then Some j else None)
      | None \<Rightarrow> None)"

section \<open>Unmarshal into struct fields\<close>

text \<open>A decoder of a field takes the member's value and the field's present value; \<^verbatim>\<open>null\<close> leaves it.\<close>

definition as_str :: "json \<Rightarrow> string \<Rightarrow> string option" where
  "as_str v old = (case v of JNull \<Rightarrow> Some old | JStr s \<Rightarrow> Some s | _ \<Rightarrow> None)"

definition as_bool :: "json \<Rightarrow> bool \<Rightarrow> bool option" where
  "as_bool v old = (case v of JNull \<Rightarrow> Some old | JBool b \<Rightarrow> Some b | _ \<Rightarrow> None)"

definition int64 :: "int \<Rightarrow> bool" where
  "int64 i \<longleftrightarrow> - (2 ^ 63) \<le> i \<and> i < 2 ^ 63"

text \<open>\<^verbatim>\<open>strconv.ParseInt(s, 10, 64)\<close> of a number literal.\<close>

definition parse_int :: "string \<Rightarrow> int option" where
  "parse_int l =
     (let d = (if hasPrefix l ''-'' then tl l else l);
          i = (if hasPrefix l ''-'' then - int (digits_val d) else int (digits_val d)) in
      if d \<noteq> [] \<and> list_all is_digit d \<and> int64 i then Some i else None)"

definition as_int :: "json \<Rightarrow> int \<Rightarrow> int option" where
  "as_int v old = (case v of JNull \<Rightarrow> Some old | JNum l \<Rightarrow> parse_int l | _ \<Rightarrow> None)"

text \<open>A string slice, which may be \<^verbatim>\<open>nil\<close>: its elements are decoded over those it already has, so a
  \<^verbatim>\<open>null\<close> element keeps the old one; \<^verbatim>\<open>null\<close> itself makes the slice \<^verbatim>\<open>nil\<close>.\<close>

fun str_elems :: "json list \<Rightarrow> string list \<Rightarrow> string list option" where
  "str_elems [] old = Some []"
| "str_elems (v # vs) old =
     (case as_str v (case old of [] \<Rightarrow> [] | s # _ \<Rightarrow> s) of
        None \<Rightarrow> None
      | Some s \<Rightarrow> map_option (Cons s) (str_elems vs (drop 1 old)))"

definition as_strs :: "json \<Rightarrow> string list option \<Rightarrow> string list option option" where
  "as_strs v old =
     (case v of
        JNull \<Rightarrow> Some None
      | JArr vs \<Rightarrow> map_option Some (str_elems vs (case old of None \<Rightarrow> [] | Some xs \<Rightarrow> xs))
      | _ \<Rightarrow> None)"

text \<open>What \<^verbatim>\<open>Marshal\<close> writes for a slice.\<close>

definition strs_json :: "string list option \<Rightarrow> json" where
  "strs_json xs = (case xs of None \<Rightarrow> JNull | Some ys \<Rightarrow> JArr (map JStr ys))"

text \<open>
  A member's key names the field with exactly that name or, failing that, the first one equal up to
  case. Members are stored in order, so later ones win; unknown keys are skipped.
\<close>

definition field_of :: "string list \<Rightarrow> string \<Rightarrow> string option" where
  "field_of names k = (if k \<in> set names then Some k else find (\<lambda>n. equalFold n k) names)"

fun dec_members ::
    "string list \<Rightarrow> (string \<Rightarrow> json \<Rightarrow> 'a \<Rightarrow> 'a option) \<Rightarrow> (string \<times> json) list \<Rightarrow> 'a \<Rightarrow> 'a option" where
  "dec_members names store [] x = Some x"
| "dec_members names store ((k, v) # ms) x =
     (case field_of names k of
        None \<Rightarrow> dec_members names store ms x
      | Some n \<Rightarrow> (case store n v x of None \<Rightarrow> None | Some y \<Rightarrow> dec_members names store ms y))"

definition dec_struct ::
    "string list \<Rightarrow> (string \<Rightarrow> json \<Rightarrow> 'a \<Rightarrow> 'a option) \<Rightarrow> 'a \<Rightarrow> json \<Rightarrow> 'a option" where
  "dec_struct names store zero j =
     (case j of JNull \<Rightarrow> Some zero | JObj ms \<Rightarrow> dec_members names store ms zero | _ \<Rightarrow> None)"

text \<open>A member that \<^verbatim>\<open>omitempty\<close> leaves out.\<close>

definition omit :: "bool \<Rightarrow> string \<Rightarrow> json \<Rightarrow> (string \<times> json) list" where
  "omit zero k v = (if zero then [] else [(k, v)])"

section \<open>Round trip\<close>

fun wf_json :: "json \<Rightarrow> bool"
and wf_elems :: "json list \<Rightarrow> bool"
and wf_members :: "(string \<times> json) list \<Rightarrow> bool" where
  "wf_json (JNum l) \<longleftrightarrow> l = itoa (if hasPrefix l ''-'' then - int (digits_val (tl l)) else int (digits_val l))"
| "wf_json (JStr s) \<longleftrightarrow> valid_utf8 s"
| "wf_json (JArr xs) \<longleftrightarrow> wf_elems xs"
| "wf_json (JObj ms) \<longleftrightarrow> wf_members ms"
| "wf_json JNull \<longleftrightarrow> True"
| "wf_json (JBool b) \<longleftrightarrow> True"
| "wf_elems [] \<longleftrightarrow> True"
| "wf_elems (x # xs) \<longleftrightarrow> wf_json x \<and> wf_elems xs"
| "wf_members [] \<longleftrightarrow> True"
| "wf_members ((k, v) # ms) \<longleftrightarrow> valid_utf8 k \<and> wf_json v \<and> wf_members ms"

text \<open>The fuel a value needs.\<close>

fun need :: "json \<Rightarrow> nat"
and need_elems :: "json list \<Rightarrow> nat"
and need_members :: "(string \<times> json) list \<Rightarrow> nat" where
  "need (JArr xs) = Suc (need_elems xs)"
| "need (JObj ms) = Suc (need_members ms)"
| "need JNull = 1"
| "need (JBool b) = 1"
| "need (JNum l) = 1"
| "need (JStr s) = 1"
| "need_elems [] = 0"
| "need_elems (x # xs) = Suc (need x + need_elems xs)"
| "need_members [] = 0"
| "need_members ((k, v) # ms) = Suc (need v + need_members ms)"

text \<open>Text that cannot continue a number.\<close>

definition num_end :: "bytes \<Rightarrow> bool" where
  "num_end r \<longleftrightarrow> (case r of [] \<Rightarrow> True | c # _ \<Rightarrow> \<not> is_digit c \<and> c \<noteq> CHR ''.'' \<and> c \<noteq> CHR ''e'' \<and> c \<noteq> CHR ''E'')"

lemma nat_str_head: "nat_str n = c # t \<Longrightarrow> c = CHR ''0'' \<Longrightarrow> t = []"
proof (induction n arbitrary: t rule: nat_str.induct)
  case (1 n)
  show ?case
  proof (cases "n < 10")
    case True
    with 1 show ?thesis by (simp add: nat_str.simps [of n])
  next
    case False
    obtain d u where u: "nat_str (n div 10) = d # u" by (cases "nat_str (n div 10)") auto
    with False "1.prems" have "d = CHR ''0''" by (simp add: nat_str.simps [of n])
    with "1.IH" "1.prems"(2) False u have "nat_str (n div 10) = ''0''" by simp
    then have "digits_val (nat_str (n div 10)) = digits_val ''0''" by simp
    then have "n div 10 = 0" by (simp only: digits_val_nat_str) (simp add: digits_val_def digit_val_def)
    with False show ?thesis by simp
  qed
qed

lemma scan_digits_append:
  assumes "d \<noteq> []" and "\<forall>c \<in> set d. is_digit c" and "num_end r"
  shows "scan_digits (d @ r) = Some (d, r)"
proof -
  have "takeWhile is_digit r = []" and "dropWhile is_digit r = r"
    using assms(3) by (cases r; simp add: num_end_def)+
  with assms(1,2) show ?thesis by (simp add: scan_digits_def takeWhile_append2 dropWhile_append2)
qed

lemma scan_int_nat_str: "num_end r \<Longrightarrow> scan_int (nat_str n @ r) = Some (nat_str n, r)"
proof -
  assume r: "num_end r"
  obtain c t where ct: "nat_str n = c # t" by (cases "nat_str n") auto
  with r nat_str_head [OF ct] nat_str_digits [of n] scan_digits_append [of "c # t" r]
  show ?thesis by (auto simp: scan_int_def)
qed

lemma scan_num_tail: "num_end r \<Longrightarrow> scan_frac r = Some ([], r) \<and> scan_exp r = Some ([], r)"
  by (auto simp: scan_frac_def scan_exp_def num_end_def split: list.splits)

lemma scan_num_itoa: "num_end r \<Longrightarrow> scan_num (itoa i @ r) = Some (itoa i, r)"
proof -
  assume r: "num_end r"
  obtain c t where ct: "nat_str (nat i) = c # t" by (cases "nat_str (nat i)") auto
  with nat_str_digits [of "nat i"] have "is_digit c" by simp
  then have "c \<noteq> CHR ''-''" by (auto simp: is_digit_def less_eq_char_def)
  with ct show ?thesis
    using scan_int_nat_str [OF r, of "nat i"] scan_int_nat_str [OF r, of "nat (- i)"] scan_num_tail [OF r]
    by (auto simp: scan_num_def itoa_def)
qed

lemma skipWs_nl [simp]: "skipWs (nl i @ s) = skipWs s"
  by (induction i) (auto simp: nl_def skipWs_def isWs_def)

lemma skipWs_cons: "skipWs (c # s) = (if isWs c then skipWs s else c # s)"
  by (simp add: skipWs_def)

lemma num_end_nl [simp]: "num_end (nl i @ s)"
  by (simp add: num_end_def nl_def is_digit_def less_eq_char_def)

lemma itoa_head:
  obtains c t where "itoa i = c # t" "is_digit c \<or> c = CHR ''-''"
proof -
  have "\<exists>c t. nat_str n = c # t \<and> is_digit c" for n
    using nat_str_digits [of n] nat_str_nonempty [of n] by (cases "nat_str n") auto
  with that show ?thesis unfolding itoa_def by (metis (full_types))
qed

lemma digit_not_special:
  assumes "is_digit c \<or> c = CHR ''-''"
  shows "\<not> isWs c" "c \<notin> set ''{['' \<union> {CHR 0x22, CHR ''t'', CHR ''f'', CHR ''n''}" "c \<notin> set ''}]''"
  using assms by (auto simp: is_digit_def isWs_def less_eq_char_def)

lemma pv_num: "num_end r \<Longrightarrow> pv (Suc n) (itoa i @ r) = Some (JNum (itoa i), r)"
proof -
  assume r: "num_end r"
  obtain c t where ct: "itoa i = c # t" and c: "is_digit c \<or> c = CHR ''-''" by (rule itoa_head)
  note d = digit_not_special [OF c]
  from ct have "skipWs (itoa i @ r) = c # (t @ r)" using d by (simp add: skipWs_cons)
  moreover have "scan_num (c # t @ r) = Some (c # t, r)" using scan_num_itoa [OF r, of i] ct by simp
  ultimately show ?thesis using d ct by simp
qed

lemma pv_str: "valid_utf8 s \<Longrightarrow> pv (Suc n) (quote s @ r) = Some (JStr s, r)"
  using unquote_esc [of s r] by (simp add: quote_def skipWs_cons isWs_def)

text \<open>No value's text starts with white space or a closing bracket.\<close>

lemma pp_head:
  assumes "wf_json j"
  obtains c t where "pp i j = c # t" "\<not> isWs c" "c \<noteq> CHR '']''" "c \<noteq> CHR ''}''"
proof (cases j)
  case (JNum l)
  with assms obtain k where l: "l = itoa k" by (simp only: wf_json.simps)
  obtain c t where "itoa k = c # t" "is_digit c \<or> c = CHR ''-''" by (rule itoa_head)
  with that JNum l digit_not_special [of c] show ?thesis by auto
next
  case (JArr xs)
  with that show ?thesis by (cases xs) (auto simp: isWs_def)
next
  case (JObj ms)
  with that show ?thesis by (cases ms) (auto simp: isWs_def)
next
  case (JBool b)
  with that show ?thesis by (cases b) (auto simp: isWs_def)
qed (use that in \<open>auto simp: isWs_def quote_def\<close>)

lemma pp_elems_head:
  assumes "wf_elems (x # xs)"
  obtains c t where "pp_elems i (x # xs) = c # t" "\<not> isWs c" "c \<noteq> CHR '']''"
proof -
  from assms obtain c t where "pp i x = c # t" "\<not> isWs c" "c \<noteq> CHR '']''"
    by (auto elim: pp_head [of x i])
  with that show ?thesis by (cases xs) auto
qed

lemma pv_skip: "pv n (nl i @ s) = pv n s"
  by (cases n) simp_all

lemma pv_space: "pv n (CHR '' '' # s) = pv n s"
  by (cases n) (simp_all add: skipWs_cons isWs_def)

lemma p_elems_skip: "p_elems n (nl i @ s) = p_elems n s"
  by (cases n) (simp_all add: pv_skip)

lemma p_members_skip: "p_members n (nl i @ s) = p_members n s"
  by (cases n) simp_all

lemma pp_members_head: "\<exists>t. pp_members i (m # ms) = CHR 0x22 # t"
  by (cases m; cases ms) (simp_all add: quote_def)

lemma comma_end [simp]: "num_end (CHR '','' # s)"
  by (simp add: num_end_def is_digit_def less_eq_char_def)

lemma parse_pp:
  shows "wf_json j \<Longrightarrow> need j \<le> n \<Longrightarrow> num_end r \<Longrightarrow> pv n (pp i j @ r) = Some (j, r)"
    and "wf_elems xs \<Longrightarrow> xs \<noteq> [] \<Longrightarrow> need_elems xs \<le> n \<Longrightarrow>
           p_elems n (pp_elems i xs @ nl k @ CHR '']'' # r) = Some (xs, r)"
    and "wf_members ms \<Longrightarrow> ms \<noteq> [] \<Longrightarrow> need_members ms \<le> n \<Longrightarrow>
           p_members n (pp_members i ms @ nl k @ CHR ''}'' # r) = Some (ms, r)"
proof (induction i j and i xs and i ms arbitrary: n r and n k r and n k r rule: pp_pp_elems_pp_members.induct)
  case (1 i)
  then show ?case by (cases n) (simp_all add: skipWs_cons isWs_def scan_lit_def)
next
  case (2 i b)
  then show ?case by (cases n) (simp_all add: skipWs_cons isWs_def scan_lit_def)
next
  case (3 i l)
  then obtain m where "n = Suc m" by (cases n) auto
  from "3.prems"(1) obtain v where "l = itoa v" by (simp only: wf_json.simps)
  with \<open>n = Suc m\<close> "3.prems"(3) pv_num show ?case by simp
next
  case (4 i s)
  then show ?case by (cases n) (simp_all only: pp.simps wf_json.simps pv_str, simp)
next
  case (5 i)
  then show ?case by (cases n) (simp_all add: skipWs_cons isWs_def)
next
  case (6 i x xs)
  then obtain m where n: "n = Suc m" by (cases n) auto
  with "6.prems"(1) have w: "wf_elems (x # xs)" by simp
  obtain c t where "pp_elems (Suc i) (x # xs) = c # t" "\<not> isWs c" "c \<noteq> CHR '']''"
    by (rule pp_elems_head [OF w])
  then have "take 1 (skipWs (pp_elems (Suc i) (x # xs) @ u)) \<noteq> '']''" for u
    by (simp add: skipWs_cons)
  with 6 n w show ?case
    by (simp add: skipWs_cons [of "CHR ''[''"] isWs_def p_elems_skip del: pp_elems.simps)
next
  case (7 i)
  then show ?case by (cases n) (simp_all add: skipWs_cons isWs_def)
next
  case (8 i m ms)
  then obtain n' where n: "n = Suc n'" by (cases n) auto
  with "8.prems"(1) have w: "wf_members (m # ms)" by simp
  obtain t where "pp_members (Suc i) (m # ms) = CHR 0x22 # t" using pp_members_head by blast
  then have "take 1 (skipWs (pp_members (Suc i) (m # ms) @ u)) \<noteq> ''}''" for u
    by (simp add: skipWs_cons isWs_def)
  with 8 n w show ?case
    by (simp add: skipWs_cons [of "CHR ''{''"] isWs_def p_members_skip del: pp_members.simps)
next
  case (10 i x)
  then obtain m where "n = Suc m" by (cases n) auto
  with 10 show ?case by (simp add: skipWs_cons isWs_def)
next
  case (11 i x y xs)
  then obtain m where "n = Suc m" by (cases n) auto
  with 11 show ?case by (simp add: skipWs_cons isWs_def p_elems_skip)
next
  case (13 i key v)
  then obtain m where "n = Suc m" by (cases n) auto
  with 13 unquote_esc [of key] show ?case by (simp add: skipWs_cons isWs_def quote_def pv_space)
next
  case (14 i key v m ms)
  then obtain n' where "n = Suc n'" by (cases n) auto
  with 14 unquote_esc [of key] show ?case by (simp add: skipWs_cons isWs_def quote_def pv_space p_members_skip)
qed simp_all

lemma need_le_length:
  shows "wf_json j \<Longrightarrow> need j \<le> length (pp i j)"
    and "wf_elems xs \<Longrightarrow> need_elems xs \<le> Suc (length (pp_elems i xs))"
    and "wf_members ms \<Longrightarrow> need_members ms \<le> length (pp_members i ms)"
proof (induction i j and i xs and i ms rule: pp_pp_elems_pp_members.induct)
  case (3 i l)
  then obtain v where "l = itoa v" by (simp only: wf_json.simps)
  moreover have "itoa v \<noteq> []" by (rule itoa_head [of v]) simp
  ultimately show ?case by (simp add: Suc_le_eq)
qed (auto simp: quote_def nl_def)

lemma parse_MarshalIndent: "wf_json j \<Longrightarrow> parse_json (MarshalIndent j) = Some j"
  using parse_pp(1) [of j "length (pp 0 j)" "[]" 0] need_le_length(1) [of j 0]
  by (simp add: parse_json_def MarshalIndent_def num_end_def skipWs_def)

text \<open>Every line break of an indented text is followed by indentation or a closing bracket.\<close>

fun nl_ok :: "bytes \<Rightarrow> bool" where
  "nl_ok [] \<longleftrightarrow> True"
| "nl_ok (c # s) \<longleftrightarrow>
     c \<noteq> CHR 0x0D \<and> (c = CHR 0x0A \<longrightarrow> s \<noteq> [] \<and> hd s \<in> set '' }]'') \<and> nl_ok s"

lemma nl_ok_append: "nl_ok s \<Longrightarrow> nl_ok t \<Longrightarrow> nl_ok (s @ t)"
  by (induction s) auto

lemma nl_ok_plain: "\<forall>c \<in> set s. 32 \<le> code c \<Longrightarrow> nl_ok s"
  by (induction s) (auto simp: code_def)

lemma nl_ok_quote: "nl_ok (quote s)"
  by (rule nl_ok_plain) (auto simp: quote_def esc_printable code_def esc_printable [unfolded code_def])

lemma nl_ok_spaces: "nl_ok s \<Longrightarrow> nl_ok (replicate k (CHR '' '') @ s)"
  by (induction k) auto

lemma nl_ok_nl: "nl_ok s \<Longrightarrow> 0 < i \<or> (s \<noteq> [] \<and> hd s \<in> set '' }]'') \<Longrightarrow> nl_ok (nl i @ s)"
  by (cases i) (auto simp: nl_def nl_ok_spaces)

lemma nl_ok_itoa: "nl_ok (itoa v)"
proof (rule nl_ok_plain)
  have "\<forall>c \<in> set (nat_str n). 32 \<le> code c" for n
    using nat_str_digits [of n] by (auto simp: is_digit_def code_def less_eq_char_def)
  then show "\<forall>c \<in> set (itoa v). 32 \<le> code c" by (auto simp: itoa_def code_def)
qed

lemma nl_ok_pp:
  shows "wf_json j \<Longrightarrow> nl_ok (pp i j)"
    and "wf_elems xs \<Longrightarrow> 0 < i \<Longrightarrow> nl_ok (pp_elems i xs)"
    and "wf_members ms \<Longrightarrow> 0 < i \<Longrightarrow> nl_ok (pp_members i ms)"
proof (induction i j and i xs and i ms rule: pp_pp_elems_pp_members.induct)
  case (3 i l)
  then obtain v where "l = itoa v" by (simp only: wf_json.simps)
  then show ?case by (simp add: nl_ok_itoa)
qed (auto intro!: nl_ok_append nl_ok_nl nl_ok_quote)

lemma cutOn_nl_ok:
  assumes "nl_ok s"
  shows "cutOn (CHR 0x0A # ''---'' @ [CHR 0x0A]) (s @ (CHR 0x0A # ''---'' @ [CHR 0x0A]) @ body) = Some (s, body)"
  using assms
proof (induction s)
  case Nil
  show ?case using cutOn_prefix [of "CHR 0x0A # ''---'' @ [CHR 0x0A]" body] by simp
next
  case (Cons c s)
  then have "\<not> prefix (CHR 0x0A # ''---'' @ [CHR 0x0A]) (c # s @ (CHR 0x0A # ''---'' @ [CHR 0x0A]) @ body)"
    by (cases s) auto
  with Cons show ?case by (simp add: cutOn_skip)
qed

lemma nl_ok_no_cr: "nl_ok s \<Longrightarrow> CHR 0x0D \<notin> set s"
  by (induction s) auto

lemma parse_int_itoa: "int64 i \<Longrightarrow> parse_int (itoa i) = Some i"
proof -
  assume i: "int64 i"
  obtain c t where ct: "nat_str (nat i) = c # t" by (cases "nat_str (nat i)") auto
  with nat_str_digits [of "nat i"] have "is_digit c" by simp
  then have "c \<noteq> CHR ''-''" by (auto simp: is_digit_def less_eq_char_def)
  with ct have np: "\<not> hasPrefix (nat_str (nat i)) ''-''" by (simp add: hasPrefix_def)
  show ?thesis
    using i np nat_str_digits [of "nat i"] nat_str_digits [of "nat (- i)"]
    by (auto simp: parse_int_def itoa_def Let_def list_all_iff hasPrefix_def)
qed

lemma wf_num: "wf_json (JNum (itoa i))"
proof (cases "i < 0")
  case True
  then show ?thesis by (simp add: itoa_def hasPrefix_def)
next
  case False
  obtain c t where ct: "nat_str (nat i) = c # t" by (cases "nat_str (nat i)") auto
  with nat_str_digits [of "nat i"] have "is_digit c" by simp
  then have "c \<noteq> CHR ''-''" by (auto simp: is_digit_def less_eq_char_def)
  with ct have "\<not> hasPrefix (nat_str (nat i)) ''-''" by (simp add: hasPrefix_def)
  with False show ?thesis by (simp add: itoa_def)
qed

section \<open>Parsed text is valid UTF-8\<close>

fun text_ok :: "json \<Rightarrow> bool"
and texts_ok :: "json list \<Rightarrow> bool"
and members_ok :: "(string \<times> json) list \<Rightarrow> bool" where
  "text_ok (JStr s) \<longleftrightarrow> valid_utf8 s"
| "text_ok (JArr xs) \<longleftrightarrow> texts_ok xs"
| "text_ok (JObj ms) \<longleftrightarrow> members_ok ms"
| "text_ok JNull \<longleftrightarrow> True"
| "text_ok (JBool b) \<longleftrightarrow> True"
| "text_ok (JNum l) \<longleftrightarrow> True"
| "texts_ok [] \<longleftrightarrow> True"
| "texts_ok (x # xs) \<longleftrightarrow> text_ok x \<and> texts_ok xs"
| "members_ok [] \<longleftrightarrow> True"
| "members_ok ((k, v) # ms) \<longleftrightarrow> text_ok v \<and> members_ok ms"

lemma parsed_text_ok:
  shows "pv n s = Some (j, r) \<Longrightarrow> text_ok j"
    and "p_elems n s = Some (xs, r) \<Longrightarrow> texts_ok xs"
    and "p_members n s = Some (ms, r) \<Longrightarrow> members_ok ms"
proof (induction n s and n s and n s arbitrary: j r and xs r and ms r rule: pv_p_elems_p_members.induct)
  case (2 n s)
  from "2.prems" obtain c t where ct: "skipWs s = c # t" by (auto split: list.splits)
  show ?case
    using "2.prems" "2.IH" [OF ct]
    by (auto simp: ct scan_lit_def dest: unquote_valid split: if_splits option.splits)
next
  case (4 n s)
  then show ?case by (fastforce split: option.splits list.splits if_splits)
next
  case (6 n s)
  then show ?case by (fastforce split: option.splits list.splits if_splits)
qed simp_all

lemma parse_json_ok: "parse_json s = Some j \<Longrightarrow> text_ok j"
  by (auto simp: parse_json_def dest: parsed_text_ok(1) split: option.splits if_splits)

lemma dec_members_inv:
  assumes "\<And>n v x y. P x \<Longrightarrow> text_ok v \<Longrightarrow> store n v x = Some y \<Longrightarrow> P y"
  shows "members_ok ms \<Longrightarrow> P x \<Longrightarrow> dec_members names store ms x = Some y \<Longrightarrow> P y"
proof (induction ms arbitrary: x)
  case (Cons m ms)
  obtain k v where m: "m = (k, v)" by (cases m)
  show ?case
  proof (cases "field_of names k")
    case None
    with Cons m show ?thesis by simp
  next
    case (Some n)
    with Cons.prems m obtain z where z: "store n v x = Some z" "dec_members names store ms z = Some y"
      and v: "text_ok v" "members_ok ms"
      by (auto split: option.splits)
    from assms [OF Cons.prems(2) v(1) z(1)] have "P z" .
    with Cons.IH v(2) z(2) show ?thesis by blast
  qed
qed simp

lemma as_str_ok: "as_str v old = Some s \<Longrightarrow> text_ok v \<Longrightarrow> valid_utf8 old \<Longrightarrow> valid_utf8 s"
  by (auto simp: as_str_def split: json.splits)

lemma as_int_ok: "as_int v old = Some i \<Longrightarrow> int64 old \<Longrightarrow> int64 i"
  by (auto simp: as_int_def parse_int_def Let_def split: json.splits if_splits)

lemma as_strs_json: "as_strs (strs_json xs) old = Some xs"
proof -
  have "str_elems (map JStr ys) prev = Some ys" for ys prev
    by (induction ys arbitrary: prev) (auto simp: as_str_def)
  then show ?thesis by (simp add: as_strs_def strs_json_def split: option.split)
qed

lemma wf_strs_json: "wf_json (strs_json xs) \<longleftrightarrow> (\<forall>ys. xs = Some ys \<longrightarrow> (\<forall>s \<in> set ys. valid_utf8 s))"
proof -
  have "wf_elems (map JStr ys) \<longleftrightarrow> (\<forall>s \<in> set ys. valid_utf8 s)" for ys by (induction ys) auto
  then show ?thesis by (simp add: strs_json_def split: option.split)
qed

section \<open>Contracts\<close>

text \<open>What was encoded is read back, for the values \<open>wf\<close> admits.\<close>

locale codec =
  fixes enc :: "'a \<Rightarrow> json" and dec :: "json \<Rightarrow> 'a option" and wf :: "'a \<Rightarrow> bool"
  assumes dec_enc: "wf x \<Longrightarrow> dec (enc x) = Some x"
    and enc_wf: "wf x \<Longrightarrow> wf_json (enc x)"
begin

lemma unmarshal_marshal: "wf x \<Longrightarrow> Option.bind (parse_json (MarshalIndent (enc x))) dec = Some x"
  by (simp add: parse_MarshalIndent enc_wf dec_enc)

lemma header_lines: "wf x \<Longrightarrow> nl_ok (MarshalIndent (enc x))"
  by (simp add: MarshalIndent_def nl_ok_pp enc_wf)

end

text \<open>Files with a JSON header between \<^verbatim>\<open>---\<close> lines: a message or a DLQ envelope.\<close>

definition fm_end :: bytes where
  "fm_end = CHR 0x0A # ''---'' @ [CHR 0x0A]"

locale frontmatter = codec +
  fixes start :: bytes
    and pad :: "bytes \<Rightarrow> bytes"
    and render :: "'a \<Rightarrow> bytes \<Rightarrow> bytes"
    and scan :: "bytes \<Rightarrow> ('a \<times> bytes) option"
  assumes start_no_cr: "CHR 0x0D \<notin> set start"
    and render: "wf x \<Longrightarrow> render x b = start @ MarshalIndent (enc x) @ fm_end @ pad b"
    and scan: "wf x \<Longrightarrow> crlf_to_lf s = start @ MarshalIndent (enc x) @ fm_end @ b \<Longrightarrow> scan s = Some (x, b)"
begin

text \<open>The body comes back with its line ends normalized, the header exactly.\<close>

lemma scan_render: "wf x \<Longrightarrow> scan (render x b) = Some (x, crlf_to_lf (pad b))"
proof (rule scan)
  assume x: "wf x"
  have "CHR 0x0D \<notin> set (start @ MarshalIndent (enc x) @ fm_end)"
    using start_no_cr nl_ok_no_cr [OF header_lines [OF x]] by (simp add: fm_end_def)
  from crlf_to_lf_append [OF this] render [OF x]
  show "crlf_to_lf (render x b) = start @ MarshalIndent (enc x) @ fm_end @ crlf_to_lf (pad b)" by simp
qed

end

end
