(* ===== verification/Clock.thy ===== *)
theory Clock
  imports Json_String
begin

text \<open>
  UTC timestamps as the package \<^verbatim>\<open>time\<close> formats them: \<^verbatim>\<open>t.UTC().Format(time.RFC3339)\<close> and
  \<^verbatim>\<open>time.RFC3339Nano\<close> of a time given in nanoseconds since 1970.
\<close>

text \<open>Year, month and day of a day number, counted in 400-year eras that start in March.\<close>

definition civil_from_days :: "int \<Rightarrow> int \<times> int \<times> int" where
  "civil_from_days days =
     (let z = days + 719468;
          era = z div 146097;
          doe = z mod 146097;
          yoe = (doe - doe div 1460 + doe div 36524 - doe div 146096) div 365;
          doy = doe - (365 * yoe + yoe div 4 - yoe div 100);
          mp = (5 * doy + 2) div 153;
          d = doy - (153 * mp + 2) div 5 + 1;
          m = (if mp < 10 then mp + 3 else mp - 9);
          y = yoe + era * 400 + (if m \<le> 2 then 1 else 0) in
      (y, m, d))"

definition pad_num :: "nat \<Rightarrow> int \<Rightarrow> string" where
  "pad_num w n = (let s = nat_str (nat n) in replicate (w - length s) (CHR ''0'') @ s)"

definition date_time :: "nat \<Rightarrow> string" where
  "date_time ns =
     (let secs = int ns div 1000000000;
          (y, m, d) = civil_from_days (secs div 86400);
          r = secs mod 86400 in
      pad_num 4 y @ ''-'' @ pad_num 2 m @ ''-'' @ pad_num 2 d @ ''T'' @
      pad_num 2 (r div 3600) @ '':'' @ pad_num 2 (r div 60 mod 60) @ '':'' @ pad_num 2 (r mod 60))"

definition RFC3339 :: "nat \<Rightarrow> string" where
  "RFC3339 ns = date_time ns @ ''Z''"

definition RFC3339Nano :: "nat \<Rightarrow> string" where
  "RFC3339Nano ns =
     (let frac = int ns mod 1000000000 in
      date_time ns @
      (if frac = 0 then [] else CHR ''.'' # trimRight (\<lambda>c. c = CHR ''0'') (pad_num 9 frac)) @ ''Z'')"

section \<open>ASCII text is valid UTF-8\<close>

definition ascii :: "string \<Rightarrow> bool" where
  "ascii s \<longleftrightarrow> (\<forall>c \<in> set s. code c < 128)"

lemma ascii_valid: "ascii s \<Longrightarrow> valid_utf8 s"
  by (induction s) (auto simp: valid_utf8.simps [of "_ # _"] valid_utf8.simps [of "[]"] ascii_def rune_len.simps)

lemma ascii_append [simp]: "ascii (s @ t) \<longleftrightarrow> ascii s \<and> ascii t"
  by (auto simp: ascii_def)

lemma ascii_Cons [simp]: "ascii (c # s) \<longleftrightarrow> code c < 128 \<and> ascii s"
  by (auto simp: ascii_def)

lemma ascii_Nil [simp]: "ascii []"
  by (simp add: ascii_def)

lemma ascii_nat_str [simp]: "ascii (nat_str n)"
  using nat_str_digits [of n] by (auto simp: ascii_def is_digit_def code_def less_eq_char_def)

lemma ascii_pad_num [simp]: "ascii (pad_num w n)"
proof -
  have "ascii (replicate k (CHR ''0''))" for k
    by (simp add: ascii_def code_def)
  then show ?thesis by (simp add: pad_num_def Let_def)
qed

lemma ascii_hex_str [simp]: "ascii (hex_str b)"
proof -
  have "code (hex_digit n) < 128" if "n < 16" for n
    using that by (auto simp: hex_digit_def code_def)
  moreover have "(of_char c :: nat) div 16 < 16" for c
    using nat_of_char_less_256 [of c] by linarith
  ultimately show ?thesis by (auto simp: ascii_def hex_str_def)
qed

lemma ascii_date_time: "ascii (date_time ns)"
  by (simp add: date_time_def code_def Let_def split: prod.split)

lemma ascii_RFC3339: "ascii (RFC3339 ns)"
  by (simp add: RFC3339_def ascii_date_time code_def)

lemma ascii_RFC3339Nano: "ascii (RFC3339Nano ns)"
proof -
  have sub: "ascii (trimRight P s)" if "ascii s" for P s
    using that by (auto simp: trimRight_def ascii_def dest: set_dropWhileD)
  show ?thesis by (simp add: RFC3339Nano_def Let_def ascii_date_time sub code_def)
qed

end
