(* ===== verification/Dlq_Envelope.thy ===== *)
theory Dlq_Envelope
  imports Json Clock
begin

text \<open>
  The dead-letter envelope (\<^verbatim>\<open>internal/fsq/dlq.go\<close>): its record, the normalization of its retry
  state, and the file format that puts it before the original message.
\<close>

section \<open>Model\<close>

record DLQEnvelope =
  envSchema :: string
  envID :: string
  OriginalID :: string
  OriginalFile :: string
  FailureReason :: string
  FailureDetail :: string
  FailureTime :: string
  RetryCount :: int
  RetryState :: string
  RetryPending :: bool
  RetryDelivered :: bool
  SourceDir :: string

definition DLQSchemaVersion :: string where "DLQSchemaVersion = ''amq/dlq/v1''"
definition MaxRetries :: int where "MaxRetries = 3"
definition RetryStateReady :: string where "RetryStateReady = ''ready''"
definition RetryStatePending :: string where "RetryStatePending = ''pending''"
definition RetryStateDelivered :: string where "RetryStateDelivered = ''delivered''"
definition RetryStateIndeterminate :: string where "RetryStateIndeterminate = ''indeterminate''"

lemmas retry_states = RetryStateReady_def RetryStatePending_def RetryStateDelivered_def RetryStateIndeterminate_def

definition setRetryState :: "DLQEnvelope \<Rightarrow> string \<Rightarrow> DLQEnvelope" where
  "setRetryState env state =
     env\<lparr>RetryState := state, RetryPending := (state = RetryStatePending),
         RetryDelivered := (state = RetryStateDelivered)\<rparr>"

definition normalizeRetryState :: "DLQEnvelope \<Rightarrow> goerr + DLQEnvelope" where
  "normalizeRetryState env =
     (if RetryCount env < 0 then Inl (Msg ''retry_count must not be negative'')
      else if RetryState env = [] then
        (if RetryPending env \<and> RetryDelivered env
           then Inl (Msg ''legacy retry markers are mutually exclusive'')
         else if RetryPending env then Inr (setRetryState env RetryStatePending)
         else if RetryDelivered env then Inr (setRetryState env RetryStateDelivered)
         else if RetryCount env > 0 then Inr (setRetryState env RetryStateIndeterminate)
         else Inr (setRetryState env RetryStateReady))
      else
        (let state = RetryState env;
             expectedPending = (state = RetryStatePending);
             expectedDelivered = (state = RetryStateDelivered) in
         if state \<noteq> RetryStateReady \<and> state \<noteq> RetryStatePending \<and> state \<noteq> RetryStateDelivered
            \<and> state \<noteq> RetryStateIndeterminate
           then Inl (Msg ''unknown retry_state'')
         else if state \<noteq> RetryStateReady \<and> RetryCount env = 0
           then Inl (Msg ''retry_state requires retry_count > 0'')
         else if RetryPending env \<noteq> expectedPending \<or> RetryDelivered env \<noteq> expectedDelivered
           then Inl (Msg ''retry_state disagrees with the legacy markers'')
         else Inr (setRetryState env state)))"

text \<open>The members \<^verbatim>\<open>json.MarshalIndent\<close> writes, in the order of the struct.\<close>

definition env_json :: "DLQEnvelope \<Rightarrow> json" where
  "env_json env = JObj
     ([(''schema'', JStr (envSchema env)), (''id'', JStr (envID env)),
       (''original_id'', JStr (OriginalID env)), (''original_file'', JStr (OriginalFile env)),
       (''failure_reason'', JStr (FailureReason env)), (''failure_detail'', JStr (FailureDetail env)),
       (''failure_time'', JStr (FailureTime env)), (''retry_count'', JNum (itoa (RetryCount env)))]
      @ omit (RetryState env = []) ''retry_state'' (JStr (RetryState env))
      @ omit (\<not> RetryPending env) ''retry_pending'' (JBool True)
      @ omit (\<not> RetryDelivered env) ''retry_delivered'' (JBool True)
      @ [(''source_dir'', JStr (SourceDir env))])"

definition env_fields :: "string list" where
  "env_fields = [''schema'', ''id'', ''original_id'', ''original_file'', ''failure_reason'', ''failure_detail'',
     ''failure_time'', ''retry_count'', ''retry_state'', ''retry_pending'', ''retry_delivered'', ''source_dir'']"

definition env_zero :: DLQEnvelope where
  "env_zero = \<lparr>envSchema = [], envID = [], OriginalID = [], OriginalFile = [], FailureReason = [],
     FailureDetail = [], FailureTime = [], RetryCount = 0, RetryState = [], RetryPending = False,
     RetryDelivered = False, SourceDir = []\<rparr>"

definition env_store :: "string \<Rightarrow> json \<Rightarrow> DLQEnvelope \<Rightarrow> DLQEnvelope option" where
  "env_store n v e =
     (if n = ''schema'' then map_option (\<lambda>s. e\<lparr>envSchema := s\<rparr>) (as_str v (envSchema e))
      else if n = ''id'' then map_option (\<lambda>s. e\<lparr>envID := s\<rparr>) (as_str v (envID e))
      else if n = ''original_id'' then map_option (\<lambda>s. e\<lparr>OriginalID := s\<rparr>) (as_str v (OriginalID e))
      else if n = ''original_file'' then map_option (\<lambda>s. e\<lparr>OriginalFile := s\<rparr>) (as_str v (OriginalFile e))
      else if n = ''failure_reason'' then map_option (\<lambda>s. e\<lparr>FailureReason := s\<rparr>) (as_str v (FailureReason e))
      else if n = ''failure_detail'' then map_option (\<lambda>s. e\<lparr>FailureDetail := s\<rparr>) (as_str v (FailureDetail e))
      else if n = ''failure_time'' then map_option (\<lambda>s. e\<lparr>FailureTime := s\<rparr>) (as_str v (FailureTime e))
      else if n = ''retry_count'' then map_option (\<lambda>i. e\<lparr>RetryCount := i\<rparr>) (as_int v (RetryCount e))
      else if n = ''retry_state'' then map_option (\<lambda>s. e\<lparr>RetryState := s\<rparr>) (as_str v (RetryState e))
      else if n = ''retry_pending'' then map_option (\<lambda>b. e\<lparr>RetryPending := b\<rparr>) (as_bool v (RetryPending e))
      else if n = ''retry_delivered'' then map_option (\<lambda>b. e\<lparr>RetryDelivered := b\<rparr>) (as_bool v (RetryDelivered e))
      else if n = ''source_dir'' then map_option (\<lambda>s. e\<lparr>SourceDir := s\<rparr>) (as_str v (SourceDir e))
      else Some e)"

definition env_of_json :: "json \<Rightarrow> DLQEnvelope option" where
  "env_of_json = dec_struct env_fields env_store env_zero"

definition dlq_start :: bytes where
  "dlq_start = ''---'' @ [CHR 0x0A]"

definition serializeDLQMessage :: "DLQEnvelope \<Rightarrow> bytes \<Rightarrow> goerr + bytes" where
  "serializeDLQMessage env originalContent =
     (case normalizeRetryState env of
        Inl e \<Rightarrow> Inl (Wrap ''normalize retry state'' e)
      | Inr env' \<Rightarrow> Inr (dlq_start @ MarshalIndent (env_json env') @ fm_end @ originalContent))"

definition parseDLQMessage :: "bytes \<Rightarrow> goerr + DLQEnvelope \<times> bytes" where
  "parseDLQMessage data =
     (let d = crlf_to_lf data in
      if \<not> hasPrefix d dlq_start then Inl (Msg ''missing frontmatter start'')
      else case cutOn fm_end (drop 4 d) of
        None \<Rightarrow> Inl (Msg ''missing frontmatter end'')
      | Some (headerJSON, body) \<Rightarrow>
          (case Option.bind (parse_json headerJSON) env_of_json of
             None \<Rightarrow> Inl (Msg ''parse envelope'')
           | Some env \<Rightarrow>
               (case normalizeRetryState env of
                  Inl e \<Rightarrow> Inl (Wrap ''normalize retry state'' e)
                | Inr env' \<Rightarrow> Inr (env', body))))"

section \<open>Retry states\<close>

text \<open>The states an envelope in memory can be in.\<close>

definition env_inv :: "DLQEnvelope \<Rightarrow> bool" where
  "env_inv env \<longleftrightarrow>
     0 \<le> RetryCount env \<and>
     RetryState env \<in> {RetryStateReady, RetryStatePending, RetryStateDelivered, RetryStateIndeterminate} \<and>
     (RetryState env \<noteq> RetryStateReady \<longrightarrow> 0 < RetryCount env) \<and>
     (RetryPending env \<longleftrightarrow> RetryState env = RetryStatePending) \<and>
     (RetryDelivered env \<longleftrightarrow> RetryState env = RetryStateDelivered)"

lemma normalize_fixes: "env_inv env \<Longrightarrow> normalizeRetryState env = Inr env"
  by (auto simp: env_inv_def normalizeRetryState_def setRetryState_def Let_def retry_states)

lemma normalize_known:
  "normalizeRetryState env = Inr env' \<Longrightarrow>
   RetryState env' \<in> {RetryStateReady, RetryStatePending, RetryStateDelivered, RetryStateIndeterminate} \<and>
   0 \<le> RetryCount env' \<and>
   (RetryPending env' \<longleftrightarrow> RetryState env' = RetryStatePending) \<and>
   (RetryDelivered env' \<longleftrightarrow> RetryState env' = RetryStateDelivered)"
  by (auto simp: normalizeRetryState_def setRetryState_def Let_def split: if_splits)

lemma setRetryState_sel [simp]:
  "RetryState (setRetryState env s) = s" "RetryCount (setRetryState env s) = RetryCount env"
  "OriginalFile (setRetryState env s) = OriginalFile env"
  "RetryPending (setRetryState env s) = (s = RetryStatePending)"
  "RetryDelivered (setRetryState env s) = (s = RetryStateDelivered)"
  by (simp_all add: setRetryState_def)

section \<open>The file format\<close>

definition env_text :: "DLQEnvelope \<Rightarrow> bool" where
  "env_text e \<longleftrightarrow>
     valid_utf8 (envSchema e) \<and> valid_utf8 (envID e) \<and> valid_utf8 (OriginalID e) \<and> valid_utf8 (OriginalFile e) \<and>
     valid_utf8 (FailureReason e) \<and> valid_utf8 (FailureDetail e) \<and> valid_utf8 (FailureTime e) \<and>
     valid_utf8 (RetryState e) \<and> valid_utf8 (SourceDir e) \<and> int64 (RetryCount e)"

definition env_wf :: "DLQEnvelope \<Rightarrow> bool" where
  "env_wf e \<longleftrightarrow> env_text e \<and> env_inv e"

lemma env_codec: "int64 (RetryCount e) \<Longrightarrow> env_of_json (env_json e) = Some e"
  using parse_int_itoa
  by (auto simp: env_of_json_def env_json_def dec_struct_def omit_def field_of_def env_fields_def env_store_def
      env_zero_def as_str_def as_int_def as_bool_def)

lemma env_json_wf: "env_text e \<Longrightarrow> wf_json (env_json e)"
  using wf_num by (auto simp: env_json_def env_text_def omit_def code_def intro!: ascii_valid simp del: wf_json.simps(1))

lemma retry_state_utf8:
  "s \<in> {RetryStateReady, RetryStatePending, RetryStateDelivered, RetryStateIndeterminate} \<Longrightarrow> valid_utf8 s"
  by (auto simp: retry_states code_def intro!: ascii_valid)

interpretation dlq_codec: codec env_json env_of_json env_wf
  by unfold_locales (auto simp: env_codec env_json_wf env_wf_def env_text_def)

definition dlq_render :: "DLQEnvelope \<Rightarrow> bytes \<Rightarrow> bytes" where
  "dlq_render env b = (case serializeDLQMessage env b of Inr s \<Rightarrow> s | Inl _ \<Rightarrow> [])"

definition dlq_scan :: "bytes \<Rightarrow> (DLQEnvelope \<times> bytes) option" where
  "dlq_scan s = (case parseDLQMessage s of Inr x \<Rightarrow> Some x | Inl _ \<Rightarrow> None)"

lemma serialize_wf:
  "env_inv env \<Longrightarrow> serializeDLQMessage env b = Inr (dlq_start @ MarshalIndent (env_json env) @ fm_end @ b)"
  by (simp add: serializeDLQMessage_def normalize_fixes)

interpretation dlq_file: frontmatter env_json env_of_json env_wf dlq_start id dlq_render dlq_scan
proof unfold_locales
  show "CHR 0x0D \<notin> set dlq_start" by (simp add: dlq_start_def)
  show "dlq_render x b = dlq_start @ MarshalIndent (env_json x) @ fm_end @ id b" if "env_wf x" for x b
    using that by (simp add: dlq_render_def env_wf_def serialize_wf)
  show "dlq_scan s = Some (x, b)"
    if x: "env_wf x" and s: "crlf_to_lf s = dlq_start @ MarshalIndent (env_json x) @ fm_end @ b" for x s b
  proof -
    have "cutOn fm_end (MarshalIndent (env_json x) @ fm_end @ b) = Some (MarshalIndent (env_json x), b)"
      using cutOn_nl_ok [OF dlq_codec.header_lines [OF x]] by (simp add: fm_end_def)
    then show ?thesis
      using s dlq_codec.unmarshal_marshal [OF x] x
      by (simp add: dlq_scan_def parseDLQMessage_def Let_def hasPrefix_def dlq_start_def env_wf_def normalize_fixes)
  qed
qed

section \<open>Envelopes read from a file\<close>

lemma env_store_text: "env_text e \<Longrightarrow> text_ok v \<Longrightarrow> env_store n v e = Some e' \<Longrightarrow> env_text e'"
  by (auto simp: env_store_def env_text_def as_bool_def split: if_splits json.splits dest: as_str_ok as_int_ok)

lemma env_zero_text: "env_text env_zero"
  by (simp add: env_text_def env_zero_def int64_def valid_utf8.simps)

lemma parsed_env_text:
  assumes "parseDLQMessage d = Inr (env, b)"
  shows "env_text env"
proof -
  obtain h e where h: "parse_json h = Some (e :: json)" and n: "\<exists>env0. env_of_json e = Some env0 \<and> normalizeRetryState env0 = Inr env"
    using assms by (auto simp: parseDLQMessage_def Let_def bind_eq_Some_conv split: if_splits option.splits sum.splits)
  then obtain env0 where e0: "env_of_json e = Some env0" and norm: "normalizeRetryState env0 = Inr env" by blast
  from e0 have "env_text env0"
    unfolding env_of_json_def dec_struct_def using parse_json_ok [OF h] env_zero_text
    by (auto split: json.splits intro: dec_members_inv [where P = env_text, OF env_store_text])
  moreover have "\<exists>s. env = setRetryState env0 s"
    using norm by (auto simp: normalizeRetryState_def Let_def split: if_splits)
  moreover have "valid_utf8 (RetryState env)"
    using normalize_known [OF norm] retry_state_utf8 by blast
  ultimately show ?thesis by (auto simp: env_text_def setRetryState_def)
qed

lemma serialize_inv:
  "serializeDLQMessage env b = Inr d \<Longrightarrow> RetryState env \<noteq> [] \<Longrightarrow> env_inv env"
  by (auto simp: serializeDLQMessage_def normalizeRetryState_def Let_def env_inv_def retry_states
      split: sum.splits if_splits)

lemma reparse:
  assumes "serializeDLQMessage env b = Inr d" and "env_text env" and "RetryState env \<noteq> []"
  shows "parseDLQMessage d = Inr (env, crlf_to_lf b)"
proof -
  have wf: "env_wf env" using assms serialize_inv by (auto simp: env_wf_def)
  have "dlq_render env b = d" using assms(1) by (simp add: dlq_render_def)
  with dlq_file.scan_render [OF wf, of b] show ?thesis
    by (simp add: dlq_scan_def split: sum.splits)
qed

section \<open>Guarantees of the envelope format\<close>

text \<open>
  C28: an envelope whose retry state is consistent and whose strings are UTF-8 is written and read back
  unchanged, with the original message behind it (CRLF read as LF).
\<close>

theorem envelope_roundtrip:
  assumes "env_wf env"
  shows "\<exists>d. serializeDLQMessage env b = Inr d \<and> parseDLQMessage d = Inr (env, crlf_to_lf b)"
proof -
  have "RetryState env \<noteq> []" "env_text env" using assms by (auto simp: env_wf_def env_inv_def retry_states)
  with reparse serialize_wf assms show ?thesis unfolding env_wf_def by blast
qed

theorem envelope_roundtrip_witness:
  "\<exists>d. serializeDLQMessage (setRetryState (env_zero\<lparr>RetryCount := 1, OriginalFile := ''m.md''\<rparr>) ''pending'') ''hi'' = Inr d \<and>
     parseDLQMessage d = Inr (setRetryState (env_zero\<lparr>RetryCount := 1, OriginalFile := ''m.md''\<rparr>) ''pending'', ''hi'')"
proof -
  have "env_wf (setRetryState (env_zero\<lparr>RetryCount := 1, OriginalFile := ''m.md''\<rparr>) ''pending'')" by code_simp
  moreover have "crlf_to_lf ''hi'' = ''hi''" by code_simp
  ultimately show ?thesis using envelope_roundtrip [of _ "''hi''"] by fastforce
qed

text \<open>
  C29: whatever bytes are read, an envelope that parses is in one of the four retry states, its legacy
  markers agree with the state, its count is not negative and fits an int64, and its strings are UTF-8.
\<close>

theorem parsed_envelope_typed:
  assumes "parseDLQMessage d = Inr (env, b)"
  shows "env_text env \<and>
     RetryState env \<in> {RetryStateReady, RetryStatePending, RetryStateDelivered, RetryStateIndeterminate} \<and>
     0 \<le> RetryCount env \<and>
     (RetryPending env \<longleftrightarrow> RetryState env = RetryStatePending) \<and>
     (RetryDelivered env \<longleftrightarrow> RetryState env = RetryStateDelivered)"
proof -
  obtain env0 where "normalizeRetryState env0 = Inr env"
    using assms by (auto simp: parseDLQMessage_def Let_def split: if_splits option.splits sum.splits)
  from normalize_known [OF this] parsed_env_text [OF assms] show ?thesis by blast
qed

text \<open>An envelope of the format before \<^verbatim>\<open>retry_state\<close>, with a marker and no retry counted.\<close>

definition legacy_file :: bytes where
  "legacy_file = dlq_start @ ''{'' @ [CHR 0x22] @ ''retry_pending'' @ [CHR 0x22] @ '':true}'' @ fm_end @ ''hi''"

theorem parsed_envelope_typed_witness:
  "\<exists>env b. parseDLQMessage legacy_file = Inr (env, b) \<and> RetryPending env \<and> RetryState env = ''pending''"
proof -
  have "case parseDLQMessage legacy_file of Inr (env, b) \<Rightarrow> RetryPending env | Inl _ \<Rightarrow> False" by code_simp
  then obtain env b where p: "parseDLQMessage legacy_file = Inr (env, b)" and "RetryPending env"
    by (auto split: sum.splits)
  with parsed_envelope_typed [OF p] show ?thesis by (auto simp: RetryStatePending_def)
qed

text \<open>
  The reader accepts such a legacy envelope as pending, but no envelope it returns can be written
  back: the writer requires a positive count of every state but ready, so a retry of it can never be
  completed.
\<close>

lemma legacy_marker_stuck:
  "case parseDLQMessage legacy_file of
     Inr (env, b) \<Rightarrow> RetryState env = RetryStatePending \<and>
       serializeDLQMessage (setRetryState env RetryStateDelivered) b =
         Inl (Wrap ''normalize retry state'' (Msg ''retry_state requires retry_count > 0''))
   | Inl _ \<Rightarrow> False"
  by code_simp

end
