(* ===== verification/Dlq.thy ===== *)
theory Dlq
  imports Dlq_Envelope Maildir Claim
begin

text \<open>
  The dead-letter queue (\<^verbatim>\<open>internal/fsq/dlq.go\<close>): moving a failed message into
  \<^verbatim>\<open>dlq/new\<close>, inspecting it, and retrying it back into \<^verbatim>\<open>inbox/new\<close> under a lock
  per envelope.
\<close>

section \<open>Moving a message to the DLQ\<close>

definition GenerateDLQID :: "(goerr + string) io" where
  "GenerateDLQID =
     guard (read_random 6) (\<lambda>b.
     bind get_now (\<lambda>t.
     bind get_pid (\<lambda>p.
     ok (''dlq_'' @ nat_str t @ ''_'' @ nat_str p @ ''_'' @ hex_str b))))"

definition removeDLQSource :: "path \<Rightarrow> (goerr + unit) io" where
  "removeDLQSource p = sys_upd (remove p)"

definition box_name :: "box \<Rightarrow> string" where
  "box_name b = (case b of BoxNew \<Rightarrow> ''new'' | BoxCur \<Rightarrow> ''cur'')"

definition inboxSourceDir :: "string \<Rightarrow> box \<Rightarrow> path" where
  "inboxSourceDir agent sourceDir = (case sourceDir of BoxNew \<Rightarrow> inbox_new agent | BoxCur \<Rightarrow> inbox_cur agent)"

text \<open>\<^verbatim>\<open>errors.Join\<close> of an error that may be nil.\<close>

definition joinOpt :: "goerr option \<Rightarrow> goerr \<Rightarrow> goerr" where
  "joinOpt acc e = (case acc of None \<Rightarrow> Wrap [] e | Some a \<Rightarrow> Join a e)"

definition syncInboxClaimDirs :: "string \<Rightarrow> goerr option io" where
  "syncInboxClaimDirs agent =
     bind (syncDir (inbox_new agent)) (\<lambda>a.
     let e1 = (case a of Inl e \<Rightarrow> Some (joinOpt None (Wrap ''resync'' e)) | Inr _ \<Rightarrow> None) in
     bind (syncDir (inbox_cur agent)) (\<lambda>b.
     ret (case b of Inl e \<Rightarrow> Some (joinOpt e1 (Wrap ''resync'' e)) | Inr _ \<Rightarrow> e1)))"

definition deliverToDLQ :: "droot \<Rightarrow> string \<Rightarrow> string \<Rightarrow> bytes \<Rightarrow> (path \<times> goerr option) io" where
  "deliverToDLQ r agent filename d =
     on_err (VerifyBase r) (\<lambda>e. ret ([], Some e)) (\<lambda>_.
     on_err (mkdirAll (dlq_tmp agent) 448) (\<lambda>e. ret ([], Some e)) (\<lambda>_.
     on_err (mkdirAll (dlq_new agent) 448) (\<lambda>e. ret ([], Some e)) (\<lambda>_.
     on_err (uniqueAttemptTmpPath (dlq_tmp agent) filename) (\<lambda>e. ret ([], Some e)) (\<lambda>tp.
     let np = dlq_new agent @ [filename] in
     on_err (writeAndSync tp d) (\<lambda>e. ret ([], Some e)) (\<lambda>_.
     on_err (syncDir (dlq_tmp agent)) (\<lambda>e. bind (cleanupTemp tp e) (\<lambda>e'. ret ([], Some e'))) (\<lambda>_.
     on_err (publishTmpNoReplace r tp np d) (\<lambda>e. ret ([], Some e)) (\<lambda>_.
     let committedPath = displayPath r np in
     on_err (syncDir (dlq_new agent))
       (\<lambda>e. ret (committedPath, Some (CommittedDurability committedPath agent (Wrap ''sync dlq new dir'' e)))) (\<lambda>_.
     bind (syncDir (dlq_tmp agent)) (\<lambda>_.
     ret (committedPath, None))))))))))"

definition new_envelope :: "string \<Rightarrow> string \<Rightarrow> string \<Rightarrow> string \<Rightarrow> string \<Rightarrow> string \<Rightarrow> box \<Rightarrow> DLQEnvelope" where
  "new_envelope dlqID originalID filename failureReason failureDetail time src =
     \<lparr>envSchema = DLQSchemaVersion, envID = dlqID, OriginalID = originalID, OriginalFile = filename,
      FailureReason = failureReason, FailureDetail = failureDetail, FailureTime = time, RetryCount = 0,
      RetryState = [], RetryPending = False, RetryDelivered = False, SourceDir = box_name src\<rparr>"

text \<open>The end of a transition, once the envelope is in place: the source goes.\<close>

definition retire_source :: "droot \<Rightarrow> string \<Rightarrow> path \<Rightarrow> path \<Rightarrow> path \<Rightarrow> (path \<times> goerr option) io" where
  "retire_source r agent srcDir srcPath dlqPath =
     bind (removeDLQSource srcPath) (\<lambda>rm.
     case rm of
       Inl e \<Rightarrow>
         (if \<not> osIsNotExist e
          then ret (dlqPath, Some (DLQTransition dlqPath (displayPath r srcPath) (Wrap ''remove original'' e)))
          else on_err (syncDir srcDir)
                 (\<lambda>e. ret (dlqPath, Some (CommittedDurability dlqPath agent (Wrap ''sync removed source dir'' e))))
                 (\<lambda>_. ret (dlqPath, None)))
     | Inr _ \<Rightarrow>
         on_err (syncDir srcDir)
           (\<lambda>e. ret (dlqPath, Some (CommittedDurability dlqPath agent (Wrap ''sync removed source dir'' e))))
           (\<lambda>_. ret (dlqPath, None)))"

definition moveInboxMessageToDLQ ::
    "droot \<Rightarrow> string \<Rightarrow> box \<Rightarrow> box \<Rightarrow> string \<Rightarrow> string \<Rightarrow> string \<Rightarrow> string \<Rightarrow> (path \<times> goerr option) io" where
  "moveInboxMessageToDLQ r agent readDir envelopeSourceDir filename originalID failureReason failureDetail =
     (case ValidateMessageFilename filename of Some e \<Rightarrow> ret ([], Some e) | None \<Rightarrow>
      let srcDir = inboxSourceDir agent readDir; srcPath = srcDir @ [filename] in
      on_err (ReadRegularNoFollow r srcPath) (\<lambda>e. ret ([], Some (Wrap ''read original'' e))) (\<lambda>content.
      on_err GenerateDLQID (\<lambda>e. ret ([], Some (Wrap ''generate dlq id'' e))) (\<lambda>dlqID.
      bind get_now (\<lambda>t.
      let envelope = new_envelope dlqID originalID filename failureReason failureDetail (RFC3339 t) envelopeSourceDir in
      case serializeDLQMessage envelope content of
        Inl e \<Rightarrow> ret ([], Some (Wrap ''serialize dlq'' e))
      | Inr d \<Rightarrow>
          bind (deliverToDLQ r agent (dlqID @ ''.md'') d) (\<lambda>(dlqPath, err).
          case err of
            Some e \<Rightarrow>
              (if asCommitted e \<noteq> None
               then ret (dlqPath, Some (DLQTransition dlqPath (displayPath r srcPath) e))
               else ret ([], Some (Wrap ''deliver to dlq'' e)))
          | None \<Rightarrow> retire_source r agent srcDir srcPath dlqPath)))))"

definition moveClaimedCurToDLQ ::
    "droot \<Rightarrow> string \<Rightarrow> box \<Rightarrow> string \<Rightarrow> string \<Rightarrow> string \<Rightarrow> string \<Rightarrow> goerr option \<Rightarrow> (path \<times> goerr option) io" where
  "moveClaimedCurToDLQ r agent envelopeSourceDir filename originalID failureReason failureDetail claimErr =
     bind (moveInboxMessageToDLQ r agent BoxCur envelopeSourceDir filename originalID failureReason failureDetail)
       (\<lambda>(dlqPath, transitionErr).
     case claimErr of
       None \<Rightarrow> ret (dlqPath, transitionErr)
     | Some ce \<Rightarrow>
         (case transitionErr of
            Some te \<Rightarrow>
              (if asTransition te \<or> dlqPath = [] \<or> asCommitted te = None
               then ret (dlqPath, Some (Join (Wrap ''claim original'' ce) te))
               else bind (syncInboxClaimDirs agent) (\<lambda>s.
                 case s of
                   None \<Rightarrow> ret (dlqPath, None)
                 | Some se \<Rightarrow> ret (dlqPath, Some (CommittedDurability dlqPath agent
                               (Join (Join (Wrap ''claim original'' ce) te) se)))))
          | None \<Rightarrow>
              bind (syncInboxClaimDirs agent) (\<lambda>s.
                case s of
                  None \<Rightarrow> ret (dlqPath, None)
                | Some se \<Rightarrow> ret (dlqPath, Some (CommittedDurability dlqPath agent
                              (Join (Wrap ''claim original'' ce) se))))))"

definition MoveToDLQ ::
    "droot \<Rightarrow> string \<Rightarrow> string \<Rightarrow> string \<Rightarrow> string \<Rightarrow> string \<Rightarrow> (path \<times> goerr option) io" where
  "MoveToDLQ r agent filename originalID failureReason failureDetail =
     bind (MoveNewToCur r agent filename) (\<lambda>x.
     case x of
       Inr _ \<Rightarrow> moveClaimedCurToDLQ r agent BoxNew filename originalID failureReason failureDetail None
     | Inl ce \<Rightarrow>
         (if asCommitted ce = None then ret ([], Some (Wrap ''claim original'' ce))
          else moveClaimedCurToDLQ r agent BoxNew filename originalID failureReason failureDetail (Some ce)))"

definition MoveCurToDLQ ::
    "droot \<Rightarrow> string \<Rightarrow> string \<Rightarrow> string \<Rightarrow> string \<Rightarrow> string \<Rightarrow> (path \<times> goerr option) io" where
  "MoveCurToDLQ r agent filename originalID failureReason failureDetail =
     moveInboxMessageToDLQ r agent BoxCur BoxCur filename originalID failureReason failureDetail"

definition MoveClaimedCurToDLQ ::
    "droot \<Rightarrow> string \<Rightarrow> string \<Rightarrow> string \<Rightarrow> string \<Rightarrow> string \<Rightarrow> goerr option \<Rightarrow> (path \<times> goerr option) io" where
  "MoveClaimedCurToDLQ r agent filename originalID failureReason failureDetail claimErr =
     (case claimErr of
        None \<Rightarrow> MoveCurToDLQ r agent filename originalID failureReason failureDetail
      | Some ce \<Rightarrow>
          (case asCommitted ce of
             None \<Rightarrow> ret ([], Some (Wrap ''claim original'' ce))
           | Some (finalPath, rcpt, _) \<Rightarrow>
               (case ValidateHandle agent of Some e \<Rightarrow> ret ([], Some (Wrap ''claim recipient'' e)) | None \<Rightarrow>
                case ValidateMessageFilename filename of Some e \<Rightarrow> ret ([], Some (Wrap ''claim filename'' e)) | None \<Rightarrow>
                on_err (VerifyBase r) (\<lambda>e. ret ([], Some e)) (\<lambda>_.
                let wantFinalPath = displayPath r (inbox_cur agent @ [filename]) in
                if rcpt \<noteq> agent \<or> finalPath \<noteq> wantFinalPath
                then ret ([], Some (Wrap ''claim original provenance mismatch'' ce))
                else moveClaimedCurToDLQ r agent BoxCur filename originalID failureReason failureDetail (Some ce)))))"

section \<open>Reading and inspecting\<close>

definition ReadDLQEnvelope :: "droot \<Rightarrow> path \<Rightarrow> (goerr + DLQEnvelope \<times> bytes) io" where
  "ReadDLQEnvelope r p = guard (ReadRegularNoFollow r p) (\<lambda>d. ret (parseDLQMessage d))"

definition FindDLQMessage :: "droot \<Rightarrow> string \<Rightarrow> string \<Rightarrow> (goerr + path \<times> box) io" where
  "FindDLQMessage r agent filename =
     (case ValidateMessageFilename filename of Some e \<Rightarrow> fail e | None \<Rightarrow>
      bind (StatR r (cur_env agent filename)) (\<lambda>x.
      case x of
        Inr _ \<Rightarrow> ok (cur_env agent filename, BoxCur)
      | Inl e \<Rightarrow>
          (if \<not> osIsNotExist e then fail e
           else bind (StatR r (new_env agent filename)) (\<lambda>y.
             case y of
               Inr _ \<Rightarrow> ok (new_env agent filename, BoxNew)
             | Inl e' \<Rightarrow> (if \<not> osIsNotExist e' then fail e' else fail ErrNotExist)))))"

text \<open>Syncs \<^verbatim>\<open>dlq/cur\<close> and \<^verbatim>\<open>dlq/new\<close> after a change that is already visible.\<close>

definition sync_both :: "droot \<Rightarrow> string \<Rightarrow> string \<Rightarrow> goerr option io" where
  "sync_both r agent filename =
     bind (syncDir (dlq_cur agent)) (\<lambda>a.
     let e1 = (case a of Inl e \<Rightarrow> Some (joinOpt None (Wrap ''sync dlq/cur dir'' e)) | Inr _ \<Rightarrow> None) in
     bind (syncDir (dlq_new agent)) (\<lambda>b.
     let e2 = (case b of Inl e \<Rightarrow> Some (joinOpt e1 (Wrap ''sync dlq/new dir'' e)) | Inr _ \<Rightarrow> e1) in
     ret (map_option (CommittedDurability (displayPath r (cur_env agent filename)) agent) e2)))"

text \<open>Returns whether both boxes were seen and reconciled, and an error.\<close>

definition reconcileDLQCurAuthorityLocked :: "droot \<Rightarrow> string \<Rightarrow> string \<Rightarrow> (bool \<times> goerr option) io" where
  "reconcileDLQCurAuthorityLocked r agent filename =
     bind (sys_query (lstat (new_env agent filename))) (\<lambda>x.
     case x of
       Inl e \<Rightarrow> ret (False, if osIsNotExist e then None else Some e)
     | Inr _ \<Rightarrow>
         bind (sys_query (lstat (cur_env agent filename))) (\<lambda>y.
         case y of
           Inl e \<Rightarrow> ret (False, if osIsNotExist e then None else Some e)
         | Inr curInfo \<Rightarrow>
             (if \<not> isRegular curInfo then ret (False, Some (Msg ''existing dlq/cur envelope is not a regular file''))
              else bind (sys_upd (remove (new_env agent filename))) (\<lambda>z.
                case z of
                  Inl e \<Rightarrow>
                    (if \<not> osIsNotExist e then ret (False, Some (Wrap ''remove stale dlq/new envelope'' e))
                     else bind (sync_both r agent filename) (\<lambda>s. ret (True, s)))
                | Inr _ \<Rightarrow> bind (sync_both r agent filename) (\<lambda>s. ret (True, s))))))"

definition moveDLQNewToCurLocked :: "droot \<Rightarrow> string \<Rightarrow> string \<Rightarrow> (goerr + unit) io" where
  "moveDLQNewToCurLocked r agent filename =
     (case ValidateMessageFilename filename of Some e \<Rightarrow> fail e | None \<Rightarrow>
      guard (VerifyBase r) (\<lambda>_.
      guard (mkdirAll (dlq_cur agent) 448) (\<lambda>_.
      bind (reconcileDLQCurAuthorityLocked r agent filename) (\<lambda>(reconciled, err).
      case err of
        Some e \<Rightarrow> fail e
      | None \<Rightarrow>
          (if reconciled then ok ()
           else guard (renameNoReplace (new_env agent filename) (cur_env agent filename)) (\<lambda>_.
             bind (sync_both r agent filename) (\<lambda>s. case s of Some e \<Rightarrow> fail e | None \<Rightarrow> ok ())))))))"


definition MoveDLQNewToCur :: "droot \<Rightarrow> string \<Rightarrow> string \<Rightarrow> (goerr + unit) io" where
  "MoveDLQNewToCur r agent filename =
     bind (WithDLQEnvelopeLock r agent filename (\<lambda>batch. moveDLQNewToCurLocked batch agent filename)) (\<lambda>x.
     ret (case x of Inl e \<Rightarrow> Inl e | Inr y \<Rightarrow> y))"

type_synonym inspection = "(DLQEnvelope \<times> bytes) option \<times> box option \<times> goerr option"

definition inspect_locked :: "droot \<Rightarrow> string \<Rightarrow> string \<Rightarrow> inspection io" where
  "inspect_locked r agent filename =
     on_err (FindDLQMessage r agent filename) (\<lambda>e. ret (None, None, Some e)) (\<lambda>(p, foundBox).
     on_err (ReadDLQEnvelope r p) (\<lambda>e. ret (None, None, Some (Wrap ''read DLQ message'' e))) (\<lambda>x.
     case foundBox of
       BoxCur \<Rightarrow> bind (reconcileDLQCurAuthorityLocked r agent filename) (\<lambda>(_, err). ret (Some x, Some BoxCur, err))
     | BoxNew \<Rightarrow>
         bind (moveDLQNewToCurLocked r agent filename) (\<lambda>mv.
         ret (case mv of
                Inr _ \<Rightarrow> (Some x, Some BoxCur, None)
              | Inl e \<Rightarrow> (Some x, Some (if asCommitted e \<noteq> None then BoxCur else BoxNew), Some e)))))"

definition InspectDLQEnvelope :: "droot \<Rightarrow> string \<Rightarrow> string \<Rightarrow> inspection io" where
  "InspectDLQEnvelope r agent filename =
     bind (WithDLQEnvelopeLock r agent filename (\<lambda>batch. inspect_locked batch agent filename)) (\<lambda>x.
     ret (case x of Inl e \<Rightarrow> (None, None, Some e) | Inr y \<Rightarrow> y))"

section \<open>Retrying\<close>

text \<open>The first retained attempt whose content is \<open>want\<close>.\<close>

fun find_retained :: "droot \<Rightarrow> path \<Rightarrow> string \<Rightarrow> bytes \<Rightarrow> (string \<times> node) list \<Rightarrow> (goerr + path option) io" where
  "find_retained r dir filename want [] = ok None"
| "find_retained r dir filename want ((name, n) # es) =
     (if isDir n \<or> \<not> attemptTmpMatches filename name then find_retained r dir filename want es
      else on_err (ReadRegularNoFollow r (dir @ [name])) (\<lambda>e. fail (Wrap ''read retained inbox tmp'' e)) (\<lambda>got.
        if got = want then ok (Some (dir @ [name])) else find_retained r dir filename want es))"

definition recoverPendingInboxTmp :: "droot \<Rightarrow> string \<Rightarrow> string \<Rightarrow> bytes \<Rightarrow> (goerr + bool) io" where
  "recoverPendingInboxTmp r agent filename want =
     on_err (ReadDirR r (inbox_tmp agent))
       (\<lambda>e. if osIsNotExist e then ok False else fail (Wrap ''list retained inbox tmp'' e)) (\<lambda>entries.
     guard (find_retained r (inbox_tmp agent) filename want entries) (\<lambda>m.
     case m of
       None \<Rightarrow> ok False
     | Some tp \<Rightarrow>
         on_err (publishTmpNoReplace r tp (inbox_new agent @ [filename]) want)
           (\<lambda>e. fail (Wrap ''complete retained inbox tmp'' e)) (\<lambda>_.
         bind (syncDir (inbox_new agent)) (\<lambda>_.
         bind (syncDir (inbox_tmp agent)) (\<lambda>_.
         ok True)))))"

definition updateRetriedDLQEnvelope :: "droot \<Rightarrow> string \<Rightarrow> string \<Rightarrow> path \<Rightarrow> box \<Rightarrow> bytes \<Rightarrow> (goerr + unit) io" where
  "updateRetriedDLQEnvelope r agent dlqFilename dlqPath b updatedData =
     on_err (mkdirAll (dlq_cur agent) 448) (\<lambda>e. fail (Wrap ''prepare dlq envelope cur dir'' e)) (\<lambda>_.
     bind (WriteFileAtomic r (dlq_cur agent) dlqFilename updatedData) (\<lambda>(_, err).
     case b of
       BoxNew \<Rightarrow>
         (case err of
            Some e \<Rightarrow> fail (Wrap ''write updated dlq envelope to cur'' e)
          | None \<Rightarrow>
              bind (sys_upd (remove dlqPath)) (\<lambda>x.
              case x of
                Inl e \<Rightarrow>
                  (if \<not> osIsNotExist e then fail (Wrap ''remove old dlq envelope from new'' e)
                   else on_err (syncDir (butlast dlqPath)) (\<lambda>e. fail (Wrap ''sync old dlq envelope dir'' e))
                          (\<lambda>_. syncDir (dlq_cur agent)))
              | Inr _ \<Rightarrow>
                  on_err (syncDir (butlast dlqPath)) (\<lambda>e. fail (Wrap ''sync old dlq envelope dir'' e))
                    (\<lambda>_. syncDir (dlq_cur agent))))
     | BoxCur \<Rightarrow>
         (case err of
            Some e \<Rightarrow> fail (Wrap ''update dlq envelope in cur'' e)
          | None \<Rightarrow> syncDir (dlq_cur agent))))"

text \<open>The box of the inbox that has the original, if any.\<close>

fun original_box :: "droot \<Rightarrow> string \<Rightarrow> string \<Rightarrow> box list \<Rightarrow> (goerr + box option) io" where
  "original_box r agent filename [] = ok None"
| "original_box r agent filename (b # bs) =
     bind (StatR r (inboxSourceDir agent b @ [filename])) (\<lambda>x.
     case x of
       Inr _ \<Rightarrow> ok (Some b)
     | Inl e \<Rightarrow>
         (if osIsNotExist e then original_box r agent filename bs
          else fail (Wrap ''stat inbox original'' e)))"

text \<open>A pending or indeterminate retry is only completed, never started again.\<close>

definition finish_pending ::
    "droot \<Rightarrow> string \<Rightarrow> string \<Rightarrow> path \<Rightarrow> box \<Rightarrow> DLQEnvelope \<Rightarrow> bytes \<Rightarrow> box option \<Rightarrow> (goerr + unit) io" where
  "finish_pending r agent dlqFilename dlqPath b envelope originalContent present =
     guard
       (if present \<noteq> None then ok True
        else recoverPendingInboxTmp r agent (OriginalFile envelope) originalContent) (\<lambda>found.
     if \<not> found then fail (Wrap ''retry has no visible inbox destination'' ErrDLQRetryIndeterminate)
     else case serializeDLQMessage (setRetryState envelope RetryStateDelivered) originalContent of
       Inl e \<Rightarrow> fail (Wrap ''serialize recovered dlq envelope'' e)
     | Inr updatedData \<Rightarrow>
         on_err (updateRetriedDLQEnvelope r agent dlqFilename dlqPath b updatedData)
           (\<lambda>e. fail (Wrap ''retry delivery exists but finalize recovered dlq envelope'' e)) (\<lambda>_.
         fail (Wrap ''retry already delivered'' ErrDLQRetryDelivered)))"

text \<open>The end of a retry: the delivery failed before publication, or it is visible.\<close>

definition reset_retry ::
    "droot \<Rightarrow> string \<Rightarrow> string \<Rightarrow> DLQEnvelope \<Rightarrow> bytes \<Rightarrow> goerr \<Rightarrow> (goerr + unit) io" where
  "reset_retry r agent dlqFilename envelope originalContent deliveryErr =
     (case serializeDLQMessage (setRetryState envelope RetryStateReady) originalContent of
        Inl e \<Rightarrow> fail (Join (Wrap ''redeliver to inbox'' deliveryErr) (Wrap ''serialize reset dlq envelope'' e))
      | Inr updatedData \<Rightarrow>
          on_err (updateRetriedDLQEnvelope r agent dlqFilename (cur_env agent dlqFilename) BoxCur updatedData)
            (\<lambda>e. fail (Join (Wrap ''redeliver to inbox'' deliveryErr) (Wrap ''reset retried dlq envelope'' e)))
            (\<lambda>_. fail (Wrap ''redeliver to inbox'' deliveryErr)))"

definition complete_retry ::
    "droot \<Rightarrow> string \<Rightarrow> string \<Rightarrow> DLQEnvelope \<Rightarrow> bytes \<Rightarrow> path \<Rightarrow> goerr option \<Rightarrow> (goerr + unit) io" where
  "complete_retry r agent dlqFilename envelope originalContent inboxPath deliveryErr =
     (case serializeDLQMessage (setRetryState envelope RetryStateDelivered) originalContent of
        Inl e \<Rightarrow> fail (Wrap ''serialize completed dlq envelope'' e)
      | Inr updatedData \<Rightarrow>
          on_err (updateRetriedDLQEnvelope r agent dlqFilename (cur_env agent dlqFilename) BoxCur updatedData)
            (\<lambda>e. case deliveryErr of
               Some de \<Rightarrow> fail (Join (Wrap ''redeliver to inbox'' de) (Wrap ''finalize retried dlq envelope'' e))
             | None \<Rightarrow> fail (CommittedDurability inboxPath agent (Wrap ''finalize retried dlq envelope'' e)))
            (\<lambda>_. case deliveryErr of
               Some de \<Rightarrow> fail (Wrap ''redeliver to inbox'' de)
             | None \<Rightarrow> ok ()))"

definition start_retry ::
    "droot \<Rightarrow> string \<Rightarrow> string \<Rightarrow> path \<Rightarrow> box \<Rightarrow> DLQEnvelope \<Rightarrow> bytes \<Rightarrow> (goerr + unit) io" where
  "start_retry r agent dlqFilename dlqPath b env0 originalContent =
     (let envelope = setRetryState (env0\<lparr>RetryCount := wrap64 (RetryCount env0 + 1)\<rparr>) RetryStatePending in
      case serializeDLQMessage envelope originalContent of
        Inl e \<Rightarrow> fail (Wrap ''serialize updated dlq envelope'' e)
      | Inr updatedData \<Rightarrow>
          guard (updateRetriedDLQEnvelope r agent dlqFilename dlqPath b updatedData) (\<lambda>_.
          bind (DeliverToInbox r agent (OriginalFile envelope) originalContent) (\<lambda>x.
          case x of
            Inl de \<Rightarrow>
              (case asCommitted de of
                 None \<Rightarrow> reset_retry r agent dlqFilename envelope originalContent de
               | Some (finalPath, _, _) \<Rightarrow>
                   complete_retry r agent dlqFilename envelope originalContent finalPath (Some de))
          | Inr inboxPath \<Rightarrow> complete_retry r agent dlqFilename envelope originalContent inboxPath None)))"

text \<open>A retry of the envelope that was read from \<open>dlqPath\<close>.\<close>

definition retry_envelope ::
    "droot \<Rightarrow> string \<Rightarrow> string \<Rightarrow> bool \<Rightarrow> path \<Rightarrow> box \<Rightarrow> DLQEnvelope \<Rightarrow> bytes \<Rightarrow> (goerr + unit) io" where
  "retry_envelope r agent dlqFilename force dlqPath b envelope originalContent =
     guard
       (if b = BoxCur
        then bind (reconcileDLQCurAuthorityLocked r agent dlqFilename) (\<lambda>(_, err).
               case err of Some e \<Rightarrow> fail e | None \<Rightarrow> ok ())
        else ok ()) (\<lambda>_.
     case ValidateMessageFilename (OriginalFile envelope) of
       Some e \<Rightarrow> fail (Wrap ''invalid original_file'' e)
     | None \<Rightarrow>
         (if RetryState envelope = RetryStateDelivered
          then fail (Wrap ''retry already delivered'' ErrDLQRetryDelivered)
          else
            guard (original_box r agent (OriginalFile envelope) [BoxNew, BoxCur]) (\<lambda>present.
            if RetryState envelope = RetryStatePending \<or> RetryState envelope = RetryStateIndeterminate
            then finish_pending r agent dlqFilename dlqPath b envelope originalContent present
            else if present \<noteq> None then fail (Msg ''original file already exists (refusing retry)'')
            else if RetryCount envelope \<ge> MaxRetries \<and> \<not> force then fail (Msg ''max retries exceeded'')
            else start_retry r agent dlqFilename dlqPath b envelope originalContent)))"

definition retryFromDLQLocked :: "droot \<Rightarrow> string \<Rightarrow> string \<Rightarrow> bool \<Rightarrow> (goerr + unit) io" where
  "retryFromDLQLocked r agent dlqFilename force =
     guard (FindDLQMessage r agent dlqFilename) (\<lambda>(dlqPath, b).
     on_err (ReadDLQEnvelope r dlqPath) (\<lambda>e. fail (Wrap ''read dlq envelope'' e)) (\<lambda>(envelope, originalContent).
     retry_envelope r agent dlqFilename force dlqPath b envelope originalContent))"

definition RetryFromDLQ :: "droot \<Rightarrow> string \<Rightarrow> string \<Rightarrow> bool \<Rightarrow> (goerr + unit) io" where
  "RetryFromDLQ r agent dlqFilename force =
     bind (WithDLQEnvelopeLock r agent dlqFilename (\<lambda>batch. retryFromDLQLocked batch agent dlqFilename force)) (\<lambda>x.
     ret (case x of Inl e \<Rightarrow> Inl e | Inr y \<Rightarrow> y))"

end
