(* ===== verification/Frame.thy ===== *)
theory Frame
  imports Maildir
begin

text \<open>
  Frame conditions: \<open>agree W \<sigma>\<close> says what a set \<open>W\<close> of watched paths holds. Operations that
  work outside \<open>W\<close> keep it, so a program's effect on a few files can be followed through all its
  other calls, whatever they do to the rest of the tree.
\<close>

definition agree :: "path set \<Rightarrow> tree \<Rightarrow> fs \<Rightarrow> bool" where
  "agree W \<sigma> f \<longleftrightarrow> (\<forall>p \<in> W. map_of f p = \<sigma> p)"

lemma agree_mono: "agree W \<sigma> f \<Longrightarrow> V \<subseteq> W \<Longrightarrow> agree V \<sigma> f"
  by (auto simp: agree_def)

lemma agree_cong: "agree W \<sigma> f \<Longrightarrow> (\<And>p. p \<in> W \<Longrightarrow> \<sigma> p = \<tau> p) \<Longrightarrow> agree W \<tau> f"
  by (auto simp: agree_def)

lemma agree_upd_out: "p \<notin> W \<Longrightarrow> agree W (\<sigma>(p := v)) = agree W \<sigma>"
  by (auto simp: agree_def fun_eq_iff)

lemma agree_insert: "agree (insert p W) \<sigma> f \<longleftrightarrow> map_of f p = \<sigma> p \<and> agree W \<sigma> f"
  by (auto simp: agree_def)

text \<open>One more path may be watched, whatever it holds.\<close>

lemma triple_watch:
  assumes "q \<notin> W" and "\<And>v. triple (agree (insert q W) (\<sigma>(q := v))) m Q"
  shows "triple (agree W \<sigma>) m Q"
  unfolding triple_def
proof (intro allI impI)
  fix w :: world assume "agree W \<sigma> (fs w)"
  with assms(1) have "agree (insert q W) (\<sigma>(q := map_of (fs w) q)) (fs w)" by (auto simp: agree_def)
  from triple_run [OF assms(2) this] show "case m w of (x, w') \<Rightarrow> Q x (fs w')" by (simp add: case_prod_beta)
qed

text \<open>A program followed on one tree at a time keeps what it does not touch.\<close>

lemma keeps_agree_by_map:
  assumes "\<And>g. triple (\<lambda>f. map_of f = g) m (\<lambda>x f. \<forall>p \<in> W. map_of f p = g p)"
  shows "keeps (agree W \<sigma>) m"
  unfolding keeps_def triple_def
proof (intro allI impI)
  fix w :: world assume a: "agree W \<sigma> (fs w)"
  from triple_run [OF assms [of "map_of (fs w)"], of w] a
  show "case m w of (x, w') \<Rightarrow> agree W \<sigma> (fs w')" by (auto simp: agree_def case_prod_beta)
qed

lemma triple_agree_by_map:
  assumes "\<And>g. \<forall>p \<in> W. g p = \<sigma> p \<Longrightarrow> triple (\<lambda>f. map_of f = g) m (Q g)"
    and "\<And>g x f. \<forall>p \<in> W. g p = \<sigma> p \<Longrightarrow> Q g x f \<Longrightarrow> R x f"
  shows "triple (agree W \<sigma>) m R"
  using triple_by_map' [where P = "\<lambda>g. \<forall>p \<in> W. g p = \<sigma> p", OF assms] by (simp add: agree_def [abs_def])

interpretation agr: tree_inv "\<lambda>g. \<forall>p \<in> W. g p = \<sigma> p" "\<lambda>p. p \<notin> W" for W \<sigma>
  by unfold_locales auto

lemma keeps_agree_mkdirAll:
  "(\<And>q. prefix q p \<Longrightarrow> q \<notin> W) \<Longrightarrow> keeps (agree W \<sigma>) (mkdirAll p 448)"
  using agr.keeps_mkdirAll [of p W \<sigma>] by (simp add: agree_def [abs_def])

lemma keeps_agree_remove: "p \<notin> W \<Longrightarrow> keeps (agree W \<sigma>) (sys_upd (remove p))"
  by (rule keeps_agree_by_map, rule triple_post [OF sys_remove_spec]) (auto split: sum.splits)

lemma keeps_agree_cleanupTemp: "p \<notin> W \<Longrightarrow> keeps (agree W \<sigma>) (cleanupTemp p e)"
  by (rule keeps_agree_by_map, rule triple_post [OF cleanupTemp_spec]) auto

lemma writeAndSync_agree:
  assumes "tp \<notin> W"
  shows "triple (agree W \<sigma>) (writeAndSync tp d)
     (\<lambda>x f. case x of Inl _ \<Rightarrow> agree W \<sigma> f | Inr _ \<Rightarrow> agree (insert tp W) (\<sigma>(tp \<mapsto> Reg d)) f)"
proof (rule triple_agree_by_map [OF writeAndSync_spec])
  fix g :: tree and x :: "goerr + unit" and f
  assume "\<forall>p \<in> W. g p = \<sigma> p" and "case x of
      Inl _ \<Rightarrow> map_of f = g \<or> g tp = None \<and> (\<exists>c. map_of f = g(tp \<mapsto> Reg c))
    | Inr _ \<Rightarrow> g tp = None \<and> map_of f = g(tp \<mapsto> Reg d)"
  with assms show "case x of Inl _ \<Rightarrow> agree W \<sigma> f | Inr _ \<Rightarrow> agree (insert tp W) (\<sigma>(tp \<mapsto> Reg d)) f"
    by (cases x) (auto simp: agree_def)
qed

text \<open>Reading a watched file.\<close>

lemma ReadRegular_agree:
  assumes "p \<in> W"
  shows "triple (agree W \<sigma>) (ReadRegularNoFollow r p)
     (\<lambda>x f. agree W \<sigma> f \<and> (\<forall>c. x = Inr c \<longrightarrow> \<sigma> p = Some (Reg c)))"
  by (rule triple_agree_by_map [OF ReadRegularNoFollow_spec]) (use assms in \<open>auto simp: agree_def\<close>)

text \<open>Publication of a staged file at \<open>np\<close>.\<close>

lemma publish_agree:
  assumes "tp \<notin> W" and "tp \<noteq> np"
  shows "triple (agree (insert tp W) (\<sigma>(tp \<mapsto> Reg d))) (publishTmpNoReplace r tp np d)
     (\<lambda>x f. if x = Inr () then agree W (\<sigma>(np \<mapsto> Reg d)) f \<and> (np \<in> W \<longrightarrow> \<sigma> np \<in> {None, Some (Reg d)}) \<and> map_of f np = Some (Reg d)
            else agree W \<sigma> f)" (is "triple _ _ ?Q")
proof (rule triple_agree_by_map [OF publishTmpNoReplace_spec])
  fix g :: tree assume g: "\<forall>p \<in> insert tp W. g p = (\<sigma>(tp \<mapsto> Reg d)) p"
  then show "g tp = Some (Reg d)" by simp
  fix x :: "goerr + unit" and f
  assume "case x of Inl _ \<Rightarrow> map_of f = g \<or> map_of f = g(tp := None)
    | Inr _ \<Rightarrow> g np = None \<and> map_of f = g(tp := None, np \<mapsto> Reg d)
             \<or> g np = Some (Reg d) \<and> (map_of f = g \<or> map_of f = g(tp := None))"
  with g assms show "?Q x f" by (cases x) (auto simp: agree_def)
qed

text \<open>Names under which nothing but attempts live.\<close>

definition dot_names :: "path \<Rightarrow> path set" where
  "dot_names dir = {p. \<exists>x. p = dir @ [''.'' @ x]}"

definition above :: "path \<Rightarrow> path set" where
  "above dir = {p. prefix p dir}"

lemma uniqueAttemptTmpPath_dot:
  "triple P (uniqueAttemptTmpPath dir fn) (\<lambda>x f. P f \<and> (\<forall>tp. x = Inr tp \<longrightarrow> tp \<in> dot_names dir))"
  by (auto simp: triple_def uniqueAttemptTmpPath_def uniqueAttemptTmpName_def on_err_def bind_def fail_def ok_def
      ret_def read_random_def get_now_def get_pid_def Let_def dot_names_def split: option.splits prod.splits)

text \<open>Replacing a file: the old content or the new one, and success means the new one.\<close>

lemma rename_agree:
  assumes "tp \<notin> W" and "tp \<noteq> np"
  shows "triple (agree (insert tp W) (\<sigma>(tp \<mapsto> Reg d))) (sys_upd (rename tp np))
     (\<lambda>x f. if x = Inr () then agree W (\<sigma>(np \<mapsto> Reg d)) f else agree W \<sigma> f)"
proof (rule triple_sys_upd)
  fix f f' assume a: "agree (insert tp W) (\<sigma>(tp \<mapsto> Reg d)) f" and r: "rename tp np f = Inr f'"
  from a have "map_of f tp = Some (Reg d)" by (simp add: agree_def)
  from rename_file_cases [OF r this] assms have "f' = put np (Reg d) (del tp f)" by simp
  with a assms show "if Inr () = Inr () then agree W (\<sigma>(np \<mapsto> Reg d)) f' else agree W \<sigma> f'"
    by (auto simp: agree_def)
qed (use assms in \<open>auto simp: agree_def\<close>)

definition replaced :: "path set \<Rightarrow> tree \<Rightarrow> path \<Rightarrow> bytes \<Rightarrow> goerr option \<Rightarrow> fs \<Rightarrow> bool" where
  "replaced W \<sigma> p d err f \<longleftrightarrow>
     agree W (\<sigma>(p \<mapsto> Reg d)) f \<or> err \<noteq> None \<and> agree W \<sigma> f"

lemma replaced_other:
  assumes "replaced (insert p W) (\<sigma>(p := v)) p d err f" and "p \<notin> W"
  shows "agree W \<sigma> f" and "err = None \<Longrightarrow> map_of f p = Some (Reg d)"
  using assms by (auto simp: replaced_def agree_def)

lemma WriteFileAtomic_agree:
  assumes "W \<inter> above dir = {}" and "W \<inter> dot_names dir = {}"
  shows "triple (agree W \<sigma>) (WriteFileAtomic r dir fn d)
     (\<lambda>x. replaced W \<sigma> (dir @ [fn]) d (snd x))"
  (is "triple _ _ ?Q")
proof -
  have mk: "keeps (agree W \<sigma>) (mkdirAll dir 448)"
    by (rule keeps_agree_mkdirAll) (use assms(1) in \<open>auto simp: above_def\<close>)
  have quit: "triple (agree W \<sigma>) (ret ([], Some e)) ?Q" for e
    by (rule triple_ret) (simp add: replaced_def)
  have clean: "triple (agree (insert tp W) (\<sigma>(tp \<mapsto> Reg d)))
      (bind (cleanupTemp tp e) (\<lambda>e'. ret ([], Some e'))) ?Q" if "tp \<notin> W" for tp e
    by (rule triple_pre [OF triple_bind [OF keeps_triple [OF keeps_agree_cleanupTemp [OF that]] quit]])
       (use that in \<open>auto simp: agree_def\<close>)
  have finish: "triple (agree W (\<sigma>(dir @ [fn] \<mapsto> Reg d)))
      (on_err (syncDir dir) (\<lambda>e. ret (cp, Some (CommittedDurability cp [] e))) (\<lambda>_. ret (cp, None))) ?Q" for cp
    by (rule triple_on_err [OF keeps_triple [OF keeps_syncDir]]) (auto intro!: triple_ret simp: replaced_def)
  have body: "triple (agree W \<sigma>) (on_err (writeAndSync tp d) (\<lambda>e. ret ([], Some e)) (\<lambda>_.
     on_err (syncDir dir) (\<lambda>e. bind (cleanupTemp tp e) (\<lambda>e'. ret ([], Some e'))) (\<lambda>_.
     on_err (sys_upd (rename tp (dir @ [fn])))
       (\<lambda>e. bind (cleanupTemp tp e) (\<lambda>e'. ret ([], Some e'))) (\<lambda>_.
     let committedPath = displayPath r (dir @ [fn]) in
     on_err (syncDir dir) (\<lambda>e. ret (committedPath, Some (CommittedDurability committedPath [] e))) (\<lambda>_.
     ret (committedPath, None)))))) ?Q" if "tp = dir @ [''.'' @ fn @ x]" for tp x
  proof -
    have "length (''.'' @ fn @ x) \<noteq> length fn" by simp
    then have "''.'' @ fn @ x \<noteq> fn" by metis
    with that assms(2) have tp: "tp \<notin> W" "tp \<noteq> dir @ [fn]" by (auto simp: dot_names_def)
    have rn: "triple (agree (insert tp W) (\<sigma>(tp \<mapsto> Reg d))) (on_err (sys_upd (rename tp (dir @ [fn])))
       (\<lambda>e. bind (cleanupTemp tp e) (\<lambda>e'. ret ([], Some e'))) (\<lambda>_.
     let committedPath = displayPath r (dir @ [fn]) in
     on_err (syncDir dir) (\<lambda>e. ret (committedPath, Some (CommittedDurability committedPath [] e))) (\<lambda>_.
     ret (committedPath, None)))) ?Q"
      unfolding Let_def
      by (rule triple_on_err [OF rename_agree [OF tp]])
         (use finish in \<open>auto intro!: triple_bind [OF keeps_triple [OF keeps_agree_cleanupTemp [OF tp(1)]] quit]\<close>)
    show ?thesis
      by (rule triple_on_err [OF writeAndSync_agree [OF tp(1)]]; simp only: sum.case)
         (rule quit, rule triple_on_err [OF keeps_triple [OF keeps_syncDir] clean [OF tp(1)] rn])
  qed
  show ?thesis
    unfolding WriteFileAtomic_def Let_def
    by (intro triple_on_err [OF keeps_triple [OF keeps_VerifyBase] quit] triple_on_err [OF keeps_triple [OF mk] quit]
        triple_bind [OF keeps_triple [OF keeps_get_now]] body [unfolded Let_def, OF refl])
qed

text \<open>Work done under the envelope lock.\<close>

lemma lock_agree:
  assumes "\<And>batch. triple (agree W \<sigma>) (fn batch) Q"
    and "W \<inter> above [''agents'', a, ''dlq'', ''locks''] = {}" and "lock_path a n \<notin> W"
  shows "triple (agree W \<sigma>) (WithDLQEnvelopeLock r a n fn)
     (\<lambda>x f. case x of Inl _ \<Rightarrow> agree W \<sigma> f | Inr y \<Rightarrow> Q y f)" (is "triple _ _ ?Q")
proof -
  have quit: "triple (agree W \<sigma>) (fail e) ?Q" for e by (rule triple_fail) simp
  have mk: "keeps (agree W \<sigma>) (mkdirAll [''agents'', a, ''dlq'', ''locks''] 448)"
    by (rule keeps_agree_mkdirAll) (use assms(2) in \<open>auto simp: above_def\<close>)
  have opn: "keeps (agree W \<sigma>) (sys_upd (open_create (lock_path a n)))"
    by (rule keeps_sys_upd)
       (use assms(3) in \<open>auto simp: open_create_def agree_def split: sum.splits option.splits node.splits\<close>)
  have after: "triple (?Q x) (bind sys_noop (\<lambda>_. ret x)) ?Q" for x
    by (rule triple_bind [OF keeps_triple [OF keeps_sys_noop]]) (rule triple_ret)
  have run: "triple (agree W \<sigma>) (guard (VerifyBase r) (\<lambda>_. bind (fn batch) ok)) ?Q" for batch
    by (rule triple_on_err [OF keeps_triple [OF keeps_VerifyBase] quit], rule triple_bind [OF assms(1)])
       (rule triple_ok, simp)
  have locked: "triple (agree W \<sigma>) (withExclusiveDLQEnvelopeLock (guard (VerifyBase r) (\<lambda>_. bind (fn batch) ok))) ?Q"
    for batch
    unfolding withExclusiveDLQEnvelopeLock_def
    by (rule triple_on_err [OF keeps_triple [OF keeps_sys_noop] quit], rule triple_bind [OF run after])
  have inner: "triple (agree W \<sigma>) (on_err (mkdirAll [''agents'', a, ''dlq'', ''locks''] 448)
          (\<lambda>e. fail (Wrap ''prepare DLQ envelope lock directory'' e)) (\<lambda>_.
        on_err (sys_upd (open_create (lock_path a n)))
          (\<lambda>e. fail (Wrap ''open DLQ envelope lock'' e)) (\<lambda>_.
        bind (withExclusiveDLQEnvelopeLock (guard (VerifyBase r) (\<lambda>_. bind (fn batch) ok))) (\<lambda>x.
        bind sys_noop (\<lambda>_. ret x))))) ?Q" for batch
    by (rule triple_on_err [OF keeps_triple [OF mk] quit], rule triple_on_err [OF keeps_triple [OF opn] quit],
        rule triple_bind [OF locked after])
  have pinned: "triple (agree W \<sigma>) (WithPinnedBatch r k) (\<lambda>x f. case x of Inl _ \<Rightarrow> agree W \<sigma> f | Inr y \<Rightarrow> ?Q y f)"
    if "\<And>batch. triple (agree W \<sigma>) (k batch) ?Q" for k
    unfolding WithPinnedBatch_def
    by (rule triple_on_err [OF keeps_triple [OF keeps_VerifyBase]], rule triple_fail, simp,
        rule triple_bind [OF keeps_triple [OF keeps_new_lease]], rule triple_bind [OF keeps_triple [OF keeps_set_lease]],
        rule triple_bind [OF that], rule triple_bind [OF keeps_triple [OF keeps_set_lease]], rule triple_ok, simp)
  have flat: "triple (\<lambda>f. case x of Inl _ \<Rightarrow> agree W \<sigma> f | Inr y \<Rightarrow> ?Q y f)
      (ret (case x of Inl e \<Rightarrow> Inl e | Inr y \<Rightarrow> y)) ?Q" for x
    by (rule triple_ret) (simp split: sum.splits)
  show ?thesis
    unfolding WithDLQEnvelopeLock_def
    by (auto split: option.split intro!: quit triple_bind [OF pinned [OF inner] flat])
qed

end
