(* ===== verification/Dlq_Retry.thy ===== *)
theory Dlq_Retry
  imports Dlq Frame
begin

text \<open>
  Retrying from the dead-letter queue, for every fault schedule: the envelope is the write-ahead
  log of a retry, so whatever call fails, an inbox that received the original again has an envelope
  that says so.
\<close>

text \<open>Where a box keeps the envelope.\<close>

definition env_path :: "string \<Rightarrow> string \<Rightarrow> box \<Rightarrow> path" where
  "env_path a fn b = (case b of BoxCur \<Rightarrow> cur_env a fn | BoxNew \<Rightarrow> new_env a fn)"

text \<open>Sets of files that the operations' own attempts and directories cannot meet.\<close>

definition plain :: "path set \<Rightarrow> bool" where
  "plain W \<longleftrightarrow>
     (\<forall>p \<in> W. length p = 5 \<and> (hasPrefix (last p) ''.'' \<longrightarrow> butlast p = inbox_new (p ! 1)) \<and> butlast p \<noteq> inbox_tmp (p ! 1))"

lemma plain_above: "plain W \<Longrightarrow> length d \<le> 4 \<Longrightarrow> W \<inter> above d = {}"
  by (auto simp: plain_def above_def dest!: prefix_length_le)

lemma env_paths_apart [simp]:
  "cur_env a fn \<noteq> new_env a fn" "new_env a fn \<noteq> cur_env a fn"
  "cur_env a fn \<noteq> new_msg a x" "new_env a fn \<noteq> new_msg a x" "new_msg a x \<noteq> cur_env a fn" "new_msg a x \<noteq> new_env a fn"
  by (auto simp: cur_env_def new_env_def)

lemma plain_paths [simp]:
  "plain {}" "plain (insert (new_msg a x) W) \<longleftrightarrow> plain W"
  "plain (insert (cur_env a fn) W) \<longleftrightarrow> \<not> hasPrefix fn ''.'' \<and> plain W"
  "plain (insert (new_env a fn) W) \<longleftrightarrow> \<not> hasPrefix fn ''.'' \<and> plain W"
  by (auto simp: plain_def cur_env_def new_env_def)

lemma plain_dots: "plain W \<Longrightarrow> d \<noteq> inbox_new (d ! 1) \<Longrightarrow> length d = 4 \<Longrightarrow> W \<inter> dot_names d = {}"
  by (auto simp: plain_def dot_names_def hasPrefix_def nth_append)

section \<open>Finding and reading an envelope\<close>

lemma FindDLQMessage_post:
  "triple P (FindDLQMessage r a fn) (\<lambda>x f. P f \<and> (\<forall>p b. x = Inr (p, b) \<longrightarrow> p = env_path a fn b \<and> \<not> hasPrefix fn ''.''))"
proof (cases "ValidateMessageFilename fn")
  case (Some e)
  then show ?thesis by (auto simp: FindDLQMessage_def intro: triple_fail)
next
  case None
  then have fn: "\<not> hasPrefix fn ''.''" by (rule valid_filename_no_dot)
  show ?thesis
    unfolding FindDLQMessage_def None option.case
    by (intro triple_bind [OF keeps_triple [OF keeps_StatR]])
       (auto split: sum.split intro!: triple_ok triple_fail triple_bind [OF keeps_triple [OF keeps_StatR]]
         simp: env_path_def fn)
qed

lemma ReadDLQEnvelope_agree:
  assumes "p \<in> W"
  shows "triple (agree W \<sigma>) (ReadDLQEnvelope r p)
     (\<lambda>x f. agree W \<sigma> f \<and> (\<forall>y. x = Inr y \<longrightarrow> (\<exists>d. \<sigma> p = Some (Reg d) \<and> parseDLQMessage d = Inr y)))"
  unfolding ReadDLQEnvelope_def
  by (rule triple_on_err [OF ReadRegular_agree [OF assms]]) (auto intro!: triple_fail triple_ret)

lemma keeps_sync_both [stable_rules]: "keeps P (sync_both r a fn)"
  unfolding sync_both_def by (intro stable_rules)

lemma reconcile_agree: "new_env a fn \<notin> W \<Longrightarrow> keeps (agree W \<sigma>) (reconcileDLQCurAuthorityLocked r a fn)"
  unfolding reconcileDLQCurAuthorityLocked_def
  by (intro stable_rules keeps_agree_remove)

lemma keeps_original_box [stable_rules]: "keeps P (original_box r a fn bs)"
  by (induction bs) (auto intro!: stable_rules)

section \<open>The update of an envelope\<close>

lemma update_agree:
  assumes "plain W" and "\<not> hasPrefix fn ''.''" and "p = env_path a fn b"
  shows "triple (agree W \<sigma>) (updateRetriedDLQEnvelope r a fn p b d)
     (\<lambda>x f. agree (W - {new_env a fn}) (\<sigma>(cur_env a fn \<mapsto> Reg d)) f \<or> x \<noteq> Inr () \<and> agree W \<sigma> f)"
  (is "triple _ _ ?Q")
proof -
  let ?\<tau> = "\<sigma>(cur_env a fn \<mapsto> Reg d)" and ?V = "W - {new_env a fn}"
  have mk: "keeps (agree W \<sigma>) (mkdirAll (dlq_cur a) 448)"
    by (rule keeps_agree_mkdirAll) (use plain_above [OF assms(1), of "dlq_cur a"] in \<open>auto simp: above_def\<close>)
  have quit: "triple (replaced W \<sigma> (cur_env a fn) d (Some e)) (fail e') ?Q" for e e'
    by (rule triple_fail) (auto simp: replaced_def agree_def)
  have after: "triple (agree ?V ?\<tau>) m ?Q" if "keeps (agree ?V ?\<tau>) m" for m
    by (rule triple_post [OF keeps_triple [OF that]]) simp
  have rm: "keeps (agree ?V ?\<tau>) (sys_upd (remove (new_env a fn)))"
    by (rule keeps_agree_remove) simp
  have fine: "triple (replaced W \<sigma> (cur_env a fn) d None) m ?Q" if "keeps (agree ?V ?\<tau>) m" for m
    by (rule triple_pre [OF after [OF that]]) (auto simp: replaced_def agree_def)
  have atomic: "triple (agree W \<sigma>) (WriteFileAtomic r (dlq_cur a) fn d) (\<lambda>x. replaced W \<sigma> (cur_env a fn) d (snd x))"
    unfolding cur_env_def by (rule WriteFileAtomic_agree) (use assms plain_above plain_dots in auto)
  have tail: "triple (\<lambda>f. replaced W \<sigma> (cur_env a fn) d err f)
      (case err of Some e \<Rightarrow> fail (h e) | None \<Rightarrow> m) ?Q"
    if "keeps (agree ?V ?\<tau>) m" for err h m
    using quit fine [OF that] by (cases err) simp_all
  show ?thesis
  proof (cases b)
    case BoxCur
    then show ?thesis
      unfolding updateRetriedDLQEnvelope_def
      by (intro triple_on_err [OF keeps_triple [OF mk]] triple_bind [OF atomic])
         (auto intro!: triple_fail tail stable_rules)
  next
    case BoxNew
    with assms(3) have p: "p = new_env a fn" by (simp add: env_path_def)
    show ?thesis
      unfolding updateRetriedDLQEnvelope_def BoxNew box.case p
      by (intro triple_on_err [OF keeps_triple [OF mk]] triple_bind [OF atomic])
         (auto intro!: triple_fail tail stable_rules rm)
  qed
qed

section \<open>Delivery inside a retry\<close>

lemma stageAll_error: "fst (stageAll fn d [] rcps w) = Inl e \<Longrightarrow> published_to e = []"
proof -
  assume e: "fst (stageAll fn d [] rcps w) = Inl e"
  have "staged (map_of (fs w)) fn d [] [] (map_of (fs w))" by (simp add: staged_def delivered_only_refl)
  from triple_run [OF stageAll_spec, of "map_of (fs w)" fn d "[]" w rcps, OF this] e show ?thesis by simp
qed

text \<open>An error of a delivery to one recipient reports it exactly when it is committed.\<close>

definition one_error :: "string \<Rightarrow> goerr \<Rightarrow> bool" where
  "one_error a e \<longleftrightarrow> set (published_to e) \<subseteq> {a} \<and> (asCommitted e = None \<longrightarrow> published_to e = [])"

lemma one_errorI: "published_to e = [] \<Longrightarrow> one_error a e"
  by (simp add: one_error_def)

lemma errs_commit_one: "errs (one_error (recipient s)) (commitAll r d [] [s])"
proof -
  have part: "errs (one_error b) (bind (partialDeliveryError r [] s [] e) fail)" for b e
    by (auto simp: errs_def one_error_def partialDeliveryError_def bind_def fail_def ret_def Let_def delivered_map_def
        split: prod.splits)
  have committed: "errs (one_error (recipient s))
      (bind (committedDeliveryError r [s] ps (CommittedDurability p q e)) fail)" for ps p q e
    by (auto simp: errs_def one_error_def committedDeliveryError_def bind_def fail_def ret_def delivered_map_def
        split: prod.splits option.splits)
  show ?thesis
    by (simp, intro errs_on_err [where R = "\<lambda>_. True"] errs_bind errs_ok part [simplified] committed)
       (simp_all add: errs_def)
qed

lemma errs_deliver_one:
  "errs (one_error a) (DeliverToInboxes r [a] fn d)"
proof -
  have inner: "errs (one_error a) (guard (stageAll fn d [] [a]) (\<lambda>stages.
      guard (commitAll r d [] stages) (\<lambda>_. ok (delivered_map r stages))))"
    unfolding errs_def
  proof (intro allI impI)
    fix w e
    assume res: "fst (guard (stageAll fn d [] [a]) (\<lambda>stages.
      guard (commitAll r d [] stages) (\<lambda>_. ok (delivered_map r stages))) w) = Inl e"
    obtain x w1 where st: "stageAll fn d [] [a] w = (x, w1)" by (cases "stageAll fn d [] [a] w")
    show "one_error a e"
    proof (cases x)
      case (Inl e')
      with st res have "fst (stageAll fn d [] [a] w) = Inl e" by (simp add: on_err_def fail_def ret_def)
      then show ?thesis by (intro one_errorI stageAll_error)
    next
      case (Inr ss)
      have "staged (map_of (fs w)) fn d [] [] (map_of (fs w))" by (simp add: staged_def delivered_only_refl)
      from triple_elim [OF stageAll_spec this st] Inr have "map recipient ss = [a]" by simp
      then obtain s where "ss = [s]" "recipient s = a" by (cases ss) auto
      with st Inr res have "fst (commitAll r d [] [s] w1) = Inl e"
        by (auto simp: on_err_def fail_def ok_def ret_def split: prod.splits sum.splits)
      with errs_commit_one [of s r d] \<open>recipient s = a\<close> show ?thesis by (simp add: errs_def)
    qed
  qed
  have "errs (one_error a) (guard (VerifyBase r) (\<lambda>_. guard (stageAll fn d [] [a]) (\<lambda>stages.
      guard (commitAll r d [] stages) (\<lambda>_. ok (delivered_map r stages)))))"
    by (intro errs_guard errs_VerifyBase inner) (simp_all add: one_errorI)
  moreover have "errs (one_error a) (fail e)" if "first_invalid [a] = Some e \<or> ValidateMessageFilename fn = Some e" for e
    using that first_invalid_msg [of "[a]" e] filename_error_msg [of fn e] by (intro errs_fail one_errorI) blast
  ultimately show ?thesis
    unfolding DeliverToInboxes_def by (auto split: option.split)
qed

lemma DeliverToInbox_agree:
  assumes "plain W"
  shows "triple (agree W \<sigma>) (DeliverToInbox r a fn d)
     (\<lambda>x f. agree (W - {new_msg a fn}) \<sigma> f \<and>
        (case x of Inr _ \<Rightarrow> map_of f (new_msg a fn) = Some (Reg d)
         | Inl e \<Rightarrow> asCommitted e = None \<longrightarrow> agree W \<sigma> f))" (is "triple _ _ ?Q")
proof -
  have kept: "agree (W - {new_msg a fn}) \<sigma> f" "set rcps = {} \<Longrightarrow> agree W \<sigma> f"
    if "published g fn d rcps (map_of f)" "\<forall>p \<in> W. g p = \<sigma> p" "set rcps \<subseteq> {a}" for g f rcps
  proof -
    have "map_of f p = \<sigma> p" if p: "p \<in> W" "p \<noteq> new_msg a fn \<or> set rcps = {}" for p
    proof (cases "g p")
      case None
      show ?thesis
      proof (cases "map_of f p")
        case (Some n)
        from publishedD [OF \<open>published g fn d rcps (map_of f)\<close> None Some] show ?thesis
          using p assms \<open>set rcps \<subseteq> {a}\<close> by (auto simp: plain_def)
      next
        case None': None
        with None p(1) that show ?thesis using \<open>\<forall>p \<in> W. g p = \<sigma> p\<close> by simp
      qed
    next
      case (Some n)
      with \<open>published g fn d rcps (map_of f)\<close> have "map_of f p = Some n"
        by (auto simp: published_def dest: delivered_only_old)
      with Some p(1) \<open>\<forall>p \<in> W. g p = \<sigma> p\<close> show ?thesis by simp
    qed
    then show "agree (W - {new_msg a fn}) \<sigma> f" "set rcps = {} \<Longrightarrow> agree W \<sigma> f" by (auto simp: agree_def)
  qed
  have "triple (agree W \<sigma>) (DeliverToInboxes r [a] fn d)
     (\<lambda>x f. agree (W - {new_msg a fn}) \<sigma> f \<and> (case x of Inr y \<Rightarrow> map_of f (new_msg a fn) = Some (Reg d)
         | Inl e \<Rightarrow> asCommitted e = None \<longrightarrow> agree W \<sigma> f))"
  proof (rule triple_agree_by_map [OF triple_errs [OF DeliverToInboxes_spec errs_deliver_one]])
    fix g :: tree and x :: "goerr + (string \<times> path) list" and f
    assume g: "\<forall>p \<in> W. g p = \<sigma> p"
      and x: "published g fn d (reported [a] x) (map_of f) \<and> (\<forall>e. x = Inl e \<longrightarrow> one_error a e)"
    then have sub: "set (reported [a] x) \<subseteq> {a}" by (cases x) (auto simp: one_error_def)
    note pub = x [THEN conjunct1]
    have "agree (W - {new_msg a fn}) \<sigma> f" using kept(1) [OF pub g sub] .
    moreover have "agree W \<sigma> f" if "x = Inl e" "asCommitted e = None" for e
      using kept(2) [OF pub g sub] x that by (simp add: one_error_def)
    moreover have "map_of f (new_msg a fn) = Some (Reg d)" if "x = Inr y" for y
      using pub that by (simp add: published_def)
    ultimately show "agree (W - {new_msg a fn}) \<sigma> f \<and> (case x of Inr y \<Rightarrow> map_of f (new_msg a fn) = Some (Reg d)
         | Inl e \<Rightarrow> asCommitted e = None \<longrightarrow> agree W \<sigma> f)"
      by (cases x) auto
  qed
  then show ?thesis
    unfolding DeliverToInbox_def
    by (rule triple_on_err) (auto intro!: triple_fail triple_ok)
qed

section \<open>Recovery of a retained attempt\<close>

lemma find_retained_spec:
  "triple (\<lambda>f. map_of f = g) (find_retained r dir fn want es)
     (\<lambda>x f. map_of f = g \<and> (\<forall>tp. x = Inr (Some tp) \<longrightarrow> g tp = Some (Reg want) \<and> (\<exists>name. tp = dir @ [name])))"
proof (induction es)
  case Nil
  show ?case by (auto intro: triple_ok)
next
  case (Cons e es)
  obtain name n where e: "e = (name, n)" by (cases e)
  show ?case
    unfolding e find_retained.simps
    by (intro triple_if Cons.IH triple_on_err [OF ReadRegularNoFollow_spec])
       (auto intro!: triple_fail triple_pre [OF Cons.IH] triple_ok)
qed

lemma recover_agree:
  assumes "plain W"
  shows "triple (agree W \<sigma>) (recoverPendingInboxTmp r a fn want) (\<lambda>_. agree (W - {new_msg a fn}) \<sigma>)" (is "triple _ _ ?Q")
proof -
  have weak: "agree W \<sigma> f \<Longrightarrow> agree (W - {new_msg a fn}) \<sigma> f" for f by (rule agree_mono) auto
  have tmp: "tp \<notin> W" if "tp = inbox_tmp a @ [name]" for tp name
    using that assms by (auto simp: plain_def)
  let ?pub = "\<lambda>tp. on_err (publishTmpNoReplace r tp (inbox_new a @ [fn]) want)
           (\<lambda>e. fail (Wrap ''complete retained inbox tmp'' e)) (\<lambda>_.
         bind (syncDir (inbox_new a)) (\<lambda>_. bind (syncDir (inbox_tmp a)) (\<lambda>_. ok True)))"
  have publish: "triple (agree (insert tp W) (\<sigma>(tp \<mapsto> Reg want))) (?pub tp) ?Q"
    if "tp = inbox_tmp a @ [name]" for tp name
  proof (rule triple_on_err [OF publish_agree [OF tmp [OF that]]])
    show "tp \<noteq> inbox_new a @ [fn]" using that by simp
    have rest: "triple (agree (W - {new_msg a fn}) \<sigma>)
      (bind (syncDir (inbox_new a)) (\<lambda>_. bind (syncDir (inbox_tmp a)) (\<lambda>_. ok True))) ?Q"
      by (rule keeps_triple) (intro stable_rules)
    show "triple (\<lambda>f. if Inr x = Inr () then agree W (\<sigma>(inbox_new a @ [fn] \<mapsto> Reg want)) f \<and> A f \<and> B f else agree W \<sigma> f)
      (bind (syncDir (inbox_new a)) (\<lambda>_. bind (syncDir (inbox_tmp a)) (\<lambda>_. ok True))) ?Q" for x :: unit and A B
      by (rule triple_pre [OF rest]) (auto simp: agree_def)
  qed (auto intro!: triple_fail weak)
  have found: "triple (agree W \<sigma>) (guard (find_retained r (inbox_tmp a) fn want es) (\<lambda>m. case m of None \<Rightarrow> ok False | Some tp \<Rightarrow> ?pub tp)) ?Q" for es
  proof (rule triple_on_err [where R = "\<lambda>x f. agree W \<sigma> f \<and> (\<forall>tp. x = Inr (Some tp) \<longrightarrow>
        map_of f tp = Some (Reg want) \<and> (\<exists>name. tp = inbox_tmp a @ [name]))"])
    show "triple (agree W \<sigma>) (find_retained r (inbox_tmp a) fn want es) (\<lambda>x f. agree W \<sigma> f \<and> (\<forall>tp. x = Inr (Some tp) \<longrightarrow>
        map_of f tp = Some (Reg want) \<and> (\<exists>name. tp = inbox_tmp a @ [name])))"
      by (rule triple_agree_by_map [OF find_retained_spec]) (auto simp: agree_def)
    fix m
    show "triple (\<lambda>f. agree W \<sigma> f \<and> (\<forall>tp. Inr m = Inr (Some tp) \<longrightarrow> map_of f tp = Some (Reg want) \<and> (\<exists>name. tp = inbox_tmp a @ [name])))
        (case m of None \<Rightarrow> ok False | Some tp \<Rightarrow> ?pub tp) ?Q"
    proof (cases m)
      case None
      then show ?thesis by (auto intro!: triple_ok weak)
    next
      case (Some tp)
      have "triple (\<lambda>f. agree (insert tp W) (\<sigma>(tp \<mapsto> Reg want)) f \<and> (\<exists>name. tp = inbox_tmp a @ [name])) (?pub tp) ?Q"
        by (rule triple_pure2) (elim exE, rule publish)
      then show ?thesis unfolding Some option.case
        by (rule triple_pre) (use tmp in \<open>auto simp: agree_def\<close>)
    qed
  qed (auto intro!: triple_fail weak)
  show ?thesis
    unfolding recoverPendingInboxTmp_def
    by (rule triple_on_err [OF keeps_triple [OF keeps_ReadDirR] _ found]) (auto intro!: triple_fail triple_ok weak)
qed

section \<open>The write-ahead record\<close>

text \<open>The node is an envelope of the original file \<open>x\<close> that is past its ready state.\<close>

definition audit_at :: "string \<Rightarrow> node option \<Rightarrow> bool" where
  "audit_at x v \<longleftrightarrow>
     (\<exists>d env b. v = Some (Reg d) \<and> parseDLQMessage d = Inr (env, b) \<and>
        OriginalFile env = x \<and> RetryState env \<noteq> RetryStateReady)"

definition audited :: "string \<Rightarrow> string \<Rightarrow> string \<Rightarrow> fs \<Rightarrow> bool" where
  "audited a fn x f \<longleftrightarrow> audit_at x (map_of f (cur_env a fn)) \<or> audit_at x (map_of f (new_env a fn))"

text \<open>The inbox file \<open>x\<close> is as it was, or the envelope accounts for it.\<close>

definition wal :: "string \<Rightarrow> string \<Rightarrow> string \<Rightarrow> node option \<Rightarrow> fs \<Rightarrow> bool" where
  "wal a fn x v f \<longleftrightarrow> map_of f (new_msg a x) = v \<or> audited a fn x f"

lemma wal_same: "agree W \<sigma> f \<Longrightarrow> new_msg a x \<in> W \<Longrightarrow> wal a fn x (\<sigma> (new_msg a x)) f"
  by (simp add: wal_def agree_def)

lemma wal_audit: "agree W \<sigma> f \<Longrightarrow> env_path a fn b \<in> W \<Longrightarrow> audit_at x (\<sigma> (env_path a fn b)) \<Longrightarrow> wal a fn x v f"
  by (auto simp: wal_def agree_def audited_def env_path_def split: box.splits)

lemma audit_serialized:
  assumes "serializeDLQMessage env b = Inr d" "env_text env" "RetryState env \<noteq> []" "RetryState env \<noteq> RetryStateReady"
  shows "audit_at (OriginalFile env) (Some (Reg d))"
  using reparse [OF assms(1-3)] assms(4) by (auto simp: audit_at_def)

lemma env_text_retry:
  "env_text env \<Longrightarrow> s \<in> {RetryStateReady, RetryStatePending, RetryStateDelivered, RetryStateIndeterminate} \<Longrightarrow>
   env_text (setRetryState env s)"
  "env_text env \<Longrightarrow> env_text (env\<lparr>RetryCount := wrap64 i\<rparr>)"
  using retry_state_utf8 [of s] by (auto simp: env_text_def setRetryState_def int64_def wrap64_def)

text \<open>An update of the envelope keeps the record, whether it replaces the old state or fails.\<close>

lemma update_same:
  assumes "\<not> hasPrefix fn ''.''" and "p = env_path a fn b"
  shows "keeps (agree {new_msg a x} \<sigma>) (updateRetriedDLQEnvelope r a fn p b d)"
  unfolding keeps_def
  by (rule triple_post [OF update_agree [OF _ assms]]) (auto simp: agree_def)

lemma update_audited:
  assumes fn: "\<not> hasPrefix fn ''.''" and p: "p = env_path a fn b"
    and "audit_at x (\<sigma> p)" and "audit_at x (Some (Reg d))"
  shows "triple (agree {p} \<sigma>) (updateRetriedDLQEnvelope r a fn p b d) (\<lambda>_. wal a fn x v)"
proof (cases b)
  case BoxCur
  with p have c: "p = cur_env a fn" by (simp add: env_path_def)
  show ?thesis
    by (rule triple_post [OF update_agree [OF _ fn p]])
       (use c fn assms(3,4) in \<open>auto simp: agree_def wal_def audited_def\<close>)
next
  case BoxNew
  with p have n: "p = new_env a fn" by (simp add: env_path_def)
  show ?thesis
  proof (rule triple_watch [of "cur_env a fn"])
    fix c
    show "triple (agree (insert (cur_env a fn) {p}) (\<sigma>(cur_env a fn := c))) (updateRetriedDLQEnvelope r a fn p b d) (\<lambda>_. wal a fn x v)"
      by (rule triple_post [OF update_agree [OF _ fn p]]) (use n fn assms(3,4) in \<open>auto simp: agree_def wal_def audited_def\<close>)
  qed (simp add: n)
qed

lemma finish_pending_wal:
  assumes fn: "\<not> hasPrefix fn ''.''" and p: "p = env_path a fn b"
    and d: "\<sigma> p = Some (Reg d)" "parseDLQMessage d = Inr (env, body)"
    and st: "RetryState env = RetryStatePending \<or> RetryState env = RetryStateIndeterminate"
  shows "triple (agree {new_msg a x, p} \<sigma>) (finish_pending r a fn p b env body present)
     (\<lambda>_. wal a fn x (\<sigma> (new_msg a x)))" (is "triple _ _ ?Q")
proof -
  let ?env = "setRetryState env RetryStateDelivered"
  have utf: "env_text ?env" by (rule env_text_retry(1) [OF parsed_env_text [OF d(2)]]) simp
  have plain: "plain {new_msg a x, p}" using fn p by (cases b) (simp_all add: env_path_def)
  have neq: "p \<noteq> new_msg a y" for y using p by (cases b) (simp_all add: env_path_def)
  have audit: "audit_at x (\<sigma> p)" if "OriginalFile env = x"
    unfolding audit_at_def using d st that by (auto simp: retry_states)
  have get: "triple (agree {new_msg a x, p} \<sigma>)
      (if present \<noteq> None then ok True else recoverPendingInboxTmp r a (OriginalFile env) body)
      (\<lambda>_. agree ({new_msg a x, p} - {new_msg a (OriginalFile env)}) \<sigma>)"
    by (rule triple_if) (auto intro!: triple_ok recover_agree [OF plain] simp: agree_def)
  have fin: "triple (agree ({new_msg a x, p} - {new_msg a (OriginalFile env)}) \<sigma>)
      (on_err (updateRetriedDLQEnvelope r a fn p b d') (\<lambda>e. fail (h e)) (\<lambda>_. fail e')) ?Q"
    if ser: "serializeDLQMessage ?env body = Inr d'" for d' h e'
  proof (cases "OriginalFile env = x")
    case True
    have "audit_at x (Some (Reg d'))"
      using audit_serialized [OF ser utf] True by (simp add: retry_states)
    then have upd: "triple (agree {p} \<sigma>) (updateRetriedDLQEnvelope r a fn p b d') (\<lambda>_. wal a fn x (\<sigma> (new_msg a x)))"
      by (intro update_audited fn p audit True)
    have "triple (agree {p} \<sigma>) (on_err (updateRetriedDLQEnvelope r a fn p b d') (\<lambda>e. fail (h e)) (\<lambda>_. fail e')) ?Q"
      by (rule triple_on_err [OF upd]) (rule triple_fail, assumption)+
    then show ?thesis by (rule triple_pre) (use neq in \<open>auto simp: agree_def\<close>)
  next
    case False
    have "triple (agree {new_msg a x} \<sigma>) (on_err (updateRetriedDLQEnvelope r a fn p b d') (\<lambda>e. fail (h e)) (\<lambda>_. fail e')) ?Q"
      by (rule triple_on_err [OF keeps_triple [OF update_same [OF fn p]]]) (auto intro!: triple_fail wal_same)
    then show ?thesis by (rule triple_pre) (use False in \<open>auto simp: agree_def\<close>)
  qed
  have stop: "triple (agree ({new_msg a x, p} - {new_msg a (OriginalFile env)}) \<sigma>) (fail e) ?Q" for e
  proof (rule triple_fail)
    fix f assume f: "agree ({new_msg a x, p} - {new_msg a (OriginalFile env)}) \<sigma> f"
    show "?Q (Inl e) f"
    proof (cases "OriginalFile env = x")
      case True
      with f audit neq show ?thesis by (intro wal_audit [OF f, of a fn b]) (simp_all add: p [symmetric])
    next
      case False
      with f show ?thesis by (auto intro: wal_same)
    qed
  qed
  show ?thesis
    unfolding finish_pending_def
    by (rule triple_on_err [OF get stop], rule triple_if, rule stop)
       (auto split: sum.split intro!: stop fin)
qed

text \<open>The two ends of a retry: the reset leaves the inbox alone, the completion keeps the record.\<close>

lemma reset_wal:
  assumes "\<not> hasPrefix fn ''.''"
  shows "triple (agree {new_msg a x} \<sigma>) (reset_retry r a fn env body de) (\<lambda>_. wal a fn x (\<sigma> (new_msg a x)))"
proof -
  have p: "cur_env a fn = env_path a fn BoxCur" by (simp add: env_path_def)
  show ?thesis
    unfolding reset_retry_def
    by (auto split: sum.split intro!: triple_fail wal_same
        triple_on_err [OF keeps_triple [OF update_same [OF assms p]]])
qed

definition mid_retry :: "string \<Rightarrow> string \<Rightarrow> string \<Rightarrow> string \<Rightarrow> tree \<Rightarrow> fs \<Rightarrow> bool" where
  "mid_retry a fn x y \<sigma> = agree (if x = y then {cur_env a fn} else {new_msg a x}) \<sigma>"

lemma complete_wal:
  assumes fn: "\<not> hasPrefix fn ''.''" and text_env: "env_text env"
    and logged: "x \<noteq> OriginalFile env \<or> audit_at x (\<sigma> (cur_env a fn))"
  shows "triple (mid_retry a fn x (OriginalFile env) \<sigma>)
     (complete_retry r a fn env body ip de) (\<lambda>_. wal a fn x (\<sigma> (new_msg a x)))" (is "triple ?P _ ?Q")
proof -
  let ?env = "setRetryState env RetryStateDelivered"
  have p: "cur_env a fn = env_path a fn BoxCur" by (simp add: env_path_def)
  have start: "wal a fn x (\<sigma> (new_msg a x)) f" if "?P f" for f
    using that logged wal_audit [of "{cur_env a fn}" \<sigma> f a fn BoxCur x] wal_same [of "{new_msg a x}" \<sigma> f a x fn]
    by (auto simp: p [symmetric] mid_retry_def split: if_splits)
  have upd: "triple ?P (updateRetriedDLQEnvelope r a fn (cur_env a fn) BoxCur d) ?Q"
    if ser: "serializeDLQMessage ?env body = Inr d" for d
  proof (cases "x = OriginalFile env")
    case True
    have "audit_at x (Some (Reg d))"
      using audit_serialized [OF ser env_text_retry(1) [OF text_env]] True by (simp add: retry_states)
    with True logged show ?thesis by (simp add: update_audited [OF fn p] mid_retry_def)
  next
    case False
    then show ?thesis
      using triple_post [OF keeps_triple [OF update_same [OF fn p, of x \<sigma> r d]]] wal_same by (auto simp: mid_retry_def)
  qed
  show ?thesis
    unfolding complete_retry_def
    by (auto split: sum.split option.split intro!: triple_fail triple_ok start triple_on_err [OF upd])
qed

lemma start_retry_wal:
  assumes fn: "\<not> hasPrefix fn ''.''" and p: "p = env_path a fn b" and text0: "env_text env0"
  shows "triple (agree {new_msg a x} \<sigma>) (start_retry r a fn p b env0 body) (\<lambda>_. wal a fn x (\<sigma> (new_msg a x)))"
  (is "triple ?P _ ?Q")
proof (rule triple_watch [of "cur_env a fn"])
  fix c
  let ?i = "new_msg a x" and ?c = "cur_env a fn" and ?\<tau> = "\<sigma>(cur_env a fn := c)"
  let ?env = "setRetryState (env0\<lparr>RetryCount := wrap64 (RetryCount env0 + 1)\<rparr>) RetryStatePending"
  have text_env: "env_text ?env" by (intro env_text_retry text0) simp
  have orig [simp]: "OriginalFile ?env = OriginalFile env0" by simp
  have plain: "plain {?c, ?i}" using fn by simp
  have stop: "triple (agree {?c, ?i} ?\<tau>) (fail e) ?Q" for e
    by (rule triple_fail) (auto simp: wal_def agree_def)
  have goon: "triple (agree {?c, ?i} (?\<tau>(?c \<mapsto> Reg d)))
      (bind (DeliverToInbox r a (OriginalFile ?env) body) (\<lambda>y. case y of
            Inl de \<Rightarrow> (case asCommitted de of
                 None \<Rightarrow> reset_retry r a fn ?env body de
               | Some (finalPath, _, _) \<Rightarrow> complete_retry r a fn ?env body finalPath (Some de))
          | Inr inboxPath \<Rightarrow> complete_retry r a fn ?env body inboxPath None)) ?Q"
    if ser: "serializeDLQMessage ?env body = Inr d" for d
  proof (rule triple_bind [OF DeliverToInbox_agree [OF plain]])
    fix y :: "goerr + path"
    let ?\<rho> = "?\<tau>(?c \<mapsto> Reg d)"
    have rec: "x \<noteq> OriginalFile ?env \<or> audit_at x (?\<rho> ?c)"
      using audit_serialized [OF ser text_env] by (simp add: retry_states)
    have complete: "triple (agree ({?c, ?i} - {new_msg a (OriginalFile env0)}) ?\<rho>) (complete_retry r a fn ?env body ip de) ?Q" for ip de
      by (rule triple_pre [OF complete_wal [where \<sigma> = ?\<rho> and a = a and x = x and env = ?env, OF fn text_env rec, simplified]])
         (auto simp: agree_def mid_retry_def)
    have reset: "triple (agree {?c, ?i} ?\<rho>) (reset_retry r a fn ?env body de) ?Q" for de
      by (rule triple_pre [OF reset_wal [where \<sigma> = ?\<rho> and a = a and x = x, OF fn, simplified]]) (auto simp: agree_def)
    show "triple (\<lambda>f. agree ({?c, ?i} - {new_msg a (OriginalFile ?env)}) ?\<rho> f \<and>
          (case y of Inr _ \<Rightarrow> map_of f (new_msg a (OriginalFile ?env)) = Some (Reg body)
           | Inl e \<Rightarrow> asCommitted e = None \<longrightarrow> agree {?c, ?i} ?\<rho> f))
        (case y of
            Inl de \<Rightarrow> (case asCommitted de of
                 None \<Rightarrow> reset_retry r a fn ?env body de
               | Some (finalPath, _, _) \<Rightarrow> complete_retry r a fn ?env body finalPath (Some de))
          | Inr inboxPath \<Rightarrow> complete_retry r a fn ?env body inboxPath None) ?Q"
      by (cases y) (auto split: option.split intro: triple_pre [OF complete] triple_pre [OF reset])
  qed
  have first: "triple (agree {?c, ?i} ?\<tau>) (guard (updateRetriedDLQEnvelope r a fn p b d) (\<lambda>_. K)) ?Q"
    if K: "triple (agree {?c, ?i} (?\<tau>(?c \<mapsto> Reg d))) K ?Q" for d K
  proof (rule triple_on_err [OF update_agree [OF plain fn p]])
    show "triple (\<lambda>f. agree ({?c, ?i} - {new_env a fn}) (?\<tau>(?c \<mapsto> Reg d)) f \<or> Inl e \<noteq> Inr () \<and> agree {?c, ?i} ?\<tau> f) (fail e) ?Q" for e
      by (rule triple_fail) (auto simp: wal_def agree_def)
    show "triple (\<lambda>f. agree ({?c, ?i} - {new_env a fn}) (?\<tau>(?c \<mapsto> Reg d)) f \<or> Inr z \<noteq> Inr () \<and> agree {?c, ?i} ?\<tau> f) K ?Q" for z :: unit
      by (rule triple_pre [OF K]) (auto simp: agree_def)
  qed
  show "triple (agree (insert ?c {?i}) ?\<tau>) (start_retry r a fn p b env0 body) ?Q"
    unfolding start_retry_def Let_def
    by (rule triple_case_sum, rule stop, rule first, rule goon)
qed simp

lemma retry_envelope_wal:
  assumes fn: "\<not> hasPrefix fn ''.''" and p: "p = env_path a fn b"
    and d: "\<sigma> p = Some (Reg d)" "parseDLQMessage d = Inr (env, body)"
  shows "triple (agree {new_msg a x, p} \<sigma>) (retry_envelope r a fn force p b env body)
     (\<lambda>_. wal a fn x (\<sigma> (new_msg a x)))" (is "triple ?A _ ?R")
proof -
  have quit: "triple ?A (fail e) ?R" for e by (rule triple_fail) (auto simp: wal_def agree_def)
  have recon: "keeps ?A (if b = BoxCur then bind (reconcileDLQCurAuthorityLocked r a fn)
      (\<lambda>(_, err). case err of Some e \<Rightarrow> fail e | None \<Rightarrow> ok ()) else ok ())"
    by (auto simp: p env_path_def intro!: stable_rules reconcile_agree)
  have start: "triple ?A (start_retry r a fn p b env body) ?R"
    by (rule triple_pre [OF start_retry_wal [where \<sigma> = \<sigma> and x = x, OF fn p parsed_env_text [OF d(2)]]])
       (auto simp: agree_def)
  have pending: "triple ?A (finish_pending r a fn p b env body present) ?R"
    if "RetryState env = RetryStatePending \<or> RetryState env = RetryStateIndeterminate" for present
    by (rule finish_pending_wal [where \<sigma> = \<sigma> and d = d, OF fn p d that])
  show ?thesis
    unfolding retry_envelope_def
    by (rule triple_on_err [OF keeps_triple [OF recon] quit], rule triple_case_option, rule triple_if, rule quit,
        rule triple_on_err [OF keeps_triple [OF keeps_original_box] quit], rule triple_if, erule pending,
        rule triple_if, rule quit, rule triple_if, rule quit, rule start, rule quit)
qed

text \<open>A property of what follows a successful read, for whatever the envelope file holds.\<close>

lemma read_envelope:
  assumes p: "p = env_path a fn b"
    and fails: "\<And>f e. map_of f (new_msg a x) = v \<Longrightarrow> Q (Inl e) f"
    and K: "\<And>\<sigma> d env body. \<sigma> (new_msg a x) = v \<Longrightarrow> \<sigma> p = Some (Reg d) \<Longrightarrow> parseDLQMessage d = Inr (env, body) \<Longrightarrow>
      triple (agree {new_msg a x, p} \<sigma>) (k (env, body)) Q"
  shows "triple (\<lambda>f. map_of f (new_msg a x) = v) (on_err (ReadDLQEnvelope r p) (\<lambda>e. fail (h e)) k) Q"
proof -
  have np: "p \<notin> {new_msg a x}" using p by (cases b) (simp_all add: env_path_def)
  have "triple (agree {new_msg a x} (\<lambda>_. v)) (on_err (ReadDLQEnvelope r p) (\<lambda>e. fail (h e)) k) Q"
  proof (rule triple_watch [OF np])
    fix u
    let ?\<tau> = "(\<lambda>_. v)(p := u)"
    show "triple (agree (insert p {new_msg a x}) ?\<tau>) (on_err (ReadDLQEnvelope r p) (\<lambda>e. fail (h e)) k) Q"
    proof (rule triple_on_err [OF ReadDLQEnvelope_agree]; (rule triple_pure2)?)
      fix y :: "DLQEnvelope \<times> bytes"
      assume "\<forall>z. Inr y = Inr z \<longrightarrow> (\<exists>d. ?\<tau> p = Some (Reg d) \<and> parseDLQMessage d = Inr z)"
      then obtain d where d: "?\<tau> p = Some (Reg d)" "parseDLQMessage d = Inr (fst y, snd y)" by auto
      have "?\<tau> (new_msg a x) = v" using np by auto
      from K [OF this d] show "triple (agree (insert p {new_msg a x}) ?\<tau>) (k y) Q"
        by (simp only: insert_commute prod.collapse)
    qed (use np in \<open>auto intro!: triple_fail fails simp: agree_def\<close>)
  qed
  then show ?thesis by (simp add: agree_def [abs_def])
qed

lemma retry_locked_wal:
  "triple (\<lambda>f. map_of f (new_msg a x) = v) (retryFromDLQLocked r a fn force) (\<lambda>_. wal a fn x v)"
  unfolding retryFromDLQLocked_def
proof (rule triple_on_err [OF FindDLQMessage_post]; (rule triple_pure2)?)
  fix y :: "path \<times> box"
  assume found: "\<forall>p b. Inr y = Inr (p, b) \<longrightarrow> p = env_path a fn b \<and> \<not> hasPrefix fn ''.''"
  obtain p b where "y = (p, b)" by (cases y)
  with found have y: "y = (p, b)" "p = env_path a fn b" and fn: "\<not> hasPrefix fn ''.''" by blast+
  have "triple (agree {new_msg a x, p} \<sigma>) (retry_envelope r a fn force p b env body) (\<lambda>_. wal a fn x v)"
    if "\<sigma> (new_msg a x) = v" "\<sigma> p = Some (Reg d)" "parseDLQMessage d = Inr (env, body)" for \<sigma> d env body
    using retry_envelope_wal [where \<sigma> = \<sigma> and d = d and x = x, OF fn y(2) that(2,3)] that(1) by simp
  then show "triple (\<lambda>f. map_of f (new_msg a x) = v) (case y of (dlqPath, b) \<Rightarrow>
      on_err (ReadDLQEnvelope r dlqPath) (\<lambda>e. fail (Wrap ''read dlq envelope'' e)) (\<lambda>(envelope, originalContent).
      retry_envelope r a fn force dlqPath b envelope originalContent)) (\<lambda>_. wal a fn x v)"
    unfolding y(1) prod.case by (intro read_envelope [OF y(2)]) (simp_all add: wal_def)
qed (auto intro!: triple_fail simp: wal_def)

text \<open>The whole call, under its lock.\<close>

lemma RetryFromDLQ_wal:
  "triple (\<lambda>f. map_of f (new_msg a x) = v) (RetryFromDLQ r a fn force) (\<lambda>_. wal a fn x v)"
proof -
  have "triple (agree {new_msg a x} (\<lambda>_. v)) (retryFromDLQLocked batch a fn force) (\<lambda>_. wal a fn x v)" for batch
    using retry_locked_wal by (simp add: agree_def [abs_def])
  then have "triple (agree {new_msg a x} (\<lambda>_. v)) (WithDLQEnvelopeLock r a fn (\<lambda>batch. retryFromDLQLocked batch a fn force))
      (\<lambda>y f. case y of Inl _ \<Rightarrow> agree {new_msg a x} (\<lambda>_. v) f | Inr _ \<Rightarrow> wal a fn x v f)"
    by (rule lock_agree) (auto simp: above_def lock_path_def dest!: prefix_length_le)
  then have "triple (agree {new_msg a x} (\<lambda>_. v)) (RetryFromDLQ r a fn force) (\<lambda>_. wal a fn x v)"
    unfolding RetryFromDLQ_def
    by (rule triple_bind) (auto intro!: triple_ret simp: wal_def agree_def split: sum.splits)
  then show ?thesis by (simp add: agree_def [abs_def])
qed

section \<open>Refused retries\<close>

text \<open>An envelope that a retry leaves alone: delivered, or out of attempts without force.\<close>

definition refused :: "DLQEnvelope \<Rightarrow> bool \<Rightarrow> bool" where
  "refused env force \<longleftrightarrow>
     RetryState env = RetryStateDelivered \<or>
     RetryState env = RetryStateReady \<and> RetryCount env \<ge> MaxRetries \<and> \<not> force"

lemma stat_absent: "p \<noteq> [] \<Longrightarrow> map_of f p = None \<Longrightarrow> stat p f \<noteq> Inr n"
  by (auto simp: stat_def follow.simps [of 8 p f] lstat_def split: sum.splits option.splits)

lemma StatR_absent:
  assumes "p \<in> W" "p \<noteq> []" "\<sigma> p = None"
  shows "triple (agree W \<sigma>) (StatR r p) (\<lambda>x f. agree W \<sigma> f \<and> (\<forall>n. x \<noteq> Inr n))"
proof -
  have "triple (agree W \<sigma>) (sys_query (stat p)) (\<lambda>x f. agree W \<sigma> f \<and> (\<forall>n. x \<noteq> Inr n))"
  proof (rule triple_sys_query)
    fix f n assume "agree W \<sigma> f" and "stat p f = Inr n"
    with assms stat_absent [of p f n] show "agree W \<sigma> f \<and> (\<forall>m. Inr n \<noteq> Inr m)" by (auto simp: agree_def)
  qed simp
  then show ?thesis
    unfolding StatR_def by (intro triple_on_err [OF keeps_triple [OF keeps_VerifyBase] triple_fail]) simp_all
qed

lemma FindDLQMessage_cur:
  assumes "\<sigma> (new_env a fn) = None" and "new_env a fn \<in> W"
  shows "triple (agree W \<sigma>) (FindDLQMessage r a fn) (\<lambda>x f. agree W \<sigma> f \<and> (\<forall>y. x = Inr y \<longrightarrow> y = (cur_env a fn, BoxCur)))"
  (is "triple _ _ ?Q")
proof -
  have fail: "triple (agree W \<sigma>) (fail e) ?Q" for e by (rule triple_fail) simp
  have second: "triple (agree W \<sigma>) (bind (StatR r (new_env a fn)) (\<lambda>y. case y of
      Inr _ \<Rightarrow> ok (new_env a fn, BoxNew)
    | Inl e' \<Rightarrow> (if \<not> osIsNotExist e' then fail e' else fail ErrNotExist))) ?Q"
    by (rule triple_bind [OF StatR_absent [where \<sigma> = \<sigma> and p = "new_env a fn", OF assms(2) _ assms(1)]])
       (simp add: new_env_def, rule triple_pure2, rule triple_case_sum, rule triple_if, rule fail, rule fail, simp)
  show ?thesis
    unfolding FindDLQMessage_def
    by (rule triple_case_option, rule triple_bind [OF keeps_triple [OF keeps_StatR]], rule triple_case_sum, rule triple_if,
        rule fail, rule second, rule triple_ok, simp, rule fail)
qed

lemma refused_envelope:
  assumes "refused env force"
  shows "triple (agree {new_msg a x} \<sigma>) (retry_envelope r a fn force p b env body)
     (\<lambda>y f. agree {new_msg a x} \<sigma> f \<and> y \<noteq> Inr ())" (is "triple ?A _ ?R")
proof -
  have quit: "triple ?A (fail e) ?R" for e by (rule triple_fail) simp
  have recon: "keeps ?A (if b = BoxCur then bind (reconcileDLQCurAuthorityLocked r a fn)
      (\<lambda>(_, err). case err of Some e \<Rightarrow> fail e | None \<Rightarrow> ok ()) else ok ())"
    by (auto intro!: stable_rules reconcile_agree)
  have "RetryState env \<noteq> RetryStateDelivered \<Longrightarrow> \<not> (RetryState env = RetryStatePending \<or> RetryState env = RetryStateIndeterminate)
      \<and> RetryCount env \<ge> MaxRetries \<and> \<not> force"
    using assms by (auto simp: refused_def retry_states)
  then show ?thesis
    unfolding retry_envelope_def
    by (intro triple_on_err [OF keeps_triple [OF recon] quit] triple_case_option triple_if quit
        triple_on_err [OF keeps_triple [OF keeps_original_box] quit]) blast+
qed

lemma RetryFromDLQ_refused:
  assumes d: "parseDLQMessage d = Inr (env, body)" "refused env force"
  shows "triple (\<lambda>f. map_of f (cur_env a fn) = Some (Reg d) \<and> map_of f (new_env a fn) = None \<and> map_of f (new_msg a x) = v)
     (RetryFromDLQ r a fn force) (\<lambda>y f. map_of f (new_msg a x) = v \<and> y \<noteq> Inr ())"
proof -
  let ?W = "{new_msg a x, cur_env a fn, new_env a fn}"
  let ?\<sigma> = "[cur_env a fn \<mapsto> Reg d](new_msg a x := v)"
  let ?R = "\<lambda>(y :: goerr + unit) f. agree {new_msg a x} ?\<sigma> f \<and> y \<noteq> Inr ()"
  have quit: "triple (agree ?W ?\<sigma>) (fail e) ?R" for e
    by (rule triple_fail) (auto simp: agree_def)
  have read: "triple (agree ?W ?\<sigma>) (on_err (ReadDLQEnvelope batch (cur_env a fn)) (\<lambda>e. fail (Wrap ''read dlq envelope'' e))
      (\<lambda>(e, c). retry_envelope batch a fn force (cur_env a fn) BoxCur e c)) ?R" for batch
  proof (rule triple_on_err [OF ReadDLQEnvelope_agree]; (rule triple_pure2)?)
    fix y assume "\<forall>z. Inr y = Inr z \<longrightarrow> (\<exists>d'. ?\<sigma> (cur_env a fn) = Some (Reg d') \<and> parseDLQMessage d' = Inr z)"
    with d(1) have "y = (env, body)" by auto
    then show "triple (agree ?W ?\<sigma>) (case y of (e, c) \<Rightarrow> retry_envelope batch a fn force (cur_env a fn) BoxCur e c) ?R"
      by (simp only: prod.case, intro triple_pre [OF refused_envelope [where \<sigma> = ?\<sigma>, OF d(2)]]) (simp add: agree_def)
  qed (simp, rule quit)
  have locked: "triple (agree ?W ?\<sigma>) (retryFromDLQLocked batch a fn force) ?R" for batch
    unfolding retryFromDLQLocked_def
  proof (rule triple_on_err [OF FindDLQMessage_cur]; (rule triple_pure2)?)
    fix y assume "\<forall>z. Inr y = Inr z \<longrightarrow> z = (cur_env a fn, BoxCur)"
    then have "y = (cur_env a fn, BoxCur)" by simp
    then show "triple (agree ?W ?\<sigma>) (case y of (dlqPath, b) \<Rightarrow> on_err (ReadDLQEnvelope batch dlqPath)
        (\<lambda>e. fail (Wrap ''read dlq envelope'' e)) (\<lambda>(e, c). retry_envelope batch a fn force dlqPath b e c)) ?R"
      using read by simp
  qed (simp_all add: quit)
  have "triple (agree ?W ?\<sigma>) (WithDLQEnvelopeLock r a fn (\<lambda>batch. retryFromDLQLocked batch a fn force))
      (\<lambda>y f. case y of Inl _ \<Rightarrow> agree ?W ?\<sigma> f | Inr z \<Rightarrow> ?R z f)"
    by (rule lock_agree [OF locked])
       (auto simp: above_def lock_path_def cur_env_def new_env_def dest!: prefix_length_le)
  then have "triple (agree ?W ?\<sigma>) (RetryFromDLQ r a fn force) ?R"
    unfolding RetryFromDLQ_def
    by (rule triple_bind) (auto intro!: triple_ret simp: agree_def split: sum.splits)
  then show ?thesis
    by (rule triple_post [OF triple_pre]) (auto simp: agree_def)
qed

section \<open>Inspection\<close>

text \<open>Marking an envelope as inspected never touches the one that is already in \<^verbatim>\<open>dlq/cur\<close>.\<close>

lemma renameNoReplace_taken:
  assumes "q \<in> W" "\<sigma> q = Some v"
  shows "keeps (agree W \<sigma>) (renameNoReplace p q)"
proof -
  have "keeps (agree W \<sigma>) (sys_upd (rename_noreplace p q))"
  proof (rule keeps_sys_upd)
    fix f f' assume "agree W \<sigma> f" and "rename_noreplace p q f = Inr f'"
    from this(2) this(1) assms show "agree W \<sigma> f'"
      by (rule_tac rename_noreplace_cases) (auto simp: agree_def)
  qed
  then show ?thesis unfolding renameNoReplace_def by (intro stable_rules)
qed

lemma move_to_cur_kept:
  "keeps (agree {cur_env a fn} [cur_env a fn \<mapsto> v]) (moveDLQNewToCurLocked r a fn)"
proof -
  have mk: "keeps (agree {cur_env a fn} \<sigma>) (mkdirAll (dlq_cur a) 448)" for \<sigma>
    by (rule keeps_agree_mkdirAll) (auto simp: cur_env_def dest!: prefix_length_le)
  show ?thesis
    unfolding moveDLQNewToCurLocked_def
    by (intro stable_rules mk reconcile_agree renameNoReplace_taken) simp_all
qed

lemma MoveDLQNewToCur_kept:
  "triple (\<lambda>f. map_of f (cur_env a fn) = Some v) (MoveDLQNewToCur r a fn) (\<lambda>_ f. map_of f (cur_env a fn) = Some v)"
proof -
  have pre: "agree {cur_env a fn} [cur_env a fn \<mapsto> v] = (\<lambda>f. map_of f (cur_env a fn) = Some v)"
    by (simp add: agree_def [abs_def])
  note locked = lock_agree [OF keeps_triple [OF move_to_cur_kept [of a fn v]]]
  have "triple (agree {cur_env a fn} [cur_env a fn \<mapsto> v])
      (WithDLQEnvelopeLock r a fn (\<lambda>batch. moveDLQNewToCurLocked batch a fn)) (\<lambda>_. agree {cur_env a fn} [cur_env a fn \<mapsto> v])"
    by (rule triple_post [OF locked])
       (auto simp: above_def lock_path_def cur_env_def dest!: prefix_length_le split: sum.splits)
  then show ?thesis
    unfolding MoveDLQNewToCur_def pre by (rule triple_bind) (rule triple_ret)
qed

section \<open>Successful retries\<close>

text \<open>The original is in the inbox and the envelope says so.\<close>

definition completed :: "string \<Rightarrow> string \<Rightarrow> fs \<Rightarrow> bool" where
  "completed a fn f \<longleftrightarrow>
     (\<exists>d env body. map_of f (cur_env a fn) = Some (Reg d) \<and> serializeDLQMessage env body = Inr d \<and>
        RetryState env = RetryStateDelivered \<and> map_of f (new_msg a (OriginalFile env)) = Some (Reg body))"

abbreviation (input) done_if_ok :: "string \<Rightarrow> string \<Rightarrow> goerr + unit \<Rightarrow> fs \<Rightarrow> bool" where
  "done_if_ok a fn y f \<equiv> y = Inr () \<longrightarrow> completed a fn f"

lemma fail_ok: "triple P (fail e) (done_if_ok a fn)"
  by (rule triple_fail) simp

lemma complete_success:
  assumes fn: "\<not> hasPrefix fn ''.''"
  shows "triple (\<lambda>f. de = None \<longrightarrow> map_of f (new_msg a (OriginalFile env)) = Some (Reg body))
     (complete_retry r a fn env body ip de) (done_if_ok a fn)"
proof (cases de)
  case (Some e)
  show ?thesis
    unfolding complete_retry_def Some option.case
    by (rule triple_case_sum, rule fail_ok, rule triple_on_err [OF triple_any], (rule fail_ok)+)
next
  case None
  let ?i = "new_msg a (OriginalFile env)" and ?c = "cur_env a fn" and ?env = "setRetryState env RetryStateDelivered"
  have upd: "triple (agree {?i} [?i \<mapsto> Reg body]) (updateRetriedDLQEnvelope r a fn ?c BoxCur d)
      (\<lambda>y f. y = Inr () \<longrightarrow> map_of f ?c = Some (Reg d) \<and> map_of f ?i = Some (Reg body))" for d
  proof (rule triple_watch [of ?c])
    show "triple (agree (insert ?c {?i}) ([?i \<mapsto> Reg body](?c := v))) (updateRetriedDLQEnvelope r a fn ?c BoxCur d)
      (\<lambda>y f. y = Inr () \<longrightarrow> map_of f ?c = Some (Reg d) \<and> map_of f ?i = Some (Reg body))" for v
      by (rule triple_post [OF update_agree [OF _ fn]]) (use fn in \<open>auto simp: env_path_def agree_def\<close>)
  qed simp
  have fin: "triple (\<lambda>f. map_of f ?c = Some (Reg d) \<and> map_of f ?i = Some (Reg body)) (ok ()) (done_if_ok a fn)"
    if "serializeDLQMessage ?env body = Inr d" for d
  proof (rule triple_ok)
    fix f assume "map_of f ?c = Some (Reg d) \<and> map_of f ?i = Some (Reg body)"
    with that show "done_if_ok a fn (Inr ()) f"
      unfolding completed_def by (intro impI exI [of _ d] exI [of _ ?env] exI [of _ body]) simp
  qed
  have "triple (agree {?i} [?i \<mapsto> Reg body]) (complete_retry r a fn env body ip de) (done_if_ok a fn)"
    unfolding complete_retry_def None option.case
    by (rule triple_case_sum, rule fail_ok, rule triple_on_err [OF upd], rule fail_ok, simp, rule fin)
  then show ?thesis by (rule triple_pre) (simp add: None agree_def)
qed

lemma start_retry_success:
  assumes fn: "\<not> hasPrefix fn ''.''"
  shows "triple (\<lambda>_. True) (start_retry r a fn p b env0 body) (done_if_ok a fn)"
proof -
  have reset: "triple P (reset_retry r a fn env body de) (done_if_ok a fn)" for P env de
    unfolding reset_retry_def
    by (rule triple_case_sum, rule fail_ok, rule triple_on_err [OF triple_any], (rule fail_ok)+)
  have deliver: "triple (\<lambda>_. True) (DeliverToInbox r a x body)
      (\<lambda>y f. \<forall>z. y = Inr z \<longrightarrow> map_of f (new_msg a x) = Some (Reg body))" for x
    by (rule triple_post [OF triple_pre [OF DeliverToInbox_agree [of "{}"]]]) (auto simp: agree_def)
  show ?thesis
    unfolding start_retry_def Let_def
    by (rule triple_case_sum, rule fail_ok, rule triple_on_err [OF triple_any], rule fail_ok, rule triple_bind [OF deliver])
       (auto split: sum.split option.split intro!: reset triple_pre [OF complete_success [OF fn]])
qed

lemma retry_envelope_success:
  assumes fn: "\<not> hasPrefix fn ''.''"
  shows "triple (\<lambda>_. True) (retry_envelope r a fn force p b env body) (done_if_ok a fn)"
proof -
  have pending: "triple (\<lambda>_. True) (finish_pending r a fn p b env body present) (done_if_ok a fn)" for present
    unfolding finish_pending_def
    by (rule triple_on_err [OF triple_any], rule fail_ok, rule triple_if, rule fail_ok, rule triple_case_sum, rule fail_ok,
        rule triple_on_err [OF triple_any], (rule fail_ok)+)
  show ?thesis
    unfolding retry_envelope_def
    by (rule triple_on_err [OF triple_any], rule fail_ok, rule triple_case_option, rule triple_if, rule fail_ok,
        rule triple_on_err [OF triple_any], rule fail_ok, rule triple_if, rule pending, rule triple_if, rule fail_ok,
        rule triple_if, rule fail_ok, rule start_retry_success [OF fn], rule fail_ok)
qed

lemma RetryFromDLQ_success: "triple (\<lambda>_. True) (RetryFromDLQ r a fn force) (done_if_ok a fn)"
proof -
  have locked: "triple (agree {} \<sigma>) (retryFromDLQLocked batch a fn force) (done_if_ok a fn)" for batch \<sigma>
    unfolding retryFromDLQLocked_def
  proof (rule triple_on_err [OF FindDLQMessage_post]; (rule triple_pure2)?)
    fix y :: "path \<times> box" assume found: "\<forall>p b. Inr y = Inr (p, b) \<longrightarrow> p = env_path a fn b \<and> \<not> hasPrefix fn ''.''"
    obtain p b where y: "y = (p, b)" by (cases y)
    with found have fn: "\<not> hasPrefix fn ''.''" by blast
    show "triple (agree {} \<sigma>) (case y of (dlqPath, b) \<Rightarrow> on_err (ReadDLQEnvelope batch dlqPath)
        (\<lambda>e. fail (Wrap ''read dlq envelope'' e)) (\<lambda>(e, c). retry_envelope batch a fn force dlqPath b e c)) (done_if_ok a fn)"
      unfolding y prod.case
      by (rule triple_on_err [OF triple_any], rule fail_ok)
         (auto intro: retry_envelope_success [OF fn] split: prod.split)
  qed (rule fail_ok)
  have "triple (agree {} (\<lambda>_. None)) (WithDLQEnvelopeLock r a fn (\<lambda>batch. retryFromDLQLocked batch a fn force))
      (\<lambda>y f. case y of Inl _ \<Rightarrow> agree {} (\<lambda>_. None) f | Inr z \<Rightarrow> done_if_ok a fn z f)"
    by (rule lock_agree [OF locked]) simp_all
  then have "triple (agree {} (\<lambda>_. None)) (RetryFromDLQ r a fn force) (done_if_ok a fn)"
    unfolding RetryFromDLQ_def by (rule triple_bind) (auto intro!: triple_ret split: sum.splits)
  then show ?thesis by (rule triple_pre) (simp add: agree_def)
qed

section \<open>Guarantees of the dead-letter queue's retry\<close>

text \<open>A queue whose DLQ holds one envelope of \<^verbatim>\<open>m.md\<close> with the given further members.\<close>

definition dq :: bytes where "dq = [CHR 0x22]"

definition one_dead :: "bytes \<Rightarrow> fs" where
  "one_dead ms =
     [([''agents''], Dir 448), ([''agents'', ''a''], Dir 448), ([''agents'', ''a'', ''dlq''], Dir 448),
      (dlq_cur ''a'', Dir 448),
      (cur_env ''a'' ''d.md'', Reg (dlq_start @ ''{'' @ dq @ ''original_file'' @ dq @ '':'' @ dq @ ''m.md'' @ dq @ ms @ ''}'' @ fm_end @ ''hi''))]"

definition spent :: bytes where
  "spent = '','' @ dq @ ''retry_count'' @ dq @ '':3,'' @ dq @ ''retry_state'' @ dq @ '':'' @ dq @ ''ready'' @ dq"

definition pending :: bytes where
  "pending = '','' @ dq @ ''retry_count'' @ dq @ '':1,'' @ dq @ ''retry_pending'' @ dq @ '':true''"

text \<open>A retry that stopped after it staged the message.\<close>

definition staged :: fs where
  "staged = [([''agents'', ''a'', ''inbox''], Dir 448), (inbox_tmp ''a'', Dir 448), (inbox_new ''a'', Dir 448),
     (inbox_tmp ''a'' @ [''m.md''], Reg ''hi'')] @ one_dead pending"

text \<open>
  C26: at every point where a retry can stop (any call fails, the process dies), a message that the
  retry made visible in \<^verbatim>\<open>inbox/new\<close> is accounted for: an envelope for it is in the DLQ whose
  state is past ready, so no later retry delivers it blindly again.
\<close>

theorem retry_write_ahead:
  assumes "map_of (fs (snd (RetryFromDLQ r a fn force w))) (new_msg a x) \<noteq> map_of (fs w) (new_msg a x)"
  shows "audited a fn x (fs (snd (RetryFromDLQ r a fn force w)))"
  using triple_run [OF RetryFromDLQ_wal [where a = a and x = x and v = "map_of (fs w) (new_msg a x)" and r = r
      and fn = fn and force = force], where w = w] assms
  by (simp add: wal_def)

theorem retry_write_ahead_witness:
  "map_of (fs (snd (RetryFromDLQ root7 ''a'' ''d.md'' False (dies_at 25 staged)))) (new_msg ''a'' ''m.md'') = Some (Reg ''hi'') \<and>
   audited ''a'' ''d.md'' ''m.md'' (fs (snd (RetryFromDLQ root7 ''a'' ''d.md'' False (dies_at 25 staged))))"
proof -
  have old: "map_of (fs (dies_at 25 staged)) (new_msg ''a'' ''m.md'') = None" by code_simp
  have new: "map_of (fs (snd (RetryFromDLQ root7 ''a'' ''d.md'' False (dies_at 25 staged)))) (new_msg ''a'' ''m.md'') = Some (Reg ''hi'')"
    by code_simp
  show ?thesis
    using retry_write_ahead [of root7 "''a''" "''d.md''" False "dies_at 25 staged" "''m.md''"] old new by simp
qed


text \<open>
  An envelope that records a delivery is never retried again, nor, without force, one that used up
  its three retries: the call fails and no message of the inbox changes.
\<close>

lemma retry_refused_untouched:
  assumes "map_of (fs w) (dlq_cur a @ [fn]) = Some (Reg d)" and "map_of (fs w) (dlq_new a @ [fn]) = None"
    and "parseDLQMessage d = Inr (env, body)"
    and "RetryState env = RetryStateDelivered \<or> RetryState env = RetryStateReady \<and> 3 \<le> RetryCount env \<and> \<not> force"
  shows "fst (RetryFromDLQ r a fn force w) \<noteq> Inr () \<and>
     map_of (fs (snd (RetryFromDLQ r a fn force w))) (new_msg a x) = map_of (fs w) (new_msg a x)"
proof -
  have "refused env force" using assms(4) by (auto simp: refused_def MaxRetries_def)
  from triple_run [OF RetryFromDLQ_refused [OF assms(3) this, of a fn x "map_of (fs w) (new_msg a x)" r], of w] assms(1,2)
  show ?thesis by (simp add: cur_env_def new_env_def)
qed

text \<open>
  Inspecting an envelope never rolls a retry record back: whatever is in \<^verbatim>\<open>dlq/cur\<close> under its
  name stays, also when a stale copy in \<^verbatim>\<open>dlq/new\<close> is reconciled.
\<close>

lemma inspected_cur_authoritative:
  assumes "map_of (fs w) (dlq_cur a @ [fn]) = Some v"
  shows "map_of (fs (snd (MoveDLQNewToCur r a fn w))) (dlq_cur a @ [fn]) = Some v"
  using triple_run [OF MoveDLQNewToCur_kept [of a fn v r], of w] assms by (simp add: cur_env_def)

end
