(* ===== verification/Session_Guard.thy ===== *)
theory Session_Guard
  imports Main
begin

text \<open>
  The session-pin policy table (\<^verbatim>\<open>internal/sessionguard/session_guard_table.go\<close>): which commands may
  act on a queue root that is not the one the session is pinned to.
\<close>

section \<open>Model\<close>

datatype Kind = KindMailbox | KindSource | KindList | KindEnv | KindDoctorRepair
datatype Channel = ChannelExit5 | ChannelJSON
datatype PinState = PinAbsent | PinLegacy | PinIdentity | PinInvalid
datatype TargetRelation = TargetUnbound | TargetMatch | TargetMismatch | TargetOwnPinnedBase
datatype Verdict = Allow | RefuseExit5 | WarnContinue | StructuredErrorContinueExit0 | JSONErrorExit0

record Flags =
  Routed :: bool
  IgnorePin :: bool
  ExplicitRoot :: bool
  ExplicitContext :: bool
  CrossProject :: bool
  FromSession :: bool
  Revalidation :: bool

record Input =
  inKind :: Kind
  inChannel :: Channel
  inPin :: PinState
  inRelation :: TargetRelation
  inFlags :: Flags

record Decision =
  Row :: string
  dVerdict :: Verdict

definition RowR01UnboundAllow :: string where "RowR01UnboundAllow = ''R01_unbound_allow''"
definition RowR02MatchAllow :: string where "RowR02MatchAllow = ''R02_match_allow''"
definition RowR03MailboxRouted :: string where "RowR03MailboxRouted = ''R03_mailbox_routed_allow''"
definition RowR04IgnorePin :: string where "RowR04IgnorePin = ''R04_ignore_pin_allow''"
definition RowR05SourceFromSession :: string where "RowR05SourceFromSession = ''R05_source_from_session_allow''"
definition RowR06ListOwnBase :: string where "RowR06ListOwnBase = ''R06_list_own_base_allow''"
definition RowR07DoctorOwnBase :: string where "RowR07DoctorOwnBase = ''R07_doctor_own_base_allow''"
definition RowR08MismatchExit5 :: string where "RowR08MismatchExit5 = ''R08_mismatch_exit5''"
definition RowR09InvalidExit5 :: string where "RowR09InvalidExit5 = ''R09_invalid_pin_exit5''"
definition RowR10ListMismatchWarn :: string where "RowR10ListMismatchWarn = ''R10_list_mismatch_warn''"
definition RowR11ListInvalidWarn :: string where "RowR11ListInvalidWarn = ''R11_list_invalid_warn''"
definition RowR12DoctorMismatchErr :: string where "RowR12DoctorMismatchErr = ''R12_doctor_mismatch_structured_error''"
definition RowR13DoctorInvalidErr :: string where "RowR13DoctorInvalidErr = ''R13_doctor_invalid_structured_error''"
definition RowR14RouteMismatchJSON :: string where "RowR14RouteMismatchJSON = ''R14_route_mismatch_json_error''"
definition RowR15RouteInvalidJSON :: string where "RowR15RouteInvalidJSON = ''R15_route_invalid_json_error''"

definition canonicalRows :: "string list" where
  "canonicalRows =
     [RowR01UnboundAllow, RowR02MatchAllow, RowR03MailboxRouted, RowR04IgnorePin, RowR05SourceFromSession,
      RowR06ListOwnBase, RowR07DoctorOwnBase, RowR08MismatchExit5, RowR09InvalidExit5, RowR10ListMismatchWarn,
      RowR11ListInvalidWarn, RowR12DoctorMismatchErr, RowR13DoctorInvalidErr, RowR14RouteMismatchJSON,
      RowR15RouteInvalidJSON]"

lemmas guard_rows =
  RowR01UnboundAllow_def RowR02MatchAllow_def RowR03MailboxRouted_def RowR04IgnorePin_def
  RowR05SourceFromSession_def RowR06ListOwnBase_def RowR07DoctorOwnBase_def RowR08MismatchExit5_def
  RowR09InvalidExit5_def RowR10ListMismatchWarn_def RowR11ListInvalidWarn_def RowR12DoctorMismatchErr_def
  RowR13DoctorInvalidErr_def RowR14RouteMismatchJSON_def RowR15RouteInvalidJSON_def

definition validPin :: "PinState \<Rightarrow> bool" where
  "validPin pin \<longleftrightarrow> pin = PinAbsent \<or> pin = PinLegacy \<or> pin = PinIdentity"

definition decisionFor :: "string \<Rightarrow> Verdict \<Rightarrow> Decision" where
  "decisionFor row verdict = \<lparr>Row = row, dVerdict = verdict\<rparr>"

definition Decide :: "Input \<Rightarrow> Decision" where
  "Decide i =
     (if inKind i = KindMailbox \<and> Routed (inFlags i) \<and> validPin (inPin i)
        then decisionFor RowR03MailboxRouted Allow
      else if IgnorePin (inFlags i) \<and> (inKind i = KindMailbox \<or> inKind i = KindSource \<or> inKind i = KindDoctorRepair)
        then decisionFor RowR04IgnorePin Allow
      else if inKind i = KindSource \<and> FromSession (inFlags i) \<and> validPin (inPin i)
        then decisionFor RowR05SourceFromSession Allow
      else if inPin i = PinInvalid then
        (case inKind i of
           KindList \<Rightarrow> decisionFor RowR11ListInvalidWarn WarnContinue
         | KindDoctorRepair \<Rightarrow> decisionFor RowR13DoctorInvalidErr StructuredErrorContinueExit0
         | KindSource \<Rightarrow>
             (if inChannel i = ChannelJSON then decisionFor RowR15RouteInvalidJSON JSONErrorExit0
              else decisionFor RowR09InvalidExit5 RefuseExit5)
         | _ \<Rightarrow> decisionFor RowR09InvalidExit5 RefuseExit5)
      else if inRelation i = TargetUnbound then decisionFor RowR01UnboundAllow Allow
      else if inRelation i = TargetMatch \<and> validPin (inPin i) then decisionFor RowR02MatchAllow Allow
      else if inRelation i = TargetOwnPinnedBase \<and> inKind i = KindList \<and> ExplicitRoot (inFlags i) \<and> validPin (inPin i)
        then decisionFor RowR06ListOwnBase Allow
      else if inRelation i = TargetOwnPinnedBase \<and> inKind i = KindDoctorRepair \<and> validPin (inPin i)
        then decisionFor RowR07DoctorOwnBase Allow
      else if inKind i = KindList then decisionFor RowR10ListMismatchWarn WarnContinue
      else if inKind i = KindDoctorRepair then decisionFor RowR12DoctorMismatchErr StructuredErrorContinueExit0
      else if inKind i = KindSource \<and> inChannel i = ChannelJSON
        then decisionFor RowR14RouteMismatchJSON JSONErrorExit0
      else decisionFor RowR08MismatchExit5 RefuseExit5)"

section \<open>The table\<close>

text \<open>The verdict that belongs to each row.\<close>

definition row_verdict :: "(string \<times> Verdict) list" where
  "row_verdict = zip canonicalRows
     (replicate 7 Allow @ [RefuseExit5, RefuseExit5, WarnContinue, WarnContinue,
        StructuredErrorContinueExit0, StructuredErrorContinueExit0, JSONErrorExit0, JSONErrorExit0])"

lemma validPin_iff [simp]: "validPin pin \<longleftrightarrow> pin \<noteq> PinInvalid"
  by (cases pin) (simp_all add: validPin_def)

lemma decisionFor_sel [simp]: "Row (decisionFor r v) = r" "dVerdict (decisionFor r v) = v"
  by (simp_all add: decisionFor_def)

text \<open>An input with the given kind, channel, pin, relation and bypass flags.\<close>

definition mk_input :: "Kind \<Rightarrow> Channel \<Rightarrow> PinState \<Rightarrow> TargetRelation \<Rightarrow> bool \<Rightarrow> bool \<Rightarrow> bool \<Rightarrow> bool \<Rightarrow> Input" where
  "mk_input k c p r routed ignore explicit from =
     \<lparr>inKind = k, inChannel = c, inPin = p, inRelation = r,
      inFlags = \<lparr>Routed = routed, IgnorePin = ignore, ExplicitRoot = explicit, ExplicitContext = False,
        CrossProject = False, FromSession = from, Revalidation = False\<rparr>\<rparr>"

text \<open>One input per row, in the order of the rows.\<close>

definition row_inputs :: "Input list" where
  "row_inputs =
     [mk_input KindEnv ChannelExit5 PinAbsent TargetUnbound False False False False,
      mk_input KindEnv ChannelExit5 PinIdentity TargetMatch False False False False,
      mk_input KindMailbox ChannelExit5 PinIdentity TargetMismatch True False False False,
      mk_input KindMailbox ChannelExit5 PinInvalid TargetMismatch False True False False,
      mk_input KindSource ChannelExit5 PinIdentity TargetMismatch False False False True,
      mk_input KindList ChannelExit5 PinIdentity TargetOwnPinnedBase False False True False,
      mk_input KindDoctorRepair ChannelExit5 PinIdentity TargetOwnPinnedBase False False False False,
      mk_input KindMailbox ChannelExit5 PinIdentity TargetMismatch False False False False,
      mk_input KindMailbox ChannelExit5 PinInvalid TargetUnbound False False False False,
      mk_input KindList ChannelExit5 PinIdentity TargetMismatch False False False False,
      mk_input KindList ChannelExit5 PinInvalid TargetMatch False False False False,
      mk_input KindDoctorRepair ChannelExit5 PinIdentity TargetMismatch False False False False,
      mk_input KindDoctorRepair ChannelExit5 PinInvalid TargetMatch False False False False,
      mk_input KindSource ChannelJSON PinIdentity TargetMismatch False False False False,
      mk_input KindSource ChannelJSON PinInvalid TargetMatch False False False False]"

lemma rows_reached: "map (\<lambda>i. (Row (Decide i), dVerdict (Decide i))) row_inputs = row_verdict"
  by code_simp

lemma Decide_in_table: "(Row (Decide i), dVerdict (Decide i)) \<in> set row_verdict"
proof -
  have "set row_verdict =
      {(RowR01UnboundAllow, Allow), (RowR02MatchAllow, Allow), (RowR03MailboxRouted, Allow), (RowR04IgnorePin, Allow),
       (RowR05SourceFromSession, Allow), (RowR06ListOwnBase, Allow), (RowR07DoctorOwnBase, Allow),
       (RowR08MismatchExit5, RefuseExit5), (RowR09InvalidExit5, RefuseExit5), (RowR10ListMismatchWarn, WarnContinue),
       (RowR11ListInvalidWarn, WarnContinue), (RowR12DoctorMismatchErr, StructuredErrorContinueExit0),
       (RowR13DoctorInvalidErr, StructuredErrorContinueExit0), (RowR14RouteMismatchJSON, JSONErrorExit0),
       (RowR15RouteInvalidJSON, JSONErrorExit0)}"
    by (simp add: row_verdict_def canonicalRows_def numeral_eq_Suc)
  then show ?thesis by (simp add: Decide_def split: Kind.split)
qed

section \<open>Guarantees of the policy\<close>

text \<open>
  The policy's outcomes are exactly the fifteen rows, each with its own verdict: every decision is a
  row of the table and every row is the decision of some input.
\<close>

lemma decisions_are_the_table:
  "range (\<lambda>i. (Row (Decide i), dVerdict (Decide i))) = set row_verdict"
proof
  show "range (\<lambda>i. (Row (Decide i), dVerdict (Decide i))) \<subseteq> set row_verdict" using Decide_in_table by blast
  have "set row_verdict = (\<lambda>i. (Row (Decide i), dVerdict (Decide i))) ` set row_inputs"
    unfolding rows_reached [symmetric] by simp
  then show "set row_verdict \<subseteq> range (\<lambda>i. (Row (Decide i), dVerdict (Decide i)))" by blast
qed

text \<open>
  C33: a command is allowed exactly when its target is unbound or the pinned one under a readable pin, or
  by one of the five named authorities: a routed mailbox, an ignored pin, a source from the session, the
  explicit root of a list, or a repair of the own base. An unreadable pin is overridden only by
  ignoring it, and the flags for context, cross-project routes and revalidation decide nothing.
\<close>

theorem allowed_iff_authorized:
  "dVerdict (Decide i) = Allow \<longleftrightarrow>
     (IgnorePin (inFlags i) \<and> inKind i \<in> {KindMailbox, KindSource, KindDoctorRepair}) \<or>
     (inPin i \<noteq> PinInvalid \<and>
       (inRelation i \<in> {TargetUnbound, TargetMatch} \<or>
        inKind i = KindMailbox \<and> Routed (inFlags i) \<or>
        inKind i = KindSource \<and> FromSession (inFlags i) \<or>
        inRelation i = TargetOwnPinnedBase \<and>
          (inKind i = KindDoctorRepair \<or> inKind i = KindList \<and> ExplicitRoot (inFlags i))))"
  by (cases "inKind i"; cases "inRelation i") (auto simp: Decide_def)

end
