(* ===== verification/Go_Time.thy ===== *)
theory Go_Time
  imports Amq_Prelude
begin

text \<open>
  Go's \<^verbatim>\<open>time\<close> values as the notifier and the supervisor use them: an instant is its nanoseconds since
  1970 (a monotonic reading is not kept), \<^verbatim>\<open>time.Time{}\<close> is the start of the year 1, and a duration is an
  \<^verbatim>\<open>int64\<close> number of nanoseconds whose products wrap.
\<close>

type_synonym time = int
type_synonym duration = int

definition zero_time :: time where "zero_time = -62135596800 * 10 ^ 9"

definition IsZero :: "time \<Rightarrow> bool" where "IsZero t \<longleftrightarrow> t = zero_time"

definition second :: duration where "second = 10 ^ 9"
definition minute :: duration where "minute = 60 * 10 ^ 9"
definition hour :: duration where "hour = 3600 * 10 ^ 9"

definition mul64 :: "int \<Rightarrow> int \<Rightarrow> int" where
  "mul64 x y = wrap64 (x * y)"

lemma IsZero_zero_time [simp]: "IsZero zero_time"
  by (simp add: IsZero_def)

lemma mul64_small: "0 \<le> d \<Longrightarrow> d < 2 ^ 62 \<Longrightarrow> mul64 d 2 = d * 2"
  by (simp add: mul64_def wrap64_def)

end
