(* ===== verification/Doorbell.thy ===== *)
theory Doorbell
  imports Go_Time "HOL-Library.Word"
begin

text \<open>
  The wake notifier's doorbell (\<^verbatim>\<open>internal/cli/wake_doorbell.go\<close> and its calls in
  \<^verbatim>\<open>internal/cli/wake.go\<close>): when an agent with unread messages is prompted, how often, and when the
  notifier stays silent.
\<close>

section \<open>Model\<close>

text \<open>Counters are \<^verbatim>\<open>uint\<close> of 64 bits.\<close>

type_synonym uint = "64 word"

datatype wakeDoorbellPhase =
    wakeDoorbellIdle
  | wakeDoorbellRetrying
  | wakeDoorbellParked
  | wakeDoorbellAnnounced
  | wakeDoorbellRecoveryRequired

definition wakeDoorbellRetryBase :: duration where "wakeDoorbellRetryBase = 5 * second"
definition wakeDoorbellAttentionRetryBase :: duration where "wakeDoorbellAttentionRetryBase = 30 * second"
definition wakeDoorbellRetryMax :: duration where "wakeDoorbellRetryMax = 2 * minute"
definition wakeDoorbellAttentionRetryMax :: duration where "wakeDoorbellAttentionRetryMax = 15 * minute"
definition wakeDoorbellInitialAttemptBudget :: uint where "wakeDoorbellInitialAttemptBudget = 4"
definition wakeDoorbellLifetimeAttemptCap :: uint where "wakeDoorbellLifetimeAttemptCap = 8"

definition coopWakeDoorbell :: string where
  "coopWakeDoorbell = '': AMQ doorbell run amq drain --include-body then act on it''"

record wakeFileIdentity =
  Device :: "64 word"
  Inode :: "64 word"
  CTimeSec :: int
  CTimeNsec :: int

text \<open>A \<^verbatim>\<open>FileInfo\<close> whose \<^verbatim>\<open>Sys()\<close> may or may not be a \<^verbatim>\<open>Stat_t\<close>; maps with \<^verbatim>\<open>nil\<close> values as
  association lists with options.\<close>

datatype fileInfo = FileInfo "wakeFileIdentity option"

type_synonym identities = "(string \<times> wakeFileIdentity option) list"
type_synonym pending = "(string \<times> fileInfo option) list"

fun captureWakeFileIdentity :: "fileInfo \<Rightarrow> wakeFileIdentity option" where
  "captureWakeFileIdentity (FileInfo stat) = stat"

definition snapshotWakeFileIdentities :: "pending \<Rightarrow> identities" where
  "snapshotWakeFileIdentities current =
     map (\<lambda>(name, info). (name, Option.bind info captureWakeFileIdentity)) current"

definition wakeCohortProgressed :: "identities \<Rightarrow> pending \<Rightarrow> bool" where
  "wakeCohortProgressed cohort current \<longleftrightarrow>
     list_ex (\<lambda>(name, identity).
       case map_of current name of
         None \<Rightarrow> True
       | Some None \<Rightarrow> False
       | Some (Some info) \<Rightarrow>
           (case (identity, captureWakeFileIdentity info) of
              (None, known) \<Rightarrow> known \<noteq> None
            | (Some i, None) \<Rightarrow> False
            | (Some i, Some c) \<Rightarrow> i \<noteq> c)) cohort"

definition wakeCohortExpanded :: "identities \<Rightarrow> pending \<Rightarrow> bool" where
  "wakeCohortExpanded cohort current \<longleftrightarrow> list_ex (\<lambda>(name, _). map_of cohort name = None) current"

definition wakeCohortReplacedInPlace :: "identities \<Rightarrow> pending \<Rightarrow> bool" where
  "wakeCohortReplacedInPlace cohort current \<longleftrightarrow>
     list_ex (\<lambda>(name, identity).
       case (map_of current name, identity) of
         (Some (Some info), Some i) \<Rightarrow>
           (case captureWakeFileIdentity info of None \<Rightarrow> False | Some c \<Rightarrow> i \<noteq> c)
       | _ \<Rightarrow> False) cohort"

record wakeDoorbellState =
  phase :: wakeDoorbellPhase
  cohort :: identities
  presentationConfirmed :: bool
  attempts :: uint
  reminderAttempts :: uint
  attemptBudget :: uint
  nextAttempt :: time
  additionAttemptFloor :: time
  transientAttentionAttempts :: uint
  nextTransientAttention :: time
  recoveryPending :: bool
  recoveryAttentionUndelivered :: bool

record wakeDoorbellPlan =
  attempt :: bool
  prompt :: string
  submitOnly :: bool
  contentChange :: bool
  progress :: bool

text \<open>\<^verbatim>\<open>reset\<close> stores the zero value.\<close>

definition reset :: wakeDoorbellState where
  "reset = \<lparr>phase = wakeDoorbellIdle, cohort = [], presentationConfirmed = False, attempts = 0,
     reminderAttempts = 0, attemptBudget = 0, nextAttempt = zero_time, additionAttemptFloor = zero_time,
     transientAttentionAttempts = 0, nextTransientAttention = zero_time, recoveryPending = False,
     recoveryAttentionUndelivered = False\<rparr>"

text \<open>The loop of \<^verbatim>\<open>cappedExponentialBackoff\<close> with the number of its iterations left.\<close>

fun backoff_loop :: "nat \<Rightarrow> duration \<Rightarrow> duration \<Rightarrow> duration" where
  "backoff_loop 0 delay maximum = delay"
| "backoff_loop (Suc n) delay maximum =
     (if delay < maximum then
        (let d = mul64 delay 2 in if d \<ge> maximum then maximum else backoff_loop n d maximum)
      else delay)"

definition cappedExponentialBackoff :: "uint \<Rightarrow> duration \<Rightarrow> duration \<Rightarrow> duration" where
  "cappedExponentialBackoff att base maximum =
     (if base \<ge> maximum then maximum else backoff_loop (unat att - 1) base maximum)"

definition arm :: "pending \<Rightarrow> wakeDoorbellState \<Rightarrow> wakeDoorbellState" where
  "arm current s =
     s\<lparr>phase := wakeDoorbellRetrying, cohort := snapshotWakeFileIdentities current, presentationConfirmed := False,
       attemptBudget := (if attemptBudget s = 0 then wakeDoorbellInitialAttemptBudget else attemptBudget s)\<rparr>"

definition confirmPresentation :: "wakeDoorbellState \<Rightarrow> wakeDoorbellState" where
  "confirmPresentation s = s\<lparr>presentationConfirmed := True\<rparr>"

definition parkCurrentCohort :: "wakeDoorbellState \<Rightarrow> wakeDoorbellState" where
  "parkCurrentCohort s = s\<lparr>phase := wakeDoorbellParked, nextAttempt := zero_time\<rparr>"

definition recordAttemptWithBase :: "time \<Rightarrow> duration \<Rightarrow> duration \<Rightarrow> wakeDoorbellState \<Rightarrow> wakeDoorbellState" where
  "recordAttemptWithBase now base maximum s =
     s\<lparr>attempts := attempts s + 1, additionAttemptFloor := now + base,
       nextAttempt := now + cappedExponentialBackoff (attempts s + 1) base maximum\<rparr>"

definition recordAttempt :: "time \<Rightarrow> wakeDoorbellState \<Rightarrow> wakeDoorbellState" where
  "recordAttempt now s =
     (let s1 = (if attemptBudget s = 0 then s\<lparr>attemptBudget := wakeDoorbellInitialAttemptBudget\<rparr> else s);
          s2 = recordAttemptWithBase now wakeDoorbellRetryBase wakeDoorbellRetryMax s1;
          s3 = s2\<lparr>reminderAttempts := reminderAttempts s2 + 1\<rparr> in
      if reminderAttempts s3 \<ge> attemptBudget s3 then parkCurrentCohort s3 else s3)"

definition recordDeferredInputAttempt :: "time \<Rightarrow> wakeDoorbellState \<Rightarrow> wakeDoorbellState" where
  "recordDeferredInputAttempt now = recordAttemptWithBase now wakeDoorbellRetryBase wakeDoorbellRetryMax"

definition recordInjected :: "pending \<Rightarrow> wakeDoorbellState" where
  "recordInjected current =
     reset\<lparr>phase := wakeDoorbellAnnounced, cohort := snapshotWakeFileIdentities current\<rparr>"

definition recordAttentionAttempt :: "time \<Rightarrow> wakeDoorbellState \<Rightarrow> wakeDoorbellState" where
  "recordAttentionAttempt now s =
     (recordAttemptWithBase now wakeDoorbellAttentionRetryBase wakeDoorbellAttentionRetryMax s)
       \<lparr>additionAttemptFloor := zero_time\<rparr>"

definition transientAttentionDue :: "time \<Rightarrow> wakeDoorbellState \<Rightarrow> bool" where
  "transientAttentionDue now s \<longleftrightarrow>
     IsZero (nextTransientAttention s) \<or> \<not> now < nextTransientAttention s"

definition recordTransientAttentionAttempt :: "time \<Rightarrow> wakeDoorbellState \<Rightarrow> wakeDoorbellState" where
  "recordTransientAttentionAttempt now s =
     s\<lparr>transientAttentionAttempts := transientAttentionAttempts s + 1,
       nextTransientAttention := now + cappedExponentialBackoff (transientAttentionAttempts s + 1)
         wakeDoorbellAttentionRetryBase wakeDoorbellAttentionRetryMax\<rparr>"

definition pullForwardForAddition :: "time \<Rightarrow> wakeDoorbellState \<Rightarrow> wakeDoorbellState" where
  "pullForwardForAddition now s =
     (if IsZero (additionAttemptFloor s) then s
      else let deadline = (if additionAttemptFloor s < now then now else additionAttemptFloor s) in
        if IsZero (nextAttempt s) \<or> deadline < nextAttempt s then s\<lparr>nextAttempt := deadline\<rparr> else s)"

definition no_plan :: wakeDoorbellPlan where
  "no_plan = \<lparr>attempt = False, prompt = [], submitOnly = False, contentChange = False, progress = False\<rparr>"

text \<open>The handling of a cohort that lost no message but has new ones.\<close>

definition expand :: "time \<Rightarrow> pending \<Rightarrow> wakeDoorbellState \<Rightarrow> wakeDoorbellState" where
  "expand now current s =
     (if phase s = wakeDoorbellParked then
        (let s1 = s\<lparr>cohort := snapshotWakeFileIdentities current, presentationConfirmed := False\<rparr> in
         if attemptBudget s1 < wakeDoorbellLifetimeAttemptCap
         then pullForwardForAddition now (s1\<lparr>attemptBudget := attemptBudget s1 + 1, phase := wakeDoorbellRetrying\<rparr>)
         else s1)
      else pullForwardForAddition now (arm current s))"

definition plan :: "time \<Rightarrow> pending \<Rightarrow> wakeDoorbellState \<Rightarrow> wakeDoorbellPlan \<times> wakeDoorbellState" where
  "plan now current s =
     (if current = [] then (no_plan, reset)
      else if phase s = wakeDoorbellAnnounced then
        (if wakeCohortExpanded (cohort s) current \<or> wakeCohortReplacedInPlace (cohort s) current
         then (no_plan\<lparr>attempt := True, prompt := coopWakeDoorbell\<rparr>, arm current s)
         else if wakeCohortProgressed (cohort s) current then (no_plan, recordInjected current)
         else (no_plan, s))
      else
        (let prog = (phase s \<noteq> wakeDoorbellIdle \<and> wakeCohortProgressed (cohort s) current);
             change = (\<not> prog \<and> phase s \<noteq> wakeDoorbellIdle \<and> wakeCohortExpanded (cohort s) current);
             s1 = (if prog then reset else if change then expand now current s else s);
             s2 = (if phase s1 = wakeDoorbellIdle then arm current s1 else s1) in
         if phase s2 = wakeDoorbellParked then (no_plan, s2)
         else if attempts s2 > 0 \<and> now < nextAttempt s2 then (no_plan, s2)
         else (\<lparr>attempt = True, prompt = coopWakeDoorbell, submitOnly = presentationConfirmed s2,
                contentChange = change, progress = prog\<rparr>, s2)))"

definition noteRecoveryInboxEmpty :: wakeDoorbellState where
  "noteRecoveryInboxEmpty = reset"

definition planRecoveryAttention :: "time \<Rightarrow> pending \<Rightarrow> wakeDoorbellState \<Rightarrow> bool \<times> wakeDoorbellState" where
  "planRecoveryAttention now current s =
     (if current = [] then
        (if phase s = wakeDoorbellRecoveryRequired \<and> recoveryAttentionUndelivered s
         then (IsZero (nextAttempt s) \<or> \<not> now < nextAttempt s, s)
         else (False, noteRecoveryInboxEmpty))
      else if phase s \<noteq> wakeDoorbellRecoveryRequired then (True, s)
      else
        (let s1 = s\<lparr>recoveryPending := True\<rparr> in
         if \<not> IsZero (nextAttempt s1) \<and> now < nextAttempt s1 then (False, s1) else (True, s1)))"

definition recordRecoveryRequired :: "time \<Rightarrow> pending \<Rightarrow> wakeDoorbellState \<Rightarrow> wakeDoorbellState" where
  "recordRecoveryRequired now current s =
     (let s1 = (if phase s \<noteq> wakeDoorbellRecoveryRequired then reset else s) in
      recordAttentionAttempt now
        (s1\<lparr>phase := wakeDoorbellRecoveryRequired, cohort := snapshotWakeFileIdentities current,
            recoveryPending := True, recoveryAttentionUndelivered := True\<rparr>))"

definition retainRecoveryRequired :: "time \<Rightarrow> wakeDoorbellState \<Rightarrow> wakeDoorbellState" where
  "retainRecoveryRequired now s =
     recordAttentionAttempt now
       (reset\<lparr>phase := wakeDoorbellRecoveryRequired, cohort := cohort s,
          recoveryPending := True, recoveryAttentionUndelivered := True\<rparr>)"

definition recordRecoveryAttentionDelivered :: "wakeDoorbellState \<Rightarrow> wakeDoorbellState" where
  "recordRecoveryAttentionDelivered s = s\<lparr>recoveryAttentionUndelivered := False\<rparr>"

definition makeDue :: "time \<Rightarrow> wakeDoorbellState \<Rightarrow> wakeDoorbellState" where
  "makeDue now s =
     (if phase s \<noteq> wakeDoorbellRetrying \<or> cohort s = [] then s else s\<lparr>nextAttempt := now\<rparr>)"

definition pendingInput :: "wakeDoorbellState \<Rightarrow> bool" where
  "pendingInput s \<longleftrightarrow> phase s = wakeDoorbellRetrying"

definition parkedReminderAttempts :: "wakeDoorbellState \<Rightarrow> uint \<times> bool" where
  "parkedReminderAttempts s = (reminderAttempts s, phase s = wakeDoorbellParked)"

definition nextDeadline :: "wakeDoorbellState \<Rightarrow> time \<times> bool" where
  "nextDeadline s =
     (case phase s of
        wakeDoorbellRetrying \<Rightarrow> (nextAttempt s, \<not> IsZero (nextAttempt s))
      | wakeDoorbellRecoveryRequired \<Rightarrow> (nextAttempt s, recoveryPending s \<and> \<not> IsZero (nextAttempt s))
      | _ \<Rightarrow> (zero_time, False))"

section \<open>The retry ladder\<close>

text \<open>The delay doubles with every attempt up to the maximum; no intermediate value leaves \<^verbatim>\<open>int64\<close>.\<close>

lemma backoff_loop_min:
  "0 < d \<Longrightarrow> d \<le> m \<Longrightarrow> m \<le> 2 ^ 62 \<Longrightarrow> backoff_loop n d m = min m (d * 2 ^ n)"
proof (induction n arbitrary: d)
  case 0
  then show ?case by simp
next
  case (Suc n)
  show ?case
  proof (cases "d < m")
    case True
    then have two: "mul64 d 2 = d * 2" using Suc.prems by (intro mul64_small) auto
    have ge: "d * 2 \<le> d * (2 * 2 ^ n)" using Suc.prems(1) by (intro mult_left_mono) auto
    show ?thesis
    proof (cases "d * 2 \<ge> m")
      case True
      have "m \<le> d * 2 ^ Suc n" using order_trans [OF True ge] by simp
      then show ?thesis using True \<open>d < m\<close> two by (simp add: Let_def min_absorb1)
    next
      case False
      then show ?thesis using \<open>d < m\<close> two Suc.IH [of "d * 2"] Suc.prems by (simp add: Let_def mult.assoc)
    qed
  next
    case False
    then have "d = m" using Suc.prems by simp
    moreover have "m * 1 \<le> m * 2 ^ Suc n" using Suc.prems by (intro mult_left_mono one_le_power) auto
    ultimately show ?thesis by (simp add: min_absorb1)
  qed
qed

lemma backoff_min:
  assumes "0 < base" and "base \<le> m" and "m \<le> 2 ^ 62"
  shows "cappedExponentialBackoff att base m = min m (base * 2 ^ (unat att - 1))"
proof (cases "base = m")
  case True
  have "m * 1 \<le> m * 2 ^ (unat att - 1)" using assms True by (intro mult_left_mono) auto
  then show ?thesis using True by (simp add: cappedExponentialBackoff_def min_def)
next
  case False
  then show ?thesis using assms backoff_loop_min by (simp add: cappedExponentialBackoff_def)
qed

section \<open>The attempt budget\<close>

text \<open>What every state of the doorbell satisfies: at most eight prompts for one obligation, a parked
  obligation has used its budget, and one that is retrying has not.\<close>

definition bell_inv :: "wakeDoorbellState \<Rightarrow> bool" where
  "bell_inv s \<longleftrightarrow>
     reminderAttempts s \<le> attemptBudget s \<and> attemptBudget s \<le> wakeDoorbellLifetimeAttemptCap \<and>
     (phase s = wakeDoorbellRetrying \<longrightarrow> reminderAttempts s < attemptBudget s) \<and>
     (phase s = wakeDoorbellParked \<longrightarrow> reminderAttempts s = attemptBudget s \<and> 0 < attemptBudget s) \<and>
     (phase s \<in> {wakeDoorbellIdle, wakeDoorbellAnnounced, wakeDoorbellRecoveryRequired} \<longrightarrow> attemptBudget s = 0)"

named_theorems bell

lemmas [bell] = reset_def recordInjected_def arm_def confirmPresentation_def parkCurrentCohort_def
  recordAttemptWithBase_def recordDeferredInputAttempt_def recordAttentionAttempt_def
  recordTransientAttentionAttempt_def noteRecoveryInboxEmpty_def retainRecoveryRequired_def
  recordRecoveryAttentionDelivered_def makeDue_def wakeDoorbellInitialAttemptBudget_def
  wakeDoorbellLifetimeAttemptCap_def Let_def

lemma reset_sel [simp]:
  "phase reset = wakeDoorbellIdle" "attempts reset = 0" "cohort reset = []" "reminderAttempts reset = 0"
  "attemptBudget reset = 0"
  by (simp_all add: reset_def)

lemma bell_inv_reset: "bell_inv reset"
  by (simp add: bell_inv_def bell)

lemma bell_inv_injected: "bell_inv (recordInjected current)"
  by (simp add: bell_inv_def bell)

lemma uint_suc_le: "x < y \<Longrightarrow> x + 1 \<le> (y :: uint)"
  by (metis inc_le)

lemma uint_le_eq: "x \<le> (y :: uint) \<Longrightarrow> y \<le> x \<Longrightarrow> x = y"
  by simp

lemma bell_inv_arm:
  assumes "bell_inv s" and "phase s \<noteq> wakeDoorbellParked"
  shows "bell_inv (arm current s)"
  using assms by (cases "phase s") (auto simp: bell_inv_def bell)

lemma bell_inv_same:
  assumes "bell_inv s" and "phase s' = phase s" and "reminderAttempts s' = reminderAttempts s"
    and "attemptBudget s' = attemptBudget s"
  shows "bell_inv s'"
  using assms by (simp add: bell_inv_def)

lemma pullForward_sel [simp]:
  "phase (pullForwardForAddition now s) = phase s"
  "reminderAttempts (pullForwardForAddition now s) = reminderAttempts s"
  "attemptBudget (pullForwardForAddition now s) = attemptBudget s"
  "cohort (pullForwardForAddition now s) = cohort s"
  by (simp_all add: pullForwardForAddition_def Let_def)

lemma bell_inv_recordAttempt:
  assumes "bell_inv s" and "phase s = wakeDoorbellRetrying"
  shows "bell_inv (recordAttempt now s)" and "reminderAttempts (recordAttempt now s) = reminderAttempts s + 1"
proof -
  have r: "reminderAttempts s < attemptBudget s" and b: "attemptBudget s \<le> 8"
    using assms by (auto simp: bell_inv_def wakeDoorbellLifetimeAttemptCap_def)
  have nz: "attemptBudget s \<noteq> 0" using r by auto
  show "reminderAttempts (recordAttempt now s) = reminderAttempts s + 1"
    using nz by (simp add: recordAttempt_def bell)
  show "bell_inv (recordAttempt now s)"
    using nz uint_suc_le [OF r] b assms r
    by (auto simp: recordAttempt_def bell_inv_def bell word_neq_0_conv)
qed

lemma bell_inv_expand:
  assumes "bell_inv s" and "phase s \<noteq> wakeDoorbellIdle"
  shows "bell_inv (expand now current s)"
proof (cases "phase s = wakeDoorbellParked")
  case False
  then show ?thesis
    using bell_inv_same [OF bell_inv_arm [OF assms(1)]] by (simp add: expand_def)
next
  case True
  have r: "reminderAttempts s = attemptBudget s" "attemptBudget s \<le> 8"
    using assms True by (auto simp: bell_inv_def wakeDoorbellLifetimeAttemptCap_def)
  have "attemptBudget s < attemptBudget s + 1 \<and> attemptBudget s + 1 \<le> 8" if "attemptBudget s < 8"
    using that by (simp add: word_less_nat_alt word_le_nat_alt unat_word_ariths)
  then show ?thesis
    using True r assms(1) by (auto simp: expand_def bell_inv_def Let_def wakeDoorbellLifetimeAttemptCap_def)
qed

lemma expand_sel: "phase (expand now current s) \<in> {wakeDoorbellRetrying, wakeDoorbellParked}"
  by (simp add: expand_def Let_def arm_def)

lemma bell_inv_plan:
  assumes "bell_inv s"
  shows "bell_inv (snd (plan now current s))"
  using assms bell_inv_reset bell_inv_injected bell_inv_arm bell_inv_expand bell_inv_arm [OF bell_inv_reset]
  by (auto simp: plan_def Let_def)

lemma plan_attempt_phase:
  assumes "attempt (fst (plan now current s))" and "phase s \<noteq> wakeDoorbellRecoveryRequired"
  shows "phase (snd (plan now current s)) = wakeDoorbellRetrying"
  using assms expand_sel [of now current s]
  by (cases "phase s") (auto simp: plan_def Let_def no_plan_def arm_def split: if_splits)

end
