(* ===== verification/Wake_Notify.thy ===== *)
theory Wake_Notify
  imports Doorbell
begin

text \<open>
  The notifier around the doorbell (\<^verbatim>\<open>internal/cli/wake.go\<close>): what a scan of the inbox does to the
  doorbell, the retained terminal input and the recovery mode. What the terminal layer did is an argument.
\<close>

section \<open>Model\<close>

datatype wakeInputDeliveryPhase =
    wakeInputDeliveryIdle
  | wakeInputPayloadPending
  | wakeInputRawPreludePending
  | wakeInputPrimarySubmitPending
  | wakeInputRawFirstSubmitQueued
  | wakeInputRawRescuePending
  | wakeInputRawRescueQueued

record wakeInputDeliveryState =
  iphase :: wakeInputDeliveryPhase
  imode :: string
  ipayload :: string
  acceptedBytes :: int
  acceptanceUncertain :: bool

definition input_reset :: wakeInputDeliveryState where
  "input_reset = \<lparr>iphase = wakeInputDeliveryIdle, imode = [], ipayload = [], acceptedBytes = 0,
     acceptanceUncertain = False\<rparr>"

definition input_pending :: "wakeInputDeliveryState \<Rightarrow> bool" where
  "input_pending st \<longleftrightarrow> iphase st \<noteq> wakeInputDeliveryIdle"

definition confirmedInput :: "wakeInputDeliveryState \<Rightarrow> bool" where
  "confirmedInput st \<longleftrightarrow>
     acceptedBytes st > 0 \<or> iphase st \<noteq> wakeInputDeliveryIdle \<and> iphase st \<noteq> wakeInputPayloadPending"

definition blocksDemotion :: "wakeInputDeliveryState \<Rightarrow> bool" where
  "blocksDemotion st \<longleftrightarrow> confirmedInput st \<or> acceptanceUncertain st"

text \<open>Which of the notifier's error types are in an error's chain.\<close>

record werr =
  isWakeTerminalAuthorityLoss :: bool
  isWakeTerminalPartialProgress :: bool
  isWakeInputDemotionBlocked :: bool
  isWakeTerminalProgressUncertain :: bool
  isWakeAttentionDelivery :: bool

definition demotion_blocked :: werr where
  "demotion_blocked = \<lparr>isWakeTerminalAuthorityLoss = False, isWakeTerminalPartialProgress = False,
     isWakeInputDemotionBlocked = True, isWakeTerminalProgressUncertain = False, isWakeAttentionDelivery = False\<rparr>"

definition werr_join :: "werr \<Rightarrow> werr \<Rightarrow> werr" where
  "werr_join x y =
     \<lparr>isWakeTerminalAuthorityLoss = (isWakeTerminalAuthorityLoss x \<or> isWakeTerminalAuthorityLoss y),
      isWakeTerminalPartialProgress = (isWakeTerminalPartialProgress x \<or> isWakeTerminalPartialProgress y),
      isWakeInputDemotionBlocked = (isWakeInputDemotionBlocked x \<or> isWakeInputDemotionBlocked y),
      isWakeTerminalProgressUncertain = (isWakeTerminalProgressUncertain x \<or> isWakeTerminalProgressUncertain y),
      isWakeAttentionDelivery = (isWakeAttentionDelivery x \<or> isWakeAttentionDelivery y)\<rparr>"

text \<open>The part of \<^verbatim>\<open>wakeConfig\<close> that a notification reads and writes.\<close>

record wakeConfig =
  doorbell :: wakeDoorbellState
  inputDelivery :: wakeInputDeliveryState
  inputRecoveryRequired :: bool
  injectModeNone :: bool
  retryUntilInjected :: bool
  lastAttemptAttention :: bool
  lastAttemptTransientAttention :: bool

text \<open>
  What the terminal layer did with a planned prompt (\<^verbatim>\<open>deliverWakeNotification\<close>): the agent's input line never
  became quiet; the write was refused (because another process group is in the foreground, or for another
  cause); the write ended, with or without an error; nothing was accepted; the terminal has no injector.
\<close>

datatype terminal =
    Deferred
  | Refused bool werr
  | Written "werr option"
  | NotAccepted
  | Unsupported werr

text \<open>What the layers below answer during one notification: the clock at each reading, the end of a
  retained input that is resumed, the terminal and the retained input it left, whether this process may
  still show attention, and whether that succeeded.\<close>

record answers =
  planned_at :: time
  delivered_at :: time
  recorded_at :: time
  recovery_at :: time
  resumed :: "werr option \<times> wakeInputDeliveryState"
  terminal_did :: terminal
  left_input :: wakeInputDeliveryState
  attention_refused :: "werr option"
  attention_failed :: "werr option"

definition clearWakeInputState :: "wakeConfig \<Rightarrow> wakeConfig" where
  "clearWakeInputState cfg = cfg\<lparr>inputDelivery := input_reset\<rparr>"

definition shouldRecordWakeAttempt :: "werr option \<Rightarrow> bool" where
  "shouldRecordWakeAttempt err =
     (case err of
        None \<Rightarrow> True
      | Some e \<Rightarrow> \<not> isWakeTerminalAuthorityLoss e \<and> \<not> isWakeTerminalPartialProgress e \<and>
          \<not> isWakeInputDemotionBlocked e \<and> \<not> isWakeTerminalProgressUncertain e)"

definition wakeInputAttemptConfirmed :: "wakeConfig \<Rightarrow> werr option \<Rightarrow> bool" where
  "wakeInputAttemptConfirmed cfg deliveryErr \<longleftrightarrow>
     deliveryErr = None \<and> \<not> injectModeNone cfg \<and> \<not> input_pending (inputDelivery cfg) \<and>
     \<not> lastAttemptAttention cfg \<and> \<not> lastAttemptTransientAttention cfg"

definition recordWakeAttempt :: "time \<Rightarrow> pending \<Rightarrow> werr option \<Rightarrow> wakeConfig \<Rightarrow> wakeConfig" where
  "recordWakeAttempt now currentPending deliveryErr cfg =
     (let s = (if cohort (doorbell cfg) = [] then arm currentPending (doorbell cfg) else doorbell cfg) in
      cfg\<lparr>doorbell :=
        (if retryUntilInjected cfg \<and> deliveryErr = None \<and> \<not> lastAttemptAttention cfg
            \<and> \<not> lastAttemptTransientAttention cfg
           then recordInjected currentPending
         else if lastAttemptTransientAttention cfg then recordDeferredInputAttempt now s
         else if lastAttemptAttention cfg \<or> (case deliveryErr of Some e \<Rightarrow> isWakeAttentionDelivery e | None \<Rightarrow> False)
           then recordAttentionAttempt now s
         else recordAttempt now s)\<rparr>)"

definition deliverWakeInputRecoveryAttention ::
    "answers \<Rightarrow> pending \<Rightarrow> wakeConfig \<Rightarrow> werr option \<times> wakeConfig" where
  "deliverWakeInputRecoveryAttention ans currentPending cfg =
     (let now = recovery_at ans;
          (due, s) = planRecoveryAttention now currentPending (doorbell cfg) in
      if \<not> due then (None, cfg\<lparr>doorbell := s\<rparr>)
      else
        (let s1 = recordRecoveryRequired now currentPending s in
         case attention_failed ans of
           Some e \<Rightarrow> (Some e, cfg\<lparr>doorbell := s1\<rparr>)
         | None \<Rightarrow>
             (let s2 = recordRecoveryAttentionDelivered s1 in
              (None, cfg\<lparr>doorbell := (if currentPending = [] then noteRecoveryInboxEmpty else s2)\<rparr>))))"

definition enterWakeInputRecovery ::
    "answers \<Rightarrow> pending \<Rightarrow> werr \<Rightarrow> wakeConfig \<Rightarrow> werr option \<times> wakeConfig" where
  "enterWakeInputRecovery ans currentPending cause cfg =
     (case deliverWakeInputRecoveryAttention ans currentPending (cfg\<lparr>inputRecoveryRequired := True\<rparr>) of
        (Some e, cfg') \<Rightarrow> (Some (werr_join cause e), cfg')
      | (None, cfg') \<Rightarrow> (None, cfg'))"

definition dischargeWakeInputRecoveryAfterProgress :: "pending \<Rightarrow> wakeConfig \<Rightarrow> bool \<times> wakeConfig" where
  "dischargeWakeInputRecoveryAfterProgress currentPending cfg =
     (if \<not> inputRecoveryRequired cfg then (False, cfg)
      else if currentPending = [] \<or>
           phase (doorbell cfg) = wakeDoorbellRecoveryRequired \<and>
           wakeCohortProgressed (cohort (doorbell cfg)) currentPending
        then (True, clearWakeInputState (cfg\<lparr>inputRecoveryRequired := False, doorbell := reset\<rparr>))
      else (False, cfg))"

definition reconcileWakeInputAfterInboxDrain :: "answers \<Rightarrow> wakeConfig \<Rightarrow> werr option \<times> wakeConfig" where
  "reconcileWakeInputAfterInboxDrain ans cfg =
     (if acceptanceUncertain (inputDelivery cfg) then (Some demotion_blocked, cfg)
      else if \<not> input_pending (inputDelivery cfg) then (None, cfg)
      else if iphase (inputDelivery cfg) = wakeInputPayloadPending then (None, clearWakeInputState cfg)
      else (fst (resumed ans), cfg\<lparr>inputDelivery := snd (resumed ans)\<rparr>))"

definition retireWakeInputState :: "werr \<Rightarrow> wakeConfig \<Rightarrow> werr option \<times> wakeConfig" where
  "retireWakeInputState cause cfg =
     (if blocksDemotion (inputDelivery cfg) then (Some (cause\<lparr>isWakeInputDemotionBlocked := True\<rparr>), cfg)
      else (None, clearWakeInputState (cfg\<lparr>doorbell := reset\<rparr>)))"

definition disableWakeInput :: "werr \<Rightarrow> wakeConfig \<Rightarrow> werr option \<times> wakeConfig" where
  "disableWakeInput cause cfg =
     (case retireWakeInputState cause cfg of
        (Some e, cfg') \<Rightarrow> (Some e, cfg')
      | (None, cfg') \<Rightarrow> (None, cfg'\<lparr>injectModeNone := True\<rparr>))"

definition deliverWakeAttentionOnly :: "answers \<Rightarrow> wakeConfig \<Rightarrow> werr option \<times> wakeConfig" where
  "deliverWakeAttentionOnly ans cfg =
     (case attention_refused ans of
        Some e \<Rightarrow> (Some e, cfg)
      | None \<Rightarrow>
          (case attention_failed ans of
             Some e \<Rightarrow> (Some e, cfg)
           | None \<Rightarrow> (None, cfg\<lparr>lastAttemptAttention := True\<rparr>)))"

definition deliverWakeTransientAttention :: "answers \<Rightarrow> werr option \<Rightarrow> wakeConfig \<Rightarrow> werr option \<times> wakeConfig" where
  "deliverWakeTransientAttention ans cause cfg =
     (case attention_refused ans of
        Some e \<Rightarrow> (Some e, cfg)
      | None \<Rightarrow>
          (let now = delivered_at ans in
           if \<not> transientAttentionDue now (doorbell cfg) then (cause, cfg)
           else
             (let cfg' = cfg\<lparr>lastAttemptTransientAttention := True,
                    doorbell := recordTransientAttentionAttempt now (doorbell cfg)\<rparr> in
              case attention_failed ans of
                Some e \<Rightarrow> (Some (case cause of Some c \<Rightarrow> werr_join c e | None \<Rightarrow> e), cfg')
              | None \<Rightarrow> (cause, cfg'))))"

definition deliverWakeAttentionAfterInputRefusal ::
    "answers \<Rightarrow> bool \<Rightarrow> werr \<Rightarrow> wakeConfig \<Rightarrow> werr option \<times> wakeConfig" where
  "deliverWakeAttentionAfterInputRefusal ans pgrpChanged cause cfg =
     (if pgrpChanged then deliverWakeTransientAttention ans (Some cause) cfg
      else if isWakeTerminalAuthorityLoss cause then (Some cause, cfg)
      else
        (case deliverWakeAttentionOnly ans cfg of
           (Some e, cfg') \<Rightarrow> (Some (werr_join cause e), cfg')
         | (None, cfg') \<Rightarrow> (None, cfg')))"

definition deliverWakeNotification :: "answers \<Rightarrow> wakeConfig \<Rightarrow> werr option \<times> wakeConfig" where
  "deliverWakeNotification ans cfg =
     (let cfg0 = cfg\<lparr>lastAttemptAttention := False, lastAttemptTransientAttention := False\<rparr>;
          cfg1 = cfg0\<lparr>inputDelivery := left_input ans\<rparr> in
      if injectModeNone cfg then deliverWakeAttentionOnly ans cfg0
      else case terminal_did ans of
        Deferred \<Rightarrow> deliverWakeTransientAttention ans None cfg0
      | Refused pgrpChanged cause \<Rightarrow> deliverWakeAttentionAfterInputRefusal ans pgrpChanged cause cfg1
      | Written err \<Rightarrow> (err, cfg1)
      | NotAccepted \<Rightarrow> deliverWakeAttentionOnly ans cfg1
      | Unsupported cause \<Rightarrow>
          (case disableWakeInput cause cfg1 of
             (Some e, cfg2) \<Rightarrow> (Some e, cfg2)
           | (None, cfg2) \<Rightarrow> deliverWakeAttentionOnly ans cfg2))"

text \<open>The delivery of a planned attempt and its record.\<close>

definition attempt_notification ::
    "answers \<Rightarrow> pending \<Rightarrow> wakeDoorbellPlan \<Rightarrow> wakeConfig \<Rightarrow> werr option \<times> wakeConfig" where
  "attempt_notification ans currentPending p cfg =
     (let retainedInputPending = input_pending (inputDelivery cfg);
          withInput = (\<not> injectModeNone cfg);
          (deliveryErr, cfg1) = deliverWakeNotification ans cfg in
      case deliveryErr of
        Some e \<Rightarrow>
          if isWakeInputDemotionBlocked e then enterWakeInputRecovery ans currentPending e cfg1
          else
            (let cfg2 = (if withInput \<and> injectModeNone cfg1 then clearWakeInputState cfg1 else cfg1) in
             (deliveryErr,
              if shouldRecordWakeAttempt deliveryErr
              then recordWakeAttempt (recorded_at ans) currentPending deliveryErr cfg2 else cfg2))
      | None \<Rightarrow>
          (let cfg2 = (if withInput \<and> injectModeNone cfg1 then clearWakeInputState cfg1 else cfg1);
               cfg3 = (if withInput \<and> \<not> injectModeNone cfg1 \<and> \<not> submitOnly p
                          \<and> (\<not> contentChange p \<or> \<not> retainedInputPending)
                          \<and> wakeInputAttemptConfirmed cfg2 deliveryErr
                       then cfg2\<lparr>doorbell := confirmPresentation (doorbell cfg2)\<rparr> else cfg2) in
           (None, recordWakeAttempt (recorded_at ans) currentPending deliveryErr cfg3)))"

definition deliverNewMessageNotification ::
    "answers \<Rightarrow> pending \<Rightarrow> wakeConfig \<Rightarrow> werr option \<times> wakeConfig" where
  "deliverNewMessageNotification ans currentPending cfg =
     (let (discharged, cfg0) = dischargeWakeInputRecoveryAfterProgress currentPending cfg in
      if inputRecoveryRequired cfg \<and> \<not> discharged
        then deliverWakeInputRecoveryAttention ans currentPending cfg0
      else if inputRecoveryRequired cfg \<and> currentPending = [] then (None, cfg0)
      else if injectModeNone cfg0 \<and> blocksDemotion (inputDelivery cfg0) then (Some demotion_blocked, cfg0)
      else
        (let cfg1 = (if injectModeNone cfg0 then clearWakeInputState cfg0 else cfg0);
             (p, s) = plan (planned_at ans) currentPending (doorbell cfg1);
             cfg2 = cfg1\<lparr>doorbell := s\<rparr> in
         if \<not> attempt p then (None, cfg2)
         else if progress p \<and> input_pending (inputDelivery cfg2) then
           (case reconcileWakeInputAfterInboxDrain ans cfg2 of
              (Some e, cfg3) \<Rightarrow> (Some e, cfg3)
            | (None, cfg3) \<Rightarrow>
                (if input_pending (inputDelivery cfg3) then (None, cfg3)
                 else attempt_notification ans currentPending p cfg3))
         else attempt_notification ans currentPending p cfg2))"

text \<open>\<^verbatim>\<open>notifyNewMessages\<close> after the scan; the messages it lists are those of \<open>currentPending\<close>.\<close>

definition notifyNewMessages :: "answers \<Rightarrow> pending \<Rightarrow> wakeConfig \<Rightarrow> werr option \<times> wakeConfig" where
  "notifyNewMessages ans currentPending cfg =
     (let (discharged, cfg0) = dischargeWakeInputRecoveryAfterProgress currentPending cfg in
      if discharged \<and> currentPending = [] then (None, cfg0)
      else if currentPending = [] then
        (if inputRecoveryRequired cfg0 then deliverWakeInputRecoveryAttention ans currentPending cfg0
         else reconcileWakeInputAfterInboxDrain ans (cfg0\<lparr>doorbell := reset\<rparr>))
      else deliverNewMessageNotification ans currentPending cfg0)"

text \<open>The loop's reaction to a blocked demotion, and to input that became possible again.\<close>

definition enterRetainedInputRecovery :: "answers \<Rightarrow> wakeConfig \<Rightarrow> wakeConfig" where
  "enterRetainedInputRecovery ans cfg =
     (let s = retainRecoveryRequired (recovery_at ans) (doorbell cfg) in
      cfg\<lparr>inputRecoveryRequired := True,
          doorbell := (if attention_failed ans = None then recordRecoveryAttentionDelivered s else s)\<rparr>)"

section \<open>The notifier as a state machine\<close>

inductive wake_step :: "wakeConfig \<Rightarrow> wakeConfig \<Rightarrow> bool" where
  scan: "wake_step cfg (snd (notifyNewMessages ans currentPending cfg))"
| retire: "wake_step cfg (snd (retireWakeInputState cause cfg))"
| retain: "wake_step cfg (enterRetainedInputRecovery ans cfg)"
| due: "wake_step cfg (cfg\<lparr>doorbell := makeDue now (doorbell cfg)\<rparr>)"
| mode: "wake_step cfg (cfg\<lparr>injectModeNone := b\<rparr>)"
| lost: "wake_step cfg (cfg\<lparr>inputDelivery := st\<rparr>)"

definition fresh :: "bool \<Rightarrow> bool \<Rightarrow> wakeConfig" where
  "fresh none until = \<lparr>doorbell = reset, inputDelivery = input_reset, inputRecoveryRequired = False,
     injectModeNone = none, retryUntilInjected = until, lastAttemptAttention = False,
     lastAttemptTransientAttention = False\<rparr>"

section \<open>The invariant\<close>

definition wake_inv :: "wakeConfig \<Rightarrow> bool" where
  "wake_inv cfg \<longleftrightarrow>
     bell_inv (doorbell cfg) \<and>
     (phase (doorbell cfg) = wakeDoorbellRecoveryRequired \<longrightarrow> inputRecoveryRequired cfg)"

text \<open>An obligation that may be prompted for: retrying, or dropped and to be armed again.\<close>

definition open_bell :: "wakeDoorbellState \<Rightarrow> bool" where
  "open_bell s \<longleftrightarrow>
     bell_inv s \<and> (phase s = wakeDoorbellRetrying \<or> phase s = wakeDoorbellIdle \<and> cohort s = [])"

lemma open_bell_transient: "phase s = wakeDoorbellRetrying \<Longrightarrow> open_bell s \<Longrightarrow> open_bell (recordTransientAttentionAttempt t s)"
  by (auto simp: open_bell_def bell_inv_def recordTransientAttentionAttempt_def)

lemma open_bell_reset: "open_bell reset"
  by (simp add: open_bell_def bell_inv_reset)

lemma deliverWakeNotification_open:
  assumes "open_bell (doorbell cfg)" and "phase (doorbell cfg) = wakeDoorbellRetrying"
    and "deliverWakeNotification ans cfg = (e, cfg')"
  shows "open_bell (doorbell cfg')" and "inputRecoveryRequired cfg' = inputRecoveryRequired cfg"
  using assms open_bell_transient [OF assms(2,1)] open_bell_reset
  by (auto simp: deliverWakeNotification_def deliverWakeAttentionOnly_def deliverWakeTransientAttention_def
      deliverWakeAttentionAfterInputRefusal_def disableWakeInput_def retireWakeInputState_def clearWakeInputState_def
      Let_def split: if_splits option.splits terminal.splits prod.splits)

lemma plan_quiet_phase:
  assumes "phase s \<noteq> wakeDoorbellRecoveryRequired"
  shows "phase (snd (plan now current s)) \<noteq> wakeDoorbellRecoveryRequired"
  using assms expand_sel [of now current s] by (auto simp: plan_def Let_def arm_def recordInjected_def)

lemma arm_open: "open_bell s \<Longrightarrow> open_bell (arm current s) \<and> phase (arm current s) = wakeDoorbellRetrying"
  using bell_inv_arm [of s current] by (auto simp: open_bell_def arm_def)

lemma bell_inv_paced:
  "bell_inv s \<Longrightarrow> bell_inv (recordDeferredInputAttempt now s)"
  "bell_inv s \<Longrightarrow> bell_inv (recordAttentionAttempt now s)"
  by (rule bell_inv_same; simp add: bell)+

lemma paced_phase [simp]:
  "phase (recordDeferredInputAttempt now s) = phase s" "phase (recordAttentionAttempt now s) = phase s"
  by (simp_all add: bell)

lemma recordAttempt_phase:
  "phase (recordAttempt now s) \<in> {phase s, wakeDoorbellParked}"
  by (simp add: recordAttempt_def bell)

lemma recordInjected_phase [simp]: "phase (recordInjected current) = wakeDoorbellAnnounced"
  by (simp add: recordInjected_def)

lemma recordWakeAttempt_inv:
  assumes "open_bell (doorbell cfg)"
  shows "wake_inv (recordWakeAttempt now current e cfg)"
proof -
  let ?s = "if cohort (doorbell cfg) = [] then arm current (doorbell cfg) else doorbell cfg"
  have s: "bell_inv ?s" "phase ?s = wakeDoorbellRetrying"
    using assms arm_open [OF assms, of current] by (auto simp: open_bell_def)
  have "phase (recordAttempt now ?s) \<noteq> wakeDoorbellRecoveryRequired"
    using recordAttempt_phase [of now ?s] s(2) by auto
  then show ?thesis
    using bell_inv_recordAttempt(1) [OF s] bell_inv_paced [OF s(1)] s(2) bell_inv_injected
    unfolding wake_inv_def recordWakeAttempt_def Let_def by simp
qed

lemma recovery_inv:
  assumes "bell_inv (doorbell cfg)" and "inputRecoveryRequired cfg"
    and "deliverWakeInputRecoveryAttention ans current cfg = (e, cfg')"
  shows "wake_inv cfg' \<and> inputRecoveryRequired cfg'"
proof -
  have plan: "bell_inv (snd (planRecoveryAttention now current (doorbell cfg)))" for now
    using assms(1) bell_inv_reset
    by (auto simp: planRecoveryAttention_def Let_def noteRecoveryInboxEmpty_def intro: bell_inv_same)
  have rec: "bell_inv (recordRecoveryRequired now current s)" if "bell_inv s" for s now
    using that bell_inv_reset
    by (auto simp: recordRecoveryRequired_def Let_def bell_inv_def bell split: if_splits)
  have del: "bell_inv (recordRecoveryAttentionDelivered s)" if "bell_inv s" for s
    by (rule bell_inv_same [OF that]) (simp_all add: bell)
  obtain due s where p: "planRecoveryAttention (recovery_at ans) current (doorbell cfg) = (due, s)" by fastforce
  with plan [of "recovery_at ans"] have "bell_inv s" by simp
  then show ?thesis
    using assms(2,3) p rec del bell_inv_reset
    by (auto simp: deliverWakeInputRecoveryAttention_def wake_inv_def noteRecoveryInboxEmpty_def Let_def
        split: if_splits option.splits)
qed

lemma enter_recovery_inv:
  assumes "bell_inv (doorbell cfg)" and "enterWakeInputRecovery ans current c cfg = (e, cfg')"
  shows "wake_inv cfg'"
  using assms recovery_inv [of "cfg\<lparr>inputRecoveryRequired := True\<rparr>" ans current]
  by (auto simp: enterWakeInputRecovery_def split: prod.splits option.splits)

lemma discharge_inv:
  assumes "wake_inv cfg" and "dischargeWakeInputRecoveryAfterProgress current cfg = (d, cfg')"
  shows "wake_inv cfg'" and "d \<Longrightarrow> doorbell cfg' = reset \<and> \<not> inputRecoveryRequired cfg'"
    and "\<not> d \<Longrightarrow> cfg' = cfg"
  using assms bell_inv_reset
  by (auto simp: dischargeWakeInputRecoveryAfterProgress_def clearWakeInputState_def wake_inv_def split: if_splits)

lemma open_bell_confirm: "open_bell s \<Longrightarrow> open_bell (confirmPresentation s)"
  by (auto simp: open_bell_def bell_inv_def confirmPresentation_def)

lemma wake_inv_open: "open_bell (doorbell cfg) \<Longrightarrow> wake_inv cfg"
  by (auto simp: wake_inv_def open_bell_def)

lemma attempt_inv:
  assumes s: "open_bell (doorbell cfg)" "phase (doorbell cfg) = wakeDoorbellRetrying"
    and run: "attempt_notification ans current p cfg = (e, cfg')"
  shows "wake_inv cfg'"
proof -
  obtain de cfg1 where d: "deliverWakeNotification ans cfg = (de, cfg1)" by fastforce
  note o1 = deliverWakeNotification_open(1) [OF s d]
  have clear: "open_bell (doorbell (clearWakeInputState cfg1))" using o1 by (simp add: clearWakeInputState_def)
  show ?thesis
  proof (cases de)
    case None
    then show ?thesis
      using run d o1 clear
      by (auto simp: attempt_notification_def Let_def intro!: recordWakeAttempt_inv open_bell_confirm split: if_splits)
  next
    case (Some x)
    have "bell_inv (doorbell cfg1)" using o1 by (simp add: open_bell_def)
    then show ?thesis
      using run d o1 clear Some
      by (auto simp: attempt_notification_def Let_def intro: recordWakeAttempt_inv wake_inv_open enter_recovery_inv
          split: if_splits)
  qed
qed

lemma reconcile_doorbell:
  "reconcileWakeInputAfterInboxDrain ans cfg = (e, cfg') \<Longrightarrow>
   doorbell cfg' = doorbell cfg \<and> inputRecoveryRequired cfg' = inputRecoveryRequired cfg"
  by (auto simp: reconcileWakeInputAfterInboxDrain_def clearWakeInputState_def split: if_splits)

lemma deliver_inv:
  assumes inv: "wake_inv cfg" and run: "deliverNewMessageNotification ans current cfg = (e, cfg')"
  shows "wake_inv cfg'"
proof -
  obtain d cfg0 where d: "dischargeWakeInputRecoveryAfterProgress current cfg = (d, cfg0)" by fastforce
  note inv0 = discharge_inv(1) [OF inv d]
  define cfg1 where "cfg1 = (if injectModeNone cfg0 then clearWakeInputState cfg0 else cfg0)"
  obtain p s where p: "plan (planned_at ans) current (doorbell cfg1) = (p, s)" by fastforce
  have same: "doorbell cfg1 = doorbell cfg0" "inputRecoveryRequired cfg1 = inputRecoveryRequired cfg0"
    by (simp_all add: cfg1_def clearWakeInputState_def)
  have s: "bell_inv s" using bell_inv_plan [of "doorbell cfg1" "planned_at ans" current] p same inv0 by (simp add: wake_inv_def)
  show ?thesis
  proof (cases "inputRecoveryRequired cfg \<and> \<not> d")
    case True
    then have "cfg0 = cfg" using discharge_inv(3) [OF inv d] by simp
    then show ?thesis
      using True run d recovery_inv [of cfg ans current] inv
      by (auto simp: deliverNewMessageNotification_def wake_inv_def)
  next
    case False
    then have norec: "\<not> inputRecoveryRequired cfg0" using discharge_inv(2,3) [OF inv d] by blast
    then have phase0: "phase (doorbell cfg1) \<noteq> wakeDoorbellRecoveryRequired" using inv0 same by (auto simp: wake_inv_def)
    have att: "open_bell s \<and> phase s = wakeDoorbellRetrying" if "attempt p"
      using plan_attempt_phase [of "planned_at ans" current "doorbell cfg1"] that p phase0 s by (simp add: open_bell_def)
    have quiet: "wake_inv (c\<lparr>doorbell := s\<rparr>)" if "\<not> attempt p" for c
      using s plan_quiet_phase [of "doorbell cfg1" "planned_at ans" current] that p phase0 by (simp add: wake_inv_def)
    have go: "wake_inv c'" if "attempt_notification ans current p c = (x, c')" "doorbell c = s" "attempt p" for c c' x
      using attempt_inv [of c ans current p x c'] that att by simp
    have stop: "wake_inv c" if "doorbell c = s" "attempt p" for c
      using that att by (auto simp: wake_inv_def open_bell_def)
    show ?thesis
      using False run d p inv0 quiet go stop
      by (auto simp: deliverNewMessageNotification_def cfg1_def [symmetric] Let_def
          dest!: reconcile_doorbell split: if_splits prod.splits option.splits)
  qed
qed

lemma notify_inv:
  assumes "wake_inv cfg" and "notifyNewMessages ans current cfg = (e, cfg')"
  shows "wake_inv cfg'"
proof -
  obtain d cfg0 where d: "dischargeWakeInputRecoveryAfterProgress current cfg = (d, cfg0)" by fastforce
  note inv0 = discharge_inv(1) [OF assms(1) d]
  have "wake_inv c" if "doorbell c = reset" for c using that bell_inv_reset by (simp add: wake_inv_def)
  then show ?thesis
    using assms(2) d inv0 recovery_inv [of cfg0 ans current e cfg'] deliver_inv [OF inv0, of ans current e cfg']
    by (auto simp: notifyNewMessages_def wake_inv_def dest!: reconcile_doorbell split: if_splits)
qed

lemma wake_step_inv: "wake_step cfg cfg' \<Longrightarrow> wake_inv cfg \<Longrightarrow> wake_inv cfg'"
proof (induction rule: wake_step.induct)
  case (scan cfg ans current)
  then show ?case using notify_inv [of cfg ans current] by (metis prod.collapse)
next
  case (retire cfg cause)
  then show ?case using bell_inv_reset by (auto simp: retireWakeInputState_def wake_inv_def clearWakeInputState_def)
next
  case (retain cfg ans)
  show ?case by (auto simp: enterRetainedInputRecovery_def wake_inv_def bell_inv_def bell)
next
  case (due cfg now)
  then show ?case by (auto simp: wake_inv_def makeDue_def bell_inv_def)
qed (simp_all add: wake_inv_def)

lemma wake_reachable_inv: "wake_step\<^sup>*\<^sup>* (fresh none until) cfg \<Longrightarrow> wake_inv cfg"
proof (induction rule: rtranclp_induct)
  case base
  show ?case using bell_inv_reset by (simp add: wake_inv_def fresh_def)
qed (rule wake_step_inv)

section \<open>Runs of prompts\<close>

text \<open>The prompts that a sequence of scans causes until a message of the cohort is taken or replaced;
  each planned prompt is recorded as an attempt at terminal input.\<close>

fun rings :: "wakeDoorbellState \<Rightarrow> (time \<times> pending) list \<Rightarrow> nat" where
  "rings s [] = 0"
| "rings s ((now, current) # scans) =
     (if current = [] \<or> phase s \<noteq> wakeDoorbellIdle \<and> wakeCohortProgressed (cohort s) current then 0
      else case plan now current s of
        (p, s') \<Rightarrow> if attempt p then Suc (rings (recordAttempt now s') scans) else rings s' scans)"

lemma plan_same_obligation:
  assumes "phase s \<in> {wakeDoorbellIdle, wakeDoorbellRetrying, wakeDoorbellParked}" and "current \<noteq> []"
    and "\<not> (phase s \<noteq> wakeDoorbellIdle \<and> wakeCohortProgressed (cohort s) current)"
  shows "reminderAttempts (snd (plan now current s)) = reminderAttempts s"
    and "phase (snd (plan now current s)) \<in> {wakeDoorbellRetrying, wakeDoorbellParked}"
proof -
  have e: "reminderAttempts (expand now current s) = reminderAttempts s"
    by (simp add: expand_def Let_def arm_def)
  show "reminderAttempts (snd (plan now current s)) = reminderAttempts s"
    using assms e by (auto simp: plan_def Let_def arm_def)
  show "phase (snd (plan now current s)) \<in> {wakeDoorbellRetrying, wakeDoorbellParked}"
    using assms expand_sel [of now current s] by (auto simp: plan_def Let_def arm_def)
qed

lemma rings_budget:
  assumes "bell_inv s" and "phase s \<in> {wakeDoorbellIdle, wakeDoorbellRetrying, wakeDoorbellParked}"
  shows "rings s scans + unat (reminderAttempts s) \<le> 8"
  using assms
proof (induction scans arbitrary: s)
  case Nil
  then have "reminderAttempts s \<le> 8"
    by (auto simp: bell_inv_def wakeDoorbellLifetimeAttemptCap_def intro: order_trans)
  then show ?case by (simp add: word_le_nat_alt)
next
  case (Cons x scans)
  obtain now current where x: "x = (now, current)" by fastforce
  show ?case
  proof (cases "current = [] \<or> phase s \<noteq> wakeDoorbellIdle \<and> wakeCohortProgressed (cohort s) current")
    case True
    then show ?thesis using Cons.IH [OF Cons.prems] x by simp
  next
    case False
    obtain p s' where p: "plan now current s = (p, s')" by fastforce
    have s': "bell_inv s'" "reminderAttempts s' = reminderAttempts s" "phase s' \<in> {wakeDoorbellRetrying, wakeDoorbellParked}"
      using bell_inv_plan [OF Cons.prems(1), of now current] plan_same_obligation [OF Cons.prems(2), of current now] False p
      by auto
    show ?thesis
    proof (cases "attempt p")
      case False
      then show ?thesis using Cons.IH [of s'] s' x p \<open>\<not> (current = [] \<or> _)\<close> by auto
    next
      case True
      then have r: "phase s' = wakeDoorbellRetrying"
        using plan_attempt_phase [of now current s] p Cons.prems(2) by auto
      have "reminderAttempts s' < 8"
        using s'(1) r by (auto simp: bell_inv_def wakeDoorbellLifetimeAttemptCap_def)
      then have "unat (reminderAttempts (recordAttempt now s')) = Suc (unat (reminderAttempts s))"
        using bell_inv_recordAttempt(2) [OF s'(1) r] s'(2) by (simp add: word_less_nat_alt unat_word_ariths)
      moreover have "phase (recordAttempt now s') \<in> {wakeDoorbellRetrying, wakeDoorbellParked}"
        using recordAttempt_phase [of now s'] r by simp
      ultimately have "rings (recordAttempt now s') scans + Suc (unat (reminderAttempts s)) \<le> 8"
        using Cons.IH [OF bell_inv_recordAttempt(1) [OF s'(1) r], of now] by auto
      then show ?thesis using True x p \<open>\<not> (current = [] \<or> _)\<close> by auto
    qed
  qed
qed

section \<open>Guarantees of the notifier\<close>


text \<open>A file with a known identity, and a scan of it at a time with the given end of the prompt.\<close>

definition file_no :: "64 word \<Rightarrow> fileInfo option" where
  "file_no i = Some (FileInfo (Some \<lparr>Device = 1, Inode = i, CTimeSec = 0, CTimeNsec = 0\<rparr>))"

definition at_time :: "time \<Rightarrow> terminal \<Rightarrow> answers" where
  "at_time t did = \<lparr>planned_at = t, delivered_at = t, recorded_at = t, recovery_at = t, resumed = (None, input_reset),
     terminal_did = did, left_input = input_reset, attention_refused = None, attention_failed = None\<rparr>"



text \<open>
  C32: the prompts keep coming while budget is left: an agent with unread messages is prompted at once, and
  again at any scan two minutes after a prompt, if it took none of the messages, whether or not more
  arrived.
\<close>

theorem unread_prompted_again:
  assumes "bell_inv s" and "phase s = wakeDoorbellRetrying"
    and "unat (reminderAttempts s) + 1 < unat (attemptBudget s)" and "current \<noteq> []"
    and "\<not> wakeCohortProgressed (cohort s) current" and "t + 120 * 10 ^ 9 \<le> now"
  shows "attempt (fst (plan now current reset)) \<and> attempt (fst (plan now current (recordAttempt t s)))"
proof -
  let ?s = "recordAttempt t s"
  have b: "unat (attemptBudget s) \<le> 8" using assms(1) by (simp add: bell_inv_def wakeDoorbellLifetimeAttemptCap_def word_le_nat_alt)
  have "\<not> reminderAttempts s + 1 \<ge> attemptBudget s" "attemptBudget s \<noteq> 0"
    using assms(3) b by (auto simp: word_le_nat_alt unat_word_ariths)
  then have s: "phase ?s = wakeDoorbellRetrying" "cohort ?s = cohort s" "additionAttemptFloor ?s = t + 5 * 10 ^ 9"
      "nextAttempt ?s = t + cappedExponentialBackoff (attempts s + 1) (5 * 10 ^ 9) (120 * 10 ^ 9)"
    using assms(2) by (simp_all add: recordAttempt_def recordAttemptWithBase_def Let_def wakeDoorbellRetryBase_def
        wakeDoorbellRetryMax_def second_def minute_def)
  have "cappedExponentialBackoff (attempts s + 1) (5 * 10 ^ 9) (120 * 10 ^ 9) \<le> 120 * 10 ^ 9"
    by (subst backoff_min) simp_all
  then have due: "nextAttempt ?s \<le> now" using s(4) assms(6) by linarith
  have floor: "additionAttemptFloor ?s < now" using s(3) assms(6) by simp
  have "\<not> now < nextAttempt (expand now current ?s)"
    using due floor s(1) by (auto simp: expand_def arm_def pullForwardForAddition_def Let_def)
  moreover have "phase (expand now current ?s) = wakeDoorbellRetrying"
    using s(1) by (simp add: expand_def arm_def)
  ultimately have "attempt (fst (plan now current ?s))"
    using assms(4,5) due s(1,2) by (auto simp: plan_def Let_def)
  moreover have "attempt (fst (plan now current reset))"
    using assms(4) by (simp add: plan_def Let_def arm_def)
  ultimately show ?thesis by blast
qed

theorem unread_prompted_again_witness:
  "attempt (fst (plan (200 * 10 ^ 9) [(''m.md'', file_no 5)]
     (recordAttempt 0 (arm [(''m.md'', file_no 5)] reset))))"
proof -
  have "bell_inv (arm [(''m.md'', file_no 5)] reset)" by code_simp
  moreover have "phase (arm [(''m.md'', file_no 5)] reset) = wakeDoorbellRetrying" by code_simp
  moreover have "unat (reminderAttempts (arm [(''m.md'', file_no 5)] reset)) + 1 < unat (attemptBudget (arm [(''m.md'', file_no 5)] reset))"
    by code_simp
  moreover have "\<not> wakeCohortProgressed (cohort (arm [(''m.md'', file_no 5)] reset)) [(''m.md'', file_no 5)]" by code_simp
  ultimately show ?thesis using unread_prompted_again [of "arm [(''m.md'', file_no 5)] reset" "[(''m.md'', file_no 5)]" 0 "200 * 10 ^ 9"] by simp
qed

text \<open>
  The retry delay is the base doubled once per attempt after the first, cut at the maximum; the loop's
  doubling never overflows for maxima up to half the range of a duration.
\<close>

lemma backoff_is_capped_doubling:
  assumes "0 < base" and "base \<le> maximum" and "maximum \<le> 2 ^ 62"
  shows "cappedExponentialBackoff att base maximum = min maximum (base * 2 ^ (unat att - 1))"
  using backoff_min [OF assms] .

text \<open>Two scans five seconds apart while the user is typing.\<close>

definition deferred_twice :: "bool \<Rightarrow> wakeConfig" where
  "deferred_twice until =
     snd (notifyNewMessages (at_time (5 * 10 ^ 9) Deferred) [(''m.md'', file_no 5)]
       (snd (notifyNewMessages (at_time 0 Deferred) [(''m.md'', file_no 5)] (fresh False until))))"

text \<open>
  A prompt that is deferred because the user is typing, at a time when no transient attention is due,
  is recorded as a prompt that was delivered: it consumes budget, marks the text as presented (so that the
  next prompt is a bare Enter) and, when retrying until injection, ends the retries, although nothing was
  written to the terminal.
\<close>

lemma deferred_prompt_recorded_as_delivered:
  "reminderAttempts (doorbell (deferred_twice False)) = 1 \<and>
   presentationConfirmed (doorbell (deferred_twice False)) \<and>
   submitOnly (fst (plan (60 * 10 ^ 9) [(''m.md'', file_no 5)] (doorbell (deferred_twice False)))) \<and>
   phase (doorbell (deferred_twice True)) = wakeDoorbellAnnounced"
  by code_simp

end
