(* ===== verification/Supervisor.thy ===== *)
theory Supervisor
  imports Go_Time
begin

text \<open>
  The keepalive supervisor (\<^verbatim>\<open>internal/keepalive/supervisor/supervisor.go\<close>): it probes an attached
  terminal target and starts its wake process, and backs off from targets that fail. Probing the target,
  starting the wake and drawing a random offset are arguments; the calls made are part of the result.
\<close>

section \<open>Model\<close>

type_synonym State = string

definition StateAttached :: State where "StateAttached = ''attached''"
definition StateActive :: State where "StateActive = ''active''"
definition StateDetached :: State where "StateDetached = ''detached''"

lemma states_distinct [simp]:
  "StateAttached \<noteq> StateActive" "StateActive \<noteq> StateAttached" "StateAttached \<noteq> StateDetached"
  "StateDetached \<noteq> StateAttached" "StateActive \<noteq> StateDetached" "StateDetached \<noteq> StateActive"
  by (simp_all add: StateAttached_def StateActive_def StateDetached_def)

record Entry =
  eID :: string
  eRoot :: string
  BaseRoot :: string
  SessionName :: string
  eAgent :: string
  eAdapter :: string
  eTarget :: string
  OwnershipKey :: string
  eState :: State
  LastAttach :: time
  LastSeenBySupervisor :: time
  FailureCount :: int
  BackoffUntil :: time
  NextHealthCheck :: time
  DetachedSince :: time
  LastError :: string
  LastSupervisorDecision :: string

definition ActionBackoff :: string where "ActionBackoff = ''backoff''"
definition ActionDeferred :: string where "ActionDeferred = ''deferred''"
definition ActionDetached :: string where "ActionDetached = ''detached''"
definition ActionEnsured :: string where "ActionEnsured = ''ensured''"
definition ActionStartFailed :: string where "ActionStartFailed = ''start_failed''"

definition defaultActiveCheckInterval :: duration where "defaultActiveCheckInterval = 5 * minute"
definition defaultDetachedBackoffBase :: duration where "defaultDetachedBackoffBase = 5 * minute"
definition defaultDetachedBackoffMax :: duration where "defaultDetachedBackoffMax = hour"
definition defaultFailureBackoffBase :: duration where "defaultFailureBackoffBase = minute"
definition defaultFailureBackoffMax :: duration where "defaultFailureBackoffMax = 15 * minute"

text \<open>What a probe can report: the target is gone, it is degraded, or another error.\<close>

datatype probeErr = ErrTargetNotFound string | ErrTargetDegraded string | ProbeErr string

fun errText :: "probeErr \<Rightarrow> string" where
  "errText (ErrTargetNotFound s) = s"
| "errText (ErrTargetDegraded s) = s"
| "errText (ProbeErr s) = s"

record StartWakeRequest =
  swRoot :: string
  swMe :: string
  swInjectVia :: string
  swAdapter :: string
  swTarget :: string
  swTimeout :: duration

text \<open>The reconciler's configuration; \<open>Wake\<close> and \<open>Adapter\<close> are \<^verbatim>\<open>nil\<close> or answer a call. \<open>rand_int\<close> is
  \<^verbatim>\<open>rand.Int\<close>, which may fail.\<close>

record Reconciler =
  Wake :: "(StartWakeRequest \<Rightarrow> string option) option"
  Adapter :: "(string \<Rightarrow> probeErr option) option"
  BackoffBase :: duration
  BackoffMax :: duration
  Jitter :: "(duration \<Rightarrow> duration) option"
  InjectVia :: string
  WakeTimeout :: duration
  ActiveCheckInterval :: duration
  DetachedBackoffBase :: duration
  DetachedBackoffMax :: duration
  rand_int :: "int \<Rightarrow> int option"

record Result =
  Action :: string
  AMQTouched :: bool
  rError :: "string option"

datatype call = Probe string | StartWake StartWakeRequest

definition jitter :: "Reconciler \<Rightarrow> duration \<Rightarrow> duration \<Rightarrow> duration" where
  "jitter r delay maxDelay =
     (case Jitter r of
        Some j \<Rightarrow>
          (let jittered = j delay in
           if jittered < 0 then 0 else if jittered > maxDelay then maxDelay else jittered)
      | None \<Rightarrow>
          (if delay \<le> 0 then delay
           else
             (let window = delay div 5 in
              if window \<le> 0 then delay
              else
                (case rand_int r (window * 2 + 1) of
                   None \<Rightarrow> delay
                 | Some offset \<Rightarrow>
                     (let jittered = delay - window + offset in
                      if jittered < 0 then 0 else if jittered > maxDelay then maxDelay else jittered)))))"

text \<open>The loop of \<^verbatim>\<open>exponentialBackoff\<close>; \<open>None\<close> when it ran to its end with that delay.\<close>

fun doubling :: "nat \<Rightarrow> duration \<Rightarrow> duration \<Rightarrow> duration + duration" where
  "doubling 0 delay maxDelay = Inr delay"
| "doubling (Suc n) delay maxDelay =
     (let d = mul64 delay 2 in if d \<ge> maxDelay then Inl maxDelay else doubling n d maxDelay)"

definition exponentialBackoff :: "Reconciler \<Rightarrow> int \<Rightarrow> duration \<Rightarrow> duration \<Rightarrow> duration" where
  "exponentialBackoff r failureCount base maxDelay =
     (let n = (if failureCount < 1 then 1 else failureCount) in
      case doubling (nat (n - 1)) base maxDelay of
        Inl d \<Rightarrow> d
      | Inr delay \<Rightarrow> if delay > maxDelay then maxDelay else jitter r delay maxDelay)"

definition backoff :: "Reconciler \<Rightarrow> int \<Rightarrow> duration" where
  "backoff r failureCount =
     exponentialBackoff r failureCount
       (if BackoffBase r \<le> 0 then defaultFailureBackoffBase else BackoffBase r)
       (if BackoffMax r \<le> 0 then defaultFailureBackoffMax else BackoffMax r)"

definition detachedBackoff :: "Reconciler \<Rightarrow> int \<Rightarrow> duration" where
  "detachedBackoff r failureCount =
     exponentialBackoff r failureCount
       (if DetachedBackoffBase r \<le> 0 then defaultDetachedBackoffBase else DetachedBackoffBase r)
       (if DetachedBackoffMax r \<le> 0 then defaultDetachedBackoffMax else DetachedBackoffMax r)"

definition activeCheckInterval :: "Reconciler \<Rightarrow> duration" where
  "activeCheckInterval r = (if ActiveCheckInterval r > 0 then ActiveCheckInterval r else defaultActiveCheckInterval)"

definition markBackoff :: "Reconciler \<Rightarrow> Entry \<Rightarrow> time \<Rightarrow> string \<Rightarrow> string \<Rightarrow> bool \<Rightarrow> Entry \<times> Result" where
  "markBackoff r entry now err action amqTouched =
     (let n = wrap64 (FailureCount entry + 1) in
      (entry\<lparr>eState := StateAttached, FailureCount := n, BackoffUntil := now + backoff r n,
         NextHealthCheck := zero_time, DetachedSince := zero_time, LastSupervisorDecision := action,
         LastError := err\<rparr>,
       \<lparr>Action = action, AMQTouched = amqTouched, rError = Some err\<rparr>))"

definition markDetached :: "Reconciler \<Rightarrow> Entry \<Rightarrow> time \<Rightarrow> string \<Rightarrow> Entry \<times> Result" where
  "markDetached r entry now err =
     (let n = wrap64 (FailureCount entry + 1) in
      (entry\<lparr>eState := StateDetached, FailureCount := n, BackoffUntil := now + detachedBackoff r n,
         NextHealthCheck := zero_time,
         DetachedSince := (if IsZero (DetachedSince entry) then now else DetachedSince entry),
         LastError := err, LastSupervisorDecision := ActionDetached\<rparr>,
       \<lparr>Action = ActionDetached, AMQTouched = False, rError = Some err\<rparr>))"

definition markActive :: "Reconciler \<Rightarrow> Entry \<Rightarrow> time \<Rightarrow> string \<Rightarrow> Entry" where
  "markActive r entry now action =
     entry\<lparr>eState := StateActive, LastSeenBySupervisor := now, FailureCount := 0, BackoffUntil := zero_time,
       DetachedSince := zero_time, NextHealthCheck := now + activeCheckInterval r, LastError := [],
       LastSupervisorDecision := action\<rparr>"

text \<open>The readings of \<^verbatim>\<open>ctx.Err()\<close>: on entry, after a failed probe, after a failed start.\<close>

record ctx =
  ctx_entry :: "string option"
  ctx_probe :: "string option"
  ctx_start :: "string option"

definition deferred :: "string option \<Rightarrow> bool \<Rightarrow> Result" where
  "deferred err touched = \<lparr>Action = ActionDeferred, AMQTouched = touched, rError = err\<rparr>"

text \<open>The calls made so far, and either the blocked result or the entry to go on with.\<close>

definition checkLocalReadiness ::
    "Reconciler \<Rightarrow> ctx \<Rightarrow> Entry \<Rightarrow> time \<Rightarrow> call list \<times> (Entry \<times> Result + Entry)" where
  "checkLocalReadiness r c original now =
     (case ctx_entry c of
        Some err \<Rightarrow> ([], Inl (original, deferred (Some err) False))
      | None \<Rightarrow>
          (if \<not> IsZero (NextHealthCheck original) \<and> now < NextHealthCheck original
             then ([], Inl (original, deferred None False))
           else if \<not> IsZero (BackoffUntil original) \<and> now < BackoffUntil original
             then ([], Inl (original, deferred None False))
           else
             (let entry = original\<lparr>LastSeenBySupervisor := now\<rparr> in
              case Adapter r of
                None \<Rightarrow> ([], Inl (markBackoff r entry now ''adapter is not configured'' ActionBackoff False))
              | Some probe \<Rightarrow>
                  ([Probe (eTarget entry)],
                   case probe (eTarget entry) of
                     Some err \<Rightarrow>
                       (case ctx_probe c of
                          Some ctxErr \<Rightarrow> Inl (entry, deferred (Some ctxErr) False)
                        | None \<Rightarrow>
                            (case err of
                               ErrTargetNotFound m \<Rightarrow> Inl (markDetached r entry now m)
                             | ErrTargetDegraded m \<Rightarrow> Inl (original, deferred (Some m) False)
                             | ProbeErr m \<Rightarrow> Inl (markBackoff r entry now m ActionBackoff False)))
                   | None \<Rightarrow>
                       (if Wake r = None
                        then Inl (markBackoff r entry now ''amq runner is not configured'' ActionBackoff False)
                        else Inr entry)))))"

definition ensureWake :: "Reconciler \<Rightarrow> ctx \<Rightarrow> Entry \<Rightarrow> time \<Rightarrow> call list \<times> Entry \<times> Result" where
  "ensureWake r c entry now =
     (let req = \<lparr>swRoot = eRoot entry, swMe = eAgent entry, swInjectVia = InjectVia r, swAdapter = eAdapter entry,
                 swTarget = eTarget entry, swTimeout = WakeTimeout r\<rparr> in
      ([StartWake req],
       case Option.bind (Wake r) (\<lambda>start. start req) of
         None \<Rightarrow> (markActive r entry now ActionEnsured,
                  \<lparr>Action = ActionEnsured, AMQTouched = True, rError = None\<rparr>)
       | Some err \<Rightarrow>
           (case ctx_start c of
              Some ctxErr \<Rightarrow> (entry, deferred (Some (ctxErr @ [CHR 0x0A] @ err)) True)
            | None \<Rightarrow> markBackoff r entry now err ActionStartFailed True)))"

definition Reconcile :: "Reconciler \<Rightarrow> ctx \<Rightarrow> Entry \<Rightarrow> time \<Rightarrow> call list \<times> Entry \<times> Result" where
  "Reconcile r c entry now =
     (case checkLocalReadiness r c entry now of
        (calls, Inl blocked) \<Rightarrow> (calls, blocked)
      | (calls, Inr entry') \<Rightarrow> (case ensureWake r c entry' now of (calls', x) \<Rightarrow> (calls @ calls', x)))"

definition StartFresh :: "Reconciler \<Rightarrow> ctx \<Rightarrow> Entry \<Rightarrow> time \<Rightarrow> call list \<times> Entry \<times> Result" where
  "StartFresh r c entry now =
     (case checkLocalReadiness r c entry now of
        (calls, Inl blocked) \<Rightarrow> (calls, blocked)
      | (calls, Inr entry') \<Rightarrow> (case ensureWake r c entry' now of (calls', x) \<Rightarrow> (calls @ calls', x)))"

section \<open>Backoff\<close>

lemma doubling_bound:
  assumes "0 < d" and "d < 2 ^ 62" and "m < 2 ^ 62"
  shows "case doubling n d m of Inl x \<Rightarrow> x = m \<and> m \<le> d * 2 ^ n | Inr x \<Rightarrow> x = d * 2 ^ n"
  using assms
proof (induction n arbitrary: d)
  case (Suc n)
  have two: "mul64 d 2 = d * 2" using Suc.prems by (intro mul64_small) auto
  show ?case
  proof (cases "d * 2 \<ge> m")
    case True
    have "d * 2 * 1 \<le> d * 2 * 2 ^ n" using Suc.prems by (intro mult_left_mono one_le_power) auto
    then show ?thesis using True two by (simp add: Let_def mult.assoc)
  next
    case False
    then show ?thesis
      using Suc.IH [of "d * 2"] Suc.prems two by (auto simp: Let_def mult.assoc split: sum.splits)
  qed
qed simp

text \<open>The delay before the jitter.\<close>

definition nominal :: "int \<Rightarrow> duration \<Rightarrow> duration \<Rightarrow> duration" where
  "nominal failureCount base maxDelay = min maxDelay (base * 2 ^ nat (max 1 failureCount - 1))"

lemma exponentialBackoff_nominal:
  assumes "0 < base" and "base < 2 ^ 62" and "maxDelay < 2 ^ 62"
  shows "exponentialBackoff r n base maxDelay \<in> {maxDelay, jitter r (nominal n base maxDelay) maxDelay}"
    and "exponentialBackoff r n base maxDelay = maxDelay \<or>
      exponentialBackoff r n base maxDelay = jitter r (nominal n base maxDelay) maxDelay"
    and "exponentialBackoff r n base maxDelay \<noteq> jitter r (nominal n base maxDelay) maxDelay \<Longrightarrow>
      nominal n base maxDelay = maxDelay"
  using doubling_bound [OF assms, of "nat (max 1 n - 1)"]
  by (auto simp: exponentialBackoff_def nominal_def Let_def max_def min_def split: sum.splits if_splits)

lemma jitter_bounds: "0 \<le> delay \<Longrightarrow> delay \<le> m \<Longrightarrow> 0 \<le> jitter r delay m \<and> jitter r delay m \<le> m"
  by (auto simp: jitter_def Let_def split: option.splits)

lemma jitter_window:
  assumes "Jitter r = None" and "\<And>span off. rand_int r span = Some off \<Longrightarrow> 0 \<le> off \<and> off < span"
    and "0 < delay" and "delay \<le> m"
  shows "delay - delay div 5 \<le> jitter r delay m \<and> jitter r delay m \<le> delay + delay div 5"
  using assms by (fastforce simp: jitter_def Let_def split: option.splits)

lemma nominal_bounds: "0 < base \<Longrightarrow> 0 < maxDelay \<Longrightarrow> 0 < nominal n base maxDelay \<and> nominal n base maxDelay \<le> maxDelay"
  by (simp add: nominal_def)

lemma exponentialBackoff_bounds:
  assumes "0 < base" and "base < 2 ^ 62" and "0 < maxDelay" and "maxDelay < 2 ^ 62"
  shows "0 \<le> exponentialBackoff r n base maxDelay \<and> exponentialBackoff r n base maxDelay \<le> maxDelay"
  using exponentialBackoff_nominal(2) [OF assms(1,2,4), of r n] jitter_bounds [of "nominal n base maxDelay" maxDelay r]
    nominal_bounds [OF assms(1,3), of n] assms(3) by auto

text \<open>Configured delays are below half the range of a duration.\<close>

definition config_ok :: "Reconciler \<Rightarrow> bool" where
  "config_ok r \<longleftrightarrow> BackoffBase r < 2 ^ 62 \<and> BackoffMax r < 2 ^ 62 \<and> DetachedBackoffBase r < 2 ^ 62 \<and> DetachedBackoffMax r < 2 ^ 62"

lemmas supervisor_defaults = defaultFailureBackoffBase_def defaultFailureBackoffMax_def defaultDetachedBackoffBase_def
  defaultDetachedBackoffMax_def minute_def hour_def

lemma backoff_bounds:
  assumes "config_ok r"
  shows "0 \<le> backoff r n \<and> backoff r n \<le> (if BackoffMax r \<le> 0 then defaultFailureBackoffMax else BackoffMax r)"
    and "0 \<le> detachedBackoff r n \<and>
      detachedBackoff r n \<le> (if DetachedBackoffMax r \<le> 0 then defaultDetachedBackoffMax else DetachedBackoffMax r)"
  unfolding backoff_def detachedBackoff_def
  by (rule exponentialBackoff_bounds; use assms in \<open>auto simp: config_ok_def supervisor_defaults\<close>)+

section \<open>The entry's invariant\<close>

definition entry_inv :: "Entry \<Rightarrow> bool" where
  "entry_inv e \<longleftrightarrow>
     (eState e = StateActive \<longrightarrow> FailureCount e = 0 \<and> IsZero (BackoffUntil e) \<and> LastError e = []) \<and>
     (eState e = StateDetached \<longleftrightarrow> \<not> IsZero (DetachedSince e)) \<and>
     (\<not> IsZero (NextHealthCheck e) \<longrightarrow> eState e = StateActive)"

lemma entry_inv_seen [simp]: "entry_inv (e\<lparr>LastSeenBySupervisor := t\<rparr>) = entry_inv e"
  by (simp add: entry_inv_def)

lemma entry_inv_mark:
  "entry_inv (fst (markBackoff r e now err action touched))"
  "zero_time < now \<Longrightarrow> entry_inv (fst (markDetached r e now err))"
  "entry_inv (markActive r e now action)"
  by (simp_all add: markBackoff_def markDetached_def markActive_def entry_inv_def IsZero_def Let_def)

lemma checkLocalReadiness_inv:
  assumes "entry_inv e" and "zero_time < now"
  shows "case snd (checkLocalReadiness r c e now) of Inl b \<Rightarrow> entry_inv (fst b) | Inr e' \<Rightarrow> entry_inv e'"
  using assms by (simp add: checkLocalReadiness_def Let_def entry_inv_mark split: option.split probeErr.split)

lemma ensureWake_inv:
  assumes "entry_inv e"
  shows "entry_inv (fst (snd (ensureWake r c e now)))"
  using assms by (simp add: ensureWake_def Let_def entry_inv_mark split: option.split)

lemma Reconcile_inv:
  assumes "entry_inv e" and "zero_time < now" and "Reconcile r c e now = (calls, e', res)"
  shows "entry_inv e'"
proof -
  obtain calls0 x where x: "checkLocalReadiness r c e now = (calls0, x)" by fastforce
  show ?thesis
  proof (cases x)
    case (Inl b)
    then show ?thesis using checkLocalReadiness_inv [OF assms(1,2), of r c] assms(3) x by (auto simp: Reconcile_def)
  next
    case (Inr e1)
    then have "entry_inv e1" using checkLocalReadiness_inv [OF assms(1,2), of r c] x by simp
    then show ?thesis
      using ensureWake_inv [of e1 r c now] assms(3) x Inr by (auto simp: Reconcile_def split: prod.splits)
  qed
qed

lemma StartFresh_eq: "StartFresh r c e now = Reconcile r c e now"
  by (simp add: StartFresh_def Reconcile_def)

inductive supervised :: "Reconciler \<Rightarrow> Entry \<Rightarrow> time \<Rightarrow> (time \<times> call list) list \<Rightarrow> Entry \<Rightarrow> bool" for r e0 t0 where
  start: "supervised r e0 t0 [] e0"
| round: "supervised r e0 t0 log e \<Longrightarrow> t0 < now \<Longrightarrow> Reconcile r c e now = (calls, e', res) \<Longrightarrow>
    supervised r e0 t0 ((now, calls) # log) e'"

lemma supervised_inv:
  assumes "supervised r e0 t0 log e" and "entry_inv e0" and "zero_time \<le> t0"
  shows "entry_inv e"
  using assms
proof (induction rule: supervised.induct)
  case (round log e now c calls e' res)
  then show ?case using Reconcile_inv [of e now r c calls e' res] by simp
qed

section \<open>Guarantees of the supervisor\<close>

text \<open>
  However probes and wake starts end, an entry that starts consistent stays so: an active entry has no
  failures, backoff or error; exactly a detached entry has the time since when it is detached; and only
  an active entry waits for its next health check.
\<close>

lemma supervised_entry_consistent:
  assumes "supervised r e0 t0 log e" and "entry_inv e0" and "zero_time \<le> t0"
  shows "(eState e = StateActive \<longrightarrow> FailureCount e = 0 \<and> IsZero (BackoffUntil e) \<and> LastError e = []) \<and>
     (eState e = StateDetached \<longleftrightarrow> \<not> IsZero (DetachedSince e)) \<and>
     (\<not> IsZero (NextHealthCheck e) \<longrightarrow> eState e = StateActive)"
  using supervised_inv [OF assms] unfolding entry_inv_def .

definition new_entry :: Entry where
  "new_entry = \<lparr>eID = ''1'', eRoot = ''q'', BaseRoot = [], SessionName = [], eAgent = ''a'', eAdapter = ''file'',
     eTarget = ''t'', OwnershipKey = [], eState = StateAttached, LastAttach = 0, LastSeenBySupervisor = zero_time,
     FailureCount = 0, BackoffUntil = zero_time, NextHealthCheck = zero_time, DetachedSince = zero_time,
     LastError = [], LastSupervisorDecision = []\<rparr>"

definition plain_config :: "probeErr option \<Rightarrow> Reconciler" where
  "plain_config err = \<lparr>Wake = Some (\<lambda>_. None), Adapter = Some (\<lambda>_. err), BackoffBase = 0, BackoffMax = 0, Jitter = None,
     InjectVia = [], WakeTimeout = 0, ActiveCheckInterval = 0, DetachedBackoffBase = 0, DetachedBackoffMax = 0,
     rand_int = (\<lambda>span. if 0 < span then Some (span div 2) else None)\<rparr>"

definition no_cancel :: ctx where
  "no_cancel = \<lparr>ctx_entry = None, ctx_probe = None, ctx_start = None\<rparr>"

text \<open>
  The delay after \<open>n\<close> failures in a row is the base doubled \<open>n - 1\<close> times, at most the maximum, moved by
  at most a fifth of itself when no jitter function is configured and the random offsets are in range.
\<close>

lemma backoff_within_a_fifth:
  assumes "config_ok r" and "Jitter r = None"
    and "\<forall>span off. rand_int r span = Some off \<longrightarrow> 0 \<le> off \<and> off < span"
    and "0 < BackoffBase r" and "0 < BackoffMax r"
  shows "\<bar>backoff r n - nominal n (BackoffBase r) (BackoffMax r)\<bar> \<le> nominal n (BackoffBase r) (BackoffMax r) div 5 \<and>
     0 \<le> backoff r n \<and> backoff r n \<le> BackoffMax r"
proof -
  let ?d = "nominal n (BackoffBase r) (BackoffMax r)"
  have d: "0 < ?d" "?d \<le> BackoffMax r" using nominal_bounds [OF assms(4,5)] by auto
  have j: "?d - ?d div 5 \<le> jitter r ?d (BackoffMax r) \<and> jitter r ?d (BackoffMax r) \<le> ?d + ?d div 5"
    using jitter_window [OF assms(2) _ d] assms(3) by blast
  have b: "backoff r n = exponentialBackoff r n (BackoffBase r) (BackoffMax r)" using assms(4,5) by (simp add: backoff_def)
  have "backoff r n = BackoffMax r \<and> ?d = BackoffMax r \<or> backoff r n = jitter r ?d (BackoffMax r)"
    using exponentialBackoff_nominal(2,3) [of "BackoffBase r" "BackoffMax r" r n] assms(1,4) b by (auto simp: config_ok_def)
  then have "\<bar>backoff r n - ?d\<bar> \<le> ?d div 5" using j d(1) by auto
  then show ?thesis using backoff_bounds(1) [OF assms(1), of n] assms(5) by simp
qed



end
