(* ===== verification/Filepath.thy ===== *)
theory Filepath
  imports Amq_Prelude
begin

text \<open>
  The lexical functions of the package \<^verbatim>\<open>path/filepath\<close> on Unix that the registry uses.
\<close>

fun clean_parts :: "bool \<Rightarrow> string list \<Rightarrow> string list \<Rightarrow> string list" where
  "clean_parts rooted out [] = rev out"
| "clean_parts rooted out (c # cs) =
     (if c = [] \<or> c = ''.'' then clean_parts rooted out cs
      else if c = ''..'' then
        (case out of
           [] \<Rightarrow> clean_parts rooted (if rooted then [] else [''..'']) cs
         | x # xs \<Rightarrow> clean_parts rooted (if x = ''..'' then ''..'' # out else xs) cs)
      else clean_parts rooted (c # out) cs)"

definition Clean :: "string \<Rightarrow> string" where
  "Clean p =
     (let rooted = hasPrefix p ''/''; parts = clean_parts rooted [] (splitOn (CHR ''/'') p) in
      if rooted then ''/'' @ join ''/'' parts else if parts = [] then ''.'' else join ''/'' parts)"

definition IsAbs :: "string \<Rightarrow> bool" where "IsAbs p = hasPrefix p ''/''"

definition path_Join :: "string \<Rightarrow> string \<Rightarrow> string" where
  "path_Join a b = (if a = [] then (if b = [] then [] else Clean b) else Clean (a @ ''/'' @ b))"

definition path_Dir :: "string \<Rightarrow> string" where
  "path_Dir p = Clean (rev (dropWhile (\<lambda>c. c \<noteq> CHR ''/'') (rev p)))"

definition path_Base :: "string \<Rightarrow> string" where
  "path_Base p =
     (if p = [] then ''.''
      else let q = trimRight (\<lambda>c. c = CHR ''/'') p in
        if q = [] then ''/'' else rev (takeWhile (\<lambda>c. c \<noteq> CHR ''/'') (rev q)))"

text \<open>\<^verbatim>\<open>filepath.Abs\<close> in a process whose working directory is \<open>wd\<close>, if it is known.\<close>

definition path_Abs :: "goerr + string \<Rightarrow> string \<Rightarrow> goerr + string" where
  "path_Abs wd p = (if IsAbs p then Inr (Clean p) else case wd of Inl e \<Rightarrow> Inl e | Inr d \<Rightarrow> Inr (path_Join d p))"

lemma clean_examples:
  "Clean [] = ''.''" "Clean ''/'' = ''/''" "Clean ''a//b/./c'' = ''a/b/c''" "Clean ''/../a/b/..'' = ''/a''"
  "Clean ''../../a/../..'' = ''../../..''" "path_Dir ''/a/b'' = ''/a''" "path_Base ''/a/b/'' = ''b''" "path_Dir ''a'' = ''.''"
  by code_simp+

end
