(* ===== verification/Registry.thy ===== *)
theory Registry
  imports Supervisor Filepath
begin

text \<open>
  The registry of supervised wakes (\<^verbatim>\<open>internal/keepalive/registry/store.go\<close>): every operation is a
  transaction on the list of entries, under a lock, from one load to at most one atomic save. The outcome
  of taking the lock and of writing the file is an argument; the file itself is what its decoder made of
  it, so the JSON text and the rules for the directory and the lock file are left out. Resolving symbolic
  links, the working directory and SHA-256 are arguments as well. Times are in UTC, where \<^verbatim>\<open>==\<close> compares
  instants.
\<close>

section \<open>Identity of an entry\<close>

record renv =
  getwd :: "goerr + string"
  evalSymlinks :: "string \<Rightarrow> goerr + string"
  tooManyLinks :: "goerr \<Rightarrow> bool"
  sha256_hex :: "string \<Rightarrow> string"

datatype regerr =
    ErrCorrupt regerr
  | ErrTargetOwned string
  | ErrRegistrationOwned string
  | ErrInvalidIdentity string
  | CommittedDurabilityError goerr
  | OSError goerr
  | RegErr string

definition uncertainSymlinkResolution :: "renv \<Rightarrow> goerr \<Rightarrow> bool" where
  "uncertainSymlinkResolution env e \<longleftrightarrow> e = Sys EACCES \<or> e = Sys ELOOP \<or> tooManyLinks env e"

definition CanonicalRoot :: "renv \<Rightarrow> string \<Rightarrow> regerr + string" where
  "CanonicalRoot env root =
     (if trimSpace root = [] then Inl (RegErr ''entry root is required'')
      else case path_Abs (getwd env) (Clean root) of
        Inl e \<Rightarrow> Inl (OSError e)
      | Inr ap \<Rightarrow>
          (case evalSymlinks env ap of
             Inr real \<Rightarrow> Inr real
           | Inl e \<Rightarrow> if uncertainSymlinkResolution env e then Inl (OSError e) else Inr ap))"

definition canonicalRoot :: "renv \<Rightarrow> string \<Rightarrow> string" where
  "canonicalRoot env root = (case CanonicalRoot env root of Inl _ \<Rightarrow> Clean root | Inr c \<Rightarrow> c)"

definition EntryID :: "renv \<Rightarrow> string \<Rightarrow> string \<Rightarrow> string \<Rightarrow> string \<Rightarrow> string" where
  "EntryID env root agent adapterName target =
     sha256_hex env (canonicalRoot env root @ [CHR 0x00] @ agent @ [CHR 0x00] @ adapterName @ [CHR 0x00] @ target)"

definition validateEntryIdentity :: "renv \<Rightarrow> Entry \<Rightarrow> regerr option" where
  "validateEntryIdentity env entry =
     (if eAgent entry = [] \<or> eAdapter entry = [] \<or> eTarget entry = [] then Some (ErrInvalidIdentity (eID entry))
      else case CanonicalRoot env (eRoot entry) of
        Inl _ \<Rightarrow> Some (ErrInvalidIdentity (eID entry))
      | Inr root \<Rightarrow>
          (if eID entry \<noteq> EntryID env root (eAgent entry) (eAdapter entry) (eTarget entry)
           then Some (ErrInvalidIdentity (eID entry)) else None))"

fun validate_entries :: "renv \<Rightarrow> string list \<Rightarrow> Entry list \<Rightarrow> regerr option" where
  "validate_entries env seen [] = None"
| "validate_entries env seen (entry # entries) =
     (case validateEntryIdentity env entry of
        Some e \<Rightarrow> Some e
      | None \<Rightarrow>
          (if eID entry \<in> set seen then Some (ErrInvalidIdentity (eID entry))
           else validate_entries env (eID entry # seen) entries))"

record File =
  SchemaVersion :: int
  Entries :: "Entry list"

definition currentSchema :: int where "currentSchema = 1"

definition validateFileIdentities :: "renv \<Rightarrow> File \<Rightarrow> regerr option" where
  "validateFileIdentities env file = validate_entries env [] (Entries file)"

definition sortEntries :: "Entry list \<Rightarrow> Entry list" where
  "sortEntries entries = sort_key eID entries"

definition canonicalStoredFileTarget :: "renv \<Rightarrow> string \<Rightarrow> string" where
  "canonicalStoredFileTarget env target =
     (case path_Abs (getwd env) (Clean target) of
        Inl _ \<Rightarrow> Clean target
      | Inr ap \<Rightarrow>
          (case evalSymlinks env ap of
             Inr resolved \<Rightarrow> Clean resolved
           | Inl _ \<Rightarrow>
               (case evalSymlinks env (path_Dir ap) of
                  Inr parent \<Rightarrow> path_Join (Clean parent) (path_Base ap)
                | Inl _ \<Rightarrow> ap)))"

definition canonicalStoredTarget :: "renv \<Rightarrow> string \<Rightarrow> string \<Rightarrow> string" where
  "canonicalStoredTarget env adapterName raw =
     (let target = trimSpace raw in
      if adapterName = ''cmux'' \<or> adapterName = ''ghostty'' then toLower target
      else if adapterName = ''file'' then canonicalStoredFileTarget env target
      else target)"

definition sameRootAgent :: "renv \<Rightarrow> Entry \<Rightarrow> Entry \<Rightarrow> bool" where
  "sameRootAgent env left right =
     (if eAgent left \<noteq> eAgent right then False
      else case (CanonicalRoot env (eRoot left), CanonicalRoot env (eRoot right)) of
        (Inr l, Inr r) \<Rightarrow> l = r
      | _ \<Rightarrow> False)"

definition same_target :: "renv \<Rightarrow> Entry \<Rightarrow> Entry \<Rightarrow> bool" where
  "same_target env left right \<longleftrightarrow> eAdapter left = eAdapter right \<and>
     canonicalStoredTarget env (eAdapter left) (eTarget left) = canonicalStoredTarget env (eAdapter right) (eTarget right)"

definition sameRegistration :: "renv \<Rightarrow> Entry \<Rightarrow> Entry \<Rightarrow> bool" where
  "sameRegistration env left right \<longleftrightarrow> sameRootAgent env left right \<and> same_target env left right"

definition sameEntryIdentity :: "Entry \<Rightarrow> Entry \<Rightarrow> bool" where
  "sameEntryIdentity left right \<longleftrightarrow> eID left = eID right \<and> eRoot left = eRoot right \<and> eAgent left = eAgent right \<and>
     eAdapter left = eAdapter right \<and> eTarget left = eTarget right"

definition conflictingTargetOwner :: "renv \<Rightarrow> Entry list \<Rightarrow> Entry \<Rightarrow> bool \<Rightarrow> Entry option" where
  "conflictingTargetOwner env entries candidate ignoreSameRootAgent =
     find (\<lambda>existing. eID existing \<noteq> eID candidate \<and> \<not> (ignoreSameRootAgent \<and> sameRootAgent env existing candidate) \<and>
       same_target env existing candidate) entries"

definition conflictingRegistrationOwner :: "renv \<Rightarrow> Entry list \<Rightarrow> Entry \<Rightarrow> Entry option" where
  "conflictingRegistrationOwner env entries candidate =
     find (\<lambda>existing. eID existing \<noteq> eID candidate \<and> sameRootAgent env existing candidate) entries"

definition prepareEntry :: "renv \<Rightarrow> time \<Rightarrow> Entry \<Rightarrow> regerr + Entry" where
  "prepareEntry env now entry =
     (case CanonicalRoot env (eRoot entry) of
        Inl e \<Rightarrow> Inl e
      | Inr root \<Rightarrow>
          (let wantID = EntryID env root (eAgent entry) (eAdapter entry) (eTarget entry) in
           if eAgent entry = [] then Inl (RegErr ''entry agent is required'')
           else if eAdapter entry = [] then Inl (RegErr ''entry adapter is required'')
           else if eTarget entry = [] then Inl (RegErr ''entry target is required'')
           else if eID entry \<noteq> [] \<and> eID entry \<noteq> wantID then Inl (ErrInvalidIdentity (eID entry))
           else Inr (entry\<lparr>eRoot := root, eID := wantID,
                  eState := (if eState entry = [] then StateAttached else eState entry),
                  LastAttach := (if IsZero (LastAttach entry) then now else LastAttach entry)\<rparr>)))"

section \<open>Transactions\<close>

datatype content = Absent | Unreadable goerr | Corrupt | Decoded File

text \<open>The errors that the system calls of a transaction return, if any: taking the lock, the calls of a save up
  to its rename, and the two calls that make the renamed file durable.\<close>

record regio =
  lockErr :: "goerr option"
  createErr :: "goerr option"
  tmpChmodErr :: "goerr option"
  encodeErr :: "goerr option"
  tmpSyncErr :: "goerr option"
  closeErr :: "goerr option"
  renameErr :: "goerr option"
  finalChmodErr :: "goerr option"
  dirSyncErr :: "goerr option"

definition no_faults :: regio where
  "no_faults = \<lparr>lockErr = None, createErr = None, tmpChmodErr = None, encodeErr = None, tmpSyncErr = None,
     closeErr = None, renameErr = None, finalChmodErr = None, dirSyncErr = None\<rparr>"

fun first_error :: "goerr option list \<Rightarrow> goerr option" where
  "first_error [] = None"
| "first_error (None # es) = first_error es"
| "first_error (Some e # es) = Some e"

definition finishCommittedRegistryFile :: "regio \<Rightarrow> regerr option" where
  "finishCommittedRegistryFile io = map_option CommittedDurabilityError (first_error [finalChmodErr io, dirSyncErr io])"

definition loadUnlocked :: "renv \<Rightarrow> content \<Rightarrow> regerr + File" where
  "loadUnlocked env c =
     (case c of
        Absent \<Rightarrow> Inr \<lparr>SchemaVersion = currentSchema, Entries = []\<rparr>
      | Unreadable e \<Rightarrow> Inl (OSError e)
      | Corrupt \<Rightarrow> Inl (ErrCorrupt (RegErr ''json''))
      | Decoded f \<Rightarrow>
          (let file = (if SchemaVersion f = 0 then f\<lparr>SchemaVersion := currentSchema\<rparr> else f) in
           if SchemaVersion file \<noteq> currentSchema then Inl (RegErr ''unsupported registry schema version'')
           else case validateFileIdentities env file of
             Some e \<Rightarrow> Inl (ErrCorrupt e)
           | None \<Rightarrow> Inr (file\<lparr>Entries := sortEntries (Entries file)\<rparr>)))"

definition saveUnlocked :: "renv \<Rightarrow> regio \<Rightarrow> File \<Rightarrow> content \<Rightarrow> regerr option \<times> content" where
  "saveUnlocked env io f c =
     (let file = f\<lparr>SchemaVersion := currentSchema\<rparr> in
      case validateFileIdentities env file of
        Some e \<Rightarrow> (Some e, c)
      | None \<Rightarrow>
          (case first_error [createErr io, tmpChmodErr io, encodeErr io, tmpSyncErr io, closeErr io, renameErr io] of
             Some e \<Rightarrow> (Some (OSError e), c)
           | None \<Rightarrow> (finishCommittedRegistryFile io, Decoded (file\<lparr>Entries := sortEntries (Entries file)\<rparr>))))"

text \<open>\<^verbatim>\<open>withLock\<close> around a load and a body, which ends in an error, in no change or in a save.\<close>

definition transact :: "renv \<Rightarrow> regio \<Rightarrow> (File \<Rightarrow> regerr + File option) \<Rightarrow> content \<Rightarrow> regerr option \<times> content" where
  "transact env io body c =
     (case lockErr io of
        Some e \<Rightarrow> (Some (OSError e), c)
      | None \<Rightarrow>
          (case loadUnlocked env c of
             Inl e \<Rightarrow> (Some e, c)
           | Inr file \<Rightarrow>
               (case body file of
                  Inl e \<Rightarrow> (Some e, c)
                | Inr None \<Rightarrow> (None, c)
                | Inr (Some file') \<Rightarrow> saveUnlocked env io file' c)))"

definition Load :: "renv \<Rightarrow> regio \<Rightarrow> content \<Rightarrow> regerr + File" where
  "Load env io c = (case lockErr io of Some e \<Rightarrow> Inl (OSError e) | None \<Rightarrow> loadUnlocked env c)"

definition Save :: "renv \<Rightarrow> regio \<Rightarrow> File \<Rightarrow> content \<Rightarrow> regerr option \<times> content" where
  "Save env io file c =
     (case lockErr io of Some e \<Rightarrow> (Some (OSError e), c) | None \<Rightarrow> saveUnlocked env io file c)"

section \<open>Operations\<close>

text \<open>The first entry with the identifier, replaced.\<close>

fun replace_entry :: "string \<Rightarrow> Entry \<Rightarrow> Entry list \<Rightarrow> Entry list" where
  "replace_entry i new [] = []"
| "replace_entry i new (e # es) = (if eID e = i then new # es else e # replace_entry i new es)"

definition upsert_body :: "renv \<Rightarrow> Entry \<Rightarrow> File \<Rightarrow> regerr + File option" where
  "upsert_body env prepared file =
     (case conflictingRegistrationOwner env (Entries file) prepared of
        Some owner \<Rightarrow>
          (if sameRegistration env owner prepared
           then Inr (Some (file\<lparr>Entries := replace_entry (eID owner) prepared (Entries file)\<rparr>))
           else Inl (ErrRegistrationOwned (eID owner)))
      | None \<Rightarrow>
          (case conflictingTargetOwner env (Entries file) prepared False of
             Some owner \<Rightarrow> Inl (ErrTargetOwned (eID owner))
           | None \<Rightarrow>
               Inr (Some (file\<lparr>Entries :=
                 (if eID prepared \<in> set (map eID (Entries file)) then replace_entry (eID prepared) prepared (Entries file)
                  else Entries file @ [prepared])\<rparr>))))"

definition Upsert :: "renv \<Rightarrow> time \<Rightarrow> regio \<Rightarrow> Entry \<Rightarrow> content \<Rightarrow> (Entry option \<times> regerr option) \<times> content" where
  "Upsert env now io entry c =
     (case prepareEntry env now entry of
        Inl e \<Rightarrow> ((None, Some e), c)
      | Inr prepared \<Rightarrow> (let (err, c') = transact env io (upsert_body env prepared) c in ((Some prepared, err), c')))"

definition replace_body :: "renv \<Rightarrow> Entry \<Rightarrow> File \<Rightarrow> regerr + File option" where
  "replace_body env prepared file =
     (case conflictingTargetOwner env (Entries file) prepared True of
        Some owner \<Rightarrow> Inl (ErrTargetOwned (eID owner))
      | None \<Rightarrow> Inr (Some (file\<lparr>Entries := filter (\<lambda>e. \<not> sameRootAgent env e prepared) (Entries file) @ [prepared]\<rparr>)))"

text \<open>The entries that \<^verbatim>\<open>ReplaceSessionAdapter\<close> collects before it saves.\<close>

definition removed_entries :: "renv \<Rightarrow> regio \<Rightarrow> Entry \<Rightarrow> content \<Rightarrow> Entry list" where
  "removed_entries env io prepared c =
     (case Load env io c of
        Inl _ \<Rightarrow> []
      | Inr file \<Rightarrow>
          (if conflictingTargetOwner env (Entries file) prepared True \<noteq> None then []
           else filter (\<lambda>e. sameRootAgent env e prepared) (Entries file)))"

definition ReplaceSessionAdapter ::
    "renv \<Rightarrow> time \<Rightarrow> regio \<Rightarrow> Entry \<Rightarrow> content \<Rightarrow> (Entry option \<times> Entry list \<times> regerr option) \<times> content" where
  "ReplaceSessionAdapter env now io entry c =
     (case prepareEntry env now entry of
        Inl e \<Rightarrow> ((None, [], Some e), c)
      | Inr prepared \<Rightarrow>
          (let (err, c') = transact env io (replace_body env prepared) c in
           ((Some prepared, removed_entries env io prepared c, err), c')))"

text \<open>The scan of \<^verbatim>\<open>RestoreSessionAdapterIfUnchanged\<close>: \<open>None\<close> when another change won.\<close>

fun restore_scan :: "renv \<Rightarrow> Entry \<Rightarrow> nat \<Rightarrow> nat option \<Rightarrow> Entry list \<Rightarrow> nat option" where
  "restore_scan env expected i index [] = index"
| "restore_scan env expected i index (entry # entries) =
     (if sameRootAgent env entry expected \<and> eID entry \<noteq> eID expected then None
      else if eID entry = eID expected then
        (if entry \<noteq> expected then None else restore_scan env expected (Suc i) (Some i) entries)
      else restore_scan env expected (Suc i) index entries)"

definition restore_body :: "renv \<Rightarrow> Entry \<Rightarrow> Entry list \<Rightarrow> File \<Rightarrow> regerr + File option" where
  "restore_body env expected previous file =
     (case restore_scan env expected 0 None (Entries file) of
        None \<Rightarrow> Inr None
      | Some i \<Rightarrow> Inr (Some (file\<lparr>Entries := take i (Entries file) @ drop (Suc i) (Entries file) @ previous\<rparr>)))"

definition RestoreSessionAdapterIfUnchanged ::
    "renv \<Rightarrow> regio \<Rightarrow> Entry \<Rightarrow> Entry list \<Rightarrow> content \<Rightarrow> (bool \<times> regerr option) \<times> content" where
  "RestoreSessionAdapterIfUnchanged env io expected previous c =
     (if eID expected = [] then ((False, Some (RegErr ''expected reservation id is required'')), c)
      else
        (let (err, c') = transact env io (restore_body env expected previous) c;
             found = (case Load env io c of Inl _ \<Rightarrow> False | Inr file \<Rightarrow> restore_scan env expected 0 None (Entries file) \<noteq> None) in
         ((found \<and> err = None, err), c')))"

definition check_body :: "renv \<Rightarrow> Entry \<Rightarrow> bool \<Rightarrow> File \<Rightarrow> regerr + File option" where
  "check_body env prepared ignoreSameRootAgent file =
     (case conflictingTargetOwner env (Entries file) prepared ignoreSameRootAgent of
        Some owner \<Rightarrow> Inl (ErrTargetOwned (eID owner))
      | None \<Rightarrow> Inr None)"

definition CheckTargetAvailable ::
    "renv \<Rightarrow> time \<Rightarrow> regio \<Rightarrow> Entry \<Rightarrow> bool \<Rightarrow> content \<Rightarrow> regerr option \<times> content" where
  "CheckTargetAvailable env now io entry ignoreSameRootAgent c =
     (case prepareEntry env now entry of
        Inl e \<Rightarrow> (Some e, c)
      | Inr prepared \<Rightarrow> transact env io (check_body env prepared ignoreSameRootAgent) c)"

definition update_body :: "renv \<Rightarrow> Entry \<Rightarrow> File \<Rightarrow> regerr + File option" where
  "update_body env entry file =
     (case find (\<lambda>e. eID e = eID entry) (Entries file) of
        None \<Rightarrow> Inl (RegErr ''registry entry not found'')
      | Some old \<Rightarrow>
          (case validateEntryIdentity env entry of
             Some e \<Rightarrow> Inl e
           | None \<Rightarrow>
               (if \<not> sameEntryIdentity old entry then Inl (ErrInvalidIdentity (eID entry))
                else Inr (Some (file\<lparr>Entries := replace_entry (eID entry) entry (Entries file)\<rparr>)))))"

definition UpdateEntry :: "renv \<Rightarrow> regio \<Rightarrow> Entry \<Rightarrow> content \<Rightarrow> regerr option \<times> content" where
  "UpdateEntry env io entry c = transact env io (update_body env entry) c"

record EntryUpdate =
  Before :: Entry
  After :: Entry

record UpdateResult =
  Updated :: nat
  Skipped :: nat

fun check_updates :: "string list \<Rightarrow> EntryUpdate list \<Rightarrow> regerr option" where
  "check_updates seen [] = None"
| "check_updates seen (u # us) =
     (if eID (Before u) = [] \<or> eID (After u) = [] then Some (RegErr ''batch update entry id is required'')
      else if eID (Before u) \<noteq> eID (After u) then Some (RegErr ''batch update changes entry id'')
      else if \<not> sameEntryIdentity (Before u) (After u) then Some (ErrInvalidIdentity (eID (Before u)))
      else if eID (Before u) \<in> set seen then Some (RegErr ''batch update contains duplicate entry'')
      else check_updates (eID (Before u) # seen) us)"

text \<open>The loop of compare-and-swap; an entry is found by its identifier, which is unique in a loaded file.\<close>

fun apply_updates :: "EntryUpdate list \<Rightarrow> Entry list \<Rightarrow> UpdateResult \<Rightarrow> (regerr + Entry list) \<times> UpdateResult" where
  "apply_updates [] entries r = (Inr entries, r)"
| "apply_updates (u # us) entries r =
     (case find (\<lambda>e. eID e = eID (Before u)) entries of
        None \<Rightarrow> apply_updates us entries (r\<lparr>Skipped := Suc (Skipped r)\<rparr>)
      | Some old \<Rightarrow>
          (if old \<noteq> Before u then apply_updates us entries (r\<lparr>Skipped := Suc (Skipped r)\<rparr>)
           else if Before u = After u then apply_updates us entries r
           else if \<not> sameEntryIdentity old (After u) then (Inl (ErrInvalidIdentity (eID (After u))), r)
           else apply_updates us (replace_entry (eID (Before u)) (After u) entries) (r\<lparr>Updated := Suc (Updated r)\<rparr>)))"

definition no_updates :: UpdateResult where "no_updates = \<lparr>Updated = 0, Skipped = 0\<rparr>"

definition updates_body :: "EntryUpdate list \<Rightarrow> File \<Rightarrow> regerr + File option" where
  "updates_body updates file =
     (case apply_updates updates (Entries file) no_updates of
        (Inl e, _) \<Rightarrow> Inl e
      | (Inr es, r) \<Rightarrow> Inr (if Updated r = 0 then None else Some (file\<lparr>Entries := es\<rparr>)))"

definition UpdateEntries :: "renv \<Rightarrow> regio \<Rightarrow> EntryUpdate list \<Rightarrow> content \<Rightarrow> (UpdateResult \<times> regerr option) \<times> content" where
  "UpdateEntries env io updates c =
     (case check_updates [] updates of
        Some e \<Rightarrow> ((no_updates, Some e), c)
      | None \<Rightarrow>
          (if updates = [] then ((no_updates, None), c)
           else
             (let (err, c') = transact env io (updates_body updates) c;
                  r = (case Load env io c of
                         Inl _ \<Rightarrow> no_updates | Inr file \<Rightarrow> snd (apply_updates updates (Entries file) no_updates)) in
              ((r, err), c'))))"

definition forget_one_body :: "Entry \<Rightarrow> File \<Rightarrow> regerr + File option" where
  "forget_one_body expected file =
     (case find (\<lambda>e. eID e = eID expected) (Entries file) of
        None \<Rightarrow> Inr None
      | Some e \<Rightarrow> (if e \<noteq> expected then Inr None else Inr (Some (file\<lparr>Entries := remove1 e (Entries file)\<rparr>))))"

definition ForgetIfUnchanged :: "renv \<Rightarrow> regio \<Rightarrow> Entry \<Rightarrow> content \<Rightarrow> (bool \<times> regerr option) \<times> content" where
  "ForgetIfUnchanged env io expected c =
     (if eID expected = [] then ((False, Some (RegErr ''expected entry id is required'')), c)
      else
        (let (err, c') = transact env io (forget_one_body expected) c;
             removed = (case Load env io c of Inl _ \<Rightarrow> False | Inr file \<Rightarrow> find (\<lambda>e. eID e = eID expected) (Entries file) = Some expected) in
         ((removed, err), c')))"

definition forget_body :: "string list \<Rightarrow> File \<Rightarrow> regerr + File option" where
  "forget_body wanted file =
     (if length (filter (\<lambda>e. eID e \<in> set wanted) (Entries file)) \<noteq> length wanted
      then Inl (RegErr ''not every registry entry requested for removal was found'')
      else Inr (Some (file\<lparr>Entries := filter (\<lambda>e. eID e \<notin> set wanted) (Entries file)\<rparr>)))"

definition ForgetMany :: "renv \<Rightarrow> regio \<Rightarrow> string list \<Rightarrow> content \<Rightarrow> (nat \<times> regerr option) \<times> content" where
  "ForgetMany env io ids c =
     (let wanted = remdups (filter (\<lambda>i. i \<noteq> []) ids);
          (err, c') = transact env io (forget_body wanted) c;
          removed = (case Load env io c of Inl _ \<Rightarrow> 0 | Inr file \<Rightarrow>
            (if length (filter (\<lambda>e. eID e \<in> set wanted) (Entries file)) \<noteq> length wanted then 0 else length wanted)) in
      ((removed, err), c'))"

definition Forget :: "renv \<Rightarrow> regio \<Rightarrow> string \<Rightarrow> content \<Rightarrow> (bool \<times> regerr option) \<times> content" where
  "Forget env io i c = (let ((removed, err), c') = ForgetMany env io [i] c in ((removed = 1, err), c'))"

end
