(* ===== verification/Registry_Safety.thy ===== *)
theory Registry_Safety
  imports Registry
begin

text \<open>
  What the registry keeps over any sequence of operations, and what rolling a reattach back restores.
\<close>

section \<open>Valid lists of entries\<close>

definition valid_entries :: "renv \<Rightarrow> Entry list \<Rightarrow> bool" where
  "valid_entries env es \<longleftrightarrow> (\<forall>e \<in> set es. validateEntryIdentity env e = None) \<and> distinct (map eID es)"

definition owned_once :: "renv \<Rightarrow> Entry list \<Rightarrow> bool" where
  "owned_once env es \<longleftrightarrow>
     (\<forall>a \<in> set es. \<forall>b \<in> set es. eID a \<noteq> eID b \<longrightarrow> \<not> sameRootAgent env a b \<and> \<not> same_target env a b)"

lemma validate_entries_iff:
  "validate_entries env seen es = None \<longleftrightarrow> valid_entries env es \<and> set (map eID es) \<inter> set seen = {}"
  by (induction es arbitrary: seen) (auto simp: valid_entries_def split: option.splits)

lemma validateFileIdentities_iff [simp]: "validateFileIdentities env f = None \<longleftrightarrow> valid_entries env (Entries f)"
  by (simp add: validateFileIdentities_def validate_entries_iff)

lemma set_sortEntries [simp]: "set (sortEntries es) = set es"
  by (simp add: sortEntries_def)

lemma distinct_sortEntries [simp]: "distinct (map eID (sortEntries es)) \<longleftrightarrow> distinct (map eID es)"
  by (simp add: sortEntries_def distinct_map)

lemma sortEntries_idem [simp]: "sortEntries (sortEntries es) = sortEntries es"
  by (simp add: sortEntries_def sort_key_id_if_sorted)

lemma valid_sortEntries [simp]: "valid_entries env (sortEntries es) \<longleftrightarrow> valid_entries env es"
  by (simp add: valid_entries_def)

lemma owned_sortEntries [simp]: "owned_once env (sortEntries es) \<longleftrightarrow> owned_once env es"
  by (simp add: owned_once_def)

text \<open>Sorting gives one result for all the orders of a list with distinct identifiers.\<close>

lemma sortEntries_unique:
  assumes "set xs = set ys" "distinct (map eID xs)" "distinct (map eID ys)"
  shows "sortEntries xs = sortEntries ys"
proof (rule map_sorted_distinct_set_unique [where f = eID])
  show "inj_on eID (set (sortEntries xs) \<union> set (sortEntries ys))"
    using assms by (simp add: distinct_map)
qed (use assms in \<open>simp_all add: sortEntries_def distinct_sortEntries [unfolded sortEntries_def]\<close>)

section \<open>Loading and saving\<close>

lemma loadUnlocked_Inr:
  assumes "loadUnlocked env c = Inr f"
  shows "SchemaVersion f = currentSchema \<and> valid_entries env (Entries f) \<and> sortEntries (Entries f) = Entries f"
proof (cases c)
  case Absent
  with assms show ?thesis by (auto simp: loadUnlocked_def valid_entries_def sortEntries_def)
next
  case (Decoded g)
  with assms show ?thesis
    by (auto simp: loadUnlocked_def Let_def split: if_splits option.splits)
qed (use assms in \<open>simp_all add: loadUnlocked_def\<close>)

lemma loadUnlocked_saved:
  assumes "valid_entries env es"
  shows "loadUnlocked env (Decoded \<lparr>SchemaVersion = currentSchema, Entries = sortEntries es\<rparr>) =
    Inr \<lparr>SchemaVersion = currentSchema, Entries = sortEntries es\<rparr>"
  using assms by (auto simp: loadUnlocked_def currentSchema_def Let_def split: option.splits)

lemma file_eq: "SchemaVersion f = currentSchema \<Longrightarrow> f\<lparr>Entries := es\<rparr> = \<lparr>SchemaVersion = currentSchema, Entries = es\<rparr>"
  by (cases f) simp

text \<open>What a transaction can do to the registry: nothing, or commit the body's list, checked and sorted.\<close>

lemma transact_cases:
  assumes "transact env io body c = (err, c')"
  obtains (kept) "c' = c"
  | (committed) f f' where "loadUnlocked env c = Inr f" "body f = Inr (Some f')" "valid_entries env (Entries f')"
      "loadUnlocked env c' = Inr \<lparr>SchemaVersion = currentSchema, Entries = sortEntries (Entries f')\<rparr>"
proof -
  have save: "loadUnlocked env c2 = Inr \<lparr>SchemaVersion = currentSchema, Entries = sortEntries (Entries f')\<rparr>"
    if "saveUnlocked env io f' c = (e2, c2)" "c2 \<noteq> c" and "valid_entries env (Entries f')" for f' e2 c2
    using that by (auto simp: saveUnlocked_def Let_def file_eq loadUnlocked_saved split: option.splits)
  show thesis
  proof (cases "c' = c")
    case False
    then obtain f f' where fs: "loadUnlocked env c = Inr f" "body f = Inr (Some f')"
        "saveUnlocked env io f' c = (err, c')"
      using assms by (auto simp: transact_def split: option.splits sum.splits)
    moreover have "valid_entries env (Entries f')"
    proof (rule ccontr)
      assume "\<not> valid_entries env (Entries f')"
      then have "validateFileIdentities env (f'\<lparr>SchemaVersion := currentSchema\<rparr>) \<noteq> None" by simp
      with fs(3) False show False by (auto simp: saveUnlocked_def Let_def split: option.splits)
    qed
    ultimately show thesis using committed save [OF fs(3) False] by blast
  qed (rule kept)
qed

lemma transact_None:
  assumes "transact env io body c = (None, c')"
  obtains (unchanged) f where "loadUnlocked env c = Inr f" "body f = Inr None" "c' = c"
  | (saved) f f' where "loadUnlocked env c = Inr f" "body f = Inr (Some f')" "valid_entries env (Entries f')"
      "loadUnlocked env c' = Inr \<lparr>SchemaVersion = currentSchema, Entries = sortEntries (Entries f')\<rparr>"
proof -
  obtain f b where f: "loadUnlocked env c = Inr f" "body f = Inr b"
      "b = None \<and> c' = c \<or> (\<exists>f'. b = Some f' \<and> saveUnlocked env io f' c = (None, c'))"
    using assms by (auto simp: transact_def split: option.splits sum.splits)
  show thesis
  proof (cases b)
    case (Some f')
    with f have s: "saveUnlocked env io f' c = (None, c')" by simp
    then have v: "valid_entries env (Entries f')" by (auto simp: saveUnlocked_def Let_def split: option.splits)
    with s have "c' = Decoded \<lparr>SchemaVersion = currentSchema, Entries = sortEntries (Entries f')\<rparr>"
      by (cases f') (auto simp: saveUnlocked_def Let_def split: option.splits)
    with saved f Some v loadUnlocked_saved [OF v] show thesis by simp
  qed (use f unchanged in simp)
qed

section \<open>Ownership\<close>

definition registry_good :: "renv \<Rightarrow> content \<Rightarrow> bool" where
  "registry_good env c \<longleftrightarrow> (\<exists>f. loadUnlocked env c = Inr f \<and> valid_entries env (Entries f) \<and> owned_once env (Entries f))"

definition same_identities :: "Entry list \<Rightarrow> Entry list \<Rightarrow> bool" where
  "same_identities es es' \<longleftrightarrow> (\<forall>e \<in> set es'. \<exists>d \<in> set es. sameEntryIdentity d e)"

lemma sameRootAgent_iff:
  "sameRootAgent env a b \<longleftrightarrow>
     eAgent a = eAgent b \<and> (\<exists>r. CanonicalRoot env (eRoot a) = Inr r \<and> CanonicalRoot env (eRoot b) = Inr r)"
  by (cases "CanonicalRoot env (eRoot a)"; cases "CanonicalRoot env (eRoot b)") (auto simp: sameRootAgent_def)

lemma sameRootAgent_sym: "sameRootAgent env a b \<Longrightarrow> sameRootAgent env b a"
  by (auto simp: sameRootAgent_iff)

lemma sameRootAgent_trans: "sameRootAgent env a b \<Longrightarrow> sameRootAgent env b c \<Longrightarrow> sameRootAgent env a c"
  by (auto simp: sameRootAgent_iff)

lemma same_target_sym: "same_target env a b \<Longrightarrow> same_target env b a"
  by (auto simp: same_target_def)

lemma same_target_trans: "same_target env a b \<Longrightarrow> same_target env b c \<Longrightarrow> same_target env a c"
  by (auto simp: same_target_def)

lemma sameEntryIdentity_ownership:
  assumes "sameEntryIdentity a a'" "sameEntryIdentity b b'"
  shows "eID a = eID a'" "sameRootAgent env a b \<longleftrightarrow> sameRootAgent env a' b'" "same_target env a b \<longleftrightarrow> same_target env a' b'"
  using assms by (simp_all add: sameEntryIdentity_def sameRootAgent_def same_target_def)

lemma sameEntryIdentity_refl [simp]: "sameEntryIdentity a a"
  by (simp add: sameEntryIdentity_def)

lemma sameEntryIdentity_trans: "sameEntryIdentity a b \<Longrightarrow> sameEntryIdentity b c \<Longrightarrow> sameEntryIdentity a c"
  by (simp add: sameEntryIdentity_def)

lemma same_identities_subset [intro]: "set es' \<subseteq> set es \<Longrightarrow> same_identities es es'"
  unfolding same_identities_def using sameEntryIdentity_refl by blast

lemma same_identities_trans: "same_identities a b \<Longrightarrow> same_identities b c \<Longrightarrow> same_identities a c"
  unfolding same_identities_def by (meson sameEntryIdentity_trans)

lemma owned_once_same_identities:
  assumes "owned_once env es" "same_identities es es'"
  shows "owned_once env es'"
  unfolding owned_once_def
proof (intro ballI impI)
  fix a b assume ab: "a \<in> set es'" "b \<in> set es'" "eID a \<noteq> eID b"
  then obtain a' b' where "a' \<in> set es" "b' \<in> set es" "sameEntryIdentity a' a" "sameEntryIdentity b' b"
    using assms(2) by (meson same_identities_def)
  note d = this
  then have "eID a' \<noteq> eID b'" using ab(3) by (simp add: sameEntryIdentity_def)
  with assms(1) d have "\<not> sameRootAgent env a' b' \<and> \<not> same_target env a' b'" by (simp add: owned_once_def)
  then show "\<not> sameRootAgent env a b \<and> \<not> same_target env a b"
    using sameEntryIdentity_ownership(2,3) [OF d(3,4)] by simp
qed

text \<open>A new entry beside entries that do not conflict with it.\<close>

lemma owned_once_insert:
  assumes "owned_once env es" "set es' \<subseteq> insert p (set es)"
    and "\<And>e. e \<in> set es' \<Longrightarrow> eID e \<noteq> eID p \<Longrightarrow> \<not> sameRootAgent env e p \<and> \<not> same_target env e p"
  shows "owned_once env es'"
  unfolding owned_once_def
proof (intro ballI impI)
  fix a b assume ab: "a \<in> set es'" "b \<in> set es'" "eID a \<noteq> eID b"
  then consider "a = p" | "b = p" | "a \<in> set es" "b \<in> set es" using assms(2) by blast
  then show "\<not> sameRootAgent env a b \<and> \<not> same_target env a b"
  proof cases
    case 1
    with ab assms(3) [of b] show ?thesis by (metis sameRootAgent_sym same_target_sym)
  next
    case 2
    with ab assms(3) [of a] show ?thesis by metis
  next
    case 3
    with ab assms(1) show ?thesis by (simp add: owned_once_def)
  qed
qed

section \<open>Bodies of transactions\<close>

text \<open>A body that keeps ownership unique when what it writes passes the check of a save.\<close>

locale owned_body =
  fixes env :: renv
    and body :: "File \<Rightarrow> regerr + File option"
  assumes keeps: "valid_entries env (Entries f) \<Longrightarrow> owned_once env (Entries f) \<Longrightarrow> body f = Inr (Some f') \<Longrightarrow>
    valid_entries env (Entries f') \<Longrightarrow> owned_once env (Entries f')"
begin

lemma transact_keeps:
  assumes "registry_good env c"
  shows "registry_good env (snd (transact env io body c))"
proof -
  obtain err c' where t: "transact env io body c = (err, c')" by fastforce
  from t show ?thesis
  proof (cases rule: transact_cases)
    case kept
    with assms t show ?thesis by simp
  next
    case (committed f f')
    have "owned_once env (Entries f)" using assms committed(1) by (auto simp: registry_good_def)
    then have "owned_once env (Entries f')"
      using keeps committed loadUnlocked_Inr [OF committed(1)] by blast
    with committed t show ?thesis by (simp add: registry_good_def)
  qed
qed

end

text \<open>A body that adds no identity: it removes entries, or changes what is not part of an identity.\<close>

locale maintenance_body =
  fixes body :: "File \<Rightarrow> regerr + File option"
  assumes identities: "distinct (map eID (Entries f)) \<Longrightarrow> body f = Inr (Some f') \<Longrightarrow> same_identities (Entries f) (Entries f')"
begin

lemma owned: "owned_body env body"
  by unfold_locales (meson identities owned_once_same_identities valid_entries_def)

lemma transact_identities:
  assumes "loadUnlocked env c = Inr f"
  obtains f' where "loadUnlocked env (snd (transact env io body c)) = Inr f'" "same_identities (Entries f) (Entries f')"
proof -
  obtain err c' where t: "transact env io body c = (err, c')" by fastforce
  from t show thesis
  proof (cases rule: transact_cases)
    case kept
    with assms t that [of f] show ?thesis by (simp add: same_identities_subset)
  next
    case (committed g g')
    then have "same_identities (Entries g) (Entries g')"
      using identities loadUnlocked_Inr [OF committed(1)] by (auto simp: valid_entries_def)
    then have "same_identities (Entries g) (sortEntries (Entries g'))" by (simp add: same_identities_def)
    with committed assms t that show ?thesis by simp
  qed
qed

end

lemma set_replace_entry:
  assumes "distinct (map eID es)"
  shows "set (replace_entry i p es) = (if i \<in> eID ` set es then insert p {e \<in> set es. eID e \<noteq> i} else set es)"
  using assms by (induction es) (auto simp: image_iff)

lemma find_same: "find P xs = Some x \<Longrightarrow> x \<in> set xs \<and> P x"
  by (induction xs) (auto split: if_splits)

lemma same_identities_replace:
  assumes "distinct (map eID es)" "find (\<lambda>e. eID e = eID p) es = Some old" "sameEntryIdentity old p"
  shows "same_identities es (replace_entry (eID p) p es)"
  using assms find_same [OF assms(2)] by (auto simp: same_identities_def set_replace_entry intro: bexI [of _ old] sameEntryIdentity_refl)

interpretation upsert: owned_body env "upsert_body env p" for env p
proof
  fix f f'
  assume f: "valid_entries env (Entries f)" "owned_once env (Entries f)" "upsert_body env p f = Inr (Some f')"
    "valid_entries env (Entries f')"
  then have d: "distinct (map eID (Entries f))" "distinct (map eID (Entries f'))" by (simp_all add: valid_entries_def)
  show "owned_once env (Entries f')"
  proof (cases "conflictingRegistrationOwner env (Entries f) p")
    case None
    then have no: "\<not> sameRootAgent env e p" if "e \<in> set (Entries f)" "eID e \<noteq> eID p" for e
      using that by (auto simp: conflictingRegistrationOwner_def find_None_iff)
    have "conflictingTargetOwner env (Entries f) p False = None"
      using f(3) None by (auto simp: upsert_body_def split: option.splits)
    then have nt: "\<not> same_target env e p" if "e \<in> set (Entries f)" "eID e \<noteq> eID p" for e
      using that by (auto simp: conflictingTargetOwner_def find_None_iff)
    have "set (Entries f') \<subseteq> insert p (set (Entries f))"
      using f(3) None d(1) by (auto simp: upsert_body_def set_replace_entry split: option.splits if_splits)
    with f(2) no nt show ?thesis by (intro owned_once_insert [of env "Entries f" "Entries f'" p]) auto
  next
    case (Some owner)
    then have o: "owner \<in> set (Entries f)" "sameRootAgent env owner p" "eID owner \<noteq> eID p"
      using find_same [of _ "Entries f" owner] by (auto simp: conflictingRegistrationOwner_def)
    have f': "sameRegistration env owner p" "f' = f\<lparr>Entries := replace_entry (eID owner) p (Entries f)\<rparr>"
      using f(3) Some by (auto simp: upsert_body_def split: if_splits)
    have "\<not> sameRootAgent env e p \<and> \<not> same_target env e p" if "e \<in> set (Entries f)" "eID e \<noteq> eID owner" for e
      using that o f(2) f'(1) unfolding owned_once_def sameRegistration_def
      by (meson sameRootAgent_sym sameRootAgent_trans same_target_sym same_target_trans)
    with f' d(1) o(1) f(2) show ?thesis
      by (intro owned_once_insert [of env "Entries f" "Entries f'" p]) (auto simp: set_replace_entry)
  qed
qed

interpretation replacing: owned_body env "replace_body env p" for env p
proof
  fix f f'
  assume f: "valid_entries env (Entries f)" "owned_once env (Entries f)" "replace_body env p f = Inr (Some f')"
    "valid_entries env (Entries f')"
  then have n: "conflictingTargetOwner env (Entries f) p True = None"
    and f': "Entries f' = filter (\<lambda>e. \<not> sameRootAgent env e p) (Entries f) @ [p]"
    by (auto simp: replace_body_def split: option.splits)
  have "\<not> same_target env e p" if "e \<in> set (Entries f)" "eID e \<noteq> eID p" "\<not> sameRootAgent env e p" for e
    using n that by (auto simp: conflictingTargetOwner_def find_None_iff)
  with f' f(2) show "owned_once env (Entries f')"
    by (intro owned_once_insert [of env "Entries f" "Entries f'" p]) auto
qed

interpretation availability: maintenance_body "check_body env p ignoreSame" for env p ignoreSame
  by unfold_locales (auto simp: check_body_def split: option.splits)

interpretation update: maintenance_body "update_body env e" for env e
  by unfold_locales (auto simp: update_body_def intro: same_identities_replace split: option.splits if_splits)

lemma map_eID_replace [simp]: "eID p = i \<Longrightarrow> map eID (replace_entry i p es) = map eID es"
  by (induction es) auto

lemma apply_updates_identities:
  assumes "apply_updates us es r = (Inr es', r')" "distinct (map eID es)"
  shows "same_identities es es' \<and> map eID es' = map eID es"
  using assms
proof (induction us es r rule: apply_updates.induct)
  case (1 es r)
  then show ?case by auto
next
  case (2 u us es r)
  show ?case
  proof (cases "find (\<lambda>e. eID e = eID (Before u)) es")
    case None
    with 2 show ?thesis by simp
  next
    case (Some old)
    show ?thesis
    proof (cases "old = Before u \<and> Before u \<noteq> After u")
      case False
      then consider "old \<noteq> Before u" | "old = Before u" "Before u = After u" by blast
      then show ?thesis
      proof cases
        case 1
        with 2(5) Some have "apply_updates us es (r\<lparr>Skipped := Suc (Skipped r)\<rparr>) = (Inr es', r')" by simp
        with 2(2) [OF Some 1] 2(6) show ?thesis by blast
      next
        case 2
        with "2.prems"(1) Some have "apply_updates us es r = (Inr es', r')" by simp
        with "2.IH"(3) [OF Some] 2 "2.prems"(2) show ?thesis by blast
      qed
    next
      case True
      with 2(5) Some have s: "sameEntryIdentity old (After u)"
        and rest: "apply_updates us (replace_entry (eID (Before u)) (After u) es) (r\<lparr>Updated := Suc (Updated r)\<rparr>) = (Inr es', r')"
        by (simp_all split: if_splits)
      have i: "eID (Before u) = eID (After u)" using s True by (simp add: sameEntryIdentity_def)
      with Some s 2(6) have "same_identities es (replace_entry (eID (Before u)) (After u) es)"
        using same_identities_replace [of es "After u" old] by simp
      moreover have "same_identities (replace_entry (eID (Before u)) (After u) es) es' \<and> map eID es' = map eID es"
        using 2(4) [OF Some] True s rest 2(6) i by simp
      ultimately show ?thesis using same_identities_trans by blast
    qed
  qed
qed

interpretation updates: maintenance_body "updates_body us" for us
  by unfold_locales (auto simp: updates_body_def dest: apply_updates_identities split: prod.splits sum.splits if_splits)

interpretation forget_one: maintenance_body "forget_one_body e" for e
proof
  fix f f' assume "forget_one_body e f = Inr (Some f')"
  then show "same_identities (Entries f) (Entries f')"
    by (auto simp: forget_one_body_def same_identities_subset [OF set_remove1_subset] split: option.splits if_splits)
qed

interpretation forget: maintenance_body "forget_body ids" for ids
  by unfold_locales (auto simp: forget_body_def split: if_splits)

section \<open>Sequences of operations\<close>

datatype reg_op =
    DoUpsert time Entry
  | DoReplace time Entry
  | DoCheck time Entry bool
  | DoUpdate Entry
  | DoUpdates "EntryUpdate list"
  | DoForgetIfUnchanged Entry
  | DoForgetMany "string list"
  | DoForget string

fun reg_exec :: "renv \<Rightarrow> reg_op \<times> regio \<Rightarrow> content \<Rightarrow> content" where
  "reg_exec env (DoUpsert now e, io) c = snd (Upsert env now io e c)"
| "reg_exec env (DoReplace now e, io) c = snd (ReplaceSessionAdapter env now io e c)"
| "reg_exec env (DoCheck now e b, io) c = snd (CheckTargetAvailable env now io e b c)"
| "reg_exec env (DoUpdate e, io) c = snd (UpdateEntry env io e c)"
| "reg_exec env (DoUpdates us, io) c = snd (UpdateEntries env io us c)"
| "reg_exec env (DoForgetIfUnchanged e, io) c = snd (ForgetIfUnchanged env io e c)"
| "reg_exec env (DoForgetMany ids, io) c = snd (ForgetMany env io ids c)"
| "reg_exec env (DoForget i, io) c = snd (Forget env io i c)"

fun registers :: "reg_op \<Rightarrow> bool" where
  "registers (DoUpsert _ _) = True"
| "registers (DoReplace _ _) = True"
| "registers _ = False"

lemma snd_UpdateEntries:
  "snd (UpdateEntries env io us c) =
     (if check_updates [] us = None \<and> us \<noteq> [] then snd (transact env io (updates_body us) c) else c)"
  by (auto simp: UpdateEntries_def Let_def split: option.split prod.splits)

lemma snd_ForgetIfUnchanged:
  "snd (ForgetIfUnchanged env io e c) = (if eID e = [] then c else snd (transact env io (forget_one_body e) c))"
  by (simp add: ForgetIfUnchanged_def Let_def split: prod.splits)

lemma snd_ForgetMany:
  "snd (ForgetMany env io ids c) = snd (transact env io (forget_body (remdups (filter (\<lambda>i. i \<noteq> []) ids))) c)"
  by (simp add: ForgetMany_def Let_def split_beta)

text \<open>Every operation is a transaction of its body, or leaves the registry alone.\<close>

lemma reg_exec_cases:
  obtains (alone) "reg_exec env (opn, io) c = c"
  | (registering) now e p where "registers opn" "prepareEntry env now e = Inr p"
      "reg_exec env (opn, io) c \<in> {snd (transact env io (upsert_body env p) c), snd (transact env io (replace_body env p) c)}"
  | (maintaining) body where "\<not> registers opn" "maintenance_body body" "reg_exec env (opn, io) c = snd (transact env io body c)"
proof (cases opn)
  case (DoUpsert now e)
  then show ?thesis
    using alone registering by (cases "prepareEntry env now e") (auto simp: Upsert_def split: prod.splits)
next
  case (DoReplace now e)
  then show ?thesis
    using alone registering by (cases "prepareEntry env now e") (auto simp: ReplaceSessionAdapter_def split: prod.splits)
next
  case (DoCheck now e b)
  then show ?thesis
    using alone maintaining [OF _ availability.maintenance_body_axioms]
    by (cases "prepareEntry env now e") (auto simp: CheckTargetAvailable_def)
next
  case (DoUpdate e)
  then show ?thesis using maintaining [OF _ update.maintenance_body_axioms] by (auto simp: UpdateEntry_def)
next
  case (DoUpdates us)
  then show ?thesis
    using alone maintaining [OF _ updates.maintenance_body_axioms]
    by (cases "check_updates [] us = None \<and> us \<noteq> []") (auto simp: snd_UpdateEntries)
next
  case (DoForgetIfUnchanged e)
  then show ?thesis
    using alone maintaining [OF _ forget_one.maintenance_body_axioms]
    by (cases "eID e = []") (auto simp: snd_ForgetIfUnchanged)
next
  case (DoForgetMany ids)
  then show ?thesis
    using maintaining [OF _ forget.maintenance_body_axioms] by (simp add: snd_ForgetMany)
next
  case (DoForget i)
  then show ?thesis
    using maintaining [OF _ forget.maintenance_body_axioms]
    by (simp add: Forget_def split_beta snd_ForgetMany)
qed

lemma reg_exec_good: "registry_good env c \<Longrightarrow> registry_good env (reg_exec env (opn, io) c)"
  by (cases rule: reg_exec_cases [of env opn io c])
    (auto intro: upsert.transact_keeps replacing.transact_keeps owned_body.transact_keeps maintenance_body.owned)

lemma registry_good_absent: "registry_good env Absent"
  by (simp add: registry_good_def loadUnlocked_def valid_entries_def owned_once_def)

lemma registry_good_fold: "registry_good env c \<Longrightarrow> registry_good env (fold (reg_exec env) ops c)"
  by (induction ops arbitrary: c) (auto intro: reg_exec_good)

section \<open>Rolling a reattach back\<close>

lemma restore_scan_clear:
  "restore_scan env x i idx es = Some j \<Longrightarrow> e \<in> set es \<Longrightarrow> sameRootAgent env e x \<Longrightarrow> eID e = eID x"
  by (induction es arbitrary: i idx) (auto split: if_splits)

lemma restore_scan_index:
  "restore_scan env x i idx es = Some j \<Longrightarrow> idx = Some j \<or> i \<le> j \<and> j < i + length es \<and> es ! (j - i) = x"
proof (induction es arbitrary: i idx)
  case (Cons e es)
  from Cons.prems consider "e = x" "restore_scan env x (Suc i) (Some i) es = Some j"
    | "restore_scan env x (Suc i) idx es = Some j"
    by (auto split: if_splits)
  then show ?case by cases (auto dest!: Cons.IH simp: nth_Cons' Suc_diff_le)
qed simp

lemma restore_scan_finds:
  assumes "\<And>e. e \<in> set es \<Longrightarrow> sameRootAgent env e x \<or> eID e = eID x \<Longrightarrow> e = x"
  shows "restore_scan env x i idx es \<noteq> None \<longleftrightarrow> x \<in> set es \<or> idx \<noteq> None"
  using assms by (induction es arbitrary: i idx) auto

lemma restore_body_cases:
  assumes "restore_body env x previous f = Inr (Some f')"
  obtains pre post where "Entries f = pre @ x # post" "f' = f\<lparr>Entries := pre @ post @ previous\<rparr>"
    "\<And>e. e \<in> set (Entries f) \<Longrightarrow> sameRootAgent env e x \<Longrightarrow> eID e = eID x"
proof -
  obtain i where i: "restore_scan env x 0 None (Entries f) = Some i"
    "f' = f\<lparr>Entries := take i (Entries f) @ drop (Suc i) (Entries f) @ previous\<rparr>"
    using assms by (auto simp: restore_body_def split: option.splits)
  have "i < length (Entries f) \<and> Entries f ! i = x" using restore_scan_index [OF i(1)] by simp
  then have "Entries f = take i (Entries f) @ x # drop (Suc i) (Entries f)" using id_take_nth_drop by blast
  with i(2) that restore_scan_clear [OF i(1)] show thesis by blast
qed

text \<open>What a successful \<^verbatim>\<open>ReplaceSessionAdapter\<close> did.\<close>

abbreviation reserved :: "renv \<Rightarrow> Entry \<Rightarrow> Entry list \<Rightarrow> Entry list" where
  "reserved env p es \<equiv> filter (\<lambda>e. \<not> sameRootAgent env e p) es @ [p]"

lemma ReplaceSessionAdapter_done:
  assumes "ReplaceSessionAdapter env now io entry c = ((Some p, removed, None), c')"
  obtains f where "loadUnlocked env c = Inr f" "removed = filter (\<lambda>e. sameRootAgent env e p) (Entries f)"
    "valid_entries env (reserved env p (Entries f))"
    "loadUnlocked env c' = Inr \<lparr>SchemaVersion = currentSchema,
       Entries = sortEntries (reserved env p (Entries f))\<rparr>"
proof -
  have t: "transact env io (replace_body env p) c = (None, c')" and r: "removed = removed_entries env io p c"
    using assms by (auto simp: ReplaceSessionAdapter_def split: sum.splits prod.splits)
  obtain f f' where lock: "lockErr io = None" and f: "loadUnlocked env c = Inr f" "replace_body env p f = Inr (Some f')"
      "saveUnlocked env io f' c = (None, c')"
    using t by (auto simp: transact_def replace_body_def split: option.splits sum.splits)
  have none: "conflictingTargetOwner env (Entries f) p True = None"
    and f': "f' = f\<lparr>Entries := reserved env p (Entries f)\<rparr>"
    using f(2) by (auto simp: replace_body_def split: option.splits)
  have s: "SchemaVersion f = currentSchema" using loadUnlocked_Inr [OF f(1)] by simp
  have v: "valid_entries env (Entries f')"
    using f(3) by (auto simp: saveUnlocked_def Let_def split: option.splits)
  then have "c' = Decoded \<lparr>SchemaVersion = currentSchema, Entries = sortEntries (Entries f')\<rparr>"
    using f(3) s f' by (auto simp: saveUnlocked_def Let_def file_eq split: option.splits)
  then show thesis
    using that [OF f(1)] r none lock f(1) v f' loadUnlocked_saved [OF v] by (simp add: removed_entries_def Load_def)
qed

lemma snd_Restore:
  "snd (RestoreSessionAdapterIfUnchanged env io x previous c) =
     (if eID x = [] then c else snd (transact env io (restore_body env x previous) c))"
  by (simp add: RestoreSessionAdapterIfUnchanged_def Let_def split_beta)

lemma maintenance_identities:
  assumes "loadUnlocked env c = Inr f" "\<And>opn io. (opn, io) \<in> set ops \<Longrightarrow> \<not> registers opn"
  shows "\<exists>f'. loadUnlocked env (fold (reg_exec env) ops c) = Inr f' \<and> same_identities (Entries f) (Entries f')"
  using assms
proof (induction ops arbitrary: c f)
  case Nil
  then show ?case by auto
next
  case (Cons a ops)
  obtain opn io where a: "a = (opn, io)" by fastforce
  have nr: "\<not> registers opn" using Cons.prems(2) [of opn io] a by simp
  have "\<exists>g. loadUnlocked env (reg_exec env (opn, io) c) = Inr g \<and> same_identities (Entries f) (Entries g)"
  proof (cases rule: reg_exec_cases [of env opn io c])
    case alone
    with Cons.prems(1) show ?thesis by auto
  next
    case (maintaining body)
    then show ?thesis using maintenance_body.transact_identities [OF _ Cons.prems(1), of body io] by metis
  qed (use nr in simp)
  then obtain g where g: "loadUnlocked env (reg_exec env (opn, io) c) = Inr g" "same_identities (Entries f) (Entries g)" by blast
  then show ?case using Cons.IH [OF g(1)] Cons.prems(2) a same_identities_trans by fastforce
qed

lemma restored_identities:
  assumes "same_identities (filter (\<lambda>e. \<not> S e) es @ [p]) (pre @ p # post)" "distinct (map eID (pre @ p # post))"
  shows "same_identities es (pre @ post @ filter S es)"
  unfolding same_identities_def
proof
  fix e assume e: "e \<in> set (pre @ post @ filter S es)"
  show "\<exists>d \<in> set es. sameEntryIdentity d e"
  proof (cases "e \<in> set es")
    case True
    then show ?thesis by (rule bexI [rotated]) simp
  next
    case False
    with e have e2: "e \<in> set (pre @ post)" by auto
    then have "e \<in> set (pre @ p # post)" by auto
    then obtain d where "d \<in> set (filter (\<lambda>e. \<not> S e) es @ [p])" "sameEntryIdentity d e"
      using assms(1) unfolding same_identities_def by blast
    then have d: "d \<in> set es \<or> d = p" "sameEntryIdentity d e" by auto
    have "eID p \<notin> eID ` set (pre @ post)" using assms(2) by (simp add: image_Un)
    then have "eID e \<noteq> eID p" using e2 by (metis imageI)
    then have "d \<noteq> p" using d(2) by (auto simp: sameEntryIdentity_def)
    with d show ?thesis by blast
  qed
qed

lemma rollback_good:
  assumes good: "registry_good env c"
    and rep: "ReplaceSessionAdapter env now io entry c = ((Some p, removed, None), c1)"
    and ops: "\<And>opn io. (opn, io) \<in> set ops \<Longrightarrow> \<not> registers opn"
  shows "registry_good env (snd (RestoreSessionAdapterIfUnchanged env io' p removed (fold (reg_exec env) ops c1)))"
proof -
  obtain f where f: "loadUnlocked env c = Inr f" "removed = filter (\<lambda>e. sameRootAgent env e p) (Entries f)"
    and f1: "loadUnlocked env c1 = Inr \<lparr>SchemaVersion = currentSchema,
       Entries = sortEntries (reserved env p (Entries f))\<rparr>"
    using ReplaceSessionAdapter_done [OF rep] by metis
  have own: "owned_once env (Entries f)" using good f(1) by (simp add: registry_good_def)
  let ?c = "fold (reg_exec env) ops c1"
  obtain f2 where f2: "loadUnlocked env ?c = Inr f2"
      "same_identities (sortEntries (reserved env p (Entries f))) (Entries f2)"
    using maintenance_identities [OF f1, of ops] ops by auto
  have g1: "registry_good env c1"
    using reg_exec_good [OF good, of "DoReplace now entry" io] rep by simp
  have g2: "registry_good env ?c" using registry_good_fold [OF g1] .
  obtain err c3 where t: "transact env io' (restore_body env p removed) ?c = (err, c3)" by fastforce
  from t have "registry_good env c3"
  proof (cases rule: transact_cases)
    case kept
    with g2 show ?thesis by simp
  next
    case (committed h h')
    with f2 have h: "h = f2" by simp
    obtain pre post where pp: "Entries f2 = pre @ p # post" "h' = f2\<lparr>Entries := pre @ post @ removed\<rparr>"
      using restore_body_cases [OF committed(2)] h by metis
    have "distinct (map eID (Entries f2))" using loadUnlocked_Inr [OF f2(1)] by (simp add: valid_entries_def)
    with f2(2) pp f(2) have "same_identities (Entries f) (Entries h')"
      using restored_identities [of "\<lambda>e. sameRootAgent env e p" "Entries f" p pre post]
      by (simp add: same_identities_def)
    then have "owned_once env (Entries h')" using own owned_once_same_identities by blast
    with committed show ?thesis by (simp add: registry_good_def)
  qed
  with t g2 show ?thesis by (simp add: snd_Restore)
qed

lemma partition_restores:
  assumes "valid_entries env es"
    and "set (pre @ post) = set (filter (\<lambda>e. \<not> S e) es)" "distinct (map eID (pre @ post))"
  shows "valid_entries env (pre @ post @ filter S es)" "sortEntries (pre @ post @ filter S es) = sortEntries es"
proof -
  let ?xs = "(pre @ post) @ filter S es"
  have d: "distinct (map eID es)" using assms(1) by (simp add: valid_entries_def)
  then have inj: "eID a \<noteq> eID b" if "a \<in> set es" "b \<in> set es" "a \<noteq> b" for a b
    using that by (auto simp: distinct_map inj_on_def)
  have e: "set ?xs = set es" using assms(2) by auto
  have "distinct (map eID (filter S es))" using d by (simp add: distinct_map_filter)
  moreover have "eID a \<noteq> eID b" if "a \<in> set (pre @ post)" "b \<in> set (filter S es)" for a b
    using that assms(2) inj [of a b] by auto
  then have "set (map eID (pre @ post)) \<inter> set (map eID (filter S es)) = {}" unfolding set_map by blast
  ultimately have dx: "distinct (map eID ?xs)"
    using assms(3) unfolding map_append distinct_append by blast
  show "valid_entries env (pre @ post @ filter S es)"
    using assms(1) e dx by (simp add: valid_entries_def)
  show "sortEntries (pre @ post @ filter S es) = sortEntries es"
    using sortEntries_unique [OF e dx d] by simp
qed

lemma prepareEntry_id:
  assumes "prepareEntry env now entry = Inr p"
  shows "eID p = EntryID env (eRoot p) (eAgent p) (eAdapter p) (eTarget p)"
  using assms by (auto simp: prepareEntry_def Let_def split: sum.splits if_splits)

lemma transact_saves:
  assumes "loadUnlocked env c = Inr f" "body f = Inr (Some g)"
    and "valid_entries env (Entries g)"
  shows "transact env no_faults body c = (None, Decoded \<lparr>SchemaVersion = currentSchema, Entries = sortEntries (Entries g)\<rparr>)"
  using assms by (cases g) (auto simp: transact_def saveUnlocked_def finishCommittedRegistryFile_def no_faults_def Let_def split: option.splits)

text \<open>The reservation is the only entry of its root and agent, and the rollback removes it.\<close>

lemma reservation_found:
  assumes "distinct (map eID (reserved env p es))"
  obtains pre post where "set (pre @ post) = set (filter (\<lambda>e. \<not> sameRootAgent env e p) es)" "distinct (map eID (pre @ post))"
    "restore_scan env p 0 None (sortEntries (reserved env p es)) \<noteq> None"
    "restore_body env p previous \<lparr>SchemaVersion = currentSchema, Entries = sortEntries (reserved env p es)\<rparr> =
       Inr (Some \<lparr>SchemaVersion = currentSchema, Entries = pre @ post @ previous\<rparr>)"
proof -
  let ?new = "reserved env p es"
  have pf: "eID p \<notin> eID ` set (filter (\<lambda>e. \<not> sameRootAgent env e p) es)" using assms by simp
  have only_p: "e = p" if "e \<in> set (sortEntries ?new)" "sameRootAgent env e p \<or> eID e = eID p" for e
  proof (rule ccontr)
    assume "e \<noteq> p"
    then have e: "e \<in> set (filter (\<lambda>e. \<not> sameRootAgent env e p) es)" using that(1) by simp
    then have "eID e = eID p" using that(2) by simp
    with pf imageI [OF e, of eID] show False by simp
  qed
  then have scan: "restore_scan env p 0 None (sortEntries ?new) \<noteq> None"
    using restore_scan_finds [of "sortEntries ?new" env p 0 None] by simp
  then obtain g where g: "restore_body env p previous \<lparr>SchemaVersion = currentSchema, Entries = sortEntries ?new\<rparr> = Inr (Some g)"
    by (auto simp: restore_body_def)
  then obtain pre post where pp: "sortEntries ?new = pre @ p # post"
      "g = \<lparr>SchemaVersion = currentSchema, Entries = pre @ post @ previous\<rparr>"
    using restore_body_cases [OF g] by (metis File.select_convs(2) File.update_convs(2))
  have "distinct (map eID (pre @ p # post))" using assms pp(1) distinct_sortEntries [of ?new] by simp
  then have pn: "p \<notin> set (pre @ post)" and dpp: "distinct (map eID (pre @ post))" by auto
  have "set (pre @ p # post) = set ?new" using pp(1) by (metis set_sortEntries)
  moreover have "p \<notin> set (filter (\<lambda>e. \<not> sameRootAgent env e p) es)" using assms by auto
  ultimately have "set (pre @ post) = set (filter (\<lambda>e. \<not> sameRootAgent env e p) es)" using pn by auto
  with that dpp scan g pp(2) show thesis by blast
qed

lemma rollback_restores:
  assumes sha: "\<And>x. sha256_hex env x \<noteq> []"
    and rep: "ReplaceSessionAdapter env now io entry c = ((Some p, removed, None), c1)"
  shows "\<exists>c2. RestoreSessionAdapterIfUnchanged env no_faults p removed c1 = ((True, None), c2) \<and>
    loadUnlocked env c2 = loadUnlocked env c"
proof -
  obtain f where f: "loadUnlocked env c = Inr f" "removed = filter (\<lambda>e. sameRootAgent env e p) (Entries f)"
    and v: "valid_entries env (reserved env p (Entries f))"
    and f1: "loadUnlocked env c1 = Inr \<lparr>SchemaVersion = currentSchema, Entries = sortEntries (reserved env p (Entries f))\<rparr>"
    using ReplaceSessionAdapter_done [OF rep] by metis
  have lf: "SchemaVersion f = currentSchema" "valid_entries env (Entries f)" "sortEntries (Entries f) = Entries f"
    using loadUnlocked_Inr [OF f(1)] by auto
  obtain pre post where pp: "set (pre @ post) = set (filter (\<lambda>e. \<not> sameRootAgent env e p) (Entries f))"
      "distinct (map eID (pre @ post))" "restore_scan env p 0 None (sortEntries (reserved env p (Entries f))) \<noteq> None"
      "restore_body env p removed \<lparr>SchemaVersion = currentSchema, Entries = sortEntries (reserved env p (Entries f))\<rparr> =
        Inr (Some \<lparr>SchemaVersion = currentSchema, Entries = pre @ post @ removed\<rparr>)"
    using reservation_found [of env p "Entries f" removed] v unfolding valid_entries_def by metis
  note r = partition_restores [OF lf(2) pp(1,2), folded f(2)]
  let ?c = "Decoded \<lparr>SchemaVersion = currentSchema, Entries = sortEntries (pre @ post @ removed)\<rparr>"
  have t: "transact env no_faults (restore_body env p removed) c1 = (None, ?c)"
    using transact_saves [where body = "restore_body env p removed", OF f1 pp(4)] r(1) by simp
  have "prepareEntry env now entry = Inr p"
    using rep by (auto simp: ReplaceSessionAdapter_def split: sum.splits prod.splits)
  then have "eID p \<noteq> []" using sha prepareEntry_id by (simp add: EntryID_def)
  with t f1 pp(3) have "RestoreSessionAdapterIfUnchanged env no_faults p removed c1 = ((True, None), ?c)"
    by (simp add: RestoreSessionAdapterIfUnchanged_def Load_def no_faults_def)
  moreover have "loadUnlocked env ?c = loadUnlocked env c"
    using loadUnlocked_saved [OF r(1)] r(2) lf f(1) by (cases f) simp
  ultimately show ?thesis by blast
qed

section \<open>An example\<close>

definition plain_env :: renv where
  "plain_env = \<lparr>getwd = Inr ''/'', evalSymlinks = Inr, tooManyLinks = (\<lambda>_. False), sha256_hex = (\<lambda>x. CHR ''#'' # x)\<rparr>"

definition example_entry :: "string \<Rightarrow> string \<Rightarrow> Entry" where
  "example_entry agent target =
     \<lparr>eID = EntryID plain_env ''/r'' agent ''tmux'' target, eRoot = ''/r'', BaseRoot = [], SessionName = [],
      eAgent = agent, eAdapter = ''tmux'', eTarget = target, OwnershipKey = [], eState = StateAttached,
      LastAttach = 5, LastSeenBySupervisor = zero_time, FailureCount = 0, BackoffUntil = zero_time,
      NextHealthCheck = zero_time, DetachedSince = zero_time, LastError = [], LastSupervisorDecision = []\<rparr>"

definition example_registry :: content where
  "example_registry = Decoded \<lparr>SchemaVersion = 1, Entries = [example_entry ''a'' ''%1'', example_entry ''b'' ''%2'']\<rparr>"

lemma example_reattach:
  "ReplaceSessionAdapter plain_env 7 no_faults (example_entry ''a'' ''%3'') example_registry =
     ((Some (example_entry ''a'' ''%3''), [example_entry ''a'' ''%1''], None),
      Decoded \<lparr>SchemaVersion = 1, Entries = [example_entry ''a'' ''%3'', example_entry ''b'' ''%2'']\<rparr>)"
  by code_simp

lemma example_good: "registry_good plain_env example_registry"
proof -
  have "loadUnlocked plain_env example_registry =
      Inr \<lparr>SchemaVersion = 1, Entries = [example_entry ''a'' ''%1'', example_entry ''b'' ''%2'']\<rparr>"
    by code_simp
  moreover have "valid_entries plain_env [example_entry ''a'' ''%1'', example_entry ''b'' ''%2'']" by code_simp
  moreover have "owned_once plain_env [example_entry ''a'' ''%1'', example_entry ''b'' ''%2'']" by code_simp
  ultimately show ?thesis by (simp add: registry_good_def)
qed

section \<open>Properties\<close>


text \<open>
  C21: a reattach that is rolled back leaves every registration as it was before, the replaced ones
  included; when supervisor updates and removals ran in between, a registry in which every root, agent
  and target was owned once is still such a registry.
\<close>

theorem reattach_rolls_back:
  assumes "\<And>x. sha256_hex env x \<noteq> []"
    and "ReplaceSessionAdapter env now io entry c = ((Some p, removed, None), c1)"
  shows "(\<exists>c2. RestoreSessionAdapterIfUnchanged env no_faults p removed c1 = ((True, None), c2) \<and>
          loadUnlocked env c2 = loadUnlocked env c) \<and>
     (registry_good env c \<and> (\<forall>(opn, _) \<in> set ops. \<not> registers opn) \<longrightarrow>
       registry_good env (snd (RestoreSessionAdapterIfUnchanged env io' p removed (fold (reg_exec env) ops c1))))"
  using rollback_restores [OF assms] rollback_good [OF _ assms(2), of ops io'] by blast

theorem reattach_rolls_back_witness:
  "\<exists>p removed c1 c2.
     ReplaceSessionAdapter plain_env 7 no_faults (example_entry ''a'' ''%3'') example_registry = ((Some p, removed, None), c1) \<and>
     removed = [example_entry ''a'' ''%1''] \<and>
     RestoreSessionAdapterIfUnchanged plain_env no_faults p removed c1 = ((True, None), c2) \<and>
     loadUnlocked plain_env c2 = loadUnlocked plain_env example_registry \<and>
     registry_good plain_env (snd (RestoreSessionAdapterIfUnchanged plain_env no_faults p removed
       (fold (reg_exec plain_env) [(DoForget (eID (example_entry ''b'' ''%2'')), no_faults)] c1)))"
proof -
  have sha: "\<And>x. sha256_hex plain_env x \<noteq> []" by (simp add: plain_env_def)
  have ops: "\<forall>(opn, _) \<in> set [(DoForget (eID (example_entry ''b'' ''%2'')), no_faults)]. \<not> registers opn" by simp
  show ?thesis
    using reattach_rolls_back [OF sha example_reattach,
        of "[(DoForget (eID (example_entry ''b'' ''%2'')), no_faults)]" no_faults]
      example_reattach example_good ops by blast
qed

text \<open>
  The rollback does not look at targets: without the registration lease that its caller holds, another
  agent could register the freed target in between, and then both own it.
\<close>

lemma rollback_needs_the_lease:
  "let c1 = snd (ReplaceSessionAdapter plain_env 7 no_faults (example_entry ''a'' ''%3'') example_registry);
       ((_, err), c2) = Upsert plain_env 8 no_faults (example_entry ''c'' ''%1'') c1;
       (result, c3) = RestoreSessionAdapterIfUnchanged plain_env no_faults (example_entry ''a'' ''%3'') [example_entry ''a'' ''%1''] c2
   in err = None \<and> result = (True, None) \<and>
      (case loadUnlocked plain_env c3 of Inl _ \<Rightarrow> False | Inr f \<Rightarrow> \<not> owned_once plain_env (Entries f))"
  by code_simp

end
