(* ===== verification/Keepalive_Pass.thy ===== *)
theory Keepalive_Pass
  imports Registry_Safety
begin

text \<open>
  A pass of the keepalive supervisor over its registry (\<^verbatim>\<open>superviseOnce\<close> of
  \<^verbatim>\<open>internal/keepalive/app/app.go\<close>) with the probes of a pass and the search for entries that own the
  same target. A terminal adapter is the interface the application sees of it: its name, its probe and,
  if it implements them, the normalizer of targets, the inventory and the discovery. An inventory is a
  snapshot, so that its answers are functions. The answers of adapters and of the wake command, the
  clock and the context are arguments; a wording of an error is an argument \<open>render\<close>.
\<close>

section \<open>Adapters and probes\<close>

record inventory =
  iProbe :: "string \<Rightarrow> probeErr option"
  iOwnershipKey :: "string \<Rightarrow> probeErr + string"
  iDegradedKey :: "probeErr \<Rightarrow> string option"

type_synonym OwnershipContext = string

record adapter =
  aName :: string
  aProbe :: "string \<Rightarrow> probeErr option"
  aNormalize :: "(string \<Rightarrow> string + string) option"
  aInventory :: "(OwnershipContext \<Rightarrow> probeErr + inventory option) option"
  aDiscover :: "(string + string) option"

type_synonym adapters = "string \<Rightarrow> adapter option"

definition unknownAdapter :: "string \<Rightarrow> string" where
  "unknownAdapter name = ''unknown adapter '' @ name"

definition adapters_Get :: "adapters \<Rightarrow> string \<Rightarrow> string + adapter" where
  "adapters_Get adapters name = (case adapters name of None \<Rightarrow> Inl (unknownAdapter name) | Some a \<Rightarrow> Inr a)"

datatype probe = fixedProbeError probeErr | selectedProbe adapter | passProbe "probeErr + inventory"

definition loadInventory :: "(OwnershipContext \<Rightarrow> probeErr + inventory option) \<Rightarrow> probeErr + inventory" where
  "loadInventory provider =
     (case provider [] of
        Inl e \<Rightarrow> Inl e
      | Inr None \<Rightarrow> Inl (ProbeErr ''adapter returned a nil target inventory'')
      | Inr (Some inventory) \<Rightarrow> Inr inventory)"

definition newPassProbe :: "adapter \<Rightarrow> probe" where
  "newPassProbe selected =
     (case aInventory selected of None \<Rightarrow> selectedProbe selected | Some provider \<Rightarrow> passProbe (loadInventory provider))"

text \<open>The probe of the entries of an adapter, by the adapter's name.\<close>

definition passProbes :: "adapters \<Rightarrow> string \<Rightarrow> probe" where
  "passProbes adapters name =
     (case adapters_Get adapters name of
        Inl e \<Rightarrow> fixedProbeError (ProbeErr e)
      | Inr selected \<Rightarrow> newPassProbe selected)"

fun probe_Probe :: "probe \<Rightarrow> string \<Rightarrow> probeErr option" where
  "probe_Probe (fixedProbeError e) target = Some e"
| "probe_Probe (selectedProbe a) target = aProbe a target"
| "probe_Probe (passProbe (Inl e)) target = Some e"
| "probe_Probe (passProbe (Inr inventory)) target = iProbe inventory target"

text \<open>The method \<^verbatim>\<open>OwnershipKey\<close>, which only a probe with an inventory has.\<close>

fun probe_OwnershipKey :: "probe \<Rightarrow> (string \<Rightarrow> probeErr + string) option" where
  "probe_OwnershipKey (passProbe (Inl e)) = Some (\<lambda>_. Inl e)"
| "probe_OwnershipKey (passProbe (Inr inventory)) = Some (iOwnershipKey inventory)"
| "probe_OwnershipKey _ = None"

definition lookupOwnershipKey :: "probe \<Rightarrow> string \<Rightarrow> string" where
  "lookupOwnershipKey probe target =
     (case probe_OwnershipKey probe of
        None \<Rightarrow> []
      | Some op \<Rightarrow> (case op target of Inl _ \<Rightarrow> [] | Inr key \<Rightarrow> trimSpace key))"

section \<open>Conflicts of ownership\<close>

datatype conflict =
    targetCollision string string "Entry list"
  | physicalUnresolved string string probeErr
  | physicalCollision string string "Entry list"

text \<open>A conflict as the error that a probe returns: wrapping keeps what \<^verbatim>\<open>errors.Is\<close> finds in it.\<close>

fun conflict_error :: "(conflict \<Rightarrow> string) \<Rightarrow> conflict \<Rightarrow> probeErr" where
  "conflict_error render (physicalUnresolved a t (ErrTargetDegraded m)) =
     ErrTargetDegraded (render (physicalUnresolved a t (ErrTargetDegraded m)))"
| "conflict_error render (physicalUnresolved a t (ErrTargetNotFound m)) =
     ErrTargetNotFound (render (physicalUnresolved a t (ErrTargetNotFound m)))"
| "conflict_error render c = ProbeErr (render c)"

text \<open>The adapter and normalized target of an entry, if they are known.\<close>

definition targetOwnerKey :: "adapters \<Rightarrow> Entry \<Rightarrow> (string \<times> string) option" where
  "targetOwnerKey adapters entry =
     (case adapters_Get adapters (eAdapter entry) of
        Inl _ \<Rightarrow> None
      | Inr selected \<Rightarrow>
          (let target = trimSpace (eTarget entry) in
           case aNormalize selected of
             None \<Rightarrow> Some (aName selected, target)
           | Some normalizer \<Rightarrow>
               (case normalizer target of Inl _ \<Rightarrow> None | Inr t \<Rightarrow> Some (aName selected, t))))"

definition targetOwnershipConflicts :: "File \<Rightarrow> adapters \<Rightarrow> string \<Rightarrow> conflict option" where
  "targetOwnershipConflicts file adapters i =
     (case find (\<lambda>e. eID e = i) (Entries file) of
        None \<Rightarrow> None
      | Some entry \<Rightarrow>
          (case targetOwnerKey adapters entry of
             None \<Rightarrow> None
           | Some key \<Rightarrow>
               (let owners = filter (\<lambda>e. targetOwnerKey adapters e = Some key) (Entries file) in
                if length owners < 2 then None else Some (targetCollision (fst key) (snd key) owners))))"

text \<open>The physical key of an entry: none when its adapter has none or its target is absent.\<close>

definition physicalKey :: "(string \<Rightarrow> probe) \<Rightarrow> Entry \<Rightarrow> (probeErr + string) option" where
  "physicalKey probes entry =
     (case probe_OwnershipKey (probes (eAdapter entry)) of
        None \<Rightarrow> None
      | Some op \<Rightarrow>
          (case op (eTarget entry) of
             Inl (ErrTargetNotFound _) \<Rightarrow> None
           | Inl e \<Rightarrow> Some (Inl e)
           | Inr key \<Rightarrow> Some (Inr key)))"

definition physicalOwnershipConflicts :: "File \<Rightarrow> (string \<Rightarrow> probe) \<Rightarrow> string \<Rightarrow> conflict option" where
  "physicalOwnershipConflicts file probes i =
     (case find (\<lambda>e. eID e = i) (Entries file) of
        None \<Rightarrow> None
      | Some entry \<Rightarrow>
          (case physicalKey probes entry of
             None \<Rightarrow> None
           | Some (Inl e) \<Rightarrow> Some (physicalUnresolved (eAdapter entry) (eTarget entry) e)
           | Some (Inr key) \<Rightarrow>
               (let owners = filter (\<lambda>e. eAdapter e = eAdapter entry \<and> physicalKey probes e = Some (Inr key)) (Entries file) in
                if length owners < 2 then None else Some (physicalCollision (eAdapter entry) key owners))))"

definition mergeOwnershipConflicts ::
    "(string \<Rightarrow> conflict option) \<Rightarrow> (string \<Rightarrow> conflict option) \<Rightarrow> string \<Rightarrow> conflict option" where
  "mergeOwnershipConflicts destination source i = (case destination i of Some c \<Rightarrow> Some c | None \<Rightarrow> source i)"

definition entry_due :: "time \<Rightarrow> Entry \<Rightarrow> bool" where
  "entry_due now e \<longleftrightarrow>
     \<not> (\<not> IsZero (NextHealthCheck e) \<and> now < NextHealthCheck e) \<and> \<not> (\<not> IsZero (BackoffUntil e) \<and> now < BackoffUntil e)"

definition anyEntryDue :: "Entry list \<Rightarrow> time \<Rightarrow> bool" where
  "anyEntryDue entries now \<longleftrightarrow> list_ex (entry_due now) entries"

section \<open>A supervisor pass\<close>

text \<open>What a pass meets: its adapters, the answers of the wake command, and for each entry the clock, the
  context and the random offsets at the time it is reconciled.\<close>

record pass_env =
  pAdapters :: adapters
  pWake :: "StartWakeRequest \<Rightarrow> string option"
  pStart :: time
  pNow :: "string \<Rightarrow> time"
  pCtxErr :: "string \<Rightarrow> string option"
  pCtx :: "string \<Rightarrow> ctx"
  pRand :: "string \<Rightarrow> int \<Rightarrow> int option"
  pSelf :: string
  pWakeTimeout :: duration
  pRender :: "conflict \<Rightarrow> string"

definition pass_conflicts :: "pass_env \<Rightarrow> File \<Rightarrow> string \<Rightarrow> conflict option" where
  "pass_conflicts env file =
     (let conflicts = targetOwnershipConflicts file (pAdapters env) in
      if anyEntryDue (Entries file) (pStart env)
      then mergeOwnershipConflicts conflicts (physicalOwnershipConflicts file (passProbes (pAdapters env)))
      else conflicts)"

definition pass_probe :: "pass_env \<Rightarrow> File \<Rightarrow> Entry \<Rightarrow> probe" where
  "pass_probe env file entry =
     (case pass_conflicts env file (eID entry) of
        Some conflict \<Rightarrow> fixedProbeError (conflict_error (pRender env) conflict)
      | None \<Rightarrow> passProbes (pAdapters env) (eAdapter entry))"

definition pass_reconciler :: "pass_env \<Rightarrow> probe \<Rightarrow> Entry \<Rightarrow> Reconciler" where
  "pass_reconciler env probe entry =
     \<lparr>Wake = Some (pWake env), Adapter = Some (probe_Probe probe), BackoffBase = 0, BackoffMax = 0, Jitter = None,
      InjectVia = pSelf env, WakeTimeout = pWakeTimeout env, ActiveCheckInterval = 0, DetachedBackoffBase = 0,
      DetachedBackoffMax = 0, rand_int = pRand env (eID entry)\<rparr>"

text \<open>The body of the loop over the entries.\<close>

definition supervise_entry :: "pass_env \<Rightarrow> File \<Rightarrow> Entry \<Rightarrow> call list \<times> Entry \<times> Result" where
  "supervise_entry env file entry =
     (case pCtxErr env (eID entry) of
        Some err \<Rightarrow> ([], entry, deferred (Some err) False)
      | None \<Rightarrow>
          (let probe = pass_probe env file entry;
               (calls, updated, result) =
                 Reconcile (pass_reconciler env probe entry) (pCtx env (eID entry)) entry (pNow env (eID entry));
               key = lookupOwnershipKey probe (eTarget updated) in
           (calls,
            if (Action result = ActionEnsured \<or> Action result = ActionStartFailed) \<and> key \<noteq> []
            then updated\<lparr>OwnershipKey := key\<rparr> else updated,
            result)))"

definition pass_updates :: "pass_env \<Rightarrow> File \<Rightarrow> EntryUpdate list" where
  "pass_updates env file =
     filter (\<lambda>u. Before u \<noteq> After u)
       (map (\<lambda>e. \<lparr>Before = e, After = fst (snd (supervise_entry env file e))\<rparr>) (Entries file))"

text \<open>A pass under the registration lease. Writers that do not hold the lease may change the registry
  before the pass updates it; \<open>others\<close> is what they do.\<close>

definition superviseOnce ::
    "renv \<Rightarrow> pass_env \<Rightarrow> goerr option \<Rightarrow> regio \<Rightarrow> (content \<Rightarrow> content) \<Rightarrow> regio \<Rightarrow> content \<Rightarrow>
     (Result list \<times> regerr option) \<times> call list \<times> content" where
  "superviseOnce renv env leaseErr loadIO others updateIO c =
     (case leaseErr of
        Some e \<Rightarrow> (([], Some (OSError e)), [], c)
      | None \<Rightarrow>
          (case Load renv loadIO c of
             Inl e \<Rightarrow> (([], Some e), [], c)
           | Inr file \<Rightarrow>
               (let steps = map (supervise_entry env file) (Entries file);
                    ((_, err), c') = UpdateEntries renv updateIO (pass_updates env file) (others c) in
                ((map (snd \<circ> snd) steps, err), concat (map fst steps), c'))))"

section \<open>Compare and swap\<close>

text \<open>What a list of updates makes of an entry.\<close>

definition swapped :: "EntryUpdate list \<Rightarrow> Entry \<Rightarrow> Entry" where
  "swapped us x = (case find (\<lambda>u. Before u = x) us of Some u \<Rightarrow> After u | None \<Rightarrow> x)"

lemma replace_entry_swaps:
  assumes "distinct (map eID es)" "b \<in> set es"
  shows "replace_entry (eID b) a es = map (\<lambda>x. if x = b then a else x) es"
  using assms
proof (induction es)
  case (Cons e es)
  show ?case
  proof (cases "e = b")
    case True
    then have "b \<notin> set es" using Cons.prems(1) by auto
    then have "map (\<lambda>x. if x = b then a else x) es = es" by (intro map_idI) auto
    then show ?thesis using True by simp
  next
    case False
    then have "b \<in> set es" using Cons.prems(2) by simp
    then have "eID e \<noteq> eID b" using Cons.prems(1) by auto
    then show ?thesis using False Cons \<open>b \<in> set es\<close> by simp
  qed
qed simp

lemma find_id_distinct:
  assumes "distinct (map eID es)" "e \<in> set es"
  shows "find (\<lambda>x. eID x = eID e) es = Some e"
  using assms by (induction es) (auto simp: image_iff)

lemma check_updates_None:
  "check_updates seen us = None \<Longrightarrow>
     distinct (map (\<lambda>u. eID (Before u)) us) \<and> (\<forall>u \<in> set us. sameEntryIdentity (Before u) (After u) \<and> eID (Before u) \<notin> set seen)"
proof (induction us arbitrary: seen)
  case (Cons u us)
  then have "check_updates (eID (Before u) # seen) us = None" by (simp split: if_splits)
  from Cons.IH [OF this] Cons.prems show ?case by (auto split: if_splits)
qed simp

lemma check_updates_ok:
  assumes "distinct (map (\<lambda>u. eID (Before u)) us)" "\<And>u. u \<in> set us \<Longrightarrow> sameEntryIdentity (Before u) (After u)"
    "\<And>u. u \<in> set us \<Longrightarrow> eID (Before u) \<noteq> [] \<and> eID (Before u) \<notin> set seen"
  shows "check_updates seen us = None"
  using assms
proof (induction us arbitrary: seen)
  case (Cons u us)
  have "eID (Before v) \<noteq> eID (Before u)" if "v \<in> set us" for v using that Cons.prems(1) by (auto simp: image_iff)
  then have "check_updates (eID (Before u) # seen) us = None" using Cons by (intro Cons.IH) auto
  moreover have "sameEntryIdentity (Before u) (After u)" "eID (Before u) \<noteq> []" "eID (Before u) \<notin> set seen"
    using Cons.prems by auto
  ultimately show ?case by (simp add: sameEntryIdentity_def)
qed simp

lemma apply_updates_exact:
  assumes "apply_updates us es r = (Inr es', r')" "distinct (map eID es)" "distinct (map (\<lambda>u. eID (Before u)) us)"
    and "\<And>u. u \<in> set us \<Longrightarrow> sameEntryIdentity (Before u) (After u)"
  shows "es' = map (swapped us) es \<and> Updated r \<le> Updated r' \<and> (Updated r' = Updated r \<longrightarrow> es' = es)"
  using assms
proof (induction us arbitrary: es r)
  case Nil
  then show ?case by (simp add: swapped_def [abs_def] option.case_eq_if)
next
  case (Cons u us)
  have ids: "distinct (map (\<lambda>u. eID (Before u)) us)" and same: "sameEntryIdentity (Before u) (After u)"
    and sames: "\<And>v. v \<in> set us \<Longrightarrow> sameEntryIdentity (Before v) (After v)"
    using Cons.prems(3,4) by auto
  have other: "Before v \<noteq> x" if "v \<in> set us" "eID x = eID (Before u)" for v x
    using that Cons.prems(3) by (auto simp: image_iff)
  have none: "find (\<lambda>v. Before v = x) us = None" if "eID x = eID (Before u)" for x
    using other that by (auto simp: find_None_iff)
  have skip: "map (swapped (u # us)) es = map (swapped us) es" if "Before u \<notin> set es \<or> After u = Before u"
  proof (rule map_cong [OF refl])
    fix x assume "x \<in> set es"
    then show "swapped (u # us) x = swapped us x"
      using that none [of x] by (auto simp: swapped_def)
  qed
  show ?case
  proof (cases "Before u \<in> set es \<and> After u \<noteq> Before u")
    case False
    then have "\<exists>s. apply_updates us es s = (Inr es', r') \<and> Updated s = Updated r"
      using Cons.prems(1,2) find_id_distinct [OF Cons.prems(2), of "Before u"] find_same [of _ es]
      by (fastforce split: option.splits if_splits)
    then obtain s where s: "apply_updates us es s = (Inr es', r')" "Updated s = Updated r" by blast
    with Cons.IH [OF s(1) Cons.prems(2) ids sames] skip False show ?thesis by auto
  next
    case True
    let ?es = "map (\<lambda>x. if x = Before u then After u else x) es"
    have same': "\<not> \<not> sameEntryIdentity (Before u) (After u)" using same by simp
    have a: "apply_updates us ?es (r\<lparr>Updated := Suc (Updated r)\<rparr>) = (Inr es', r')"
      using Cons.prems(1) True same find_id_distinct [OF Cons.prems(2), of "Before u"]
        replace_entry_swaps [OF Cons.prems(2), of "Before u" "After u"] by (auto split: if_splits)
    have i: "eID (After u) = eID (Before u)" using same by (simp add: sameEntryIdentity_def)
    have d: "map eID ?es = map eID es" using i by simp
    have "es' = map (swapped us) ?es \<and> Suc (Updated r) \<le> Updated r'"
      using Cons.IH [OF a _ ids sames] Cons.prems(2) unfolding d by simp
    moreover have "map (swapped us) ?es = map (swapped (u # us)) es"
      using none [of "After u"] i by (auto simp: swapped_def)
    ultimately show ?thesis by auto
  qed
qed

section \<open>The pass\<close>

lemma markBackoff_identity: "sameEntryIdentity e (fst (markBackoff r e now err action touched))"
  by (simp add: markBackoff_def sameEntryIdentity_def Let_def)

lemma markDetached_identity: "sameEntryIdentity e (fst (markDetached r e now err))"
  by (simp add: markDetached_def sameEntryIdentity_def Let_def)

lemma checkLocalReadiness_identity:
  "case snd (checkLocalReadiness r c e now) of Inl b \<Rightarrow> sameEntryIdentity e (fst b) | Inr e' \<Rightarrow> sameEntryIdentity e e'"
  by (auto simp: checkLocalReadiness_def markBackoff_def markDetached_def sameEntryIdentity_def Let_def
    split: option.split probeErr.split)

lemma ensureWake_identity: "sameEntryIdentity e (fst (snd (ensureWake r c e now)))"
  by (auto simp: ensureWake_def markBackoff_def markActive_def sameEntryIdentity_def Let_def split: option.split)

lemma Reconcile_identity:
  assumes "Reconcile r c e now = (calls, e', res)"
  shows "sameEntryIdentity e e'"
  using assms checkLocalReadiness_identity [where r = r and c = c and e = e and now = now] ensureWake_identity
  by (auto simp: Reconcile_def split: prod.splits sum.splits)
    (metis fst_conv sameEntryIdentity_trans snd_conv)+

lemma sameEntryIdentity_key [simp]: "sameEntryIdentity e (x\<lparr>OwnershipKey := k\<rparr>) = sameEntryIdentity e x"
  by (simp add: sameEntryIdentity_def)

lemma supervise_entry_identity: "sameEntryIdentity e (fst (snd (supervise_entry env f e)))"
  by (auto simp: supervise_entry_def Let_def dest: Reconcile_identity split: option.split prod.split)

lemma pass_updates_facts:
  assumes "distinct (map eID (Entries f))"
  shows "distinct (map (\<lambda>u. eID (Before u)) (pass_updates env f))"
    and "u \<in> set (pass_updates env f) \<Longrightarrow> sameEntryIdentity (Before u) (After u) \<and> Before u \<in> set (Entries f)"
proof -
  show "distinct (map (\<lambda>u. eID (Before u)) (pass_updates env f))"
    using assms unfolding pass_updates_def by (intro distinct_map_filter) (simp add: comp_def)
  show "u \<in> set (pass_updates env f) \<Longrightarrow> sameEntryIdentity (Before u) (After u) \<and> Before u \<in> set (Entries f)"
    by (auto simp: pass_updates_def supervise_entry_identity)
qed

lemma swapped_pass:
  "swapped (pass_updates env f) x = (if x \<in> set (Entries f) then fst (snd (supervise_entry env f x)) else x)"
proof -
  have "find (\<lambda>u. Before u = x) (filter (\<lambda>u. Before u \<noteq> After u) (map (\<lambda>e. \<lparr>Before = e, After = g e\<rparr>) es)) =
      (if x \<in> set es \<and> x \<noteq> g x then Some \<lparr>Before = x, After = g x\<rparr> else None)" for es and g :: "Entry \<Rightarrow> Entry"
    by (induction es) auto
  then show ?thesis by (simp add: swapped_def pass_updates_def)
qed

text \<open>The registry after a pass that loaded \<open>f\<close> and found \<open>g\<close> when it came to update it.\<close>

definition pass_result :: "pass_env \<Rightarrow> File \<Rightarrow> File \<Rightarrow> File" where
  "pass_result env f g =
     g\<lparr>Entries := map (\<lambda>x. if x \<in> set (Entries f) then fst (snd (supervise_entry env f x)) else x) (Entries g)\<rparr>"

lemma map_swapped_ids:
  assumes "\<And>u. u \<in> set us \<Longrightarrow> sameEntryIdentity (Before u) (After u)"
  shows "map eID (map (swapped us) es) = map eID es"
  using assms find_same [of _ us] by (fastforce simp: swapped_def sameEntryIdentity_def split: option.split)

lemma UpdateEntries_swaps:
  assumes g: "loadUnlocked renv c = Inr g" and u: "UpdateEntries renv io us c = ((res, err), c')"
    and us: "check_updates [] us = None"
  shows "(err = None \<longrightarrow> loadUnlocked renv c' = Inr (g\<lparr>Entries := map (swapped us) (Entries g)\<rparr>)) \<and>
    (c' = c \<or> loadUnlocked renv c' = Inr (g\<lparr>Entries := map (swapped us) (Entries g)\<rparr>))"
proof (cases "us = []")
  case True
  then show ?thesis
    using u us g by (simp add: UpdateEntries_def swapped_def [abs_def] option.case_eq_if)
next
  case False
  note facts = check_updates_None [OF us]
  have lg: "SchemaVersion g = currentSchema" "valid_entries renv (Entries g)" "sortEntries (Entries g) = Entries g"
    using loadUnlocked_Inr [OF g] by auto
  then have dg: "distinct (map eID (Entries g))" by (simp add: valid_entries_def)
  have t: "transact renv io (updates_body us) c = (err, c')"
    using u us False by (auto simp: UpdateEntries_def Let_def split: prod.splits)
  have ids: "map eID (map (swapped us) (Entries g)) = map eID (Entries g)" using map_swapped_ids facts by blast
  have exact: "es' = map (swapped us) (Entries g) \<and> (Updated r' = 0 \<longrightarrow> es' = Entries g)"
    if "apply_updates us (Entries g) no_updates = (Inr es', r')" for es' r'
    using apply_updates_exact [OF that dg] facts by (auto simp: no_updates_def)
  have "sorted (map eID (Entries g))" using lg(3) by (metis sorted_sort_key sortEntries_def)
  then have sorted: "sortEntries (map (swapped us) (Entries g)) = map (swapped us) (Entries g)"
    unfolding sortEntries_def using ids by (metis sort_key_id_if_sorted)
  have written: "loadUnlocked renv c' = Inr (g\<lparr>Entries := map (swapped us) (Entries g)\<rparr>)"
    if "updates_body us g = Inr (Some h')"
      "loadUnlocked renv c' = Inr \<lparr>SchemaVersion = currentSchema, Entries = sortEntries (Entries h')\<rparr>" for h'
  proof -
    have "Entries h' = map (swapped us) (Entries g)"
      using exact that(1) by (auto simp: updates_body_def split: prod.splits sum.splits if_splits)
    with that(2) sorted lg(1) show ?thesis by (simp add: file_eq)
  qed
  have "loadUnlocked renv c' = Inr (g\<lparr>Entries := map (swapped us) (Entries g)\<rparr>)" if none: "err = None"
    using t [unfolded none]
  proof (cases rule: transact_None)
    case (unchanged h)
    then have "map (swapped us) (Entries g) = Entries g"
      using exact g by (auto simp: updates_body_def split: prod.splits sum.splits if_splits)
    with unchanged g show ?thesis by simp
  next
    case (saved h h')
    with written [of h'] g show ?thesis by simp
  qed
  moreover have "c' = c \<or> loadUnlocked renv c' = Inr (g\<lparr>Entries := map (swapped us) (Entries g)\<rparr>)"
    using t by (cases rule: transact_cases) (use written g in auto)
  ultimately show ?thesis by blast
qed

lemma valid_same_identity:
  "sameEntryIdentity a b \<Longrightarrow> validateEntryIdentity env a = None \<Longrightarrow> validateEntryIdentity env b = None"
  by (auto simp: sameEntryIdentity_def validateEntryIdentity_def split: sum.splits if_splits)

lemma apply_updates_Inr:
  assumes "\<And>u. u \<in> set us \<Longrightarrow> sameEntryIdentity (Before u) (After u)"
  shows "\<exists>es' r'. apply_updates us es r = (Inr es', r')"
  using assms by (induction us es r rule: apply_updates.induct) (auto split: option.splits)

lemma UpdateEntries_no_faults:
  assumes "loadUnlocked renv c = Inr g" "check_updates [] us = None"
  shows "snd (fst (UpdateEntries renv no_faults us c)) = None"
proof (cases "us = []")
  case False
  note facts = check_updates_None [OF assms(2)]
  obtain es' r' where a: "apply_updates us (Entries g) no_updates = (Inr es', r')"
    using apply_updates_Inr facts by blast
  have v: "valid_entries renv (Entries g)" using loadUnlocked_Inr [OF assms(1)] by simp
  then have d: "distinct (map eID (Entries g))" by (simp add: valid_entries_def)
  have i: "same_identities (Entries g) es' \<and> map eID es' = map eID (Entries g)" using apply_updates_identities [OF a d] .
  then have v': "valid_entries renv es'"
    using v valid_same_identity unfolding valid_entries_def same_identities_def by (metis (no_types, opaque_lifting))
  have "fst (transact renv no_faults (updates_body us) c) = None"
  proof (cases "Updated r' = 0")
    case True
    with a assms(1) show ?thesis by (simp add: transact_def updates_body_def no_faults_def)
  next
    case False
    with a have "updates_body us g = Inr (Some (g\<lparr>Entries := es'\<rparr>))" by (simp add: updates_body_def)
    with v' show ?thesis using transact_saves [OF assms(1), where body = "updates_body us"] by simp
  qed
  with False assms(2) show ?thesis by (simp add: UpdateEntries_def Let_def split_beta)
qed (simp add: UpdateEntries_def)

lemma superviseOnce_unfold:
  assumes "superviseOnce renv env None loadIO others updateIO c = ((results, err), calls, c')" "Load renv loadIO c = Inr f"
  shows "results = map (snd \<circ> snd \<circ> supervise_entry env f) (Entries f)"
    and "calls = concat (map (fst \<circ> supervise_entry env f) (Entries f))"
    and "\<exists>res. UpdateEntries renv updateIO (pass_updates env f) (others c) = ((res, err), c')"
  using assms by (auto simp: superviseOnce_def Let_def comp_assoc split: prod.splits)

lemma Load_Inr: "Load renv io c = Inr f \<Longrightarrow> loadUnlocked renv c = Inr f"
  by (simp add: Load_def split: option.splits)

lemma loaded_ids:
  assumes "loadUnlocked renv c = Inr f" "\<And>x. sha256_hex renv x \<noteq> []" "e \<in> set (Entries f)"
  shows "eID e \<noteq> []"
proof -
  have v: "validateEntryIdentity renv e = None"
    using loadUnlocked_Inr [OF assms(1)] assms(3) by (simp add: valid_entries_def)
  show ?thesis
  proof (cases "CanonicalRoot renv (eRoot e)")
    case (Inr root)
    with v show ?thesis using assms(2) by (auto simp: validateEntryIdentity_def EntryID_def split: if_splits)
  qed (use v in \<open>simp add: validateEntryIdentity_def split: if_splits\<close>)
qed

definition wake_request :: "pass_env \<Rightarrow> Entry \<Rightarrow> StartWakeRequest" where
  "wake_request env e = \<lparr>swRoot = eRoot e, swMe = eAgent e, swInjectVia = pSelf env, swAdapter = eAdapter e,
     swTarget = eTarget e, swTimeout = pWakeTimeout env\<rparr>"

lemma Reconcile_starts:
  assumes "StartWake req \<in> set (fst (Reconcile r c e now))"
  shows "\<exists>probe. Adapter r = Some probe \<and> probe (eTarget e) = None \<and> entry_due now e \<and>
    req = \<lparr>swRoot = eRoot e, swMe = eAgent e, swInjectVia = InjectVia r, swAdapter = eAdapter e, swTarget = eTarget e,
      swTimeout = WakeTimeout r\<rparr>"
  using assms
  by (auto simp: Reconcile_def checkLocalReadiness_def ensureWake_def entry_due_def Let_def
    split: option.splits sum.splits prod.splits if_splits probeErr.splits)

lemma supervise_entry_starts:
  assumes "StartWake req \<in> set (fst (supervise_entry env f e))"
  shows "req = wake_request env e" "entry_due (pNow env (eID e)) e" "pass_conflicts env f (eID e) = None"
    "probe_Probe (passProbes (pAdapters env) (eAdapter e)) (eTarget e) = None"
proof -
  have "StartWake req \<in> set (fst (Reconcile (pass_reconciler env (pass_probe env f e) e) (pCtx env (eID e)) e (pNow env (eID e))))"
    using assms by (auto simp: supervise_entry_def Let_def split: option.splits prod.splits)
  from Reconcile_starts [OF this]
  have r: "probe_Probe (pass_probe env f e) (eTarget e) = None \<and> entry_due (pNow env (eID e)) e \<and> req = wake_request env e"
    by (simp add: pass_reconciler_def wake_request_def)
  then show "req = wake_request env e" "entry_due (pNow env (eID e)) e" by simp_all
  from r show "pass_conflicts env f (eID e) = None" "probe_Probe (passProbes (pAdapters env) (eAdapter e)) (eTarget e) = None"
    by (auto simp: pass_probe_def split: option.splits)
qed

lemma sole_in_filter:
  assumes "length (filter P xs) < 2" "x \<in> set xs" "y \<in> set xs" "x \<noteq> y" "P x"
  shows "\<not> P y"
proof
  assume "P y"
  with assms have "card {x, y} \<le> card (set (filter P xs))" by (intro card_mono) auto
  also have "\<dots> \<le> length (filter P xs)" by (rule card_length)
  finally show False using assms by simp
qed

lemma no_target_conflict:
  assumes "distinct (map eID (Entries f))" "e \<in> set (Entries f)" "targetOwnershipConflicts f adapters (eID e) = None"
    and "e' \<in> set (Entries f)" "e' \<noteq> e" "targetOwnerKey adapters e = Some key"
  shows "targetOwnerKey adapters e' \<noteq> Some key"
proof -
  have "length (filter (\<lambda>x. targetOwnerKey adapters x = Some key) (Entries f)) < 2"
    using assms(3,6) find_id_distinct [OF assms(1,2)]
    by (simp add: targetOwnershipConflicts_def Let_def split: if_splits)
  from sole_in_filter [OF this assms(2,4)] assms(5,6) show ?thesis by auto
qed

lemma no_physical_conflict:
  assumes "distinct (map eID (Entries f))" "e \<in> set (Entries f)" "physicalOwnershipConflicts f probes (eID e) = None"
    and "e' \<in> set (Entries f)" "e' \<noteq> e" "physicalKey probes e = Some k" "eAdapter e' = eAdapter e"
  shows "physicalKey probes e' \<noteq> Some k"
proof (cases k)
  case (Inl err)
  then show ?thesis
    using assms(3,6) find_id_distinct [OF assms(1,2)] by (simp add: physicalOwnershipConflicts_def)
next
  case (Inr key)
  then have "length (filter (\<lambda>x. eAdapter x = eAdapter e \<and> physicalKey probes x = Some (Inr key)) (Entries f)) < 2"
    using assms(3,6) find_id_distinct [OF assms(1,2)]
    by (simp add: physicalOwnershipConflicts_def Let_def split: if_splits)
  from sole_in_filter [OF this assms(2,4)] assms(5-7) Inr show ?thesis by auto
qed

section \<open>An example\<close>

definition example_adapter :: adapter where
  "example_adapter =
     \<lparr>aName = ''tmux'', aProbe = (\<lambda>t. if t = ''%1'' then None else Some (ErrTargetNotFound ''gone'')),
      aNormalize = None, aInventory = None, aDiscover = None\<rparr>"

definition example_pass :: pass_env where
  "example_pass =
     \<lparr>pAdapters = (\<lambda>n. if n = ''tmux'' then Some example_adapter else None), pWake = (\<lambda>_. None), pStart = 100,
      pNow = (\<lambda>_. 200), pCtxErr = (\<lambda>_. None), pCtx = (\<lambda>_. \<lparr>ctx_entry = None, ctx_probe = None, ctx_start = None\<rparr>),
      pRand = (\<lambda>_ _. None), pSelf = ''ka'', pWakeTimeout = 10, pRender = (\<lambda>_. [])\<rparr>"

lemma example_calls:
  "fst (snd (superviseOnce plain_env example_pass None no_faults id no_faults example_registry)) =
     [Probe ''%1'', StartWake (wake_request example_pass (example_entry ''a'' ''%1'')), Probe ''%2'']"
  by code_simp

lemma example_load:
  "Load plain_env no_faults example_registry =
     Inr \<lparr>SchemaVersion = 1, Entries = [example_entry ''a'' ''%1'', example_entry ''b'' ''%2'']\<rparr>"
  by code_simp

text \<open>
  Whether any entry is due is asked once, before the physical terminals are compared; entries that fall due
  between that question and their turn are started without the comparison, here both on one terminal.
\<close>

lemma late_entries_share_a_terminal:
  "let inventory = \<lparr>iProbe = (\<lambda>_. None), iOwnershipKey = (\<lambda>_. Inr ''tty:1''), iDegradedKey = (\<lambda>_. None)\<rparr>;
       adapter = example_adapter\<lparr>aInventory := Some (\<lambda>_. Inr (Some inventory))\<rparr>;
       env = example_pass\<lparr>pAdapters := (\<lambda>_. Some adapter)\<rparr>;
       a = (example_entry ''a'' ''%1'')\<lparr>BackoffUntil := 150\<rparr>; b = (example_entry ''b'' ''%2'')\<lparr>BackoffUntil := 150\<rparr>;
       registry = Decoded \<lparr>SchemaVersion = 1, Entries = [a, b]\<rparr>;
       calls = fst (snd (superviseOnce plain_env env None no_faults id no_faults registry));
       calls_later = fst (snd (superviseOnce plain_env (env\<lparr>pStart := 150\<rparr>) None no_faults id no_faults registry)) in
     calls = [Probe ''%1'', StartWake (wake_request env a), Probe ''%2'', StartWake (wake_request env b)] \<and>
     calls_later = [Probe ''%1'', Probe ''%2'']"
  by code_simp

section \<open>Properties\<close>



text \<open>
  C24: a supervisor pass starts a wake only for an entry it loaded that is due, whose target its probe has
  just found, and that shares its adapter and normalized target with no other entry; when the entry
  was due already at the start of the pass, it shares its physical terminal with none either.
\<close>

theorem only_sole_owners_started:
  assumes "superviseOnce renv env None loadIO others updateIO c = ((results, err), calls, c')"
    and "Load renv loadIO c = Inr f" "StartWake req \<in> set calls"
  shows "\<exists>e \<in> set (Entries f). req = wake_request env e \<and> entry_due (pNow env (eID e)) e \<and>
    probe_Probe (passProbes (pAdapters env) (eAdapter e)) (eTarget e) = None \<and>
    (\<forall>e' \<in> set (Entries f). e' \<noteq> e \<longrightarrow>
      (\<forall>key. targetOwnerKey (pAdapters env) e = Some key \<longrightarrow> targetOwnerKey (pAdapters env) e' \<noteq> Some key) \<and>
      (entry_due (pStart env) e \<and> eAdapter e' = eAdapter e \<longrightarrow>
        (\<forall>k. physicalKey (passProbes (pAdapters env)) e = Some k \<longrightarrow> physicalKey (passProbes (pAdapters env)) e' \<noteq> Some k)))"
proof -
  have d: "distinct (map eID (Entries f))"
    using loadUnlocked_Inr [OF Load_Inr [OF assms(2)]] by (simp add: valid_entries_def)
  obtain e where e: "e \<in> set (Entries f)" "StartWake req \<in> set (fst (supervise_entry env f e))"
    using assms(3) superviseOnce_unfold(2) [OF assms(1,2)] by auto
  note s = supervise_entry_starts [OF e(2)]
  have t: "targetOwnershipConflicts f (pAdapters env) (eID e) = None"
    using s(3) by (auto simp: pass_conflicts_def Let_def mergeOwnershipConflicts_def split: if_splits option.splits)
  have p: "physicalOwnershipConflicts f (passProbes (pAdapters env)) (eID e) = None" if "entry_due (pStart env) e"
  proof -
    have "anyEntryDue (Entries f) (pStart env)" using that e(1) by (auto simp: anyEntryDue_def list_ex_iff)
    with s(3) show ?thesis
      by (auto simp: pass_conflicts_def Let_def mergeOwnershipConflicts_def split: option.splits)
  qed
  show ?thesis
  proof (intro bexI [OF _ e(1)] conjI ballI impI allI s)
    fix e' key assume "e' \<in> set (Entries f)" "e' \<noteq> e" "targetOwnerKey (pAdapters env) e = Some key"
    then show "targetOwnerKey (pAdapters env) e' \<noteq> Some key" using no_target_conflict [OF d e(1) t] by blast
  next
    fix e' k assume "e' \<in> set (Entries f)" "e' \<noteq> e" "entry_due (pStart env) e \<and> eAdapter e' = eAdapter e"
      "physicalKey (passProbes (pAdapters env)) e = Some k"
    then show "physicalKey (passProbes (pAdapters env)) e' \<noteq> Some k"
      using no_physical_conflict [OF d e(1)] p by blast
  qed
qed

theorem only_sole_owners_started_witness:
  "\<exists>e \<in> {example_entry ''a'' ''%1'', example_entry ''b'' ''%2''}.
     wake_request example_pass (example_entry ''a'' ''%1'') = wake_request example_pass e \<and>
     probe_Probe (passProbes (pAdapters example_pass) (eAdapter e)) (eTarget e) = None"
proof -
  obtain results err calls c' where s:
    "superviseOnce plain_env example_pass None no_faults id no_faults example_registry = ((results, err), calls, c')"
    by (metis prod.exhaust)
  have "StartWake (wake_request example_pass (example_entry ''a'' ''%1'')) \<in> set calls"
    using example_calls s by simp
  from only_sole_owners_started [OF s example_load this] show ?thesis by auto
qed

end
