(* ===== verification/Keepalive_Gc.thy ===== *)
theory Keepalive_Gc
  imports Keepalive_Pass
begin

text \<open>
  Retiring wakes whose terminal is gone (\<^verbatim>\<open>gc\<close>, \<^verbatim>\<open>retireSession\<close> and \<^verbatim>\<open>forget\<close> of
  \<^verbatim>\<open>internal/keepalive/app/app.go\<close>). The commands hold the registration lease; the answers of
  \<^verbatim>\<open>amq wake check\<close> and \<^verbatim>\<open>amq wake retire\<close>, the probes and the clock are arguments, and the calls made are
  part of the result. The flags are arguments, the JSON report is the list of its rows.
\<close>

section \<open>Commands\<close>

record RetireWakeRequest =
  rwRoot :: string
  rwMe :: string
  rwInjectVia :: string
  rwAdapter :: string
  rwTarget :: string
  rwGeneration :: string

record WakeCheckResult =
  LiveWake :: bool
  Generation :: string

text \<open>What the commands of AMQ answer, and the errors of the transactions that forget an entry.\<close>

record retire_env =
  rAdapters :: adapters
  rCheckWake :: "string \<Rightarrow> string \<Rightarrow> string + WakeCheckResult"
  rRetireWake :: "RetireWakeRequest \<Rightarrow> string option"
  rForgetIO :: "string \<Rightarrow> regio"
  rSelf :: string
  rRender :: "conflict \<Rightarrow> string"

definition observeWakeGeneration :: "retire_env \<Rightarrow> string \<Rightarrow> string \<Rightarrow> string + string" where
  "observeWakeGeneration env root me =
     (case rCheckWake env root me of
        Inl e \<Rightarrow> Inl (''observe wake generation: '' @ e)
      | Inr check \<Rightarrow>
          (let generation = trimSpace (Generation check) in
           if LiveWake check \<and> generation = [] then Inl ''live wake omitted generation'' else Inr generation))"

definition normalizedTarget :: "adapter \<Rightarrow> string \<Rightarrow> string + string" where
  "normalizedTarget selected raw =
     (let target = trimSpace raw in
      case aNormalize selected of
        Some normalizer \<Rightarrow> normalizer target
      | None \<Rightarrow> if target = [] then Inl ''adapter target is empty'' else Inr target)"

text \<open>\<^verbatim>\<open>time.Time.Sub\<close>, which saturates.\<close>

definition time_Sub :: "time \<Rightarrow> time \<Rightarrow> duration" where
  "time_Sub t u = max (- (2 ^ 63)) (min (2 ^ 63 - 1) (t - u))"

datatype gcReason =
    NoReason
  | NotDetached
  | NotEstablished
  | DetachedFor duration duration
  | TargetExists
  | AbsenceAmbiguous string
  | ChangedConcurrently
  | ForgetFailed regerr
  | Because string

record gcEntryResult =
  gID :: string
  gRoot :: string
  gAgent :: string
  gAdapter :: string
  gTarget :: string
  gDetachedSince :: time
  gStatus :: string
  gReason :: gcReason

definition gc_row :: "Entry \<Rightarrow> string \<Rightarrow> gcReason \<Rightarrow> gcEntryResult" where
  "gc_row e status reason =
     \<lparr>gID = eID e, gRoot = eRoot e, gAgent = eAgent e, gAdapter = eAdapter e, gTarget = eTarget e,
      gDetachedSince = DetachedSince e, gStatus = status, gReason = reason\<rparr>"

definition retire_request :: "retire_env \<Rightarrow> Entry \<Rightarrow> string \<Rightarrow> string \<Rightarrow> RetireWakeRequest" where
  "retire_request env e target generation =
     \<lparr>rwRoot = eRoot e, rwMe = eAgent e, rwInjectVia = rSelf env, rwAdapter = eAdapter e, rwTarget = target,
      rwGeneration = generation\<rparr>"

text \<open>The generation that a pass with \<^verbatim>\<open>--apply\<close> observes before it probes.\<close>

definition gc_generation :: "retire_env \<Rightarrow> bool \<Rightarrow> Entry \<Rightarrow> string + string" where
  "gc_generation env apply e = (if apply then observeWakeGeneration env (eRoot e) (eAgent e) else Inr [])"

text \<open>The classification of an entry: a row that ends its turn, or the target and the generation of a candidate.\<close>

definition gc_classify ::
    "retire_env \<Rightarrow> bool \<Rightarrow> duration \<Rightarrow> time \<Rightarrow> (string \<Rightarrow> conflict option) \<Rightarrow> Entry \<Rightarrow> gcEntryResult + string \<times> string" where
  "gc_classify env apply minDetachedAge now conflicts e =
     (if eState e \<noteq> StateDetached then Inl (gc_row e ''skipped'' NotDetached)
      else if IsZero (DetachedSince e) then Inl (gc_row e ''skipped'' NotEstablished)
      else if time_Sub now (DetachedSince e) < minDetachedAge
        then Inl (gc_row e ''skipped'' (DetachedFor (time_Sub now (DetachedSince e)) minDetachedAge))
      else case conflicts (eID e) of
        Some conflict \<Rightarrow> Inl (gc_row e ''skipped'' (Because (rRender env conflict)))
      | None \<Rightarrow>
          (case adapters_Get (rAdapters env) (eAdapter e) of
             Inl err \<Rightarrow> Inl (gc_row e ''skipped'' (Because err))
           | Inr selected \<Rightarrow>
               (case normalizedTarget selected (eTarget e) of
                  Inl err \<Rightarrow> Inl (gc_row e ''skipped'' (Because err))
                | Inr target \<Rightarrow>
                    (case gc_generation env apply e of
                       Inl err \<Rightarrow> Inl (gc_row e ''skipped'' (Because err))
                     | Inr generation \<Rightarrow>
                         (case probe_Probe (passProbes (rAdapters env) (eAdapter e)) target of
                            None \<Rightarrow> Inl (gc_row e ''skipped'' TargetExists)
                          | Some (ErrTargetNotFound _) \<Rightarrow> Inr (target, generation)
                          | Some err \<Rightarrow> Inl (gc_row e ''skipped'' (AbsenceAmbiguous (errText err))))))))"

text \<open>The turn of an entry: its row, the requests to retire a wake, the error, and the registry.\<close>

definition gc_entry ::
    "renv \<Rightarrow> retire_env \<Rightarrow> bool \<Rightarrow> duration \<Rightarrow> time \<Rightarrow> (string \<Rightarrow> conflict option) \<Rightarrow> Entry \<Rightarrow> content \<Rightarrow>
     (gcEntryResult \<times> RetireWakeRequest list \<times> string list) \<times> content" where
  "gc_entry renv env apply minDetachedAge now conflicts e c =
     (case gc_classify env apply minDetachedAge now conflicts e of
        Inl row \<Rightarrow> ((row, [], []), c)
      | Inr (target, generation) \<Rightarrow>
          (if \<not> apply then ((gc_row e ''candidate'' NoReason, [], []), c)
           else
             (let request = retire_request env e target generation in
              case rRetireWake env request of
                Some err \<Rightarrow> ((gc_row e ''error'' (Because err), [request], [err]), c)
              | None \<Rightarrow>
                  (case ForgetIfUnchanged renv (rForgetIO env (eID e)) e c of
                     ((_, Some err), c') \<Rightarrow> ((gc_row e ''error'' (ForgetFailed err), [request], [''forget failed'']), c')
                   | ((False, None), c') \<Rightarrow> ((gc_row e ''retired'' ChangedConcurrently, [request], []), c')
                   | ((True, None), c') \<Rightarrow> ((gc_row e ''retired'' NoReason, [request], []), c')))))"

fun gc_entries ::
    "renv \<Rightarrow> retire_env \<Rightarrow> bool \<Rightarrow> duration \<Rightarrow> time \<Rightarrow> (string \<Rightarrow> conflict option) \<Rightarrow> Entry list \<Rightarrow> content \<Rightarrow>
     (gcEntryResult list \<times> RetireWakeRequest list \<times> string list) \<times> content" where
  "gc_entries renv env apply minDetachedAge now conflicts [] c = (([], [], []), c)"
| "gc_entries renv env apply minDetachedAge now conflicts (e # es) c =
     (let ((row, requests, errs), c1) = gc_entry renv env apply minDetachedAge now conflicts e c;
          ((rows, requests', errs'), c2) = gc_entries renv env apply minDetachedAge now conflicts es c1 in
      ((row # rows, requests @ requests', errs @ errs'), c2))"

definition gc_conflicts :: "retire_env \<Rightarrow> File \<Rightarrow> string \<Rightarrow> conflict option" where
  "gc_conflicts env file =
     mergeOwnershipConflicts (targetOwnershipConflicts file (rAdapters env))
       (physicalOwnershipConflicts file (passProbes (rAdapters env)))"

text \<open>Why the command failed, if it did: its flags, the lease, the registry, or the entries.\<close>

datatype gcError = NegativeAge | LeaseFailed goerr | RegistryFailed regerr | ApplyErrs "string list"

definition gc ::
    "renv \<Rightarrow> retire_env \<Rightarrow> bool \<Rightarrow> duration \<Rightarrow> time \<Rightarrow> goerr option \<Rightarrow> regio \<Rightarrow> content \<Rightarrow>
     (gcEntryResult list \<times> RetireWakeRequest list \<times> gcError option) \<times> content" where
  "gc renv env apply minDetachedAge now leaseErr loadIO c =
     (if minDetachedAge < 0 then (([], [], Some NegativeAge), c)
      else case leaseErr of
        Some e \<Rightarrow> (([], [], Some (LeaseFailed e)), c)
      | None \<Rightarrow>
          (case Load renv loadIO c of
             Inl e \<Rightarrow> (([], [], Some (RegistryFailed e)), c)
           | Inr file \<Rightarrow>
               (let ((rows, requests, errs), c') =
                      gc_entries renv env apply minDetachedAge now (gc_conflicts env file) (Entries file) c in
                ((rows, requests, if errs = [] then None else Some (ApplyErrs errs)), c'))))"

section \<open>Retiring a session\<close>

fun parse_agents :: "string list \<Rightarrow> string list \<Rightarrow> string + string list" where
  "parse_agents agents [] = Inr agents"
| "parse_agents agents (part # parts) =
     (let agent = trimSpace part in
      if agent = [] then Inl ''--agents must contain non-empty handles''
      else if agent \<in> set agents then Inl (''--agents contains duplicate handle '' @ agent)
      else parse_agents (agents @ [agent]) parts)"

definition parseRequiredAgents :: "string \<Rightarrow> string + string list" where
  "parseRequiredAgents raw =
     (case parse_agents [] (splitOn (CHR '','') raw) of
        Inl e \<Rightarrow> Inl e
      | Inr agents \<Rightarrow> if agents = [] then Inl ''--agents is required'' else Inr agents)"

datatype retireError =
    BadFlag string
  | BadRoot regerr
  | RetireLease goerr
  | RetireRegistry regerr
  | Unmatched string nat
  | Refused string string
  | RetireErrs "string list"

text \<open>The entry of each required agent: there must be exactly one.\<close>

fun required_entries :: "renv \<Rightarrow> string \<Rightarrow> string \<Rightarrow> Entry list \<Rightarrow> string list \<Rightarrow> retireError + Entry list" where
  "required_entries renv root adapterName entries [] = Inr []"
| "required_entries renv root adapterName entries (agent # agents) =
     (let matches = filter (\<lambda>e. CanonicalRoot renv (eRoot e) = Inr root \<and> eAdapter e = adapterName \<and> eAgent e = agent) entries in
      if length matches \<noteq> 1 then Inl (Unmatched agent (length matches))
      else case required_entries renv root adapterName entries agents of
        Inl e \<Rightarrow> Inl e
      | Inr es \<Rightarrow> Inr (hd matches # es))"

text \<open>The precondition: a generation observed and an absent target for each entry, before any is retired.\<close>

fun absent_targets :: "retire_env \<Rightarrow> adapter \<Rightarrow> Entry list \<Rightarrow> retireError + (Entry \<times> string \<times> string) list" where
  "absent_targets env selected [] = Inr []"
| "absent_targets env selected (e # es) =
     (case observeWakeGeneration env (eRoot e) (eAgent e) of
        Inl err \<Rightarrow> Inl (Refused (eAgent e) err)
      | Inr generation \<Rightarrow>
          (case (case aNormalize selected of None \<Rightarrow> Inr (eTarget e) | Some normalizer \<Rightarrow> normalizer (eTarget e)) of
             Inl err \<Rightarrow> Inl (Refused (eAgent e) err)
           | Inr target \<Rightarrow>
               (case aProbe selected target of
                  None \<Rightarrow> Inl (Refused (eAgent e) ''adapter target still exists'')
                | Some (ErrTargetNotFound _) \<Rightarrow>
                    (case absent_targets env selected es of
                       Inl err \<Rightarrow> Inl err
                     | Inr rest \<Rightarrow> Inr ((e, target, generation) # rest))
                | Some err \<Rightarrow> Inl (Refused (eAgent e) (errText err)))))"

fun retire_entries ::
    "renv \<Rightarrow> retire_env \<Rightarrow> (Entry \<times> string \<times> string) list \<Rightarrow> content \<Rightarrow> (RetireWakeRequest list \<times> string list) \<times> content" where
  "retire_entries renv env [] c = (([], []), c)"
| "retire_entries renv env ((e, target, generation) # rest) c =
     (let request = retire_request env e target generation;
          (errs, c1) =
            (case rRetireWake env request of
               Some err \<Rightarrow> ([err], c)
             | None \<Rightarrow>
                 (case ForgetIfUnchanged renv (rForgetIO env (eID e)) e c of
                    ((_, Some err), c') \<Rightarrow> ([''forget failed''], c')
                  | ((_, None), c') \<Rightarrow> ([], c')));
          ((requests, errs'), c2) = retire_entries renv env rest c1 in
      ((request # requests, errs @ errs'), c2))"

definition retireSession ::
    "renv \<Rightarrow> retire_env \<Rightarrow> string \<Rightarrow> string \<Rightarrow> string \<Rightarrow> goerr option \<Rightarrow> regio \<Rightarrow> content \<Rightarrow>
     (RetireWakeRequest list \<times> retireError option) \<times> content" where
  "retireSession renv env rootFlag adapterName agentsFlag leaseErr loadIO c =
     (if trimSpace rootFlag = [] then (([], Some (BadFlag ''--root is required'')), c)
      else case CanonicalRoot renv rootFlag of
        Inl e \<Rightarrow> (([], Some (BadRoot e)), c)
      | Inr root \<Rightarrow>
          (case parseRequiredAgents agentsFlag of
             Inl e \<Rightarrow> (([], Some (BadFlag e)), c)
           | Inr agents \<Rightarrow>
               (case leaseErr of
                  Some e \<Rightarrow> (([], Some (RetireLease e)), c)
                | None \<Rightarrow>
                    (case Load renv loadIO c of
                       Inl e \<Rightarrow> (([], Some (RetireRegistry e)), c)
                     | Inr file \<Rightarrow>
                         (case required_entries renv root adapterName (Entries file) agents of
                            Inl e \<Rightarrow> (([], Some e), c)
                          | Inr entries \<Rightarrow>
                              (case adapters_Get (rAdapters env) adapterName of
                                 Inl e \<Rightarrow> (([], Some (BadFlag e)), c)
                               | Inr selected \<Rightarrow>
                                   (case absent_targets env selected entries of
                                      Inl e \<Rightarrow> (([], Some e), c)
                                    | Inr absent \<Rightarrow>
                                        (let ((requests, errs), c') = retire_entries renv env absent c in
                                         ((requests, if errs = [] then None else Some (RetireErrs errs)), c')))))))))"

text \<open>\<^verbatim>\<open>forget\<close>: an entry removed by its identifier.\<close>

definition app_forget :: "renv \<Rightarrow> string \<Rightarrow> goerr option \<Rightarrow> regio \<Rightarrow> content \<Rightarrow> (bool \<times> retireError option) \<times> content" where
  "app_forget renv i leaseErr io c =
     (if i = [] then ((False, Some (BadFlag ''--id is required'')), c)
      else case leaseErr of
        Some e \<Rightarrow> ((False, Some (RetireLease e)), c)
      | None \<Rightarrow> (let ((removed, err), c') = Forget renv io i c in ((removed, map_option RetireRegistry err), c')))"

section \<open>What is forgotten\<close>

lemma sorted_filter_loaded: "sortEntries es = es \<Longrightarrow> sortEntries (filter P es) = filter P es"
  by (metis filter_sort sortEntries_def)

lemma ForgetIfUnchanged_effect:
  assumes "loadUnlocked renv c = Inr g" "ForgetIfUnchanged renv io e c = ((removed, err), c')"
  obtains g' where "loadUnlocked renv c' = Inr g'"
    "Entries g' = Entries g \<and> \<not> (removed \<and> err = None) \<or> Entries g' = filter (\<lambda>x. x \<noteq> e) (Entries g)"
    "removed \<Longrightarrow> e \<in> set (Entries g)" "\<not> removed \<Longrightarrow> Entries g' = Entries g"
proof (cases "eID e = []")
  case True
  with assms that show thesis by (auto simp: ForgetIfUnchanged_def)
next
  case False
  have t: "transact renv io (forget_one_body e) c = (err, c')"
    and r: "removed \<longleftrightarrow> lockErr io = None \<and> find (\<lambda>x. eID x = eID e) (Entries g) = Some e"
    using assms False by (auto simp: ForgetIfUnchanged_def Load_def Let_def split: prod.splits option.splits)
  have lg: "SchemaVersion g = currentSchema" "distinct (map eID (Entries g))" "sortEntries (Entries g) = Entries g"
    using loadUnlocked_Inr [OF assms(1)] by (auto simp: valid_entries_def)
  have rm: "remove1 e (Entries g) = filter (\<lambda>x. x \<noteq> e) (Entries g)"
    using lg(2) by (simp add: distinct_map distinct_remove1_removeAll removeAll_filter_not_eq eq_commute)
  have in_g: "removed \<Longrightarrow> e \<in> set (Entries g)" using r find_same [of "\<lambda>x. eID x = eID e" "Entries g" e] by simp
  have body: "forget_one_body e g = (if find (\<lambda>x. eID x = eID e) (Entries g) = Some e
      then Inr (Some (g\<lparr>Entries := filter (\<lambda>x. x \<noteq> e) (Entries g)\<rparr>)) else Inr None)"
    by (auto simp: forget_one_body_def rm split: option.splits)
  have eff: "loadUnlocked renv c' = Inr g \<and> \<not> (removed \<and> err = None) \<or>
      removed \<and> loadUnlocked renv c' = Inr (g\<lparr>Entries := filter (\<lambda>x. x \<noteq> e) (Entries g)\<rparr>)"
  proof (cases "lockErr io = None")
    case False
    then have "c' = c" using t by (auto simp: transact_def)
    then show ?thesis using False r assms(1) by simp
  next
    case lock: True
    show ?thesis
    proof (cases "removed \<and> err = None")
    case True
    then have "transact renv io (forget_one_body e) c = (None, c')" using t by simp
    then show ?thesis
    proof (cases rule: transact_None)
      case (unchanged h)
      with assms(1) body r True show ?thesis by simp
    next
      case (saved h h')
      with assms(1) body r True lg show ?thesis by (auto simp: file_eq sorted_filter_loaded)
    qed
  next
    case False
    from t show ?thesis
    proof (cases rule: transact_cases)
      case kept
      with assms(1) False show ?thesis by auto
    next
      case (committed h h')
      then have "forget_one_body e g = Inr (Some h')" using assms(1) by simp
      then have "find (\<lambda>x. eID x = eID e) (Entries g) = Some e" using body by (metis Inr_inject option.distinct(1))
      with r lock committed assms(1) body lg show ?thesis by (simp add: file_eq sorted_filter_loaded)
    qed
  qed
  qed
  from eff show thesis
  proof (elim disjE conjE)
    assume "loadUnlocked renv c' = Inr g" "\<not> (removed \<and> err = None)"
    then show thesis using that [of g] in_g by blast
  next
    assume "removed" "loadUnlocked renv c' = Inr (g\<lparr>Entries := filter (\<lambda>x. x \<noteq> e) (Entries g)\<rparr>)"
    then show thesis using that [of "g\<lparr>Entries := filter (\<lambda>x. x \<noteq> e) (Entries g)\<rparr>"] in_g by simp
  qed
qed

definition proven_detached ::
    "retire_env \<Rightarrow> duration \<Rightarrow> time \<Rightarrow> (string \<Rightarrow> conflict option) \<Rightarrow> Entry \<Rightarrow> string \<Rightarrow> bool" where
  "proven_detached env minDetachedAge now conflicts e target \<longleftrightarrow>
     eState e = StateDetached \<and> \<not> IsZero (DetachedSince e) \<and> minDetachedAge \<le> time_Sub now (DetachedSince e) \<and>
     conflicts (eID e) = None \<and>
     (\<exists>selected m. rAdapters env (eAdapter e) = Some selected \<and> normalizedTarget selected (eTarget e) = Inr target \<and>
        probe_Probe (passProbes (rAdapters env) (eAdapter e)) target = Some (ErrTargetNotFound m))"

lemma gc_classify_Inr:
  assumes "gc_classify env apply minAge now conflicts e = Inr (target, generation)"
  shows "proven_detached env minAge now conflicts e target"
  using assms by (auto simp: gc_classify_def proven_detached_def adapters_Get_def
    split: if_splits option.splits sum.splits probeErr.splits)

text \<open>The rows that report an entry as retired and forgotten.\<close>

definition retired_row :: "gcEntryResult \<Rightarrow> bool" where
  "retired_row row \<longleftrightarrow> gStatus row = ''retired'' \<and> gReason row = NoReason"

text \<open>What a turn, or several, may have done to the registry: remove entries \<open>gone\<close>, each of them proven
  detached, with its wake confirmed to be retired.\<close>

definition gc_effect ::
    "renv \<Rightarrow> retire_env \<Rightarrow> bool \<Rightarrow> duration \<Rightarrow> time \<Rightarrow> (string \<Rightarrow> conflict option) \<Rightarrow> Entry list \<Rightarrow> gcEntryResult list \<Rightarrow>
     RetireWakeRequest list \<Rightarrow> Entry list \<Rightarrow> Entry list \<Rightarrow> bool" where
  "gc_effect renv env apply minAge now conflicts es rows requests before after \<longleftrightarrow>
     (\<exists>gone. after = filter (\<lambda>x. x \<notin> gone) before \<and>
        (\<forall>e \<in> gone. e \<in> set es \<and> (\<exists>target generation. proven_detached env minAge now conflicts e target \<and>
           retire_request env e target generation \<in> set requests \<and>
           rRetireWake env (retire_request env e target generation) = None)) \<and>
        (\<forall>row \<in> set rows. retired_row row \<longrightarrow> (\<exists>e \<in> gone. eID e = gID row))) \<and>
     (\<forall>request \<in> set requests. apply \<and> (\<exists>e \<in> set es. \<exists>target generation.
        proven_detached env minAge now conflicts e target \<and> request = retire_request env e target generation))"

lemma gc_effect_none:
  assumes "\<not> retired_row row"
    and "requests = [] \<or> apply \<and> proven_detached env minAge now conflicts e target \<and>
      requests = [retire_request env e target generation]"
  shows "gc_effect renv env apply minAge now conflicts [e] [row] requests before before"
proof -
  have "\<exists>x \<in> set [e]. \<exists>t g. proven_detached env minAge now conflicts x t \<and> r = retire_request env x t g"
    if "r \<in> set requests" for r
    using that assms(2) by (cases requests) (simp, metis list.set_intros(1) empty_iff empty_set list.inject set_ConsD)
  with assms show ?thesis unfolding gc_effect_def by (intro conjI exI [of _ "{}"]) auto
qed

lemma gc_effect_append:
  assumes "gc_effect renv env apply minAge now conflicts es rows requests a b"
    and "gc_effect renv env apply minAge now conflicts es' rows' requests' b c"
  shows "gc_effect renv env apply minAge now conflicts (es @ es') (rows @ rows') (requests @ requests') a c"
proof -
  obtain g1 where 1: "b = filter (\<lambda>x. x \<notin> g1) a"
    "\<forall>e \<in> g1. e \<in> set es \<and> (\<exists>target generation. proven_detached env minAge now conflicts e target \<and>
           retire_request env e target generation \<in> set requests \<and>
           rRetireWake env (retire_request env e target generation) = None)"
    "\<forall>row \<in> set rows. retired_row row \<longrightarrow> (\<exists>e \<in> g1. eID e = gID row)"
    using assms(1) unfolding gc_effect_def by blast
  obtain g2 where 2: "c = filter (\<lambda>x. x \<notin> g2) b"
    "\<forall>e \<in> g2. e \<in> set es' \<and> (\<exists>target generation. proven_detached env minAge now conflicts e target \<and>
           retire_request env e target generation \<in> set requests' \<and>
           rRetireWake env (retire_request env e target generation) = None)"
    "\<forall>row \<in> set rows'. retired_row row \<longrightarrow> (\<exists>e \<in> g2. eID e = gID row)"
    using assms(2) unfolding gc_effect_def by blast
  have "c = filter (\<lambda>x. x \<notin> g1 \<union> g2) a" using 1(1) 2(1) by simp
  moreover have "\<forall>e \<in> g1 \<union> g2. e \<in> set (es @ es') \<and> (\<exists>target generation. proven_detached env minAge now conflicts e target \<and>
           retire_request env e target generation \<in> set (requests @ requests') \<and>
           rRetireWake env (retire_request env e target generation) = None)"
    using 1(2) 2(2) by fastforce
  moreover have "\<forall>row \<in> set (rows @ rows'). retired_row row \<longrightarrow> (\<exists>e \<in> g1 \<union> g2. eID e = gID row)"
    using 1(3) 2(3) by fastforce
  moreover have "\<forall>request \<in> set (requests @ requests'). apply \<and> (\<exists>e \<in> set (es @ es'). \<exists>target generation.
        proven_detached env minAge now conflicts e target \<and> request = retire_request env e target generation)"
    using assms unfolding gc_effect_def by fastforce
  ultimately show ?thesis unfolding gc_effect_def by blast
qed

lemma gc_entry_effect:
  assumes g: "loadUnlocked renv c = Inr g"
    and turn: "gc_entry renv env apply minAge now conflicts e c = ((row, requests, errs), c')"
  shows "\<exists>g'. loadUnlocked renv c' = Inr g' \<and>
    gc_effect renv env apply minAge now conflicts [e] [row] requests (Entries g) (Entries g')"
proof (cases "gc_classify env apply minAge now conflicts e")
  case (Inl r)
  have "\<not> retired_row r" using Inl
    by (auto simp: gc_classify_def retired_row_def gc_row_def split: if_splits option.splits sum.splits probeErr.splits)
  with Inl turn g gc_effect_none [of row requests] show ?thesis by (auto simp: gc_entry_def)
next
  case (Inr p)
  obtain target generation where p: "p = (target, generation)" by fastforce
  have d: "proven_detached env minAge now conflicts e target" using gc_classify_Inr Inr p by blast
  let ?req = "retire_request env e target generation"
  show ?thesis
  proof (cases "apply \<and> rRetireWake env ?req = None")
    case False
    then have "row \<in> {gc_row e ''candidate'' NoReason} \<union> range (\<lambda>x. gc_row e ''error'' (Because x))" "c' = c"
        "requests = [] \<or> apply \<and> requests = [?req]"
      using turn Inr p by (auto simp: gc_entry_def Let_def split: if_splits option.splits)
    moreover from this(1) have "\<not> retired_row row" by (auto simp: retired_row_def gc_row_def)
    ultimately show ?thesis using g d gc_effect_none by blast
  next
    case True
    obtain removed err c1 where f: "ForgetIfUnchanged renv (rForgetIO env (eID e)) e c = ((removed, err), c1)"
      by (metis prod.exhaust)
    have out: "c' = c1" "requests = [?req]" "retired_row row \<Longrightarrow> removed \<and> err = None" "gID row = eID e"
      using turn Inr p True f
      by (auto simp: gc_entry_def Let_def retired_row_def gc_row_def split: option.splits bool.splits)
    obtain g' where g': "loadUnlocked renv c1 = Inr g'"
        "Entries g' = Entries g \<and> \<not> (removed \<and> err = None) \<or> Entries g' = filter (\<lambda>x. x \<noteq> e) (Entries g)"
      using ForgetIfUnchanged_effect [OF g f] by metis
    from g'(2) have "gc_effect renv env apply minAge now conflicts [e] [row] requests (Entries g) (Entries g')"
    proof (elim disjE conjE)
      assume "Entries g' = Entries g" "\<not> (removed \<and> err = None)"
      with out d True show ?thesis using gc_effect_none by metis
    next
      assume "Entries g' = filter (\<lambda>x. x \<noteq> e) (Entries g)"
      then have "Entries g' = filter (\<lambda>x. x \<notin> {e}) (Entries g)" by simp
      with out d True show ?thesis unfolding gc_effect_def by (intro conjI exI [of _ "{e}"]) auto
    qed
    with g'(1) out(1) show ?thesis by blast
  qed
qed

lemma gc_entries_effect:
  assumes "loadUnlocked renv c = Inr g" "gc_entries renv env apply minAge now conflicts es c = ((rows, requests, errs), c')"
  shows "\<exists>g'. loadUnlocked renv c' = Inr g' \<and>
    gc_effect renv env apply minAge now conflicts es rows requests (Entries g) (Entries g')"
  using assms
proof (induction es arbitrary: c g rows requests errs)
  case Nil
  then show ?case by (auto simp: gc_effect_def)
next
  case (Cons e es)
  obtain row r1 e1 c1 where 1: "gc_entry renv env apply minAge now conflicts e c = ((row, r1, e1), c1)"
    by (metis prod.exhaust)
  obtain rows2 r2 e2 c2 where 2: "gc_entries renv env apply minAge now conflicts es c1 = ((rows2, r2, e2), c2)"
    by (metis prod.exhaust)
  have all: "rows = [row] @ rows2" "requests = r1 @ r2" "c2 = c'" using Cons.prems(2) 1 2 by auto
  obtain g1 where g1: "loadUnlocked renv c1 = Inr g1"
    "gc_effect renv env apply minAge now conflicts [e] [row] r1 (Entries g) (Entries g1)"
    using gc_entry_effect [OF Cons.prems(1) 1] by blast
  obtain g2 where g2: "loadUnlocked renv c2 = Inr g2"
    "gc_effect renv env apply minAge now conflicts es rows2 r2 (Entries g1) (Entries g2)"
    using Cons.IH [OF g1(1) 2 [unfolded all(3)]] all(3) by blast
  have "gc_effect renv env apply minAge now conflicts ([e] @ es) rows requests (Entries g) (Entries g2)"
    unfolding all by (rule gc_effect_append [OF g1(2) g2(2)])
  with g2(1) all(3) show ?case by auto
qed

section \<open>Retiring all or none\<close>

definition session_entry :: "renv \<Rightarrow> string \<Rightarrow> string \<Rightarrow> string \<Rightarrow> Entry \<Rightarrow> bool" where
  "session_entry renv root adapterName agent e \<longleftrightarrow>
     CanonicalRoot renv (eRoot e) = Inr root \<and> eAdapter e = adapterName \<and> eAgent e = agent"

lemma required_entries_Inr:
  assumes "required_entries renv root adapterName entries agents = Inr es"
  shows "list_all2 (\<lambda>agent e. e \<in> set entries \<and> session_entry renv root adapterName agent e) agents es"
  using assms
proof (induction agents arbitrary: es)
  case (Cons agent agents)
  let ?m = "filter (\<lambda>e. CanonicalRoot renv (eRoot e) = Inr root \<and> eAdapter e = adapterName \<and> eAgent e = agent) entries"
  obtain rest where r: "length ?m = 1" "required_entries renv root adapterName entries agents = Inr rest" "es = hd ?m # rest"
    using Cons.prems by (auto simp: Let_def split: if_splits sum.splits)
  have "hd ?m \<in> set ?m" using r(1) by (intro hd_in_set) auto
  then have "hd ?m \<in> set entries \<and> session_entry renv root adapterName agent (hd ?m)"
    unfolding session_entry_def by simp
  with Cons.IH [OF r(2)] r(3) show ?case by simp
qed simp

lemma absent_targets_Inr:
  assumes "absent_targets env selected es = Inr absent"
  shows "map fst absent = es \<and> (\<forall>(e, target, _) \<in> set absent. \<exists>m. aProbe selected target = Some (ErrTargetNotFound m))"
  using assms
  by (induction es arbitrary: absent) (auto split: sum.splits option.splits probeErr.splits)

lemma retire_entries_requests:
  "retire_entries renv env absent c = ((requests, errs), c') \<Longrightarrow>
     requests = map (\<lambda>(e, target, generation). retire_request env e target generation) absent"
  by (induction absent arbitrary: c requests errs) (auto simp: Let_def split: prod.splits)

lemma retireSession_cases:
  assumes "retireSession renv env rootFlag adapterName agentsFlag leaseErr loadIO c = ((requests, err), c')"
  obtains (nothing) "requests = []" "c' = c" "err \<noteq> None"
  | (retiring) root agents f entries selected absent errs where "CanonicalRoot renv rootFlag = Inr root"
      "parseRequiredAgents agentsFlag = Inr agents" "Load renv loadIO c = Inr f"
      "required_entries renv root adapterName (Entries f) agents = Inr entries" "rAdapters env adapterName = Some selected"
      "absent_targets env selected entries = Inr absent" "retire_entries renv env absent c = ((requests, errs), c')"
  using assms unfolding retireSession_def adapters_Get_def Let_def
  by (auto split: if_splits sum.splits option.splits prod.splits)

text \<open>
  \<^verbatim>\<open>retire-session\<close> asks to retire a wake only when every required agent has exactly its entry and the target
  of every one of them is proven absent; otherwise the registry stays as it is.
\<close>

lemma retire_session_all_or_none:
  assumes "retireSession renv env rootFlag adapterName agentsFlag leaseErr loadIO c = ((requests, err), c')"
  shows "requests = [] \<and> c' = c \<or>
    (\<exists>root agents f selected absent. CanonicalRoot renv rootFlag = Inr root \<and>
       parseRequiredAgents agentsFlag = Inr agents \<and> Load renv loadIO c = Inr f \<and> rAdapters env adapterName = Some selected \<and>
       list_all2 (\<lambda>agent (e, target, _). e \<in> set (Entries f) \<and> session_entry renv root adapterName agent e \<and>
         (\<exists>m. aProbe selected target = Some (ErrTargetNotFound m))) agents absent \<and>
       requests = map (\<lambda>(e, target, generation). retire_request env e target generation) absent)"
  using assms
proof (cases rule: retireSession_cases)
  case (retiring root agents f entries selected absent errs)
  note a = absent_targets_Inr [OF retiring(6)]
  have "list_all2 (\<lambda>agent x. fst x \<in> set (Entries f) \<and> session_entry renv root adapterName agent (fst x)) agents absent"
    using required_entries_Inr [OF retiring(4)] a [THEN conjunct1, symmetric] by (simp add: list_all2_map2)
  then have "list_all2 (\<lambda>agent (e, target, _). e \<in> set (Entries f) \<and> session_entry renv root adapterName agent e \<and>
         (\<exists>m. aProbe selected target = Some (ErrTargetNotFound m))) agents absent"
    by (rule list.rel_mono_strong) (use a in \<open>auto split: prod.splits\<close>)
  with retiring retire_entries_requests [OF retiring(7)] show ?thesis by blast
qed simp

definition example_retire :: retire_env where
  "example_retire =
     \<lparr>rAdapters = pAdapters example_pass, rCheckWake = (\<lambda>_ _. Inr \<lparr>LiveWake = True, Generation = ''g1''\<rparr>),
      rRetireWake = (\<lambda>_. None), rForgetIO = (\<lambda>_. no_faults), rSelf = ''ka'', rRender = (\<lambda>_. [])\<rparr>"

definition example_detached :: content where
  "example_detached =
     Decoded \<lparr>SchemaVersion = 1, Entries = [example_entry ''a'' ''%1'',
       (example_entry ''b'' ''%2'')\<lparr>eState := StateDetached, DetachedSince := 7\<rparr>]\<rparr>"

section \<open>Properties\<close>

text \<open>
  C25: whatever fails, a run of \<^verbatim>\<open>gc\<close> asks AMQ to retire a wake only with \<^verbatim>\<open>--apply\<close> and only for an entry that
  has been detached long enough, conflicts with no other entry and whose target a probe has just proven
  absent; the only change of the registry is that such entries are gone whose wake AMQ confirmed to have
  retired; and every entry that it reports as retired is gone.
\<close>

theorem gc_removes_only_retired:
  assumes "gc renv env apply minDetachedAge now None loadIO c = ((rows, requests, err), c')"
    and "0 \<le> minDetachedAge" "Load renv loadIO c = Inr f"
  shows "\<exists>f'. loadUnlocked renv c' = Inr f' \<and>
    gc_effect renv env apply minDetachedAge now (gc_conflicts env f) (Entries f) rows requests (Entries f) (Entries f')"
proof -
  obtain errs where "gc_entries renv env apply minDetachedAge now (gc_conflicts env f) (Entries f) c = ((rows, requests, errs), c')"
    using assms by (auto simp: gc_def Let_def split: prod.splits)
  from gc_entries_effect [OF Load_Inr [OF assms(3)] this] show ?thesis .
qed

theorem gc_removes_only_retired_witness:
  "\<exists>rows requests c' f'. gc plain_env example_retire True 10 100 None no_faults example_detached = ((rows, requests, None), c') \<and>
     map gStatus rows = [''skipped'', ''retired''] \<and> length requests = 1 \<and> loadUnlocked plain_env c' = Inr f' \<and>
     gc_effect plain_env example_retire True 10 100
       (gc_conflicts example_retire \<lparr>SchemaVersion = 1, Entries = [example_entry ''a'' ''%1'',
         (example_entry ''b'' ''%2'')\<lparr>eState := StateDetached, DetachedSince := 7\<rparr>]\<rparr>)
       [example_entry ''a'' ''%1'', (example_entry ''b'' ''%2'')\<lparr>eState := StateDetached, DetachedSince := 7\<rparr>] rows requests
       [example_entry ''a'' ''%1'', (example_entry ''b'' ''%2'')\<lparr>eState := StateDetached, DetachedSince := 7\<rparr>] (Entries f')"
proof -
  have run: "let ((rows, requests, err), c') = gc plain_env example_retire True 10 100 None no_faults example_detached in
      map gStatus rows = [''skipped'', ''retired''] \<and> length requests = 1 \<and> err = None"
    by code_simp
  obtain rows requests err c' where g:
    "gc plain_env example_retire True 10 100 None no_faults example_detached = ((rows, requests, err), c')"
    by (metis prod.exhaust)
  have l: "Load plain_env no_faults example_detached = Inr \<lparr>SchemaVersion = 1, Entries = [example_entry ''a'' ''%1'',
       (example_entry ''b'' ''%2'')\<lparr>eState := StateDetached, DetachedSince := 7\<rparr>]\<rparr>"
    by code_simp
  show ?thesis using gc_removes_only_retired [OF g _ l] run g by auto
qed

end
