(* ===== verification/Keepalive_Register.thy ===== *)
theory Keepalive_Register
  imports Keepalive_Gc
begin

text \<open>
  Attaching a terminal to an agent (\<^verbatim>\<open>attach\<close> and \<^verbatim>\<open>reattach\<close>, that is \<^verbatim>\<open>registerWithOptions\<close> of
  \<^verbatim>\<open>internal/keepalive/app/app.go\<close>). A reattach first replaces the entry of its root and agent by an
  inactive reservation, then starts the wake, and on a failure restores what it replaced, unless the
  wake may have started. The answers of AMQ and of the terminals and the errors of every transaction are
  arguments.
\<close>

section \<open>Options\<close>

record registerOptions =
  oAdapterName :: string
  oTarget :: string
  oRoot :: string
  oBaseRoot :: string
  oSessionName :: string
  oMe :: string
  oSelf :: string
  oWakeTimeout :: duration
  oNoStart :: bool
  oReplace :: bool
  oRetireDetached :: bool

record amqEnv =
  envRoot :: string
  envBaseRoot :: string
  envSessionName :: string
  envMe :: string

datatype apperr =
    AppErr string
  | RegistryErr regerr
  | ProbeFailed probeErr
  | StartErr string bool
  | Wrapped string apperr
  | Joined apperr apperr

text \<open>\<^verbatim>\<open>errors.Is(err, amq.ErrWakeReadinessUncertain)\<close>\<close>

fun readinessUncertain :: "apperr \<Rightarrow> bool" where
  "readinessUncertain (StartErr _ u) = u"
| "readinessUncertain (Wrapped _ e) = readinessUncertain e"
| "readinessUncertain (Joined a b) = (readinessUncertain a \<or> readinessUncertain b)"
| "readinessUncertain _ = False"

definition normalizeAMQPaths :: "renv \<Rightarrow> string \<Rightarrow> string \<Rightarrow> string \<Rightarrow> string \<times> string" where
  "normalizeAMQPaths renv rawRoot rawBase rawSession =
     (let root = trimSpace rawRoot; base0 = trimSpace rawBase; sessionName = trimSpace rawSession;
          baseRoot = (if base0 \<noteq> [] \<and> \<not> IsAbs base0
                      then (case path_Abs (getwd renv) base0 of Inr ap \<Rightarrow> ap | Inl _ \<Rightarrow> base0) else base0) in
      if root = [] \<or> IsAbs root then (root, baseRoot)
      else if baseRoot \<noteq> [] \<and> IsAbs baseRoot \<and> sessionName \<noteq> [] \<and> path_Base root = sessionName
        then (path_Join baseRoot sessionName, baseRoot)
      else if baseRoot \<noteq> [] \<and> IsAbs baseRoot \<and> path_Base root = path_Base baseRoot then (baseRoot, baseRoot)
      else case path_Abs (getwd renv) root of Inr ap \<Rightarrow> (ap, baseRoot) | Inl _ \<Rightarrow> (root, baseRoot))"

definition fill :: "string \<Rightarrow> string \<Rightarrow> string" where
  "fill given found = (if given = [] then found else given)"

text \<open>The options that \<^verbatim>\<open>amq env\<close> fills in; when it fails, nothing does.\<close>

definition environment_options :: "string + amqEnv \<Rightarrow> registerOptions \<Rightarrow> apperr + registerOptions" where
  "environment_options answer opts =
     (if oRoot opts = [] \<or> oMe opts = [] \<or> oBaseRoot opts = [] \<or> oSessionName opts = [] then
        (case answer of
           Inl e \<Rightarrow> if oRoot opts = [] \<or> oMe opts = [] then Inl (AppErr e) else Inr opts
         | Inr found \<Rightarrow>
             Inr (opts\<lparr>oRoot := fill (oRoot opts) (envRoot found), oBaseRoot := fill (oBaseRoot opts) (envBaseRoot found),
               oSessionName := fill (oSessionName opts) (envSessionName found), oMe := fill (oMe opts) (envMe found)\<rparr>))
      else Inr opts)"

section \<open>The target\<close>

definition registrationOwnershipContext :: "adapter \<Rightarrow> string \<Rightarrow> OwnershipContext" where
  "registrationOwnershipContext selected target =
     (if aName selected \<noteq> ''cmux'' then []
      else case aDiscover selected of
        None \<Rightarrow> []
      | Some (Inl _) \<Rightarrow> []
      | Some (Inr discovered) \<Rightarrow>
          (case (case aNormalize selected of None \<Rightarrow> Inr discovered | Some normalizer \<Rightarrow> normalizer discovered) of
             Inl _ \<Rightarrow> []
           | Inr d \<Rightarrow> if d \<noteq> target then [] else target))"

text \<open>The inventory in which the target exists, if the adapter has inventories.\<close>

definition registrationTargetInventory :: "adapter \<Rightarrow> string \<Rightarrow> OwnershipContext \<Rightarrow> probeErr + inventory option" where
  "registrationTargetInventory selected target own =
     (case aInventory selected of
        None \<Rightarrow> (case aProbe selected target of None \<Rightarrow> Inr None | Some e \<Rightarrow> Inl e)
      | Some provider \<Rightarrow>
          (case provider own of
             Inl e \<Rightarrow> Inl e
           | Inr None \<Rightarrow> Inl (ProbeErr ''adapter returned a nil target inventory'')
           | Inr (Some inventory) \<Rightarrow>
               (case iProbe inventory target of None \<Rightarrow> Inr (Some inventory) | Some e \<Rightarrow> Inl e)))"

definition sameCanonicalRootAgent :: "renv \<Rightarrow> Entry \<Rightarrow> Entry \<Rightarrow> regerr + bool" where
  "sameCanonicalRootAgent renv left right =
     (if eAgent left \<noteq> eAgent right then Inr False
      else case CanonicalRoot renv (eRoot left) of
        Inl e \<Rightarrow> Inl e
      | Inr l \<Rightarrow> (case CanonicalRoot renv (eRoot right) of Inl e \<Rightarrow> Inl e | Inr r \<Rightarrow> Inr (l = r)))"

text \<open>The loop of \<^verbatim>\<open>checkPhysicalTargetAvailable\<close> over the registered entries.\<close>

fun physical_owners ::
    "renv \<Rightarrow> adapter \<Rightarrow> inventory \<Rightarrow> Entry \<Rightarrow> bool \<Rightarrow> string \<Rightarrow> Entry list \<Rightarrow> apperr option" where
  "physical_owners renv selected inventory candidate ignoreSame candidateKey [] = None"
| "physical_owners renv selected inventory candidate ignoreSame candidateKey (existing # entries) =
     (let continue = physical_owners renv selected inventory candidate ignoreSame candidateKey entries;
          owner = (if ignoreSame then sameCanonicalRootAgent renv existing candidate else Inr False) in
      if eAdapter existing \<noteq> eAdapter candidate \<or> eID existing = eID candidate then continue
      else case owner of
        Inl e \<Rightarrow> Some (Wrapped ''canonicalize registered AMQ root'' (RegistryErr e))
      | Inr True \<Rightarrow> continue
      | Inr False \<Rightarrow>
          (case normalizedTarget selected (eTarget existing) of
             Inl e \<Rightarrow> Some (Wrapped ''resolve registered target ownership'' (AppErr e))
           | Inr target \<Rightarrow>
               (case iOwnershipKey inventory target of
                  Inl (ErrTargetNotFound _) \<Rightarrow> continue
                | Inl (ErrTargetDegraded m) \<Rightarrow>
                    (case iDegradedKey inventory (ErrTargetDegraded m) of
                       None \<Rightarrow> Some (Wrapped ''resolve registered physical target ownership'' (ProbeFailed (ErrTargetDegraded m)))
                     | Some key \<Rightarrow> if key \<noteq> candidateKey then continue else Some (RegistryErr (ErrTargetOwned (eID existing))))
                | Inl e \<Rightarrow> Some (Wrapped ''resolve registered physical target ownership'' (ProbeFailed e))
                | Inr key \<Rightarrow> if key = candidateKey then Some (RegistryErr (ErrTargetOwned (eID existing))) else continue)))"

definition checkPhysicalTargetAvailable ::
    "renv \<Rightarrow> File \<Rightarrow> adapter \<Rightarrow> inventory \<Rightarrow> Entry \<Rightarrow> bool \<Rightarrow> apperr option" where
  "checkPhysicalTargetAvailable renv file selected inventory candidate ignoreSame =
     (case iOwnershipKey inventory (eTarget candidate) of
        Inl e \<Rightarrow> Some (Wrapped ''resolve requested physical target ownership'' (ProbeFailed e))
      | Inr candidateKey \<Rightarrow>
          physical_owners renv selected inventory candidate ignoreSame candidateKey (Entries file))"

section \<open>Starting the wake\<close>

text \<open>What one attempt to start the wake meets; \<open>atUncertain\<close> tells that its error says that the wake may
  have started.\<close>

record attempt =
  atProbe :: "string \<Rightarrow> probeErr option"
  atStart :: "StartWakeRequest \<Rightarrow> string option"
  atUncertain :: bool
  atCtx :: ctx
  atNow :: time
  atRand :: "int \<Rightarrow> int option"

record register_io =
  leaseIO :: "goerr option"
  loadIO :: regio
  checkIO :: regio
  replaceIO :: regio
  upsertIO :: regio
  updateIO :: regio
  restoreIO :: regio

record register_env =
  rgEnv :: "string + amqEnv"
  rgAMQ :: retire_env
  rgFirst :: attempt
  rgSecond :: attempt
  rgNow :: time
  rgIO :: register_io

definition attempt_reconciler :: "registerOptions \<Rightarrow> inventory option \<Rightarrow> attempt \<Rightarrow> Reconciler" where
  "attempt_reconciler opts inventory at =
     \<lparr>Wake = Some (atStart at), Adapter = Some (case inventory of None \<Rightarrow> atProbe at | Some i \<Rightarrow> iProbe i),
      BackoffBase = 0, BackoffMax = 0, Jitter = None, InjectVia = oSelf opts, WakeTimeout = oWakeTimeout opts,
      ActiveCheckInterval = 0, DetachedBackoffBase = 0, DetachedBackoffMax = 0, rand_int = atRand at\<rparr>"

definition attempt_error :: "attempt \<Rightarrow> Result \<Rightarrow> apperr option" where
  "attempt_error at result = map_option (\<lambda>m. StartErr m (AMQTouched result \<and> atUncertain at)) (rError result)"

definition start_fresh :: "registerOptions \<Rightarrow> inventory option \<Rightarrow> attempt \<Rightarrow> Entry \<Rightarrow> Entry \<times> apperr option" where
  "start_fresh opts inventory at entry =
     (case StartFresh (attempt_reconciler opts inventory at) (atCtx at) entry (atNow at) of
        (_, updated, result) \<Rightarrow> (updated, attempt_error at result))"

fun matching_entries :: "renv \<Rightarrow> Entry \<Rightarrow> Entry list \<Rightarrow> regerr + Entry list" where
  "matching_entries renv candidate [] = Inr []"
| "matching_entries renv candidate (e # es) =
     (case sameCanonicalRootAgent renv e candidate of
        Inl err \<Rightarrow> Inl err
      | Inr same \<Rightarrow>
          (case matching_entries renv candidate es of
             Inl err \<Rightarrow> Inl err
           | Inr rest \<Rightarrow> Inr (if same then e # rest else rest)))"

text \<open>The part of \<^verbatim>\<open>recoverDetachedRegistration\<close> after the previous target is proven absent: the requests to retire
  a wake, the entry, whether the wake is ready, and the error.\<close>

definition recover_absent ::
    "register_env \<Rightarrow> registerOptions \<Rightarrow> inventory option \<Rightarrow> Entry \<Rightarrow> string \<Rightarrow> Entry \<Rightarrow>
     RetireWakeRequest list \<times> Entry \<times> bool \<times> apperr option" where
  "recover_absent env opts inventory previous target candidate =
     (case observeWakeGeneration (rgAMQ env) (eRoot candidate) (eAgent candidate) of
        Inl e \<Rightarrow> ([], candidate, False, Some (AppErr e))
      | Inr generation \<Rightarrow>
          (case start_fresh opts inventory (rgFirst env) candidate of
             (updated, None) \<Rightarrow> ([], updated, True, None)
           | (updated, Some e) \<Rightarrow>
               (if readinessUncertain e
                then ([], updated, False, Some (Wrapped ''recover detached wake has uncertain readiness'' e))
                else
                  (let request = \<lparr>rwRoot = eRoot candidate, rwMe = eAgent candidate, rwInjectVia = oSelf opts,
                         rwAdapter = eAdapter previous, rwTarget = target, rwGeneration = generation\<rparr> in
                   case rRetireWake (rgAMQ env) request of
                     Some re \<Rightarrow> ([request], candidate, False, Some (Wrapped ''retiring the previous wake was not confirmed'' (AppErr re)))
                   | None \<Rightarrow>
                       (case start_fresh opts inventory (rgSecond env) candidate of
                          (retried, None) \<Rightarrow> ([request], retried, True, None)
                        | (retried, Some e2) \<Rightarrow>
                            (if readinessUncertain e2
                             then ([request], retried, False, Some (Wrapped ''uncertain readiness after retiring the previous wake'' e2))
                             else ([request], candidate, False, Some (Wrapped ''exact-target start still failed'' e2))))))))"

definition recoverDetachedRegistration ::
    "renv \<Rightarrow> register_env \<Rightarrow> registerOptions \<Rightarrow> inventory option \<Rightarrow> Entry list \<Rightarrow> Entry \<Rightarrow>
     RetireWakeRequest list \<times> Entry \<times> bool \<times> apperr option" where
  "recoverDetachedRegistration renv env opts inventory previousEntries candidate =
     (case matching_entries renv candidate previousEntries of
        Inl e \<Rightarrow> ([], candidate, False, Some (Wrapped ''canonicalize previous AMQ root'' (RegistryErr e)))
      | Inr [] \<Rightarrow> ([], candidate, False, None)
      | Inr [previous] \<Rightarrow>
          (if eAdapter previous = eAdapter candidate \<and> eTarget previous = eTarget candidate then ([], candidate, False, None)
           else case adapters_Get (rAdapters (rgAMQ env)) (eAdapter previous) of
             Inl e \<Rightarrow> ([], candidate, False, Some (Wrapped ''load previous adapter'' (AppErr e)))
           | Inr previousAdapter \<Rightarrow>
               (case (case aNormalize previousAdapter of
                        None \<Rightarrow> Inr (eTarget previous) | Some normalizer \<Rightarrow> normalizer (eTarget previous)) of
                  Inl e \<Rightarrow> ([], candidate, False, Some (Wrapped ''normalize previous target'' (AppErr e)))
                | Inr target \<Rightarrow>
                    (case aProbe previousAdapter target of
                       None \<Rightarrow> ([], candidate, False, None)
                     | Some (ErrTargetNotFound _) \<Rightarrow> recover_absent env opts inventory previous target candidate
                     | Some e \<Rightarrow> ([], candidate, False, Some (Wrapped ''target absence is not proven'' (ProbeFailed e))))))
      | Inr _ \<Rightarrow> ([], candidate, False, Some (AppErr ''refusing detached wake recovery: expected one registry entry'')))"

definition resolveRegistrationReadinessFailure ::
    "renv \<Rightarrow> register_io \<Rightarrow> Entry \<Rightarrow> Entry \<Rightarrow> Entry list \<Rightarrow> apperr \<Rightarrow> content \<Rightarrow> apperr \<times> content" where
  "resolveRegistrationReadinessFailure renv io reservation candidate removed readinessErr c =
     (if readinessUncertain readinessErr then
        (if candidate \<noteq> reservation then
           (case UpdateEntry renv (updateIO io) candidate c of
              (Some ue, c') \<Rightarrow> (Joined readinessErr (Wrapped ''recording its retry state failed'' (RegistryErr ue)), c')
            | (None, c') \<Rightarrow> (Wrapped ''the attached registry reservation was preserved'' readinessErr, c'))
         else (Wrapped ''the attached registry reservation was preserved'' readinessErr, c))
      else
        (case RestoreSessionAdapterIfUnchanged renv (restoreIO io) reservation removed c of
           ((_, Some re), c') \<Rightarrow> (Joined readinessErr (Wrapped ''restore previous registry entries'' (RegistryErr re)), c')
         | ((False, None), c') \<Rightarrow> (Joined readinessErr (AppErr ''registry reservation changed''), c')
         | ((True, None), c') \<Rightarrow> (readinessErr, c')))"

section \<open>The transactions\<close>

text \<open>The registered entry and the entries it replaced, the requests to retire a wake, and the registry.\<close>

type_synonym registered = "(apperr + Entry \<times> Entry list) \<times> RetireWakeRequest list \<times> content"

definition readiness_failed ::
    "renv \<Rightarrow> register_env \<Rightarrow> Entry \<Rightarrow> Entry \<Rightarrow> Entry list \<Rightarrow> RetireWakeRequest list \<Rightarrow> apperr \<Rightarrow> content \<Rightarrow> registered" where
  "readiness_failed renv env reservation candidate removed requests e c =
     (case resolveRegistrationReadinessFailure renv (rgIO env) reservation candidate removed e c of
        (err, c') \<Rightarrow> (Inl err, requests, c'))"

definition start_reserved ::
    "renv \<Rightarrow> register_env \<Rightarrow> registerOptions \<Rightarrow> inventory option \<Rightarrow> Entry \<Rightarrow> Entry list \<Rightarrow> content \<Rightarrow> registered" where
  "start_reserved renv env opts inventory reservation removed c =
     (case (if oRetireDetached opts then recoverDetachedRegistration renv env opts inventory removed reservation
            else ([], reservation, False, None)) of
        (requests, candidate, _, Some e) \<Rightarrow> readiness_failed renv env reservation candidate removed requests e c
      | (requests, candidate, ready, None) \<Rightarrow>
          (case (if ready then (candidate, None) else start_fresh opts inventory (rgFirst env) candidate) of
             (updated, Some e) \<Rightarrow> readiness_failed renv env reservation updated removed requests e c
           | (updated, None) \<Rightarrow>
               (case UpdateEntry renv (updateIO (rgIO env)) updated c of
                  (Some e, c') \<Rightarrow> (Inl (Wrapped ''marking it active failed'' (RegistryErr e)), requests, c')
                | (None, c') \<Rightarrow> (Inr (updated, removed), requests, c'))))"

definition reattach_locked ::
    "renv \<Rightarrow> register_env \<Rightarrow> registerOptions \<Rightarrow> inventory option \<Rightarrow> Entry \<Rightarrow> content \<Rightarrow> registered" where
  "reattach_locked renv env opts inventory candidate c =
     (case CheckTargetAvailable renv (rgNow env) (checkIO (rgIO env)) candidate True c of
        (Some e, c0) \<Rightarrow> (Inl (RegistryErr e), [], c0)
      | (None, c0) \<Rightarrow>
          (case ReplaceSessionAdapter renv (rgNow env) (replaceIO (rgIO env)) candidate c0 of
             ((_, _, Some e), c1) \<Rightarrow> (Inl (RegistryErr e), [], c1)
           | ((None, removed, None), c1) \<Rightarrow> (Inr (candidate, removed), [], c1)
           | ((Some reservation, removed, None), c1) \<Rightarrow>
               (if oNoStart opts then (Inr (reservation, removed), [], c1)
                else start_reserved renv env opts inventory reservation removed c1)))"

definition attach_locked ::
    "renv \<Rightarrow> register_env \<Rightarrow> registerOptions \<Rightarrow> inventory option \<Rightarrow> Entry \<Rightarrow> content \<Rightarrow> registered" where
  "attach_locked renv env opts inventory candidate c =
     (case Upsert renv (rgNow env) (upsertIO (rgIO env)) candidate c of
        ((_, Some e), c1) \<Rightarrow> (Inl (RegistryErr e), [], c1)
      | ((None, None), c1) \<Rightarrow> (Inr (candidate, []), [], c1)
      | ((Some entry, None), c1) \<Rightarrow>
          (if oNoStart opts then (Inr (entry, []), [], c1)
           else
             (let (_, updated, result) =
                    Reconcile (attempt_reconciler opts inventory (rgFirst env)) (atCtx (rgFirst env)) entry (atNow (rgFirst env)) in
              case UpdateEntry renv (updateIO (rgIO env)) updated c1 of
                (Some e, c2) \<Rightarrow> (Inl (RegistryErr e), [], c2)
              | (None, c2) \<Rightarrow>
                  (case attempt_error (rgFirst env) result of
                     Some e \<Rightarrow> if Action result \<noteq> ActionDetached then (Inl e, [], c2) else (Inr (updated, []), [], c2)
                   | None \<Rightarrow> (Inr (updated, []), [], c2)))))"

text \<open>The body under the registration lease: the target is looked up afresh and must be free.\<close>

definition register_locked ::
    "renv \<Rightarrow> register_env \<Rightarrow> registerOptions \<Rightarrow> adapter \<Rightarrow> OwnershipContext \<Rightarrow> Entry \<Rightarrow> content \<Rightarrow> registered" where
  "register_locked renv env opts selected own candidate c =
     (case registrationTargetInventory selected (eTarget candidate) own of
        Inl e \<Rightarrow> (Inl (ProbeFailed e), [], c)
      | Inr inventory \<Rightarrow>
          (case Load renv (loadIO (rgIO env)) c of
             Inl e \<Rightarrow> (Inl (RegistryErr e), [], c)
           | Inr file \<Rightarrow>
               (case (case inventory of
                        None \<Rightarrow> None
                      | Some i \<Rightarrow> checkPhysicalTargetAvailable renv file selected i candidate (oReplace opts)) of
                  Some e \<Rightarrow> (Inl e, [], c)
                | None \<Rightarrow>
                    (let keyed = (case inventory of
                            None \<Rightarrow> candidate
                          | Some i \<Rightarrow> (case iOwnershipKey i (eTarget candidate) of
                              Inl _ \<Rightarrow> candidate | Inr key \<Rightarrow> candidate\<lparr>OwnershipKey := key\<rparr>)) in
                     if oReplace opts then reattach_locked renv env opts inventory keyed c
                     else attach_locked renv env opts inventory keyed c))))"

definition registration_entry :: "renv \<Rightarrow> registerOptions \<Rightarrow> Entry" where
  "registration_entry renv opts =
     \<lparr>eID = EntryID renv (oRoot opts) (oMe opts) (oAdapterName opts) (oTarget opts), eRoot = oRoot opts,
      BaseRoot = oBaseRoot opts, SessionName = oSessionName opts, eAgent = oMe opts, eAdapter = oAdapterName opts,
      eTarget = oTarget opts, OwnershipKey = [], eState = StateAttached, LastAttach = zero_time,
      LastSeenBySupervisor = zero_time, FailureCount = 0, BackoffUntil = zero_time, NextHealthCheck = zero_time,
      DetachedSince = zero_time, LastError = [], LastSupervisorDecision = []\<rparr>"

text \<open>The target to register: the given one or a discovered one, normalized.\<close>

definition registration_target :: "adapter \<Rightarrow> string \<Rightarrow> apperr + string" where
  "registration_target selected given =
     (case (if given \<noteq> [] then Inr given
            else case aDiscover selected of
              None \<Rightarrow> Inl (AppErr ''--target is required'')
            | Some (Inl e) \<Rightarrow> Inl (AppErr e)
            | Some (Inr discovered) \<Rightarrow> Inr discovered) of
        Inl e \<Rightarrow> Inl e
      | Inr target \<Rightarrow>
          (case aNormalize selected of
             None \<Rightarrow> Inr target
           | Some normalizer \<Rightarrow> (case normalizer target of Inl e \<Rightarrow> Inl (AppErr e) | Inr t \<Rightarrow> Inr t)))"

text \<open>What is settled before the lease is taken: the adapter and the options in their final form.\<close>

definition resolve_options :: "renv \<Rightarrow> register_env \<Rightarrow> registerOptions \<Rightarrow> apperr + adapter \<times> registerOptions" where
  "resolve_options renv env given =
     (case environment_options (rgEnv env) given of
        Inl e \<Rightarrow> Inl e
      | Inr opts \<Rightarrow>
          (let (root, baseRoot) = normalizeAMQPaths renv (oRoot opts) (oBaseRoot opts) (oSessionName opts) in
           case CanonicalRoot renv root of
             Inl e \<Rightarrow> Inl (Wrapped ''canonicalize AMQ root'' (RegistryErr e))
           | Inr canonical \<Rightarrow>
               (case adapters_Get (rAdapters (rgAMQ env)) (oAdapterName opts) of
                  Inl e \<Rightarrow> Inl (AppErr e)
                | Inr selected \<Rightarrow>
                    (case registration_target selected (oTarget opts) of
                       Inl e \<Rightarrow> Inl e
                     | Inr target \<Rightarrow>
                         Inr (selected, opts\<lparr>oRoot := canonical, oBaseRoot := baseRoot, oTarget := target\<rparr>)))))"

definition registerWithOptions :: "renv \<Rightarrow> register_env \<Rightarrow> registerOptions \<Rightarrow> content \<Rightarrow> registered" where
  "registerWithOptions renv env given c =
     (case resolve_options renv env given of
        Inl e \<Rightarrow> (Inl e, [], c)
      | Inr (selected, opts) \<Rightarrow>
          (case leaseIO (rgIO env) of
             Some e \<Rightarrow> (Inl (RegistryErr (OSError e)), [], c)
           | None \<Rightarrow>
               register_locked renv env opts selected (registrationOwnershipContext selected (oTarget opts))
                 (registration_entry renv opts) c))"

end
