(* ===== verification/Keepalive_Safety.thy ===== *)
theory Keepalive_Safety
  imports Keepalive_Register
begin

text \<open>
  What an attach and a reattach leave in the registry, with and without failures.
\<close>

section \<open>Ownership over a registration\<close>

lemma good_ops:
  assumes "registry_good renv c"
  shows "registry_good renv (snd (CheckTargetAvailable renv now io e b c))"
    "registry_good renv (snd (ReplaceSessionAdapter renv now io e c))"
    "registry_good renv (snd (UpdateEntry renv io e c))" "registry_good renv (snd (Upsert renv now io e c))"
  using reg_exec_good [OF assms, of "DoCheck now e b" io] reg_exec_good [OF assms, of "DoReplace now e" io]
    reg_exec_good [OF assms, of "DoUpdate e" io] reg_exec_good [OF assms, of "DoUpsert now e" io] by simp_all

lemma readiness_failed_good:
  assumes "registry_good renv c" "ReplaceSessionAdapter renv now io e c = ((Some p, removed, None), c1)"
  shows "registry_good renv (snd (snd (readiness_failed renv env p candidate removed requests err c1)))"
proof -
  have g1: "registry_good renv c1" using good_ops(2) [OF assms(1), of now io e] assms(2) by simp
  have "registry_good renv (snd (RestoreSessionAdapterIfUnchanged renv (restoreIO (rgIO env)) p removed c1))"
    using rollback_good [OF assms, of "[]" "restoreIO (rgIO env)"] by simp
  with g1 good_ops(3) [OF g1, of "updateIO (rgIO env)" candidate] show ?thesis
    by (auto simp: readiness_failed_def resolveRegistrationReadinessFailure_def split: prod.splits option.splits bool.splits)
qed

lemma start_reserved_good:
  assumes "registry_good renv c" "ReplaceSessionAdapter renv now io e c = ((Some p, removed, None), c1)"
  shows "registry_good renv (snd (snd (start_reserved renv env opts inventory p removed c1)))"
proof -
  have g1: "registry_good renv c1" using good_ops(2) [OF assms(1), of now io e] assms(2) by simp
  have u: "registry_good renv c2" if "UpdateEntry renv i x c1 = (r, c2)" for i x r c2
    using good_ops(3) [OF g1, of i x] that by simp
  obtain requests candidate ready err where rec: "(if oRetireDetached opts
      then recoverDetachedRegistration renv env opts inventory removed p else ([], p, False, None)) = (requests, candidate, ready, err)"
    by (metis prod.exhaust)
  obtain updated err2 where st: "(if ready then (candidate, None) else start_fresh opts inventory (rgFirst env) candidate) = (updated, err2)"
    by fastforce
  obtain r c2 where up: "UpdateEntry renv (updateIO (rgIO env)) updated c1 = (r, c2)" by fastforce
  show ?thesis
    using readiness_failed_good [OF assms] u [OF up]
    by (cases err; cases err2; cases r) (simp_all add: start_reserved_def rec st up)
qed

lemma reattach_locked_good:
  assumes "registry_good renv c"
  shows "registry_good renv (snd (snd (reattach_locked renv env opts inventory candidate c)))"
proof -
  obtain r c0 where c0: "CheckTargetAvailable renv (rgNow env) (checkIO (rgIO env)) candidate True c = (r, c0)" by fastforce
  have g0: "registry_good renv c0" using good_ops(1) [OF assms] c0 by (metis snd_conv)
  obtain x removed err c1 where c1:
    "ReplaceSessionAdapter renv (rgNow env) (replaceIO (rgIO env)) candidate c0 = ((x, removed, err), c1)" by (metis prod.exhaust)
  have g1: "registry_good renv c1" using good_ops(2) [OF g0] c1 by (metis snd_conv)
  show ?thesis
  proof (cases "r = None \<and> err = None \<and> \<not> oNoStart opts")
    case True
    with c0 c1 g1 start_reserved_good [OF g0, of "rgNow env" "replaceIO (rgIO env)" candidate] show ?thesis
      by (cases x) (auto simp: reattach_locked_def)
  next
    case False
    with c0 c1 g0 g1 show ?thesis by (auto simp: reattach_locked_def split: option.splits)
  qed
qed

lemma attach_locked_good:
  assumes "registry_good renv c"
  shows "registry_good renv (snd (snd (attach_locked renv env opts inventory candidate c)))"
proof -
  obtain x err c1 where c1: "Upsert renv (rgNow env) (upsertIO (rgIO env)) candidate c = ((x, err), c1)" by (metis prod.exhaust)
  have g1: "registry_good renv c1" using good_ops(4) [OF assms] c1 by (metis snd_conv)
  have u: "registry_good renv c2" if "UpdateEntry renv i y c1 = (r, c2)" for i y r c2
    using good_ops(3) [OF g1, of i y] that by simp
  show ?thesis
    using c1 g1 u by (auto simp: attach_locked_def Let_def split: prod.splits option.splits)
qed

lemma registerWithOptions_good:
  assumes "registry_good renv c"
  shows "registry_good renv (snd (snd (registerWithOptions renv env opts c)))"
  using assms reattach_locked_good [OF assms] attach_locked_good [OF assms]
  by (auto simp: registerWithOptions_def register_locked_def Let_def split: prod.split sum.split option.split)

text \<open>A reattach asks to retire the previous wake only when the target of that wake is proven absent.\<close>

lemma matching_entries_subset: "matching_entries renv e es = Inr ms \<Longrightarrow> set ms \<subseteq> set es"
  by (induction es arbitrary: ms) (auto split: sum.splits if_splits)

lemma recover_retires_absent:
  assumes "recoverDetachedRegistration renv env opts inventory previousEntries e = (requests, rest)" "request \<in> set requests"
  shows "\<exists>previous \<in> set previousEntries. \<exists>selected m. rAdapters (rgAMQ env) (eAdapter previous) = Some selected \<and>
    rwAdapter request = eAdapter previous \<and> aProbe selected (rwTarget request) = Some (ErrTargetNotFound m)"
proof -
  have "rwAdapter request = eAdapter previous \<and> rwTarget request = target"
    if "recover_absent env opts inventory previous target e = (requests, rest)" for previous target
    using that assms(2) unfolding recover_absent_def Let_def
    by (auto split: sum.splits prod.splits option.splits if_splits)
  with assms matching_entries_subset [of renv e previousEntries] show ?thesis
    unfolding recoverDetachedRegistration_def adapters_Get_def
    by (auto split: sum.splits list.splits if_splits option.splits probeErr.splits)
qed

section \<open>Outcome of a reattach\<close>

definition ideal_io :: register_io where
  "ideal_io = \<lparr>leaseIO = None, loadIO = no_faults, checkIO = no_faults, replaceIO = no_faults, upsertIO = no_faults,
     updateIO = no_faults, restoreIO = no_faults\<rparr>"

text \<open>The registry \<open>f\<close> with \<open>p\<close> in the place of the entries of its root and agent.\<close>

definition registered_as :: "renv \<Rightarrow> File \<Rightarrow> Entry \<Rightarrow> content \<Rightarrow> bool" where
  "registered_as renv f p c \<longleftrightarrow> loadUnlocked renv c = Inr (f\<lparr>Entries := sortEntries (reserved renv p (Entries f))\<rparr>)"

lemma reserved_valid:
  assumes "valid_entries renv (reserved renv p es)" "sameEntryIdentity p p'"
  shows "valid_entries renv (reserved renv p' es)"
proof -
  have same: "sameRootAgent renv e p' = sameRootAgent renv e p" for e
    using assms(2) by (simp add: sameEntryIdentity_def sameRootAgent_def)
  have "eID p' = eID p" using assms(2) by (simp add: sameEntryIdentity_def)
  with assms valid_same_identity [OF assms(2)] show ?thesis unfolding same valid_entries_def by auto
qed

lemma UpdateEntry_registered:
  assumes "registered_as renv f p c" "SchemaVersion f = currentSchema" "valid_entries renv (reserved renv p (Entries f))"
    and "sameEntryIdentity p p'"
  shows "\<exists>c'. UpdateEntry renv no_faults p' c = (None, c') \<and> registered_as renv f p' c'"
proof -
  let ?es = "sortEntries (reserved renv p (Entries f))"
  let ?new = "replace_entry (eID p') p' ?es"
  have i: "eID p' = eID p" using assms(4) by (simp add: sameEntryIdentity_def)
  have same: "sameRootAgent renv e p' = sameRootAgent renv e p" for e
    using assms(4) by (simp add: sameEntryIdentity_def sameRootAgent_def)
  have d: "distinct (map eID ?es)" using assms(3) by (simp add: valid_entries_def)
  have vp: "validateEntryIdentity renv p = None" using assms(3) by (simp add: valid_entries_def)
  have found: "find (\<lambda>e. eID e = eID p') ?es = Some p" using find_id_distinct [OF d, of p] i by simp
  have other: "eID e \<noteq> eID p" if "e \<in> set (filter (\<lambda>e. \<not> sameRootAgent renv e p) (Entries f))" for e
    using that assms(3) by (auto simp: valid_entries_def image_iff)
  have v': "valid_entries renv (reserved renv p' (Entries f))" using reserved_valid [OF assms(3,4)] .
  have set_new: "set ?new = set (reserved renv p' (Entries f))"
    using other i unfolding same by (auto simp: set_replace_entry [OF d])
  have dn: "distinct (map eID ?new)" using d by simp
  have "valid_entries renv ?new" using v' set_new dn by (simp add: valid_entries_def)
  moreover have body: "update_body renv p' (f\<lparr>Entries := ?es\<rparr>) = Inr (Some (f\<lparr>Entries := ?new\<rparr>))"
    using found valid_same_identity [OF assms(4) vp] assms(4) by (simp add: update_body_def)
  ultimately have t: "transact renv no_faults (update_body renv p') c =
      (None, Decoded \<lparr>SchemaVersion = currentSchema, Entries = sortEntries ?new\<rparr>)"
    using transact_saves [where body = "update_body renv p'" and f = "f\<lparr>Entries := ?es\<rparr>"] assms(1)
    by (simp add: registered_as_def)
  have "sortEntries ?new = sortEntries (reserved renv p' (Entries f))"
    using sortEntries_unique [OF set_new dn] v' by (simp add: valid_entries_def)
  with t loadUnlocked_saved [OF v'] assms(2) show ?thesis
    by (simp add: UpdateEntry_def registered_as_def file_eq)
qed

text \<open>Starting a wake for an entry that is due.\<close>

lemma start_fresh_facts:
  assumes "start_fresh opts inventory at e = (updated, err)" "IsZero (NextHealthCheck e)" "IsZero (BackoffUntil e)"
  shows "sameEntryIdentity e updated" "err = None \<Longrightarrow> eState updated = StateActive"
    "err = Some x \<Longrightarrow> readinessUncertain x \<Longrightarrow> eState updated \<in> {eState e, StateAttached}"
proof -
  obtain calls res where s: "StartFresh (attempt_reconciler opts inventory at) (atCtx at) e (atNow at) = (calls, updated, res)"
    and err: "err = attempt_error at res"
    using assms(1) by (auto simp: start_fresh_def split: prod.splits)
  have "StartFresh r c e now = Reconcile r c e now" for r c now by (simp add: StartFresh_def Reconcile_def)
  with s show "sameEntryIdentity e updated" using Reconcile_identity by metis
  show "eState updated = StateActive" if "err = None"
    using s err that assms(2,3)
    by (auto simp: StartFresh_def checkLocalReadiness_def ensureWake_def attempt_reconciler_def attempt_error_def
      markActive_def markBackoff_def markDetached_def deferred_def Let_def split: option.splits probeErr.splits)
  show "eState updated \<in> {eState e, StateAttached}" if "err = Some x" "readinessUncertain x"
    using s err that assms(2,3)
    by (auto simp: StartFresh_def checkLocalReadiness_def ensureWake_def attempt_reconciler_def attempt_error_def
      markActive_def markBackoff_def markDetached_def deferred_def Let_def split: option.splits probeErr.splits)
qed

lemma recover_facts:
  assumes "recoverDetachedRegistration renv env opts inventory previous e = (requests, updated, ready, err)"
    and "IsZero (NextHealthCheck e)" "IsZero (BackoffUntil e)"
  shows "sameEntryIdentity e updated \<and> (ready \<longrightarrow> err = None \<and> eState updated = StateActive) \<and>
    (\<not> ready \<and> err = None \<longrightarrow> updated = e) \<and>
    (\<forall>x. err = Some x \<and> readinessUncertain x \<longrightarrow> eState updated \<in> {eState e, StateAttached})"
proof -
  have "sameEntryIdentity e updated \<and> (ready \<longrightarrow> err = None \<and> eState updated = StateActive) \<and>
    (\<not> ready \<and> err = None \<longrightarrow> updated = e) \<and>
    (\<forall>x. err = Some x \<and> readinessUncertain x \<longrightarrow> eState updated \<in> {eState e, StateAttached})"
    if "recover_absent env opts inventory q t e = (requests, updated, ready, err)" for q t
    using that start_fresh_facts [OF _ assms(2,3)]
    unfolding recover_absent_def Let_def
    by (auto split: sum.splits prod.splits option.splits if_splits)
  with assms(1) show ?thesis
    by (auto simp: recoverDetachedRegistration_def
      split: sum.splits list.splits if_splits option.splits probeErr.splits)
qed

lemma reservation_registered:
  assumes "ReplaceSessionAdapter renv now io e c = ((Some p, removed, None), c1)" "loadUnlocked renv c = Inr f"
  shows "registered_as renv f p c1" "valid_entries renv (reserved renv p (Entries f))" "SchemaVersion f = currentSchema"
    "removed = filter (\<lambda>e. sameRootAgent renv e p) (Entries f)" "prepareEntry renv now e = Inr p"
proof -
  show s: "SchemaVersion f = currentSchema" using loadUnlocked_Inr [OF assms(2)] by simp
  obtain f0 where f0: "loadUnlocked renv c = Inr f0" "removed = filter (\<lambda>e. sameRootAgent renv e p) (Entries f0)"
    "valid_entries renv (reserved renv p (Entries f0))"
    "loadUnlocked renv c1 = Inr \<lparr>SchemaVersion = currentSchema, Entries = sortEntries (reserved renv p (Entries f0))\<rparr>"
    using ReplaceSessionAdapter_done [OF assms(1)] by metis
  with assms(2) s show "registered_as renv f p c1" "valid_entries renv (reserved renv p (Entries f))"
      "removed = filter (\<lambda>e. sameRootAgent renv e p) (Entries f)"
    by (simp_all add: registered_as_def file_eq)
  show "prepareEntry renv now e = Inr p"
    using assms(1) by (auto simp: ReplaceSessionAdapter_def split: sum.splits prod.splits)
qed

lemma readiness_failed_outcome:
  assumes rep: "ReplaceSessionAdapter renv now io e c = ((Some p, removed, None), c1)" and f: "loadUnlocked renv c = Inr f"
    and sha: "\<And>x. sha256_hex renv x \<noteq> []" and io: "rgIO env = ideal_io" and same: "sameEntryIdentity p candidate"
  shows "\<exists>err' c2. readiness_failed renv env p candidate removed requests err c1 = (Inl err', requests, c2) \<and>
    readinessUncertain err' = readinessUncertain err \<and>
    (if readinessUncertain err then registered_as renv f candidate c2 else loadUnlocked renv c2 = loadUnlocked renv c)"
proof (cases "readinessUncertain err")
  case True
  note r = reservation_registered [OF rep f]
  obtain c2 where "UpdateEntry renv no_faults candidate c1 = (None, c2)" "registered_as renv f candidate c2"
    using UpdateEntry_registered [OF r(1,3,2) same] by blast
  with True r(1) io show ?thesis
    by (auto simp: readiness_failed_def resolveRegistrationReadinessFailure_def ideal_io_def)
next
  case False
  obtain c2 where "RestoreSessionAdapterIfUnchanged renv no_faults p removed c1 = ((True, None), c2)"
      "loadUnlocked renv c2 = loadUnlocked renv c"
    using rollback_restores [OF sha rep] by blast
  with False io show ?thesis
    by (auto simp: readiness_failed_def resolveRegistrationReadinessFailure_def ideal_io_def)
qed

text \<open>The three ways a reattach ends: nothing changed, the entry is registered and its wake runs, or the
  wake may run and a reservation for it is registered.\<close>

definition reattach_outcome :: "renv \<Rightarrow> registerOptions \<Rightarrow> content \<Rightarrow> File \<Rightarrow> registered \<Rightarrow> bool" where
  "reattach_outcome renv opts c f out \<longleftrightarrow>
     (case out of
        (Inl err, _, c') \<Rightarrow>
          (if readinessUncertain err
           then \<exists>p. eState p = StateAttached \<and> eAgent p = oMe opts \<and> eTarget p = oTarget opts \<and> registered_as renv f p c'
           else loadUnlocked renv c' = loadUnlocked renv c)
      | (Inr (entry, removed), _, c') \<Rightarrow>
          registered_as renv f entry c' \<and> removed = filter (\<lambda>e. sameRootAgent renv e entry) (Entries f) \<and>
          eAgent entry = oMe opts \<and> eTarget entry = oTarget opts \<and>
          eState entry = (if oNoStart opts then StateAttached else StateActive))"

lemma start_reserved_outcome:
  assumes rep: "ReplaceSessionAdapter renv now io e c = ((Some p, removed, None), c1)" and f: "loadUnlocked renv c = Inr f"
    and sha: "\<And>x. sha256_hex renv x \<noteq> []" and io: "rgIO env = ideal_io"
    and p: "IsZero (NextHealthCheck p)" "IsZero (BackoffUntil p)" "eState p = StateAttached" "eAgent p = oMe opts"
      "eTarget p = oTarget opts" and start: "\<not> oNoStart opts"
  shows "reattach_outcome renv opts c f (start_reserved renv env opts inventory p removed c1)"
proof -
  note r = reservation_registered [OF rep f]
  note fields = sameEntryIdentity_def p(4,5)
  have failed: "reattach_outcome renv opts c f (readiness_failed renv env p candidate removed requests err c1)"
    if "sameEntryIdentity p candidate" "readinessUncertain err \<Longrightarrow> eState candidate \<in> {eState p, StateAttached}"
    for candidate requests err
    using readiness_failed_outcome [OF rep f sha io that(1), of requests err] that p(3)
    by (auto simp: reattach_outcome_def fields)
  obtain requests candidate ready err where rec: "(if oRetireDetached opts
      then recoverDetachedRegistration renv env opts inventory removed p else ([], p, False, None)) = (requests, candidate, ready, err)"
    by (metis prod.exhaust)
  have facts: "sameEntryIdentity p candidate \<and> (ready \<longrightarrow> err = None \<and> eState candidate = StateActive) \<and>
      (\<not> ready \<and> err = None \<longrightarrow> candidate = p) \<and>
      (\<forall>x. err = Some x \<and> readinessUncertain x \<longrightarrow> eState candidate \<in> {eState p, StateAttached})"
    using rec recover_facts [OF _ p(1,2)] by (auto split: if_splits)
  show ?thesis
  proof (cases err)
    case (Some x)
    with rec facts failed show ?thesis by (auto simp: start_reserved_def)
  next
    case None
    obtain updated err2 where st: "(if ready then (candidate, None) else start_fresh opts inventory (rgFirst env) candidate) = (updated, err2)"
      by fastforce
    have st_facts: "sameEntryIdentity p updated" "err2 = None \<Longrightarrow> eState updated = StateActive"
      "\<And>x. err2 = Some x \<Longrightarrow> readinessUncertain x \<Longrightarrow> eState updated \<in> {eState p, StateAttached}"
      using st facts None start_fresh_facts [OF _ p(1,2)] by (auto split: if_splits)
    show ?thesis
    proof (cases err2)
      case (Some x)
      with rec None st st_facts failed show ?thesis by (auto simp: start_reserved_def)
    next
      case n2: None
      obtain c2 where c2: "UpdateEntry renv no_faults updated c1 = (None, c2)" "registered_as renv f updated c2"
        using UpdateEntry_registered [OF r(1,3,2) st_facts(1)] by blast
      have "sameRootAgent renv x updated = sameRootAgent renv x p" for x
        using st_facts(1) by (simp add: sameEntryIdentity_def sameRootAgent_def)
      with rec None st n2 c2 st_facts r(4) io start show ?thesis
        by (auto simp: start_reserved_def reattach_outcome_def ideal_io_def fields)
    qed
  qed
qed

lemma CheckTargetAvailable_reads: "snd (CheckTargetAvailable renv now io e b c) = c"
  by (auto simp: CheckTargetAvailable_def transact_def check_body_def split: sum.split option.split)

lemma transact_error_no_faults: "transact renv no_faults body c = (Some e, c') \<Longrightarrow> c' = c"
  by (auto simp: transact_def saveUnlocked_def finishCommittedRegistryFile_def no_faults_def Let_def
    split: option.splits sum.splits)

lemma ReplaceSessionAdapter_error_no_faults:
  "ReplaceSessionAdapter renv now no_faults e c = ((x, removed, Some err), c') \<Longrightarrow> c' = c"
  by (auto simp: ReplaceSessionAdapter_def dest: transact_error_no_faults split: sum.splits prod.splits)

lemma prepareEntry_fields:
  assumes "prepareEntry renv now e = Inr p" "eState e = StateAttached"
  shows "eState p = StateAttached" "NextHealthCheck p = NextHealthCheck e" "BackoffUntil p = BackoffUntil e"
    "eAgent p = eAgent e" "eTarget p = eTarget e"
  using assms by (auto simp: prepareEntry_def Let_def StateAttached_def split: sum.splits if_splits)

lemma reattach_locked_outcome:
  assumes f: "loadUnlocked renv c = Inr f" and sha: "\<And>x. sha256_hex renv x \<noteq> []" and io: "rgIO env = ideal_io"
    and e: "IsZero (NextHealthCheck e)" "IsZero (BackoffUntil e)" "eState e = StateAttached" "eAgent e = oMe opts"
      "eTarget e = oTarget opts"
  shows "reattach_outcome renv opts c f (reattach_locked renv env opts inventory e c)"
proof -
  obtain r where c0: "CheckTargetAvailable renv (rgNow env) no_faults e True c = (r, c)"
    using CheckTargetAvailable_reads [of renv "rgNow env" no_faults e True c] by (metis prod.collapse)
  obtain x removed err c1 where c1: "ReplaceSessionAdapter renv (rgNow env) no_faults e c = ((x, removed, err), c1)"
    by (metis prod.exhaust)
  show ?thesis
  proof (cases "r = None \<and> err = None")
    case False
    with c0 c1 io ReplaceSessionAdapter_error_no_faults [of renv "rgNow env" e c] show ?thesis
      by (cases r; cases x) (auto simp: reattach_locked_def reattach_outcome_def ideal_io_def)
  next
    case True
    then obtain p where p: "x = Some p" using c1 by (auto simp: ReplaceSessionAdapter_def split: sum.splits prod.splits)
    have rep: "ReplaceSessionAdapter renv (rgNow env) no_faults e c = ((Some p, removed, None), c1)" using c1 True p by simp
    note res = reservation_registered [OF rep f]
    note fields = prepareEntry_fields [OF res(5) e(3)]
    show ?thesis
    proof (cases "oNoStart opts")
      case True
      with c0 rep io \<open>r = None \<and> err = None\<close> res fields e show ?thesis
        by (simp add: reattach_locked_def reattach_outcome_def ideal_io_def)
    next
      case False
      have "reattach_outcome renv opts c f (start_reserved renv env opts inventory p removed c1)"
        using e fields False by (intro start_reserved_outcome [OF rep f sha io]) auto
      with c0 rep io \<open>r = None \<and> err = None\<close> False show ?thesis by (simp add: reattach_locked_def ideal_io_def)
    qed
  qed
qed

lemma physical_owners_certain:
  "physical_owners renv a i e b k es = Some err \<Longrightarrow> \<not> readinessUncertain err"
  by (induction es) (auto simp: Let_def split: if_splits sum.splits bool.splits probeErr.splits option.splits)

lemma checkPhysical_certain:
  "checkPhysicalTargetAvailable renv f a i e b = Some err \<Longrightarrow> \<not> readinessUncertain err"
  by (auto simp: checkPhysicalTargetAvailable_def dest: physical_owners_certain split: sum.splits)

section \<open>An example\<close>

definition example_attempt :: attempt where
  "example_attempt = \<lparr>atProbe = (\<lambda>_. None), atStart = (\<lambda>_. None), atUncertain = False,
     atCtx = \<lparr>ctx_entry = None, ctx_probe = None, ctx_start = None\<rparr>, atNow = 200, atRand = (\<lambda>_. None)\<rparr>"

definition example_register :: register_env where
  "example_register = \<lparr>rgEnv = Inl ''no amq'', rgAMQ = example_retire, rgFirst = example_attempt,
     rgSecond = example_attempt, rgNow = 190, rgIO = ideal_io\<rparr>"

definition example_options :: registerOptions where
  "example_options = \<lparr>oAdapterName = ''tmux'', oTarget = ''%1'', oRoot = ''/r'', oBaseRoot = [], oSessionName = [],
     oMe = ''b'', oSelf = ''ka'', oWakeTimeout = 10, oNoStart = False, oReplace = True, oRetireDetached = False\<rparr>"

definition example_moved :: content where
  "example_moved = Decoded \<lparr>SchemaVersion = 1, Entries = [example_entry ''a'' ''%4'', example_entry ''b'' ''%2'']\<rparr>"

section \<open>Properties\<close>



end
