(* ===== verification/Semver.thy ===== *)
theory Semver
  imports Amq_Prelude
begin

text \<open>
  Version comparison for the update hint and the release's asset names (\<^verbatim>\<open>internal/update/update.go\<close>).
\<close>

section \<open>Model\<close>

record semver =
  Major :: int
  Minor :: int
  Patch :: int

text \<open>The loop reads runes; a digit is one byte, and no byte of another rune is a digit.\<close>

fun positive_loop :: "int \<Rightarrow> string \<Rightarrow> int option" where
  "positive_loop val [] = Some val"
| "positive_loop val (c # s) =
     (if \<not> is_digit c then None else positive_loop (wrap64 (wrap64 (val * 10) + int (digit_val c))) s)"

definition parsePositiveInt :: "string \<Rightarrow> int option" where
  "parsePositiveInt raw = (if raw = [] then None else positive_loop 0 raw)"

definition trimPrefix :: "string \<Rightarrow> string \<Rightarrow> string" where
  "trimPrefix s p = (if hasPrefix s p then drop (length p) s else s)"

definition parseSemver :: "string \<Rightarrow> semver option" where
  "parseSemver v0 =
     (let v1 = trimPrefix (trimSpace v0) ''v'' in
      if v1 = [] then None
      else case splitOn (CHR ''.'') (takeWhile (\<lambda>c. c \<noteq> CHR ''+'' \<and> c \<noteq> CHR ''-'') v1) of
        [a, b, c] \<Rightarrow>
          (case (parsePositiveInt a, parsePositiveInt b, parsePositiveInt c) of
             (Some major, Some minor, Some patch) \<Rightarrow> Some \<lparr>Major = major, Minor = minor, Patch = patch\<rparr>
           | _ \<Rightarrow> None)
      | _ \<Rightarrow> None)"

definition normalizeVersion :: "string \<Rightarrow> string" where
  "normalizeVersion v0 =
     (let version = trimSpace v0 in
      case version of
        [] \<Rightarrow> []
      | c # _ \<Rightarrow>
          if hasPrefix version ''v'' then version
          else if is_digit c then CHR ''v'' # version
          else version)"

definition compareInts :: "int \<Rightarrow> int \<Rightarrow> int" where
  "compareInts a b = (if a < b then -1 else if a > b then 1 else 0)"

definition CompareVersions :: "string \<Rightarrow> string \<Rightarrow> int option" where
  "CompareVersions current0 latest0 =
     (let current = normalizeVersion current0; latest = normalizeVersion latest0 in
      if current = [] \<or> latest = [] then None
      else case (parseSemver current, parseSemver latest) of
        (Some c, Some l) \<Rightarrow>
          Some (if Major c \<noteq> Major l then compareInts (Major c) (Major l)
                else if Minor c \<noteq> Minor l then compareInts (Minor c) (Minor l)
                else compareInts (Patch c) (Patch l))
      | _ \<Rightarrow> None)"

definition IsUpdateAvailable :: "string \<Rightarrow> string \<Rightarrow> bool" where
  "IsUpdateAvailable current latest =
     (case CompareVersions current latest of None \<Rightarrow> False | Some cmp \<Rightarrow> cmp < 0)"

definition normalizeOS :: "string \<Rightarrow> goerr + string" where
  "normalizeOS goos =
     (if goos \<in> set [''darwin'', ''linux'', ''windows''] then Inr goos
      else Inl (Msg ''unsupported operating system''))"

definition normalizeArch :: "string \<Rightarrow> goerr + string" where
  "normalizeArch goarch =
     (if goarch \<in> set [''amd64'', ''arm64''] then Inr goarch else Inl (Msg ''unsupported architecture''))"

definition AssetName :: "string \<Rightarrow> string \<Rightarrow> string \<Rightarrow> goerr + string" where
  "AssetName tag goos goarch =
     (let version = trimSpace (trimPrefix tag ''v'') in
      if version = [] then Inl (Msg ''invalid release tag'')
      else case normalizeOS goos of
        Inl e \<Rightarrow> Inl e
      | Inr osName \<Rightarrow>
          (case normalizeArch goarch of
             Inl e \<Rightarrow> Inl e
           | Inr archName \<Rightarrow>
               Inr (''amq_'' @ version @ ''_'' @ osName @ ''_'' @ archName @ ''.'' @
                 (if osName = ''windows'' then ''zip'' else ''tar.gz''))))"

section \<open>Versions as printed\<close>

text \<open>The text \<^verbatim>\<open>vMAJOR.MINOR.PATCH\<close>.\<close>

definition version_text :: "nat \<times> nat \<times> nat \<Rightarrow> string" where
  "version_text v = (case v of (a, b, c) \<Rightarrow> ''v'' @ nat_str a @ ''.'' @ nat_str b @ ''.'' @ nat_str c)"

lemma digits_ge: "n \<le> foldl (\<lambda>n c. 10 * n + digit_val c) n s"
proof (induction s arbitrary: n)
  case (Cons c s)
  have "n \<le> 10 * n + digit_val c" by simp
  also have "\<dots> \<le> foldl (\<lambda>n c. 10 * n + digit_val c) (10 * n + digit_val c) s" by (rule Cons.IH)
  finally show ?case by simp
qed simp

lemma positive_loop_digits:
  "\<forall>c \<in> set s. is_digit c \<Longrightarrow> foldl (\<lambda>n c. 10 * n + digit_val c) n s < 2 ^ 63 \<Longrightarrow>
   positive_loop (int n) s = Some (int (foldl (\<lambda>n c. 10 * n + digit_val c) n s))"
proof (induction s arbitrary: n)
  case (Cons c s)
  have "10 * n + digit_val c < 2 ^ 63" using Cons.prems(2) digits_ge [of "10 * n + digit_val c" s] by simp
  then have "int (10 * n + digit_val c) < 2 ^ 63" by (metis of_nat_less_iff of_nat_numeral of_nat_power)
  then have "wrap64 (wrap64 (int n * 10) + int (digit_val c)) = int (10 * n + digit_val c)"
    by (simp add: wrap64_id)
  then show ?case using Cons.IH [of "10 * n + digit_val c"] Cons.prems by simp
qed simp

lemma parse_nat_str: "n < 2 ^ 63 \<Longrightarrow> parsePositiveInt (nat_str n) = Some (int n)"
  using positive_loop_digits [of "nat_str n" 0] nat_str_digits digits_val_nat_str [of n]
  by (simp add: parsePositiveInt_def digits_val_def)

lemma digit_plain: "is_digit c \<Longrightarrow> \<not> spaceByte c \<and> c \<notin> set ''.+-v''"
  by (auto simp: is_digit_def spaceByte_def less_eq_char_def)

lemma version_chars: "c \<in> set (version_text v) \<Longrightarrow> is_digit c \<or> c = CHR ''v'' \<or> c = CHR ''.''"
  using nat_str_digits by (auto simp: version_text_def split: prod.splits)

lemma version_trim: "trimSpace (version_text v) = version_text v"
proof (rule trimSpace_plain, rule ballI)
  fix c assume "c \<in> set (version_text v)"
  with version_chars have "is_digit c \<or> c = CHR ''v'' \<or> c = CHR ''.''" by blast
  then show "\<not> spaceByte c" using digit_plain by (auto simp: spaceByte_def less_eq_char_def)
qed

lemma parse_version_text:
  assumes "a < 2 ^ 63" and "b < 2 ^ 63" and "c < 2 ^ 63"
  shows "parseSemver (version_text (a, b, c)) = Some \<lparr>Major = int a, Minor = int b, Patch = int c\<rparr>"
proof -
  define t where "t = nat_str a @ ''.'' @ nat_str b @ ''.'' @ nat_str c"
  have dot: "CHR ''.'' \<notin> set (nat_str n)" for n using nat_str_digits [of n] digit_plain by fastforce
  have split: "splitOn (CHR ''.'') t = [nat_str a, nat_str b, nat_str c]"
    using splitOn_append [OF dot, of a "nat_str b @ ''.'' @ nat_str c"] splitOn_append [OF dot, of b "nat_str c"]
      splitOn_plain [OF dot, of c] by (simp add: t_def)
  have "d \<noteq> CHR ''+'' \<and> d \<noteq> CHR ''-''" if "d \<in> set t" for d
    using that nat_str_digits digit_plain by (fastforce simp: t_def)
  then have whole: "takeWhile (\<lambda>d. d \<noteq> CHR ''+'' \<and> d \<noteq> CHR ''-'') t = t" by (simp add: takeWhile_eq_all_conv)
  have "trimPrefix (trimSpace (version_text (a, b, c))) ''v'' = t"
    by (simp only: version_trim) (simp add: version_text_def trimPrefix_def hasPrefix_def t_def)
  moreover have "t \<noteq> []" by (simp add: t_def)
  ultimately show ?thesis
    using split assms by (simp add: parseSemver_def Let_def parse_nat_str whole)
qed

lemma normalize_version_text: "normalizeVersion (version_text v) = version_text v"
  by (simp only: normalizeVersion_def version_trim)
     (simp add: version_text_def hasPrefix_def split: prod.splits)

section \<open>Guarantees of the version check\<close>

text \<open>
  For versions whose numbers fit an int, an update is announced exactly when the latest version is
  greater in the order of its numbers.
\<close>

lemma update_iff_greater:
  assumes "a < 2 ^ 63" "b < 2 ^ 63" "c < 2 ^ 63" and "a' < 2 ^ 63" "b' < 2 ^ 63" "c' < 2 ^ 63"
  shows "IsUpdateAvailable (version_text (a, b, c)) (version_text (a', b', c')) \<longleftrightarrow>
     a < a' \<or> a = a' \<and> (b < b' \<or> b = b' \<and> c < c')"
proof -
  have "version_text v \<noteq> []" for v by (simp add: version_text_def split: prod.splits)
  then show ?thesis
    by (simp add: IsUpdateAvailable_def CompareVersions_def Let_def normalize_version_text
        parse_version_text [OF assms(1-3)] parse_version_text [OF assms(4-6)] compareInts_def)
qed

text \<open>
  A version number past 64 bits wraps around, so the release that follows is taken for an older one.
\<close>

lemma huge_version_wraps:
  "parsePositiveInt ''18446744073709551616'' = Some 0 \<and>
   \<not> IsUpdateAvailable ''v1.0.0'' ''v18446744073709551616.0.0''"
  by code_simp

end
