(* ===== verification/Owner_Transition.thy ===== *)
theory Owner_Transition
  imports Amq_Prelude
begin

text \<open>
  The policy for taking over an agent's wake claim (\<^verbatim>\<open>internal/cli/wake_owner_transition.go\<close>): what a
  request may do, from the evidence gathered under the lifecycle guard.
\<close>

section \<open>Model\<close>

datatype wakeOwnerIdentityState = wakeOwnerUnknown | wakeOwnerSame | wakeOwnerDead

datatype wakeClaimClass = wakeClaimAbsent | wakeClaimGeneric | wakeClaimAuthoritative | wakeClaimInvalid

datatype wakeOwnerTransitionRequest =
    wakeGenericRequestAcquire
  | wakeGenericRequestMutate
  | wakeOwnerRequestAcquire
  | wakeOwnerRequestRecover

datatype wakeOwnerTransitionAction =
    wakeOwnerActionRefuse
  | wakeOwnerActionLegacy
  | wakeOwnerActionPublish
  | wakeOwnerActionReuse
  | wakeOwnerActionRelease
  | wakeOwnerActionStopAndRelease
  | wakeOwnerActionCleanOrphan

fun actionString :: "wakeOwnerTransitionAction \<Rightarrow> string" where
  "actionString wakeOwnerActionLegacy = ''legacy''"
| "actionString wakeOwnerActionPublish = ''publish''"
| "actionString wakeOwnerActionReuse = ''reuse''"
| "actionString wakeOwnerActionRelease = ''release''"
| "actionString wakeOwnerActionStopAndRelease = ''stop and release''"
| "actionString wakeOwnerActionCleanOrphan = ''clean orphan''"
| "actionString wakeOwnerActionRefuse = ''refuse''"

record wakeOwnerTransitionEvidence =
  Request :: wakeOwnerTransitionRequest
  Claim :: wakeClaimClass
  RequestedState :: wakeOwnerIdentityState
  PersistedState :: wakeOwnerIdentityState
  OwnersEqual :: bool
  WakeUsable :: bool
  WakeExactStoppable :: bool
  WakeAbsent :: bool
  Authenticated :: bool

definition ownerReleaseAction :: "wakeOwnerTransitionEvidence \<Rightarrow> wakeOwnerTransitionAction" where
  "ownerReleaseAction e =
     (if WakeExactStoppable e then wakeOwnerActionStopAndRelease
      else if WakeAbsent e then wakeOwnerActionRelease
      else wakeOwnerActionRefuse)"

definition decideOwnerLifecycleTransition :: "wakeOwnerTransitionEvidence \<Rightarrow> wakeOwnerTransitionAction" where
  "decideOwnerLifecycleTransition e =
     (case Request e of
        wakeGenericRequestAcquire \<Rightarrow>
          (if Claim e = wakeClaimAbsent \<or> Claim e = wakeClaimGeneric then wakeOwnerActionLegacy
           else wakeOwnerActionRefuse)
      | wakeGenericRequestMutate \<Rightarrow>
          (if Claim e = wakeClaimAbsent \<or> Claim e = wakeClaimGeneric then wakeOwnerActionLegacy
           else wakeOwnerActionRefuse)
      | wakeOwnerRequestAcquire \<Rightarrow>
          (if RequestedState e \<noteq> wakeOwnerSame then wakeOwnerActionRefuse
           else case Claim e of
             wakeClaimAbsent \<Rightarrow> wakeOwnerActionPublish
           | wakeClaimAuthoritative \<Rightarrow>
               (case PersistedState e of
                  wakeOwnerSame \<Rightarrow>
                    (if OwnersEqual e \<and> WakeUsable e then wakeOwnerActionReuse else wakeOwnerActionRefuse)
                | wakeOwnerDead \<Rightarrow> ownerReleaseAction e
                | wakeOwnerUnknown \<Rightarrow> wakeOwnerActionRefuse)
           | _ \<Rightarrow> wakeOwnerActionRefuse)
      | wakeOwnerRequestRecover \<Rightarrow>
          (case Claim e of
             wakeClaimAbsent \<Rightarrow> wakeOwnerActionCleanOrphan
           | wakeClaimAuthoritative \<Rightarrow>
               (if PersistedState e = wakeOwnerDead \<or> PersistedState e = wakeOwnerSame \<and> Authenticated e
                then ownerReleaseAction e else wakeOwnerActionRefuse)
           | _ \<Rightarrow> wakeOwnerActionRefuse))"

text \<open>The evidence of a generic request: everything else is Go's zero value.\<close>

definition generic_evidence :: "wakeOwnerTransitionRequest \<Rightarrow> wakeClaimClass \<Rightarrow> wakeOwnerTransitionEvidence" where
  "generic_evidence request claim =
     \<lparr>Request = request, Claim = claim, RequestedState = wakeOwnerUnknown, PersistedState = wakeOwnerUnknown,
      OwnersEqual = False, WakeUsable = False, WakeExactStoppable = False, WakeAbsent = False,
      Authenticated = False\<rparr>"

text \<open>The parts of a lock inspection the check reads; the claim's class is computed by the platform layer.\<close>

record wakeLockInspection =
  inspClaim :: wakeClaimClass
  inspAgent :: string
  inspReason :: string
  observationErr :: "goerr option"

definition validateGenericWakeLifecycleTransition ::
    "wakeLockInspection \<Rightarrow> wakeOwnerTransitionRequest \<Rightarrow> goerr option" where
  "validateGenericWakeLifecycleTransition inspection request =
     (let claim = inspClaim inspection;
          action = decideOwnerLifecycleTransition (generic_evidence request claim) in
      if action = wakeOwnerActionLegacy then None
      else
        (let operation = (if request = wakeGenericRequestAcquire then ''acquisition'' else ''mutation'');
             trimmed = trimSpace (inspReason inspection);
             reason = (if trimmed = [] then ''persisted wake claim is not a valid ownerless generation'' else trimmed) in
         if claim = wakeClaimAuthoritative
           then Some (Msg (''owner-bound wake claims require 'amq wake recover-owner --me '' @ inspAgent inspection @ [CHR 0x27]))
         else case observationErr inspection of
           Some e \<Rightarrow> Some (Wrap (''wake state for '' @ inspAgent inspection @ '' is unverified; refusing generic '' @
               operation @ '': cannot read lock'') e)
         | None \<Rightarrow> Some (Msg (''wake state for '' @ inspAgent inspection @ '' is unverified; refusing generic '' @
               operation @ '': '' @ reason))))"

section \<open>Guarantees of the policy\<close>


text \<open>
  A generic request passes the check exactly when there is no claim or only a generic one; a claim of
  an owner or an unreadable one is an error.
\<close>

lemma generic_request_checked:
  assumes "request \<in> {wakeGenericRequestAcquire, wakeGenericRequestMutate}"
  shows "validateGenericWakeLifecycleTransition inspection request = None \<longleftrightarrow>
     inspClaim inspection \<in> {wakeClaimAbsent, wakeClaimGeneric}"
  using assms
  by (cases "inspClaim inspection")
     (auto simp: validateGenericWakeLifecycleTransition_def decideOwnerLifecycleTransition_def generic_evidence_def Let_def
       split: option.split)

end
