(* ===== verification/Message.thy ===== *)
theory Message
  imports Json Clock Names Go_Time "HOL-Library.Product_Lexorder" "HOL-Library.Multiset"
begin

text \<open>
  Messages (\<^verbatim>\<open>internal/format/message.go\<close>, \<^verbatim>\<open>internal/format/id.go\<close>): the header record, the file format
  with its JSON header between \<^verbatim>\<open>---\<close> lines, the reader of whole messages and the streaming reader of
  headers, message identifiers, and the order of listings.

  A number inside the free-form \<^verbatim>\<open>context\<close> goes through \<^verbatim>\<open>float64\<close>; the text it gets is the argument
  \<open>float_text\<close>, which is \<open>None\<close> for a number out of range.
\<close>

section \<open>Model\<close>

definition CurrentSchema :: int where "CurrentSchema = 1"
definition CurrentVersion :: int where "CurrentVersion = 1"
definition MaxMessageSize :: nat where "MaxMessageSize = 10 * 1024 * 1024"

definition frontmatterStartLine :: bytes where "frontmatterStartLine = ''---json''"
definition frontmatterStart :: bytes where "frontmatterStart = frontmatterStartLine @ [CHR 0x0A]"

definition ErrMissingFrontmatterStart :: goerr where "ErrMissingFrontmatterStart = Msg ''missing frontmatter start''"
definition ErrMissingFrontmatterEnd :: goerr where "ErrMissingFrontmatterEnd = Msg ''missing frontmatter end''"
definition ErrMessageTooLarge :: goerr where "ErrMessageTooLarge = Msg ''message exceeds maximum size''"

definition ValidPriorities :: "string list" where "ValidPriorities = [''urgent'', ''normal'', ''low'']"

definition ValidKinds :: "string list" where
  "ValidKinds = [''brainstorm'', ''review_request'', ''review_response'', ''question'', ''answer'', ''decision'',
     ''status'', ''todo'']"

definition ValidKindsList :: string where "ValidKindsList = join '', '' ValidKinds"

definition IsValidPriority :: "string \<Rightarrow> bool" where
  "IsValidPriority p \<longleftrightarrow> p = [] \<or> p \<in> set ValidPriorities"

definition IsValidKind :: "string \<Rightarrow> bool" where
  "IsValidKind k \<longleftrightarrow> k = [] \<or> k \<in> set ValidKinds"

record Header =
  hSchema :: int
  hID :: string
  From :: string
  To :: "string list option"
  Thread :: string
  Subject :: string
  Created :: string
  Refs :: "string list option"
  Priority :: string
  hKind :: string
  Labels :: "string list option"
  Context :: "(string \<times> json) list option"
  ReplyTo :: string
  ReplyProject :: string
  FromProject :: string

record Message =
  mHeader :: Header
  Body :: bytes

text \<open>A \<^verbatim>\<open>map[string]any\<close> as its members in the order of their keys, which \<^verbatim>\<open>Marshal\<close> writes.\<close>

fun put_key :: "string \<Rightarrow> json \<Rightarrow> (string \<times> json) list \<Rightarrow> (string \<times> json) list" where
  "put_key k v [] = [(k, v)]"
| "put_key k v ((l, w) # ms) =
     (if k < l then (k, v) # (l, w) # ms else if k = l then (k, v) # ms else (l, w) # put_key k v ms)"

fun any_of :: "(string \<Rightarrow> string option) \<Rightarrow> json \<Rightarrow> json option"
and any_elems :: "(string \<Rightarrow> string option) \<Rightarrow> json list \<Rightarrow> json list option"
and any_members :: "(string \<Rightarrow> string option) \<Rightarrow> (string \<times> json) list \<Rightarrow> (string \<times> json) list \<Rightarrow> (string \<times> json) list option" where
  "any_of float_text JNull = Some JNull"
| "any_of float_text (JBool b) = Some (JBool b)"
| "any_of float_text (JNum l) = map_option JNum (float_text l)"
| "any_of float_text (JStr s) = Some (JStr s)"
| "any_of float_text (JArr vs) = map_option JArr (any_elems float_text vs)"
| "any_of float_text (JObj ms) = map_option JObj (any_members float_text ms [])"
| "any_elems float_text [] = Some []"
| "any_elems float_text (v # vs) =
     (case any_of float_text v of None \<Rightarrow> None | Some w \<Rightarrow> map_option (Cons w) (any_elems float_text vs))"
| "any_members float_text [] acc = Some acc"
| "any_members float_text ((k, v) # ms) acc =
     (case any_of float_text v of None \<Rightarrow> None | Some w \<Rightarrow> any_members float_text ms (put_key k w acc))"

definition as_ctx ::
    "(string \<Rightarrow> string option) \<Rightarrow> json \<Rightarrow> (string \<times> json) list option \<Rightarrow> (string \<times> json) list option option" where
  "as_ctx float_text v old =
     (case v of
        JNull \<Rightarrow> Some None
      | JObj ms \<Rightarrow> map_option Some (any_members float_text ms (case old of None \<Rightarrow> [] | Some c \<Rightarrow> c))
      | _ \<Rightarrow> None)"

text \<open>\<^verbatim>\<open>omitempty\<close> leaves out a slice or map of length 0.\<close>

definition len0 :: "'a list option \<Rightarrow> bool" where
  "len0 xs \<longleftrightarrow> (case xs of None \<Rightarrow> True | Some ys \<Rightarrow> ys = [])"

definition hdr_json :: "Header \<Rightarrow> json" where
  "hdr_json h = JObj
     ([(''schema'', JNum (itoa (hSchema h))), (''id'', JStr (hID h)), (''from'', JStr (From h)),
       (''to'', strs_json (To h)), (''thread'', JStr (Thread h))]
      @ omit (Subject h = []) ''subject'' (JStr (Subject h))
      @ [(''created'', JStr (Created h))]
      @ omit (len0 (Refs h)) ''refs'' (strs_json (Refs h))
      @ omit (Priority h = []) ''priority'' (JStr (Priority h))
      @ omit (hKind h = []) ''kind'' (JStr (hKind h))
      @ omit (len0 (Labels h)) ''labels'' (strs_json (Labels h))
      @ omit (len0 (Context h)) ''context'' (case Context h of None \<Rightarrow> JNull | Some c \<Rightarrow> JObj c)
      @ omit (ReplyTo h = []) ''reply_to'' (JStr (ReplyTo h))
      @ omit (ReplyProject h = []) ''reply_project'' (JStr (ReplyProject h))
      @ omit (FromProject h = []) ''from_project'' (JStr (FromProject h)))"

definition hdr_fields :: "string list" where
  "hdr_fields = [''schema'', ''id'', ''from'', ''to'', ''thread'', ''subject'', ''created'', ''refs'', ''priority'', ''kind'',
     ''labels'', ''context'', ''reply_to'', ''reply_project'', ''from_project'']"

definition hdr_zero :: Header where
  "hdr_zero = \<lparr>hSchema = 0, hID = [], From = [], To = None, Thread = [], Subject = [], Created = [], Refs = None,
     Priority = [], hKind = [], Labels = None, Context = None, ReplyTo = [], ReplyProject = [], FromProject = []\<rparr>"

definition hdr_store :: "(string \<Rightarrow> string option) \<Rightarrow> string \<Rightarrow> json \<Rightarrow> Header \<Rightarrow> Header option" where
  "hdr_store float_text n v h =
     (if n = ''schema'' then map_option (\<lambda>i. h\<lparr>hSchema := i\<rparr>) (as_int v (hSchema h))
      else if n = ''id'' then map_option (\<lambda>s. h\<lparr>hID := s\<rparr>) (as_str v (hID h))
      else if n = ''from'' then map_option (\<lambda>s. h\<lparr>From := s\<rparr>) (as_str v (From h))
      else if n = ''to'' then map_option (\<lambda>s. h\<lparr>To := s\<rparr>) (as_strs v (To h))
      else if n = ''thread'' then map_option (\<lambda>s. h\<lparr>Thread := s\<rparr>) (as_str v (Thread h))
      else if n = ''subject'' then map_option (\<lambda>s. h\<lparr>Subject := s\<rparr>) (as_str v (Subject h))
      else if n = ''created'' then map_option (\<lambda>s. h\<lparr>Created := s\<rparr>) (as_str v (Created h))
      else if n = ''refs'' then map_option (\<lambda>s. h\<lparr>Refs := s\<rparr>) (as_strs v (Refs h))
      else if n = ''priority'' then map_option (\<lambda>s. h\<lparr>Priority := s\<rparr>) (as_str v (Priority h))
      else if n = ''kind'' then map_option (\<lambda>s. h\<lparr>hKind := s\<rparr>) (as_str v (hKind h))
      else if n = ''labels'' then map_option (\<lambda>s. h\<lparr>Labels := s\<rparr>) (as_strs v (Labels h))
      else if n = ''context'' then map_option (\<lambda>c. h\<lparr>Context := c\<rparr>) (as_ctx float_text v (Context h))
      else if n = ''reply_to'' then map_option (\<lambda>s. h\<lparr>ReplyTo := s\<rparr>) (as_str v (ReplyTo h))
      else if n = ''reply_project'' then map_option (\<lambda>s. h\<lparr>ReplyProject := s\<rparr>) (as_str v (ReplyProject h))
      else if n = ''from_project'' then map_option (\<lambda>s. h\<lparr>FromProject := s\<rparr>) (as_str v (FromProject h))
      else Some h)"

definition hdr_of_json :: "(string \<Rightarrow> string option) \<Rightarrow> json \<Rightarrow> Header option" where
  "hdr_of_json float_text = dec_struct hdr_fields (hdr_store float_text) hdr_zero"

definition padBody :: "bytes \<Rightarrow> bytes" where
  "padBody b = (if b \<noteq> [] \<and> \<not> hasSuffix b [CHR 0x0A] then b @ [CHR 0x0A] else b)"

text \<open>\<^verbatim>\<open>Message.Marshal\<close> at the time \<open>now\<close> (nanoseconds since 1970).\<close>

definition stamp :: "nat \<Rightarrow> Header \<Rightarrow> Header" where
  "stamp now h =
     h\<lparr>hSchema := (if hSchema h = 0 then CurrentSchema else hSchema h),
       Created := (if Created h = [] then RFC3339Nano now else Created h)\<rparr>"

definition Marshal :: "nat \<Rightarrow> Message \<Rightarrow> bytes" where
  "Marshal now m = frontmatterStart @ MarshalIndent (hdr_json (stamp now (mHeader m))) @ fm_end @ padBody (Body m)"

text \<open>\<^verbatim>\<open>splitFrontmatter\<close> after the size check; the value the decoder read stands for its raw bytes.\<close>

definition split_header :: "bytes \<Rightarrow> goerr + json \<times> bytes" where
  "split_header data0 =
     (let data = crlf_to_lf data0 in
      if \<not> hasPrefix data frontmatterStart then Inl ErrMissingFrontmatterStart
      else
        (let payload = drop (length frontmatterStart) data in
         case pv (length payload) payload of
           None \<Rightarrow> Inl (Msg ''parse frontmatter json'')
         | Some (header, r) \<Rightarrow>
             (let rest = dropWhile isWs r in
              if \<not> hasPrefix rest (''---'' @ [CHR 0x0A]) then Inl ErrMissingFrontmatterEnd
              else Inr (header, drop 4 rest))))"

definition splitFrontmatter :: "bytes \<Rightarrow> goerr + json \<times> bytes" where
  "splitFrontmatter data =
     (if length data > MaxMessageSize then Inl (Wrap ''size'' ErrMessageTooLarge) else split_header data)"

definition ParseMessage :: "(string \<Rightarrow> string option) \<Rightarrow> bytes \<Rightarrow> goerr + Message" where
  "ParseMessage float_text data =
     (case splitFrontmatter data of
        Inl e \<Rightarrow> Inl e
      | Inr (header, body) \<Rightarrow>
          (case hdr_of_json float_text header of
             None \<Rightarrow> Inl (Msg ''parse frontmatter'')
           | Some h \<Rightarrow> Inr \<lparr>mHeader = h, Body = body\<rparr>))"

definition ParseHeader :: "(string \<Rightarrow> string option) \<Rightarrow> bytes \<Rightarrow> goerr + Header" where
  "ParseHeader float_text data =
     (case splitFrontmatter data of
        Inl e \<Rightarrow> Inl e
      | Inr (header, _) \<Rightarrow>
          (case hdr_of_json float_text header of
             None \<Rightarrow> Inl (Msg ''parse frontmatter'') | Some h \<Rightarrow> Inr h))"

text \<open>\<^verbatim>\<open>bufio.Reader.ReadString('\\n')\<close>: the line with its end, or the rest at the end of the input.\<close>

fun readLine :: "bytes \<Rightarrow> bytes \<times> bool \<times> bytes" where
  "readLine [] = ([], True, [])"
| "readLine (c # s) =
     (if c = CHR 0x0A then ([c], False, s)
      else case readLine s of (l, eof, r) \<Rightarrow> (c # l, eof, r))"

lemma readLine_length: "readLine s = (l, False, r) \<Longrightarrow> length r < length s"
  by (induction s arbitrary: l) (auto split: if_splits prod.splits)

function consumeFrontmatterEnd :: "bytes \<Rightarrow> goerr + unit" where
  "consumeFrontmatterEnd s =
     (case readLine s of
        (_, True, _) \<Rightarrow> Inl ErrMissingFrontmatterEnd
      | (l, False, r) \<Rightarrow>
          (let line = trimSpace l in
           if line = [] then consumeFrontmatterEnd r
           else if line = ''---'' then Inr ()
           else Inl ErrMissingFrontmatterEnd))"
  by pat_completeness auto
termination
  by (relation "measure length") (auto dest: readLine_length [OF sym])

declare consumeFrontmatterEnd.simps [simp del]

definition ReadHeader :: "(string \<Rightarrow> string option) \<Rightarrow> bytes \<Rightarrow> goerr + Header" where
  "ReadHeader float_text input =
     (case readLine (take MaxMessageSize input) of
        (l, eof, r) \<Rightarrow>
          if trimRight (\<lambda>c. c = CHR 0x0D \<or> c = CHR 0x0A) l \<noteq> frontmatterStartLine then Inl ErrMissingFrontmatterStart
          else if eof then Inl ErrMissingFrontmatterEnd
          else case pv (length r) r of
            None \<Rightarrow> Inl (Msg ''parse frontmatter'')
          | Some (j, rest) \<Rightarrow>
              (case hdr_of_json float_text j of
                 None \<Rightarrow> Inl (Msg ''parse frontmatter'')
               | Some h \<Rightarrow>
                   (case consumeFrontmatterEnd rest of Inl e \<Rightarrow> Inl e | Inr _ \<Rightarrow> Inr h)))"

text \<open>\<^verbatim>\<open>NewMessageID\<close>: the time to the millisecond, the process and four random bytes, or the error of the
  random source.\<close>

definition id_stamp :: "nat \<Rightarrow> string" where
  "id_stamp ns =
     (let secs = int ns div 1000000000; (y, m, d) = civil_from_days (secs div 86400); r = secs mod 86400 in
      pad_num 4 y @ ''-'' @ pad_num 2 m @ ''-'' @ pad_num 2 d @ ''T'' @
      pad_num 2 (r div 3600) @ ''-'' @ pad_num 2 (r div 60 mod 60) @ ''-'' @ pad_num 2 (r mod 60) @ ''.'' @
      pad_num 3 (int ns div 1000000 mod 1000) @ ''Z'')"

definition randSuffix :: "bytes option \<Rightarrow> goerr + string" where
  "randSuffix buf = (case buf of None \<Rightarrow> Inl (Msg ''rand'') | Some b \<Rightarrow> Inr (toLower (hex_str b)))"

definition NewMessageID :: "nat \<Rightarrow> nat \<Rightarrow> bytes option \<Rightarrow> goerr + string" where
  "NewMessageID now pid buf =
     (case randSuffix buf of
        Inl e \<Rightarrow> Inl e
      | Inr sfx \<Rightarrow> Inr (id_stamp now @ ''_pid'' @ nat_str pid @ ''_'' @ sfx))"

text \<open>
  \<^verbatim>\<open>SortByTimestamp\<close> with its comparison of the items' creation text, identifier and parsed time.
  \<^verbatim>\<open>sort.Slice\<close> is the insertion sort it uses on short slices; for a comparison that is a strict order of
  the items every sort gives that result.
\<close>

definition ts_less :: "('a \<Rightarrow> string) \<Rightarrow> ('a \<Rightarrow> string) \<Rightarrow> ('a \<Rightarrow> time) \<Rightarrow> 'a \<Rightarrow> 'a \<Rightarrow> bool" where
  "ts_less getCreated getID getRawTime x y =
     (if \<not> IsZero (getRawTime x) \<and> \<not> IsZero (getRawTime y) then
        (if getRawTime x = getRawTime y then getID x < getID y else getRawTime x < getRawTime y)
      else if getCreated x = getCreated y then getID x < getID y
      else getCreated x < getCreated y)"

definition ins :: "('a \<Rightarrow> 'a \<Rightarrow> bool) \<Rightarrow> 'a list \<Rightarrow> 'a \<Rightarrow> 'a list" where
  "ins lt ys x = rev (dropWhile (lt x) (rev ys)) @ [x] @ rev (takeWhile (lt x) (rev ys))"

definition SortByTimestamp :: "('a \<Rightarrow> string) \<Rightarrow> ('a \<Rightarrow> string) \<Rightarrow> ('a \<Rightarrow> time) \<Rightarrow> 'a list \<Rightarrow> 'a list" where
  "SortByTimestamp getCreated getID getRawTime items =
     foldl (ins (ts_less getCreated getID getRawTime)) [] items"

section \<open>The file format\<close>

text \<open>Members that decoding leaves as they are: keys in order and values in normal form.\<close>

definition ctx_ok :: "(string \<Rightarrow> string option) \<Rightarrow> (string \<times> json) list \<Rightarrow> bool" where
  "ctx_ok float_text ms \<longleftrightarrow>
     sorted_wrt (<) (map fst ms) \<and> list_all (\<lambda>(_, v). any_of float_text v = Some v) ms \<and> wf_members ms"

definition strs_ok :: "string list option \<Rightarrow> bool" where
  "strs_ok xs \<longleftrightarrow> (case xs of None \<Rightarrow> True | Some ys \<Rightarrow> list_all valid_utf8 ys)"

definition hdr_wf :: "(string \<Rightarrow> string option) \<Rightarrow> Header \<Rightarrow> bool" where
  "hdr_wf float_text h \<longleftrightarrow>
     int64 (hSchema h) \<and> valid_utf8 (hID h) \<and> valid_utf8 (From h) \<and> strs_ok (To h) \<and> valid_utf8 (Thread h) \<and>
     valid_utf8 (Subject h) \<and> valid_utf8 (Created h) \<and> strs_ok (Refs h) \<and> Refs h \<noteq> Some [] \<and>
     valid_utf8 (Priority h) \<and> valid_utf8 (hKind h) \<and> strs_ok (Labels h) \<and> Labels h \<noteq> Some [] \<and>
     (case Context h of None \<Rightarrow> True | Some c \<Rightarrow> c \<noteq> [] \<and> ctx_ok float_text c) \<and>
     valid_utf8 (ReplyTo h) \<and> valid_utf8 (ReplyProject h) \<and> valid_utf8 (FromProject h)"

lemma put_key_last: "\<forall>l \<in> set (map fst acc). l < k \<Longrightarrow> put_key k v acc = acc @ [(k, v)]"
  by (induction acc) (auto dest: order.asym)

lemma any_members_ok:
  "sorted_wrt (<) (map fst (acc @ ms)) \<Longrightarrow> list_all (\<lambda>(_, v). any_of float_text v = Some v) ms \<Longrightarrow>
   any_members float_text ms acc = Some (acc @ ms)"
proof (induction ms arbitrary: acc)
  case (Cons m ms)
  obtain k v where m: "m = (k, v)" by (cases m)
  have "put_key k v acc = acc @ [(k, v)]"
    using Cons.prems(1) by (intro put_key_last) (auto simp: m sorted_wrt_append)
  then show ?case using Cons.IH [of "acc @ [(k, v)]"] Cons.prems m by simp
qed simp

lemma as_ctx_ok: "ctx_ok float_text c \<Longrightarrow> as_ctx float_text (JObj c) None = Some (Some c)"
  using any_members_ok [of "[]" c float_text] by (simp add: as_ctx_def ctx_ok_def)

text \<open>Reading an omitted member back: the field has its zero value already.\<close>

lemma dec_members_append:
  "dec_members names store (ms @ ns) x = Option.bind (dec_members names store ms x) (dec_members names store ns)"
  by (induction ms arbitrary: x) (auto split: option.splits)

lemma field_hdr [simp]: "k \<in> set hdr_fields \<Longrightarrow> field_of hdr_fields k = Some k"
  by (simp add: field_of_def)

lemma dec_omit:
  assumes "k \<in> set hdr_fields" and "hdr_store float_text k v x = Some y" and "zero \<Longrightarrow> y = x"
  shows "Option.bind (dec_members hdr_fields (hdr_store float_text) (omit zero k v) x) f = f y"
  using assms by (auto simp: omit_def)

lemma hdr_omit_str:
  "Subject x = [] \<Longrightarrow> Option.bind (dec_members hdr_fields (hdr_store ft) (omit (s = []) ''subject'' (JStr s)) x) f = f (x\<lparr>Subject := s\<rparr>)"
  "Priority x = [] \<Longrightarrow> Option.bind (dec_members hdr_fields (hdr_store ft) (omit (s = []) ''priority'' (JStr s)) x) f = f (x\<lparr>Priority := s\<rparr>)"
  "hKind x = [] \<Longrightarrow> Option.bind (dec_members hdr_fields (hdr_store ft) (omit (s = []) ''kind'' (JStr s)) x) f = f (x\<lparr>hKind := s\<rparr>)"
  "ReplyTo x = [] \<Longrightarrow> Option.bind (dec_members hdr_fields (hdr_store ft) (omit (s = []) ''reply_to'' (JStr s)) x) f = f (x\<lparr>ReplyTo := s\<rparr>)"
  "ReplyProject x = [] \<Longrightarrow> Option.bind (dec_members hdr_fields (hdr_store ft) (omit (s = []) ''reply_project'' (JStr s)) x) f = f (x\<lparr>ReplyProject := s\<rparr>)"
  "FromProject x = [] \<Longrightarrow> dec_members hdr_fields (hdr_store ft) (omit (s = []) ''from_project'' (JStr s)) x = Some (x\<lparr>FromProject := s\<rparr>)"
  by (rule dec_omit; simp add: hdr_fields_def hdr_store_def as_str_def)+
     (auto simp: omit_def hdr_fields_def field_of_def hdr_store_def as_str_def)

lemma hdr_omit_other:
  "Refs x = None \<Longrightarrow> xs \<noteq> Some [] \<Longrightarrow>
     Option.bind (dec_members hdr_fields (hdr_store ft) (omit (len0 xs) ''refs'' (strs_json xs)) x) f = f (x\<lparr>Refs := xs\<rparr>)"
  "Labels x = None \<Longrightarrow> xs \<noteq> Some [] \<Longrightarrow>
     Option.bind (dec_members hdr_fields (hdr_store ft) (omit (len0 xs) ''labels'' (strs_json xs)) x) f = f (x\<lparr>Labels := xs\<rparr>)"
  "Context x = None \<Longrightarrow> c \<noteq> Some [] \<Longrightarrow> (\<And>ms. c = Some ms \<Longrightarrow> ctx_ok ft ms) \<Longrightarrow>
     Option.bind (dec_members hdr_fields (hdr_store ft)
       (omit (len0 c) ''context'' (case c of None \<Rightarrow> JNull | Some c \<Rightarrow> JObj c)) x) f = f (x\<lparr>Context := c\<rparr>)"
  by (rule dec_omit; auto simp: hdr_fields_def hdr_store_def as_strs_json as_ctx_ok as_ctx_def [where v = JNull] len0_def split: option.splits)+

lemma hdr_codec:
  assumes "hdr_wf float_text h"
  shows "hdr_of_json float_text (hdr_json h) = Some h"
proof -
  have num: "as_int (JNum (itoa (hSchema h))) 0 = Some (hSchema h)"
    using assms parse_int_itoa by (simp add: as_int_def hdr_wf_def)
  have wf: "Refs h \<noteq> Some []" "Labels h \<noteq> Some []" "Context h \<noteq> Some []" "\<And>ms. Context h = Some ms \<Longrightarrow> ctx_ok float_text ms"
    using assms by (auto simp: hdr_wf_def)
  let ?d = "dec_members hdr_fields (hdr_store float_text)"
  let ?h0 = "hdr_zero\<lparr>hSchema := hSchema h, hID := hID h, From := From h, To := To h, Thread := Thread h\<rparr>"
  have head: "?d [(''schema'', JNum (itoa (hSchema h))), (''id'', JStr (hID h)), (''from'', JStr (From h)),
       (''to'', strs_json (To h)), (''thread'', JStr (Thread h))] hdr_zero = Some ?h0"
    using num by (simp add: hdr_fields_def field_of_def hdr_store_def as_strs_json as_str_def hdr_zero_def)
  have created: "Option.bind (?d [(''created'', JStr s)] x) f = f (x\<lparr>Created := s\<rparr>)" for s x f
    by (simp add: hdr_fields_def field_of_def hdr_store_def as_str_def)
  have "hdr_of_json float_text (hdr_json h) = ?d (case hdr_json h of JObj ms \<Rightarrow> ms | _ \<Rightarrow> []) hdr_zero"
    by (simp add: hdr_of_json_def hdr_json_def dec_struct_def)
  also have "\<dots> = Some h"
    unfolding hdr_json_def json.case dec_members_append head bind.bind_lunit
    by (simp add: created hdr_omit_str hdr_omit_other wf hdr_zero_def del: dec_members.simps)
  finally show ?thesis .
qed

lemma strs_ok_wf: "strs_ok xs \<Longrightarrow> wf_json (strs_json xs)"
  by (auto simp: strs_ok_def wf_strs_json list_all_iff split: option.splits)

lemma wf_members_append [simp]: "wf_members (ms @ ns) \<longleftrightarrow> wf_members ms \<and> wf_members ns"
  by (induction ms) auto

lemma wf_members_omit [simp]: "wf_members (omit zero k v) \<longleftrightarrow> zero \<or> valid_utf8 k \<and> wf_json v"
  by (simp add: omit_def)

lemma hdr_keys_utf8: "k \<in> set hdr_fields \<Longrightarrow> valid_utf8 k"
  by (auto simp: hdr_fields_def code_def intro!: ascii_valid)

lemma hdr_json_wf: "hdr_wf float_text h \<Longrightarrow> wf_json (hdr_json h)"
  using wf_num [of "hSchema h"] hdr_keys_utf8
  by (auto simp: hdr_json_def hdr_wf_def strs_ok_wf ctx_ok_def hdr_fields_def simp del: wf_json.simps(1) split: option.splits)

interpretation msg_codec: codec hdr_json "hdr_of_json float_text" "hdr_wf float_text" for float_text
  by unfold_locales (auto simp: hdr_codec hdr_json_wf)

text \<open>Writing a header and body, and reading them back without the size check.\<close>

definition msg_render :: "Header \<Rightarrow> bytes \<Rightarrow> bytes" where
  "msg_render h b = frontmatterStart @ MarshalIndent (hdr_json h) @ fm_end @ padBody b"

definition msg_scan :: "(string \<Rightarrow> string option) \<Rightarrow> bytes \<Rightarrow> (Header \<times> bytes) option" where
  "msg_scan float_text s =
     (case split_header s of
        Inl _ \<Rightarrow> None
      | Inr (j, b) \<Rightarrow> map_option (\<lambda>h. (h, b)) (hdr_of_json float_text j))"

interpretation msg_file: frontmatter hdr_json "hdr_of_json float_text" "hdr_wf float_text"
  frontmatterStart padBody msg_render "msg_scan float_text" for float_text
proof unfold_locales
  show "CHR 0x0D \<notin> set frontmatterStart" by (simp add: frontmatterStart_def frontmatterStartLine_def)
  show "msg_render x b = frontmatterStart @ MarshalIndent (hdr_json x) @ fm_end @ padBody b" for x b
    by (simp add: msg_render_def)
  show "msg_scan float_text s = Some (x, b)" if x: "hdr_wf float_text x"
    and s: "crlf_to_lf s = frontmatterStart @ MarshalIndent (hdr_json x) @ fm_end @ b" for x s b
  proof -
    let ?p = "MarshalIndent (hdr_json x) @ fm_end @ b"
    have "need (hdr_json x) \<le> length ?p"
      using need_le_length(1) [OF hdr_json_wf [OF x], of 0] by (simp add: MarshalIndent_def)
    moreover have "num_end (fm_end @ b)" by (simp add: fm_end_def num_end_def is_digit_def less_eq_char_def)
    ultimately have "pv (length ?p) ?p = Some (hdr_json x, fm_end @ b)"
      using parse_pp(1) [OF hdr_json_wf [OF x]] by (simp add: MarshalIndent_def)
    moreover have "dropWhile isWs (fm_end @ b) = ''---'' @ CHR 0x0A # b" by (simp add: fm_end_def isWs_def)
    ultimately show ?thesis
      using s hdr_codec [OF x] by (simp add: msg_scan_def split_header_def Let_def hasPrefix_def)
  qed
qed

section \<open>The two readers\<close>

lemma strip_found:
  "find (\<lambda>p. p \<noteq> [] \<and> prefix p s) ps = Some p \<Longrightarrow> strip ps s = strip ps (drop (length p) s)"
  by (subst strip.simps) simp

lemma space_found:
  "c \<in> {CHR '' '', CHR 0x09, CHR 0x0A, CHR 0x0D} \<Longrightarrow> find (\<lambda>p. p \<noteq> [] \<and> prefix p (c # s)) space_runes = Some [c]"
  "c \<in> {CHR '' '', CHR 0x09, CHR 0x0A, CHR 0x0D} \<Longrightarrow>
    find (\<lambda>p. p \<noteq> [] \<and> prefix p (c # s)) (map rev space_runes) = Some [c]"
  by (elim insertE emptyE; simp add: space_runes_def)+

lemma strip_space:
  assumes "isWs c"
  shows "strip space_runes (c # s) = strip space_runes s"
    and "strip (map rev space_runes) (c # s) = strip (map rev space_runes) s"
  using strip_found [OF space_found(1) [of c s]] strip_found [OF space_found(2) [of c s]] assms
  by (simp_all add: isWs_def)

lemma strip_spaces:
  "list_all isWs w \<Longrightarrow> strip space_runes (w @ s) = strip space_runes s"
  by (induction w) (auto simp: strip_space)

lemma trimSpace_ws: "list_all isWs w \<Longrightarrow> trimSpace w = []"
  using strip_spaces [of w "[]"] strip_none [of space_runes "[]"] strip_none [of "map rev space_runes" "[]"]
  by (auto simp: trimSpace_def)

lemma trimSpace_dashes: "list_all isWs w \<Longrightarrow> trimSpace (w @ ''---'' @ [CHR 0x0A]) = ''---''"
proof -
  assume w: "list_all isWs w"
  have l: "strip space_runes (''---'' @ [CHR 0x0A]) = ''---'' @ [CHR 0x0A]" by code_simp
  have r: "strip (map rev space_runes) (rev (''---'' @ [CHR 0x0A])) = ''---''" by code_simp
  show ?thesis using strip_spaces [OF w, of "''---'' @ [CHR 0x0A]"] l r by (simp add: trimSpace_def)
qed

lemma readLine_split: "CHR 0x0A \<notin> set l \<Longrightarrow> readLine (l @ CHR 0x0A # r) = (l @ [CHR 0x0A], False, r)"
  by (induction l) auto

lemma consume_dashes: "list_all isWs w \<Longrightarrow> consumeFrontmatterEnd (w @ ''---'' @ CHR 0x0A # b) = Inr ()"
proof (induction w rule: length_induct)
  case (1 w)
  show ?case
  proof (cases "CHR 0x0A \<in> set w")
    case False
    then have "readLine ((w @ ''---'') @ CHR 0x0A # b) = ((w @ ''---'') @ [CHR 0x0A], False, b)"
      by (intro readLine_split) simp
    then show ?thesis
      using trimSpace_dashes [OF "1.prems"] by (subst consumeFrontmatterEnd.simps) (simp add: Let_def)
  next
    case True
    then obtain l r where w: "w = l @ CHR 0x0A # r" "CHR 0x0A \<notin> set l" by (meson split_list_first)
    have "readLine (l @ CHR 0x0A # r @ ''---'' @ CHR 0x0A # b) = (l @ [CHR 0x0A], False, r @ ''---'' @ CHR 0x0A # b)"
      using readLine_split [OF w(2)] .
    moreover have "trimSpace (l @ [CHR 0x0A]) = []" using "1.prems" w by (intro trimSpace_ws) simp
    moreover have "consumeFrontmatterEnd (r @ ''---'' @ CHR 0x0A # b) = Inr ()"
      using "1.IH" "1.prems" w by simp
    ultimately show ?thesis using w by (subst consumeFrontmatterEnd.simps) (simp add: Let_def)
  qed
qed

lemma ReadHeader_ParseMessage:
  assumes "CHR 0x0D \<notin> set data" and "ParseMessage float_text data = Inr m"
  shows "ReadHeader float_text data = Inr (mHeader m)"
proof -
  have size: "length data \<le> MaxMessageSize" and "split_header data = splitFrontmatter data"
    using assms(2) by (auto simp: ParseMessage_def splitFrontmatter_def split: if_splits)
  then obtain j body where sp: "split_header data = Inr (j, body)" and h: "hdr_of_json float_text j = Some (mHeader m)"
    using assms(2) by (auto simp: ParseMessage_def split: sum.splits option.splits)
  have "crlf_to_lf data = data" using assms(1) by (rule crlf_to_lf_no_cr)
  with sp obtain payload r rest where data: "data = frontmatterStart @ payload"
    and pv: "pv (length payload) payload = Some (j, r)" and rest: "dropWhile isWs r = ''---'' @ [CHR 0x0A] @ rest"
    by (auto simp: split_header_def Let_def hasPrefix_def prefix_def split: if_splits option.splits)
  have "r = takeWhile isWs r @ ''---'' @ CHR 0x0A # rest"
    using rest takeWhile_dropWhile_id [of isWs r] by simp
  moreover have "list_all isWs (takeWhile isWs r)" by (auto simp: list_all_iff dest: set_takeWhileD)
  ultimately have fin: "consumeFrontmatterEnd r = Inr ()" using consume_dashes by metis
  have "readLine data = (frontmatterStart, False, payload)"
    using readLine_split [of frontmatterStartLine payload] data
    by (simp add: frontmatterStart_def frontmatterStartLine_def)
  moreover have "trimRight (\<lambda>c. c = CHR 0x0D \<or> c = CHR 0x0A) frontmatterStart = frontmatterStartLine" by code_simp
  ultimately show ?thesis
    using size pv h fin by (simp add: ReadHeader_def)
qed

section \<open>Sorting\<close>

lemma ins_mset: "mset (ins lt ys x) = add_mset x (mset ys)"
proof -
  have "mset (takeWhile (lt x) (rev ys)) + mset (dropWhile (lt x) (rev ys)) = mset ys"
    by (simp flip: mset_append)
  then show ?thesis by (simp add: ins_def ac_simps)
qed

lemma ins_sorted:
  fixes f :: "'a \<Rightarrow> 'k :: linorder"
  assumes "\<And>y. y \<in> set ys \<Longrightarrow> lt x y \<longleftrightarrow> f x < f y" and "sorted (map f ys)"
  shows "sorted (map f (ins lt ys x))"
  using assms
proof (induction ys rule: rev_induct)
  case Nil
  then show ?case by (simp add: ins_def)
next
  case (snoc y ys)
  show ?case
  proof (cases "f x < f y")
    case True
    then have eq: "ins lt (ys @ [y]) x = ins lt ys x @ [y]" using snoc.prems by (simp add: ins_def)
    have "set (ins lt ys x) = insert x (set ys)" using ins_mset [of lt ys x] by (metis set_mset_add_mset_insert set_mset_mset)
    then show ?thesis using snoc True unfolding eq by (auto simp: sorted_append)
  next
    case False
    then have "ins lt (ys @ [y]) x = ys @ [y, x]" using snoc.prems by (simp add: ins_def)
    then show ?thesis using False snoc.prems by (auto simp: sorted_append not_less intro: order_trans)
  qed
qed

lemma foldl_ins:
  fixes f :: "'a \<Rightarrow> 'k :: linorder"
  assumes "\<And>x y. x \<in> set (acc @ xs) \<Longrightarrow> y \<in> set (acc @ xs) \<Longrightarrow> lt x y \<longleftrightarrow> f x < f y" and "sorted (map f acc)"
  shows "sorted (map f (foldl (ins lt) acc xs)) \<and> mset (foldl (ins lt) acc xs) = mset acc + mset xs"
  using assms
proof (induction xs arbitrary: acc)
  case (Cons x xs)
  have m: "set (ins lt acc x) = insert x (set acc)" by (metis ins_mset set_mset_add_mset_insert set_mset_mset)
  have "sorted (map f (ins lt acc x))" using Cons.prems by (intro ins_sorted) auto
  then show ?case
    using Cons.IH [of "ins lt acc x"] Cons.prems(1) m ins_mset [of lt acc x] by auto
qed simp

lemma SortByTimestamp_mset: "mset (SortByTimestamp c i t xs) = mset xs"
proof -
  have "mset (foldl (ins lt) acc xs) = mset acc + mset xs" for lt :: "'a \<Rightarrow> 'a \<Rightarrow> bool" and acc
    by (induction xs arbitrary: acc) (auto simp: ins_mset)
  then show ?thesis by (simp add: SortByTimestamp_def)
qed

lemma SortByTimestamp_sorted:
  assumes "\<forall>x \<in> set items. \<not> IsZero (getRawTime x)"
  shows "sorted (map (\<lambda>x. (getRawTime x, getID x)) (SortByTimestamp getCreated getID getRawTime items))"
proof -
  have "ts_less getCreated getID getRawTime x y \<longleftrightarrow> (getRawTime x, getID x) < (getRawTime y, getID y)"
    if "x \<in> set items" "y \<in> set items" for x y
    using that assms by (auto simp: ts_less_def)
  from foldl_ins [of "[]" items "ts_less getCreated getID getRawTime" "\<lambda>x. (getRawTime x, getID x)"] this
  show ?thesis by (simp add: SortByTimestamp_def)
qed

section \<open>Identifiers\<close>

text \<open>The bytes of an identifier.\<close>

definition id_char :: "char \<Rightarrow> bool" where
  "id_char c \<longleftrightarrow> is_digit c \<or> c \<in> set ''-T.Z_pidabcdef''"

lemma id_char_digits: "list_all id_char (nat_str n)"
  using nat_str_digits [of n] by (auto simp: list_all_iff id_char_def)

lemma pad_digits: "list_all is_digit (pad_num w n)" "pad_num w n \<noteq> []"
  using nat_str_digits [of "nat n"] by (auto simp: pad_num_def Let_def list_all_iff is_digit_def less_eq_char_def)

lemma id_char_pad: "list_all id_char (pad_num w n)"
  using pad_digits(1) [of w n] by (auto simp: id_char_def list_all_iff)

lemma hex_digit_id: "n < 16 \<Longrightarrow> id_char (toLowerC (hex_digit n))"
proof -
  have "list_all (\<lambda>n. id_char (toLowerC (hex_digit n))) [0..<16]" by code_simp
  then show "n < 16 \<Longrightarrow> ?thesis" by (simp add: list_all_iff)
qed

lemma id_char_hex: "list_all id_char (toLower (hex_str b))"
proof -
  have "(of_char y :: nat) div 16 < 16" for y :: char by (simp add: div_less_iff_less_mult)
  then show ?thesis by (auto simp: toLower_def hex_str_def list_all_iff intro!: hex_digit_id)
qed

lemma id_stamp_chars: "list_all id_char (id_stamp now)" "id_stamp now \<noteq> []" "is_digit (hd (id_stamp now))"
proof -
  have lit: "id_char (CHR ''-'')" "id_char (CHR ''T'')" "id_char (CHR ''.'')" "id_char (CHR ''Z'')" by code_simp+
  show "list_all id_char (id_stamp now)"
    by (simp add: id_stamp_def Let_def id_char_pad lit split: prod.split)
  show "id_stamp now \<noteq> []" by (simp add: id_stamp_def Let_def split: prod.split)
  have "is_digit (hd (pad_num w n))" for w n using pad_digits [of w n] by (cases "pad_num w n") auto
  then show "is_digit (hd (id_stamp now))" using pad_digits(2) by (simp add: id_stamp_def Let_def split: prod.split)
qed

lemma NewMessageID_chars:
  assumes "NewMessageID now pid buf = Inr i"
  shows "list_all id_char i" and "\<not> hasPrefix i ''.''"
proof -
  obtain b where i: "i = id_stamp now @ ''_pid'' @ nat_str pid @ ''_'' @ toLower (hex_str b)"
    using assms by (auto simp: NewMessageID_def randSuffix_def split: option.splits)
  have lit: "id_char (CHR ''_'')" "id_char (CHR ''p'')" "id_char (CHR ''i'')" "id_char (CHR ''d'')" by code_simp+
  show "list_all id_char i" unfolding i using id_stamp_chars(1) id_char_digits id_char_hex lit by simp
  have "hd i \<noteq> CHR ''.''" using id_stamp_chars(2,3) [of now] by (auto simp: i is_digit_def less_eq_char_def)
  then show "\<not> hasPrefix i ''.''" by (auto simp: hasPrefix_def prefix_def)
qed

section \<open>Guarantees of the message format\<close>

definition hello :: Message where
  "hello = \<lparr>mHeader = hdr_zero\<lparr>hID := ''m1'', From := ''a'', To := Some [''b''], Thread := ''t'', Created := ''c''\<rparr>, Body = ''hi''\<rparr>"

lemma hello_size: "length (Marshal 0 hello) \<le> MaxMessageSize"
proof -
  have "length (Marshal 0 hello) \<le> 200" by code_simp
  then show ?thesis by (simp add: MaxMessageSize_def)
qed

lemma hello_parsed:
  "ParseMessage Some (Marshal 0 hello) =
     Inr \<lparr>mHeader = (mHeader hello)\<lparr>hSchema := 1\<rparr>, Body = ''hi'' @ [CHR 0x0A]\<rparr>"
proof -
  have "(case split_header (Marshal 0 hello) of Inl e \<Rightarrow> Inl e
        | Inr (header, body) \<Rightarrow> (case hdr_of_json Some header of None \<Rightarrow> Inl (Msg ''parse frontmatter'')
            | Some h \<Rightarrow> Inr \<lparr>mHeader = h, Body = body\<rparr>)) =
      Inr \<lparr>mHeader = (mHeader hello)\<lparr>hSchema := 1\<rparr>, Body = ''hi'' @ [CHR 0x0A]\<rparr>" by code_simp
  moreover have "splitFrontmatter (Marshal 0 hello) = split_header (Marshal 0 hello)"
    using hello_size by (simp add: splitFrontmatter_def)
  ultimately show ?thesis unfolding ParseMessage_def by argo
qed

text \<open>
  C36: a message that is written is read back: the header as it was stamped, and the body with its line ends
  normalized and a final newline, for every header with UTF-8 text whose context is in normal form.
\<close>

theorem message_roundtrip:
  assumes "hdr_wf float_text (stamp now (mHeader m))" and "length (Marshal now m) \<le> MaxMessageSize"
  shows "ParseMessage float_text (Marshal now m) =
     Inr \<lparr>mHeader = stamp now (mHeader m), Body = crlf_to_lf (padBody (Body m))\<rparr>"
proof -
  have "msg_scan float_text (Marshal now m) = Some (stamp now (mHeader m), crlf_to_lf (padBody (Body m)))"
    using msg_file.scan_render [OF assms(1), of "Body m"] by (simp add: msg_render_def Marshal_def)
  then show ?thesis
    using assms(2) by (auto simp: msg_scan_def ParseMessage_def splitFrontmatter_def split: sum.splits prod.splits option.splits)
qed

theorem message_roundtrip_witness:
  "ParseMessage Some (Marshal 0 hello) =
     Inr \<lparr>mHeader = (mHeader hello)\<lparr>hSchema := 1\<rparr>, Body = ''hi'' @ [CHR 0x0A]\<rparr>"
proof -
  have "hdr_wf Some (stamp 0 (mHeader hello))" by code_simp
  moreover note hello_size
  moreover have "stamp 0 (mHeader hello) = (mHeader hello)\<lparr>hSchema := 1\<rparr>" by code_simp
  moreover have "crlf_to_lf (padBody (Body hello)) = ''hi'' @ [CHR 0x0A]" by code_simp
  ultimately show ?thesis using message_roundtrip [of Some 0 hello] by simp
qed



text \<open>
  A generated message identifier makes a valid message file name, whatever the clock, the process and
  the random bytes are.
\<close>

lemma new_id_names_a_message:
  assumes "NewMessageID now pid buf = Inr i"
  shows "ValidateMessageFilename (i @ ''.md'') = None"
proof -
  have "id_char c \<Longrightarrow> c \<noteq> CHR ''/'' \<and> c \<noteq> CHR 0x5C \<and> c \<noteq> CHR 0x00" for c
    by (auto simp: id_char_def is_digit_def less_eq_char_def)
  then have "CHR ''/'' \<notin> set i" "CHR 0x5C \<notin> set i" "CHR 0x00 \<notin> set i"
    using NewMessageID_chars(1) [OF assms] by (auto simp: list_all_iff)
  moreover have "i \<noteq> []" using assms by (auto simp: NewMessageID_def split: sum.splits)
  then have "\<not> hasPrefix (i @ ''.md'') ''.''"
    using NewMessageID_chars(2) [OF assms] by (cases i) (auto simp: hasPrefix_def)
  ultimately show ?thesis by (auto simp: valid_filename_iff hasSuffix_def suffix_def)
qed

text \<open>
  Items whose creation times all parse are listed in the order of their times, and of their identifiers
  at equal times, with no item lost or repeated.
\<close>

lemma listing_in_time_order:
  assumes "\<forall>x \<in> set items. \<not> IsZero (getRawTime x)"
  shows "sorted (map (\<lambda>x. (getRawTime x, getID x)) (SortByTimestamp getCreated getID getRawTime items)) \<and>
     mset (SortByTimestamp getCreated getID getRawTime items) = mset items"
  using SortByTimestamp_sorted [OF assms] SortByTimestamp_mset by blast

text \<open>Two times of different zones, and one that does not parse.\<close>

definition cyclic :: "(string \<times> time) list" where
  "cyclic = [(''2024-01-01T10:00:00+05:00'', 1704085200 * 10 ^ 9), (''2024-01-01T06:00:00Z'', 1704088800 * 10 ^ 9),
     (''2024-01-01T08'', zero_time)]"

text \<open>
  With a creation time that does not parse, the comparison has a cycle, so the listing order depends on
  the order in which the files are read: two times of different zones order the other way round as text,
  and the unreadable one is between them.
\<close>

lemma mixed_times_cycle:
  "ts_less fst fst snd (cyclic ! 0) (cyclic ! 1) \<and> ts_less fst fst snd (cyclic ! 1) (cyclic ! 2) \<and>
   ts_less fst fst snd (cyclic ! 2) (cyclic ! 0) \<and>
   SortByTimestamp fst fst snd cyclic \<noteq> SortByTimestamp fst fst snd (rev cyclic)"
  by code_simp

end
