(* ===== verification/Ambient_Files.thy ===== *)
theory Ambient_Files
  imports Frame Message
begin

text \<open>
  The functions of \<^verbatim>\<open>internal/fsq\<close> and \<^verbatim>\<open>internal/format\<close> that take a lexical path instead of a
  pinned root (\<^verbatim>\<open>regular_file.go\<close>, \<^verbatim>\<open>atomic.go\<close>, \<^verbatim>\<open>scan.go\<close>, the path helpers of \<^verbatim>\<open>layout.go\<close>). They
  are modelled on the tree found at the root's path; the paths below are relative to it. Modification
  times are not kept.
\<close>

section \<open>Directories of a mailbox\<close>

definition AgentBase :: "string \<Rightarrow> path" where "AgentBase agent = [''agents'', agent]"
definition AgentMailboxPath :: "string \<Rightarrow> MailboxLeaf \<Rightarrow> path" where
  "AgentMailboxPath agent leaf = [''agents'', agent] @ leafPath leaf"
definition AgentInboxNew :: "string \<Rightarrow> path" where "AgentInboxNew agent = AgentMailboxPath agent MailboxInboxNew"
definition AgentInboxCur :: "string \<Rightarrow> path" where "AgentInboxCur agent = AgentMailboxPath agent MailboxInboxCur"
definition AgentOutboxSent :: "string \<Rightarrow> path" where "AgentOutboxSent agent = AgentMailboxPath agent MailboxOutboxSent"
definition AgentReceipts :: "string \<Rightarrow> path" where "AgentReceipts agent = AgentMailboxPath agent MailboxReceipts"

text \<open>\<^verbatim>\<open>os.ReadDir\<close>: the entries sorted by name.\<close>

definition os_ReadDir :: "path \<Rightarrow> (goerr + (string \<times> node) list) io" where
  "os_ReadDir dir = sys_query (\<lambda>f. case readdir dir f of Inl e \<Rightarrow> Inl e | Inr es \<Rightarrow> Inr (sort_key fst es))"

definition EnsureRootDirsPath :: "(goerr + unit) io" where
  "EnsureRootDirsPath = mkdir_each [[''agents''], [''threads''], [''meta'']]"

definition EnsureAgentDirsPath :: "string \<Rightarrow> (goerr + unit) io" where
  "EnsureAgentDirsPath agent =
     (case ValidateHandle agent of Some e \<Rightarrow> fail e | None \<Rightarrow>
      mkdir_each (map (AgentMailboxPath agent) requiredMailboxLeaves))"

definition ListAgents :: "(goerr + string list) io" where
  "ListAgents =
     guard (os_ReadDir [''agents'']) (\<lambda>entries.
     ok (sort (map fst (filter (\<lambda>(_, n). isDir n) entries))))"

section \<open>Regular files\<close>

text \<open>\<^verbatim>\<open>open(O_NOFOLLOW)\<close> refuses a symbolic link with \<^verbatim>\<open>ELOOP\<close>.\<close>

definition openRegularNoFollow :: "path \<Rightarrow> (goerr + node) io" where
  "openRegularNoFollow p =
     sys_query (\<lambda>f. case lstat p f of Inl e \<Rightarrow> Inl e | Inr (Sym _) \<Rightarrow> Inl ELOOP | Inr n \<Rightarrow> Inr n)"

definition OpenRegularNoFollowPath :: "path \<Rightarrow> (goerr + node) io" where
  "OpenRegularNoFollowPath p =
     guard (sys_query (lstat p)) (\<lambda>info.
     case validateRegularNoFollowFile info of Some e \<Rightarrow> fail e | None \<Rightarrow>
     guard (openRegularNoFollow p) (\<lambda>file.
     on_err sys_noop (\<lambda>e. fail (Wrap ''stat queue artifact'' e)) (\<lambda>_.
     case validateRegularNoFollowFile file of Some e \<Rightarrow> fail e | None \<Rightarrow> ok file)))"

definition ReadRegularNoFollowPath :: "path \<Rightarrow> (goerr + bytes) io" where
  "ReadRegularNoFollowPath p = guard (OpenRegularNoFollowPath p) (\<lambda>n. sys_query (\<lambda>_. read_bytes n))"

definition WriteFileAtomicPath :: "path \<Rightarrow> string \<Rightarrow> bytes \<Rightarrow> (goerr + path) io" where
  "WriteFileAtomicPath dir filename d =
     guard (mkdirAll dir 448) (\<lambda>_.
     bind get_now (\<lambda>t.
     let tmpPath = dir @ [''.'' @ filename @ ''.tmp-'' @ nat_str t];
         finalPath = dir @ [filename] in
     guard (writeAndSync tmpPath d) (\<lambda>_.
     on_err (syncDir dir) (\<lambda>e. bind (cleanupTemp tmpPath e) fail) (\<lambda>_.
     on_err (sys_upd (rename tmpPath finalPath)) (\<lambda>e. bind (cleanupTemp tmpPath e) fail) (\<lambda>_.
     guard (syncDir dir) (\<lambda>_.
     ok finalPath))))))"

section \<open>Message files\<close>

definition ReadMessageFile :: "(string \<Rightarrow> string option) \<Rightarrow> path \<Rightarrow> (goerr + Message) io" where
  "ReadMessageFile float_text p =
     guard (OpenRegularNoFollowPath p) (\<lambda>n.
     case read_bytes n of
       Inl e \<Rightarrow> fail (Sys e)
     | Inr content \<Rightarrow>
         (if length content > MaxMessageSize then fail (Wrap ''bytes'' ErrMessageTooLarge)
          else guard (sys_query (\<lambda>_. Inr (take (MaxMessageSize + 1) content))) (\<lambda>data.
            ret (ParseMessage float_text data))))"

definition ReadHeaderFile :: "(string \<Rightarrow> string option) \<Rightarrow> path \<Rightarrow> (goerr + Header) io" where
  "ReadHeaderFile float_text p =
     guard (OpenRegularNoFollowPath p) (\<lambda>n.
     guard (sys_query (\<lambda>_. read_bytes n)) (\<lambda>content. ret (ReadHeader float_text content)))"

lemmas [go_defs] = os_ReadDir_def EnsureRootDirsPath_def EnsureAgentDirsPath_def ListAgents_def openRegularNoFollow_def
  OpenRegularNoFollowPath_def ReadRegularNoFollowPath_def WriteFileAtomicPath_def ReadMessageFile_def ReadHeaderFile_def

section \<open>Reading changes nothing, and returns what is there\<close>

lemma keeps_os_ReadDir [stable_rules]: "keeps P (os_ReadDir d)"
  unfolding os_ReadDir_def by (intro stable_rules)

lemma keeps_OpenRegularNoFollowPath [stable_rules]: "keeps P (OpenRegularNoFollowPath p)"
  unfolding OpenRegularNoFollowPath_def openRegularNoFollow_def by (intro stable_rules)

lemma keeps_ReadRegularNoFollowPath [stable_rules]: "keeps P (ReadRegularNoFollowPath p)"
  unfolding ReadRegularNoFollowPath_def by (intro stable_rules)

lemma keeps_ReadMessageFile [stable_rules]: "keeps P (ReadMessageFile ft p)"
  unfolding ReadMessageFile_def by (intro stable_rules)

lemma keeps_ReadHeaderFile [stable_rules]: "keeps P (ReadHeaderFile ft p)"
  unfolding ReadHeaderFile_def by (intro stable_rules)

end
