(* ===== verification/Receipt.thy ===== *)
theory Receipt
  imports Ambient_Files Go_Time
begin

text \<open>
  Receipts (\<^verbatim>\<open>internal/receipt/receipt.go\<close>): a consumer writes down that it drained or dead-lettered a
  message, in a file whose name is made of the message, the consumer and the stage; a sender waits for it
  by name. A name is one path component: identifiers with a slash are outside the model.

  While a waiting process sleeps, the rest of the system goes on. What it does during the sleep at a tick,
  and how much longer than asked the sleep takes, is a parameter of the wait.
\<close>

definition StageDrained :: string where "StageDrained = ''drained''"
definition StageDLQ :: string where "StageDLQ = ''dlq''"

record Receipt =
  rSchema :: int
  rMsgID :: string
  rThread :: string
  rSender :: string
  rConsumer :: string
  rStage :: string
  rEmittedAt :: string
  rDetail :: string

definition New :: "nat \<Rightarrow> string \<Rightarrow> string \<Rightarrow> string \<Rightarrow> string \<Rightarrow> string \<Rightarrow> string \<Rightarrow> Receipt" where
  "New now msgID thread sender consumer stage detail =
     \<lparr>rSchema = CurrentSchema, rMsgID = msgID, rThread = thread, rSender = sender, rConsumer = consumer,
      rStage = stage, rEmittedAt = RFC3339Nano now, rDetail = detail\<rparr>"

definition receiptName :: "string \<Rightarrow> string \<Rightarrow> string \<Rightarrow> string" where
  "receiptName msgID consumer stage = msgID @ ''__'' @ consumer @ ''__'' @ stage @ ''.json''"

definition receiptFilename :: "Receipt \<Rightarrow> string" where
  "receiptFilename r = receiptName (rMsgID r) (rConsumer r) (rStage r)"

definition receipt_json :: "Receipt \<Rightarrow> json" where
  "receipt_json r = JObj
     ([(''schema'', JNum (itoa (rSchema r))), (''msg_id'', JStr (rMsgID r))]
      @ omit (rThread r = []) ''thread'' (JStr (rThread r))
      @ [(''sender'', JStr (rSender r)), (''consumer'', JStr (rConsumer r)), (''stage'', JStr (rStage r)),
         (''emitted_at'', JStr (rEmittedAt r))]
      @ omit (rDetail r = []) ''detail'' (JStr (rDetail r)))"

definition receipt_fields :: "string list" where
  "receipt_fields = [''schema'', ''msg_id'', ''thread'', ''sender'', ''consumer'', ''stage'', ''emitted_at'', ''detail'']"

definition receipt_zero :: Receipt where
  "receipt_zero = \<lparr>rSchema = 0, rMsgID = [], rThread = [], rSender = [], rConsumer = [], rStage = [], rEmittedAt = [], rDetail = []\<rparr>"

definition receipt_store :: "string \<Rightarrow> json \<Rightarrow> Receipt \<Rightarrow> Receipt option" where
  "receipt_store n v r =
     (if n = ''schema'' then map_option (\<lambda>i. r\<lparr>rSchema := i\<rparr>) (as_int v (rSchema r))
      else if n = ''msg_id'' then map_option (\<lambda>s. r\<lparr>rMsgID := s\<rparr>) (as_str v (rMsgID r))
      else if n = ''thread'' then map_option (\<lambda>s. r\<lparr>rThread := s\<rparr>) (as_str v (rThread r))
      else if n = ''sender'' then map_option (\<lambda>s. r\<lparr>rSender := s\<rparr>) (as_str v (rSender r))
      else if n = ''consumer'' then map_option (\<lambda>s. r\<lparr>rConsumer := s\<rparr>) (as_str v (rConsumer r))
      else if n = ''stage'' then map_option (\<lambda>s. r\<lparr>rStage := s\<rparr>) (as_str v (rStage r))
      else if n = ''emitted_at'' then map_option (\<lambda>s. r\<lparr>rEmittedAt := s\<rparr>) (as_str v (rEmittedAt r))
      else if n = ''detail'' then map_option (\<lambda>s. r\<lparr>rDetail := s\<rparr>) (as_str v (rDetail r))
      else Some r)"

definition receipt_of_json :: "json \<Rightarrow> Receipt option" where
  "receipt_of_json = dec_struct receipt_fields receipt_store receipt_zero"

definition marshalReceipt :: "Receipt \<Rightarrow> bytes" where
  "marshalReceipt r = MarshalIndent (receipt_json r) @ [CHR 0x0A]"

definition parseReceipt :: "bytes \<Rightarrow> goerr + Receipt" where
  "parseReceipt data =
     (case Option.bind (parse_json data) receipt_of_json of
        None \<Rightarrow> Inl (Msg ''json'')
      | Some r \<Rightarrow> Inr r)"

section \<open>Emitting and reading\<close>

definition Emit :: "Receipt \<Rightarrow> (goerr + unit) io" where
  "Emit r =
     on_err (WriteFileAtomicPath (AgentReceipts (rConsumer r)) (receiptFilename r) (marshalReceipt r))
       (\<lambda>e. fail (Wrap ''receipt write'' e)) (\<lambda>_. ok ())"

definition EmitDeliveryRoot :: "droot \<Rightarrow> Receipt \<Rightarrow> (goerr + unit) io" where
  "EmitDeliveryRoot root r =
     bind (WriteFileAtomic root [''agents'', rConsumer r, ''receipts''] (receiptFilename r) (marshalReceipt r)) (\<lambda>(_, err).
     case err of Some e \<Rightarrow> fail (Wrap ''receipt write'' e) | None \<Rightarrow> ok ())"

definition ReadReceipt :: "path \<Rightarrow> (goerr + Receipt) io" where
  "ReadReceipt p = guard (ReadRegularNoFollowPath p) (\<lambda>d. ret (parseReceipt d))"

definition ReadDeliveryRoot :: "droot \<Rightarrow> path \<Rightarrow> (goerr + Receipt) io" where
  "ReadDeliveryRoot root p = guard (ReadRegularNoFollow root p) (\<lambda>d. ret (parseReceipt d))"

section \<open>Waiting\<close>

type_synonym others = "nat \<Rightarrow> nat \<times> (fs \<Rightarrow> fs)"

text \<open>\<^verbatim>\<open>time.Sleep\<close>: at least the duration passes; a negative one returns at once.\<close>

definition sleep :: "others \<Rightarrow> duration \<Rightarrow> unit io" where
  "sleep oth d w =
     (let (late, act) = oth (tick w) in
      ((), w\<lparr>fs := act (fs w), now_ns := (\<lambda>t. now_ns w t + nat d + late)\<rparr>))"

text \<open>
  The polling loop both waits share, with the read of the receipt as an argument; \<open>None\<close> means that the
  rounds given did not suffice. A receipt that does not parse is an error other than not found.
\<close>

fun wait_loop :: "others \<Rightarrow> (goerr + Receipt) io \<Rightarrow> time \<Rightarrow> duration \<Rightarrow> nat \<Rightarrow> (goerr + Receipt) option io" where
  "wait_loop oth rd deadline pollInterval 0 = ret None"
| "wait_loop oth rd deadline pollInterval (Suc k) =
     bind rd (\<lambda>x.
     case x of
       Inr r \<Rightarrow> ret (Some (Inr r))
     | Inl e \<Rightarrow>
         (if \<not> osIsNotExist e then ret (Some (Inl e))
          else bind get_now (\<lambda>t.
            if \<not> IsZero deadline \<and> deadline < int t then ret (Some (Inl ErrDeadlineExceeded))
            else bind (sleep oth pollInterval) (\<lambda>_. wait_loop oth rd deadline pollInterval k))))"

definition deadline_of :: "duration \<Rightarrow> time io" where
  "deadline_of timeout = bind get_now (\<lambda>t. ret (if 0 < timeout then int t + timeout else zero_time))"

definition WaitFor ::
    "others \<Rightarrow> nat \<Rightarrow> string \<Rightarrow> string \<Rightarrow> string \<Rightarrow> duration \<Rightarrow> duration \<Rightarrow> (goerr + Receipt) option io" where
  "WaitFor oth rounds msgID consumer stage timeout pollInterval =
     bind (deadline_of timeout) (\<lambda>deadline.
     wait_loop oth (ReadReceipt (AgentReceipts consumer @ [receiptName msgID consumer stage])) deadline pollInterval rounds)"

definition WaitForDeliveryRoot ::
    "others \<Rightarrow> nat \<Rightarrow> droot \<Rightarrow> string \<Rightarrow> string \<Rightarrow> string \<Rightarrow> duration \<Rightarrow> duration \<Rightarrow> (goerr + Receipt) option io" where
  "WaitForDeliveryRoot oth rounds root msgID consumer stage timeout pollInterval =
     bind (deadline_of timeout) (\<lambda>deadline.
     wait_loop oth (ReadDeliveryRoot root [''agents'', consumer, ''receipts'', receiptName msgID consumer stage])
       deadline pollInterval rounds)"

section \<open>Listing\<close>

record ListFilter =
  fMsgID :: string
  fConsumer :: string
  fStage :: string

definition name_matches :: "ListFilter \<Rightarrow> string \<Rightarrow> bool" where
  "name_matches f name \<longleftrightarrow>
     hasSuffix name ''.json'' \<and>
     (fMsgID f = [] \<or> hasPrefix name (fMsgID f @ ''__'')) \<and>
     (fStage f = [] \<or> hasSuffix name (''__'' @ fStage f @ ''.json'')) \<and>
     (fConsumer f = [] \<or> contains name (''__'' @ fConsumer f @ ''__''))"

text \<open>The loop over the directory: an entry that cannot be read is skipped.\<close>

fun read_each :: "path \<Rightarrow> ListFilter \<Rightarrow> (string \<times> node) list \<Rightarrow> Receipt list io" where
  "read_each dir f [] = ret []"
| "read_each dir f ((name, n) # es) =
     (if isDir n \<or> \<not> name_matches f name then read_each dir f es
      else bind (ReadReceipt (dir @ [name])) (\<lambda>x.
        bind (read_each dir f es) (\<lambda>rs. ret (case x of Inl _ \<Rightarrow> rs | Inr r \<Rightarrow> r # rs))))"

definition ListReceipts :: "string \<Rightarrow> ListFilter \<Rightarrow> (goerr + Receipt list) io" where
  "ListReceipts agent f =
     (let dir = AgentReceipts agent in
      on_err (os_ReadDir dir) (\<lambda>e. if osIsNotExist e then ok [] else fail e) (\<lambda>entries.
      bind (read_each dir f entries) (\<lambda>receipts.
      ok (foldl (ins (\<lambda>a b. rEmittedAt a < rEmittedAt b)) [] receipts))))"

section \<open>The file format\<close>

definition receipt_wf :: "Receipt \<Rightarrow> bool" where
  "receipt_wf r \<longleftrightarrow>
     int64 (rSchema r) \<and> valid_utf8 (rMsgID r) \<and> valid_utf8 (rThread r) \<and> valid_utf8 (rSender r) \<and>
     valid_utf8 (rConsumer r) \<and> valid_utf8 (rStage r) \<and> valid_utf8 (rEmittedAt r) \<and> valid_utf8 (rDetail r)"

lemma receipt_codec:
  assumes "receipt_wf r"
  shows "receipt_of_json (receipt_json r) = Some r"
proof -
  have "as_int (JNum (itoa (rSchema r))) 0 = Some (rSchema r)"
    using assms parse_int_itoa by (simp add: as_int_def receipt_wf_def)
  then show ?thesis
    by (simp add: receipt_of_json_def receipt_json_def dec_struct_def omit_def receipt_fields_def field_of_def
        receipt_store_def as_str_def receipt_zero_def)
qed

lemma receipt_json_wf: "receipt_wf r \<Longrightarrow> wf_json (receipt_json r)"
  using wf_num [of "rSchema r"]
  by (auto simp: receipt_json_def receipt_wf_def code_def simp del: wf_json.simps(1) intro!: ascii_valid)

interpretation rcpt: codec receipt_json receipt_of_json receipt_wf
  by unfold_locales (auto simp: receipt_codec receipt_json_wf)

text \<open>White space after an indented text does not matter.\<close>

lemma parse_MarshalIndent_nl: "wf_json j \<Longrightarrow> parse_json (MarshalIndent j @ [CHR 0x0A]) = Some j"
  using parse_pp(1) [of j "Suc (length (pp 0 j))" "[CHR 0x0A]" 0] need_le_length(1) [of j 0]
  by (simp add: parse_json_def MarshalIndent_def num_end_def skipWs_cons skipWs_def [of "[]"] isWs_def is_digit_def less_eq_char_def
      del: pv.simps)

lemma parse_marshalReceipt: "receipt_wf r \<Longrightarrow> parseReceipt (marshalReceipt r) = Inr r"
  by (simp add: parseReceipt_def marshalReceipt_def parse_MarshalIndent_nl rcpt.enc_wf rcpt.dec_enc)

section \<open>Emitted receipts\<close>

definition receipt_path :: "Receipt \<Rightarrow> path" where
  "receipt_path r = [''agents'', rConsumer r, ''receipts'', receiptFilename r]"

lemma emit_replaces:
  assumes "\<not> hasPrefix (receiptFilename r) ''.''"
  shows "replaced {receipt_path r} (map_of (fs w)) (receipt_path r) (marshalReceipt r)
     (case fst (EmitDeliveryRoot root r w) of Inl e \<Rightarrow> Some e | Inr _ \<Rightarrow> None) (fs (snd (EmitDeliveryRoot root r w)))"
proof -
  let ?dir = "[''agents'', rConsumer r, ''receipts'']" and ?W = "{receipt_path r}" and ?g = "map_of (fs w)"
  have "?W \<inter> above ?dir = {}" and "?W \<inter> dot_names ?dir = {}"
    using assms by (auto simp: above_def dot_names_def receipt_path_def hasPrefix_def dest: prefix_length_le)
  then have "triple (agree ?W ?g) (WriteFileAtomic root ?dir (receiptFilename r) (marshalReceipt r))
      (\<lambda>x. replaced ?W ?g (receipt_path r) (marshalReceipt r) (snd x))"
    using WriteFileAtomic_agree [where W = ?W and dir = ?dir and fn = "receiptFilename r"] by (simp add: receipt_path_def)
  then have "triple (agree ?W ?g) (EmitDeliveryRoot root r)
      (\<lambda>x. replaced ?W ?g (receipt_path r) (marshalReceipt r) (case x of Inl e \<Rightarrow> Some e | Inr _ \<Rightarrow> None))"
    unfolding EmitDeliveryRoot_def
    by (rule triple_bind) (auto intro!: triple_fail triple_ok simp: replaced_def split: option.split)
  from triple_run [OF this, of w] show ?thesis by (simp add: agree_def)
qed

lemma read_receipt:
  assumes "fst (ReadDeliveryRoot root p w) = Inr x"
  shows "\<exists>c. map_of (fs w) p = Some (Reg c) \<and> parseReceipt c = Inr x"
proof -
  let ?g = "map_of (fs w)"
  have "triple (\<lambda>f. map_of f = ?g) (ReadDeliveryRoot root p)
      (\<lambda>x f. \<forall>y. x = Inr y \<longrightarrow> (\<exists>c. ?g p = Some (Reg c) \<and> parseReceipt c = Inr y))"
    unfolding ReadDeliveryRoot_def
    by (rule triple_on_err [OF ReadRegularNoFollow_spec]) (auto intro!: triple_fail triple_ret)
  from triple_run [OF this, of w] assms show ?thesis by simp
qed

section \<open>The wait ends\<close>

text \<open>A program that takes time but does not turn the clock back.\<close>

definition timely :: "'a io \<Rightarrow> bool" where
  "timely m \<longleftrightarrow> (\<forall>w. now_ns (snd (m w)) = now_ns w \<and> tick w \<le> tick (snd (m w)))"

lemma timelyD: "timely m \<Longrightarrow> now_ns (snd (m w)) = now_ns w \<and> tick w \<le> tick (snd (m w))"
  by (simp add: timely_def)

lemma timely_ret: "timely (ret x)" by (simp add: timely_def ret_def)

lemma timely_bind: "timely m \<Longrightarrow> (\<And>x. timely (k x)) \<Longrightarrow> timely (bind m k)"
  unfolding timely_def bind_def case_prod_beta by (metis order.trans)

lemma timely_on_err: "timely m \<Longrightarrow> (\<And>e. timely (h e)) \<Longrightarrow> (\<And>x. timely (k x)) \<Longrightarrow> timely (on_err m h k)"
  unfolding timely_def on_err_def case_prod_beta by (auto split: sum.split intro: order.trans)

lemma timely_sys_query: "timely (sys_query q)"
  by (simp add: timely_def sys_query_def sys_def Let_def split: option.split sum.split prod.split)

lemma timely_sys_identity: "timely (sys_identity b)"
  by (simp add: timely_def sys_identity_def Let_def split: option.split)

lemmas timely_rules = timely_ret timely_bind timely_on_err timely_sys_query timely_sys_identity

lemma timely_VerifyBase: "timely (VerifyBase r)"
  unfolding VerifyBase_def
  by (auto intro!: timely_rules split: option.split simp: fail_def ok_def) (simp add: timely_def)

lemma timely_ReadDeliveryRoot: "timely (ReadDeliveryRoot root p)"
  unfolding ReadDeliveryRoot_def ReadRegularNoFollow_def OpenRegularNoFollow_def sys_noop_def
  by (auto intro!: timely_rules timely_VerifyBase split: option.split simp: fail_def ok_def)

lemma timely_ReadReceipt: "timely (ReadReceipt p)"
  unfolding ReadReceipt_def ReadRegularNoFollowPath_def OpenRegularNoFollowPath_def openRegularNoFollow_def sys_noop_def
  by (auto intro!: timely_rules split: option.split simp: fail_def ok_def)

lemma wait_loop_ends:
  assumes "timely rd" and "0 < poll" and "\<not> IsZero deadline"
  shows "mono (now_ns w) \<Longrightarrow> deadline < int (now_ns w (tick w)) + poll * int k \<Longrightarrow>
    fst (wait_loop oth rd deadline poll (Suc k) w) \<noteq> None"
proof (induction k arbitrary: w)
  case 0
  obtain x w1 where m: "rd w = (x, w1)" by fastforce
  then have "now_ns w1 = now_ns w" "tick w \<le> tick w1" using timelyD [OF assms(1), of w] by simp_all
  with 0 monoD [OF 0(1), of "tick w" "tick w1"] have "deadline < int (now_ns w1 (tick w1))" by simp
  with m assms(3) show ?case
    by (cases x) (simp_all add: bind_def ret_def get_now_def)
next
  case (Suc k)
  obtain x w1 where m: "rd w = (x, w1)" by fastforce
  then have w1: "now_ns w1 = now_ns w" "tick w \<le> tick w1" using timelyD [OF assms(1), of w] by simp_all
  obtain late act where oth: "oth (tick w1) = (late, act)" by fastforce
  let ?w2 = "w1\<lparr>fs := act (fs w1), now_ns := (\<lambda>t. now_ns w1 t + nat poll + late)\<rparr>"
  have "now_ns w (tick w) \<le> now_ns w1 (tick w1)" using w1 monoD [OF Suc.prems(1), of "tick w" "tick w1"] by simp
  moreover have "int (now_ns ?w2 (tick ?w2)) \<ge> int (now_ns w1 (tick w1)) + poll" using assms(2) by simp
  ultimately have "deadline < int (now_ns ?w2 (tick ?w2)) + poll * int k"
    using Suc.prems(2) by (simp add: algebra_simps)
  moreover have "mono (now_ns ?w2)" using Suc.prems(1) w1 by (simp add: mono_def)
  ultimately have "fst (wait_loop oth rd deadline poll (Suc k) ?w2) \<noteq> None" by (rule Suc.IH [rotated])
  with m oth show ?case
    by (cases x) (simp_all add: bind_def ret_def get_now_def sleep_def Let_def del: wait_loop.simps(2)
        add: wait_loop.simps(2) [of _ _ _ _ "Suc k"])
qed

text \<open>The rounds that suffice for a timeout.\<close>

definition wait_rounds :: "duration \<Rightarrow> duration \<Rightarrow> nat" where
  "wait_rounds timeout poll = nat (timeout div poll) + 2"

lemma wait_from_deadline:
  assumes "timely rd" and "0 < timeout" and "0 < poll" and "mono (now_ns w)"
  shows "fst (bind (deadline_of timeout) (\<lambda>deadline. wait_loop oth rd deadline poll (wait_rounds timeout poll)) w) \<noteq> None"
proof -
  let ?d = "int (now_ns w (tick w)) + timeout"
  have "timeout = poll * (timeout div poll) + timeout mod poll" by simp
  moreover have "timeout mod poll < poll" and "0 \<le> timeout div poll"
    using assms(2,3) by (simp_all add: pos_imp_zdiv_nonneg_iff)
  ultimately have "timeout < poll * (timeout div poll) + poll" by linarith
  then have "timeout < poll * int (nat (timeout div poll) + 1)"
    using \<open>0 \<le> timeout div poll\<close> by (simp add: algebra_simps)
  moreover have "\<not> IsZero ?d" using assms(2) by (simp add: IsZero_def zero_time_def)
  ultimately have "fst (wait_loop oth rd ?d poll (Suc (nat (timeout div poll) + 1)) w) \<noteq> None"
    using assms by (intro wait_loop_ends) auto
  then show ?thesis
    using assms(2) by (simp add: bind_def deadline_of_def get_now_def ret_def wait_rounds_def del: wait_loop.simps)
qed

text \<open>A wait gives up only after its deadline.\<close>

lemma wait_loop_deadline:
  assumes "errs (\<lambda>e. e \<noteq> ErrDeadlineExceeded) rd"
  shows "wait_loop oth rd deadline poll k w = (Some (Inl ErrDeadlineExceeded), w') \<Longrightarrow>
    deadline < int (now_ns w' (tick w'))"
proof (induction k arbitrary: w)
  case (Suc k)
  obtain x w1 where m: "rd w = (x, w1)" by fastforce
  with assms have x: "x \<noteq> Inl ErrDeadlineExceeded" by (auto simp: errs_def dest: spec [of _ w])
  show ?case
  proof (cases "\<not> IsZero deadline \<and> deadline < int (now_ns w1 (tick w1))")
    case True
    with Suc.prems m x show ?thesis by (auto simp: bind_def ret_def get_now_def split: sum.splits if_splits)
  next
    case False
    with Suc.prems m x have "wait_loop oth rd deadline poll k (snd (sleep oth poll w1)) = (Some (Inl ErrDeadlineExceeded), w')"
      by (auto simp: bind_def ret_def get_now_def case_prod_beta split: sum.splits if_splits)
    then show ?thesis by (rule Suc.IH)
  qed
qed (simp add: ret_def)

lemma errs_parse: "errs (\<lambda>e. e \<noteq> ErrDeadlineExceeded) (ret (parseReceipt d))"
  by (simp add: errs_def ret_def parseReceipt_def split: option.split)

lemma validate_msg [simp]: "validateRegularNoFollowFile n \<noteq> Some ErrDeadlineExceeded"
  by (auto simp: validateRegularNoFollowFile_def split: if_splits)

lemma errs_ReadDeliveryRoot: "errs (\<lambda>e. e \<noteq> ErrDeadlineExceeded) (ReadDeliveryRoot root p)"
  unfolding ReadDeliveryRoot_def ReadRegularNoFollow_def OpenRegularNoFollow_def sys_noop_def
  by (auto intro!: errs_guard errs_sys_query errs_fail errs_ok errs_VerifyBase errs_parse split: option.split)

lemma errs_ReadReceipt: "errs (\<lambda>e. e \<noteq> ErrDeadlineExceeded) (ReadReceipt p)"
  unfolding ReadReceipt_def ReadRegularNoFollowPath_def OpenRegularNoFollowPath_def openRegularNoFollow_def sys_noop_def
  by (auto intro!: errs_guard errs_on_err [where R = "\<lambda>_. True" and h = "\<lambda>e. fail (Wrap _ e)"] errs_sys_query errs_fail errs_ok errs_parse
      split: option.split)

lemma wait_ends:
  assumes "timely rd" and "errs (\<lambda>e. e \<noteq> ErrDeadlineExceeded) rd"
    and "0 < timeout" and "0 < poll" and "mono (now_ns w)"
  shows "\<exists>x w'. bind (deadline_of timeout) (\<lambda>deadline. wait_loop oth rd deadline poll (wait_rounds timeout poll)) w = (Some x, w') \<and>
     (x = Inl ErrDeadlineExceeded \<longrightarrow> int (now_ns w (tick w)) + timeout < int (now_ns w' (tick w')))"
proof -
  let ?m = "bind (deadline_of timeout) (\<lambda>deadline. wait_loop oth rd deadline poll (wait_rounds timeout poll))"
  obtain x w' where r: "?m w = (Some x, w')"
    using wait_from_deadline [OF assms(1,3,4,5), of oth] by (metis option.exhaust prod.collapse)
  moreover have "?m w = wait_loop oth rd (int (now_ns w (tick w)) + timeout) poll (wait_rounds timeout poll) w"
    using assms(3) by (simp add: deadline_of_def bind_def get_now_def ret_def)
  ultimately have "x = Inl ErrDeadlineExceeded \<longrightarrow> int (now_ns w (tick w)) + timeout < int (now_ns w' (tick w'))"
    using wait_loop_deadline [OF assms(2)] by metis
  with r show ?thesis by blast
qed

text \<open>The wait that goes by the lexical path.\<close>

lemma WaitFor_ends:
  assumes "0 < timeout" and "0 < pollInterval" and "mono (now_ns w)"
  shows "\<exists>x w'. WaitFor oth (wait_rounds timeout pollInterval) msgID consumer stage timeout pollInterval w = (Some x, w') \<and>
     (x = Inl ErrDeadlineExceeded \<longrightarrow> int (now_ns w (tick w)) + timeout < int (now_ns w' (tick w')))"
  unfolding WaitFor_def by (rule wait_ends [OF timely_ReadReceipt errs_ReadReceipt assms])

section \<open>Guarantees\<close>

lemma receipt_name_dot: "\<not> hasPrefix (rMsgID r) ''.'' \<Longrightarrow> rMsgID r \<noteq> [] \<Longrightarrow> \<not> hasPrefix (receiptFilename r) ''.''"
  by (cases "rMsgID r") (auto simp: receiptFilename_def receiptName_def hasPrefix_def)


definition receipt0 :: Receipt where
  "receipt0 = New 0 ''m1'' ''t'' ''a'' ''b'' StageDrained []"


text \<open>
  C39: waiting for a receipt with a timeout and a poll interval ends, whatever the reads return and
  whatever other processes do meanwhile, after at most one round per interval and two more, and it reports
  the deadline as exceeded only after it has passed; the clock must not go back.
\<close>

theorem receipt_wait_ends:
  assumes "0 < timeout" and "0 < pollInterval" and "mono (now_ns w)"
  shows "\<exists>x w'. WaitForDeliveryRoot oth (wait_rounds timeout pollInterval) root msgID consumer stage timeout pollInterval w = (Some x, w') \<and>
     (x = Inl ErrDeadlineExceeded \<longrightarrow> int (now_ns w (tick w)) + timeout < int (now_ns w' (tick w')))"
  unfolding WaitForDeliveryRoot_def by (rule wait_ends [OF timely_ReadDeliveryRoot errs_ReadDeliveryRoot assms])

theorem receipt_wait_ends_witness:
  "\<exists>x w'. WaitForDeliveryRoot (\<lambda>_. (0, id)) (wait_rounds 5 2) root7 ''m1'' ''b'' StageDrained 5 2 (calm []) = (Some x, w') \<and>
     (x = Inl ErrDeadlineExceeded \<longrightarrow> int (now_ns (calm []) (tick (calm []))) + 5 < int (now_ns w' (tick w')))"
  by (rule receipt_wait_ends) (simp_all add: calm_def mono_def)

end
