(* ===== verification/Time_Parse.thy ===== *)
theory Time_Parse
  imports Clock Go_Time
begin

text \<open>
  \<^verbatim>\<open>time.Parse(time.RFC3339Nano, s)\<close>: the instant of a date and time with an optional fraction of a second
  and a zone. The hour may have one digit, a fraction may follow a comma, digits beyond nanoseconds are
  dropped, and offsets of up to 24 hours and 60 minutes are accepted, as the package does.
\<close>

definition num_val :: "bytes \<Rightarrow> int" where
  "num_val s = foldl (\<lambda>n c. n * 10 + int (digit_val c)) 0 s"

text \<open>The value of the first \<open>k\<close> bytes, if they are digits, and the rest.\<close>

definition fixed_num :: "nat \<Rightarrow> bytes \<Rightarrow> (int \<times> bytes) option" where
  "fixed_num k s =
     (if k \<le> length s \<and> list_all is_digit (take k s)
      then Some (num_val (take k s), drop k s) else None)"

text \<open>\<^verbatim>\<open>getnum(s, false)\<close>: one digit or two.\<close>

definition short_num :: "bytes \<Rightarrow> (int \<times> bytes) option" where
  "short_num s = (case fixed_num 2 s of None \<Rightarrow> fixed_num 1 s | r \<Rightarrow> r)"

definition lit :: "char \<Rightarrow> bytes \<Rightarrow> bytes option" where
  "lit c s = (case s of [] \<Rightarrow> None | x # r \<Rightarrow> if x = c then Some r else None)"

definition fraction :: "bytes \<Rightarrow> int \<times> bytes" where
  "fraction s =
     (case s of
        x # y # r \<Rightarrow>
          (if (x = CHR ''.'' \<or> x = CHR '','') \<and> is_digit y then
             (let ds = takeWhile is_digit (y # r);
                  nine = take 9 (ds @ replicate 9 (CHR ''0'')) in
              (num_val nine, dropWhile is_digit (y # r)))
           else (0, s))
      | _ \<Rightarrow> (0, s))"

text \<open>The zone, in seconds east of UTC.\<close>

definition zone :: "bytes \<Rightarrow> (int \<times> bytes) option" where
  "zone s =
     (case s of
        [] \<Rightarrow> None
      | x # r \<Rightarrow>
          (if x = CHR ''Z'' then Some (0, r)
           else if x \<noteq> CHR ''+'' \<and> x \<noteq> CHR ''-'' then None
           else Option.bind (fixed_num 2 r) (\<lambda>(h, r1).
             Option.bind (lit (CHR '':'') r1) (\<lambda>r2.
             Option.bind (fixed_num 2 r2) (\<lambda>(m, r3).
             if h > 24 \<or> m > 60 then None
             else Some ((if x = CHR ''-'' then -1 else 1) * (h * 60 + m) * 60, r3))))))"

definition leap :: "int \<Rightarrow> bool" where
  "leap y \<longleftrightarrow> y mod 4 = 0 \<and> (y mod 100 \<noteq> 0 \<or> y mod 400 = 0)"

definition daysIn :: "int \<Rightarrow> int \<Rightarrow> int" where
  "daysIn m y = (if m = 2 then (if leap y then 29 else 28) else if m \<in> {4, 6, 9, 11} then 30 else 31)"

definition days_from_civil :: "int \<Rightarrow> int \<Rightarrow> int \<Rightarrow> int" where
  "days_from_civil y0 m d =
     (let y = (if m \<le> 2 then y0 - 1 else y0);
          era = y div 400;
          yoe = y mod 400;
          doy = (153 * (if m > 2 then m - 3 else m + 9) + 2) div 5 + d - 1;
          doe = yoe * 365 + yoe div 4 - yoe div 100 + doy in
      era * 146097 + doe - 719468)"

definition parseRFC3339Nano :: "string \<Rightarrow> time option" where
  "parseRFC3339Nano s =
     Option.bind (fixed_num 4 s) (\<lambda>(y, s).
     Option.bind (lit (CHR ''-'') s) (\<lambda>s.
     Option.bind (fixed_num 2 s) (\<lambda>(mo, s).
     Option.bind (lit (CHR ''-'') s) (\<lambda>s.
     Option.bind (fixed_num 2 s) (\<lambda>(d, s).
     Option.bind (lit (CHR ''T'') s) (\<lambda>s.
     Option.bind (short_num s) (\<lambda>(h, s).
     Option.bind (lit (CHR '':'') s) (\<lambda>s.
     Option.bind (fixed_num 2 s) (\<lambda>(mi, s).
     Option.bind (lit (CHR '':'') s) (\<lambda>s.
     Option.bind (fixed_num 2 s) (\<lambda>(se, s).
     case fraction s of (ns, s) \<Rightarrow>
     Option.bind (zone s) (\<lambda>(off, s).
     if s \<noteq> [] \<or> mo < 1 \<or> 12 < mo \<or> d < 1 \<or> daysIn mo y < d \<or> 24 \<le> h \<or> 60 \<le> mi \<or> 60 \<le> se then None
     else Some ((days_from_civil y mo d * 86400 + h * 3600 + mi * 60 + se - off) * 1000000000 + ns)))))))))))))"

lemma parse_examples:
  "parseRFC3339Nano ''2024-02-29T06:00:00.5Z'' = Some 1709186400500000000"
  "parseRFC3339Nano ''2024-01-01T10:00:00+05:00'' = Some 1704085200000000000"
  "parseRFC3339Nano ''2023-02-29T06:00:00Z'' = None"
  "parseRFC3339Nano ''0001-01-01T00:00:00Z'' = Some zero_time"
  by code_simp+

end
