(* ===== verification/Thread_Collect.thy ===== *)
theory Thread_Collect
  imports Ambient_Files Time_Parse
begin

text \<open>
  The view of a conversation (\<^verbatim>\<open>internal/thread/thread.go\<close>): the messages of a thread are collected from
  the boxes of the agents, each identifier once, and listed in time order.
\<close>

record Entry =
  eID :: string
  eFrom :: string
  eTo :: "string list option"
  eThread :: string
  eSubject :: string
  eCreated :: string
  eBody :: bytes
  ePriority :: string
  eKind :: string
  eLabels :: "string list option"
  eRawTime :: time

text \<open>The entry of a header and a body (empty when bodies are not asked for).\<close>

definition entry_of :: "Header \<Rightarrow> bytes \<Rightarrow> Entry" where
  "entry_of h b =
     \<lparr>eID = hID h, eFrom = From h, eTo = To h, eThread = Thread h, eSubject = Subject h, eCreated = Created h,
      eBody = b, ePriority = Priority h, eKind = hKind h, eLabels = Labels h,
      eRawTime = (case parseRFC3339Nano (Created h) of None \<Rightarrow> zero_time | Some t \<Rightarrow> t)\<rparr>"

text \<open>What is read of a file: the message, or its header alone.\<close>

definition read_entry :: "(string \<Rightarrow> string option) \<Rightarrow> bool \<Rightarrow> path \<Rightarrow> (goerr + Header \<times> bytes) io" where
  "read_entry float_text includeBody p =
     (if includeBody then guard (ReadMessageFile float_text p) (\<lambda>m. ok (mHeader m, Body m))
      else guard (ReadHeaderFile float_text p) (\<lambda>h. ok (h, [])))"

definition message_name :: "string \<Rightarrow> bool" where
  "message_name name \<longleftrightarrow> \<not> hasPrefix name ''.'' \<and> hasSuffix name ''.md''"

text \<open>The loop over the files of a box, with the entries and the identifiers seen so far.\<close>

fun collect_files ::
    "(string \<Rightarrow> string option) \<Rightarrow> string \<Rightarrow> bool \<Rightarrow> (path \<Rightarrow> goerr \<Rightarrow> goerr option) option \<Rightarrow> path \<Rightarrow>
     (string \<times> node) list \<Rightarrow> Entry list \<times> string list \<Rightarrow> (goerr + Entry list \<times> string list) io" where
  "collect_files float_text threadID includeBody onError dir [] st = ok st"
| "collect_files float_text threadID includeBody onError dir ((name, n) # files) st =
     (let next = collect_files float_text threadID includeBody onError dir files in
      if isDir n \<or> \<not> message_name name then next st
      else on_err (read_entry float_text includeBody (dir @ [name]))
        (\<lambda>e. case onError of
               None \<Rightarrow> fail (Wrap ''parse message'' e)
             | Some cb \<Rightarrow> (case cb (dir @ [name]) e of Some ce \<Rightarrow> fail ce | None \<Rightarrow> next st))
        (\<lambda>(h, b).
          if Thread h \<noteq> threadID \<or> hID h \<in> set (snd st) then next st
          else next (fst st @ [entry_of h b], hID h # snd st)))"

fun collect_dirs ::
    "(string \<Rightarrow> string option) \<Rightarrow> string \<Rightarrow> bool \<Rightarrow> (path \<Rightarrow> goerr \<Rightarrow> goerr option) option \<Rightarrow>
     path list \<Rightarrow> Entry list \<times> string list \<Rightarrow> (goerr + Entry list \<times> string list) io" where
  "collect_dirs float_text threadID includeBody onError [] st = ok st"
| "collect_dirs float_text threadID includeBody onError (dir # dirs) st =
     on_err (os_ReadDir dir)
       (\<lambda>e. if osIsNotExist e then collect_dirs float_text threadID includeBody onError dirs st else fail e)
       (\<lambda>files.
         guard (collect_files float_text threadID includeBody onError dir files st) (\<lambda>st'.
         collect_dirs float_text threadID includeBody onError dirs st'))"

definition boxes_of :: "string list \<Rightarrow> path list" where
  "boxes_of agents = concat (map (\<lambda>a. [AgentInboxNew a, AgentInboxCur a, AgentOutboxSent a]) agents)"

definition CollectThread ::
    "(string \<Rightarrow> string option) \<Rightarrow> string \<Rightarrow> string list \<Rightarrow> bool \<Rightarrow> (path \<Rightarrow> goerr \<Rightarrow> goerr option) option \<Rightarrow>
     (goerr + Entry list) io" where
  "CollectThread float_text threadID agents includeBody onError =
     guard (collect_dirs float_text threadID includeBody onError (boxes_of agents) ([], [])) (\<lambda>(entries, _).
     ok (SortByTimestamp eCreated eID eRawTime entries))"

section \<open>Programs that only read\<close>

text \<open>In a world without faults and with the tree \<open>f\<close>, the program returns \<open>x\<close> and leaves the tree.\<close>

definition reads :: "fs \<Rightarrow> 'a io \<Rightarrow> 'a \<Rightarrow> bool" where
  "reads f m x \<longleftrightarrow>
     (\<forall>w. fs w = f \<and> (\<forall>t. faults w t = None) \<longrightarrow>
        (\<exists>w'. m w = (x, w') \<and> fs w' = f \<and> (\<forall>t. faults w' t = None)))"

lemma readsD: "reads f m x \<Longrightarrow> fs w = f \<Longrightarrow> \<forall>t. faults w t = None \<Longrightarrow> fst (m w) = x"
  unfolding reads_def by (metis fst_conv)

lemma reads_ret: "reads f (ret x) x"
  by (simp add: reads_def ret_def)

lemma reads_ok: "reads f (ok x) (Inr x)" and reads_fail: "reads f (fail e) (Inl e)"
  by (simp_all add: ok_def fail_def reads_ret)

lemma reads_on_err:
  assumes "reads f m x" and "case x of Inl e \<Rightarrow> reads f (h e) y | Inr v \<Rightarrow> reads f (k v) y"
  shows "reads f (on_err m h k) y"
  unfolding reads_def
proof (intro allI impI)
  fix w :: world assume "fs w = f \<and> (\<forall>t. faults w t = None)"
  with assms(1) obtain w1 where "m w = (x, w1)" "fs w1 = f \<and> (\<forall>t. faults w1 t = None)"
    unfolding reads_def by blast
  with assms(2) show "\<exists>w'. on_err m h k w = (y, w') \<and> fs w' = f \<and> (\<forall>t. faults w' t = None)"
    by (cases x) (auto simp: on_err_def reads_def)
qed

lemma reads_query: "reads f (sys_query q) (case q f of Inl e \<Rightarrow> Inl (Sys e) | Inr v \<Rightarrow> Inr v)"
  by (auto simp: reads_def sys_query_def sys_def Let_def split: sum.split)

definition open_at :: "path \<Rightarrow> fs \<Rightarrow> goerr + node" where
  "open_at p f =
     (case lstat p f of
        Inl e \<Rightarrow> Inl (Sys e)
      | Inr n \<Rightarrow> (case validateRegularNoFollowFile n of Some e \<Rightarrow> Inl e | None \<Rightarrow> Inr n))"

lemma reads_open: "reads f (OpenRegularNoFollowPath p) (open_at p f)"
proof -
  have "reads f (openRegularNoFollow p) (Inr n)" if "lstat p f = Inr n" "validateRegularNoFollowFile n = None" for n
    using reads_query [of f "\<lambda>f. case lstat p f of Inl e \<Rightarrow> Inl e | Inr (Sym _) \<Rightarrow> Inl ELOOP | Inr n \<Rightarrow> Inr n"] that
    by (cases n) (auto simp: openRegularNoFollow_def validateRegularNoFollowFile_def)
  moreover have "reads f sys_noop (Inr ())" unfolding sys_noop_def using reads_query [of f "\<lambda>f. Inr ()"] by simp
  ultimately have "reads f (guard (openRegularNoFollow p) (\<lambda>file.
      on_err sys_noop (\<lambda>e. fail (Wrap ''stat queue artifact'' e)) (\<lambda>_.
      case validateRegularNoFollowFile file of Some e \<Rightarrow> fail e | None \<Rightarrow> ok file))) (Inr n)"
    if "lstat p f = Inr n" "validateRegularNoFollowFile n = None" for n
    using that by (intro reads_on_err [where x = "Inr n"] reads_on_err [where x = "Inr ()"]; simp add: reads_ok)+
  then show ?thesis
    unfolding OpenRegularNoFollowPath_def open_at_def
    by (intro reads_on_err [OF reads_query]) (auto intro: reads_fail split: sum.split option.split)
qed

text \<open>What a read of a file with these bytes gives.\<close>

definition entry_in :: "(string \<Rightarrow> string option) \<Rightarrow> bool \<Rightarrow> bytes \<Rightarrow> (Header \<times> bytes) option" where
  "entry_in float_text includeBody c =
     (if includeBody
      then (case ParseMessage float_text c of Inl _ \<Rightarrow> None | Inr m \<Rightarrow> Some (mHeader m, Body m))
      else (case ReadHeader float_text c of Inl _ \<Rightarrow> None | Inr h \<Rightarrow> Some (h, [])))"

lemma parse_too_large: "length c > MaxMessageSize \<Longrightarrow> \<exists>e. ParseMessage ft c = Inl e"
  by (simp add: ParseMessage_def splitFrontmatter_def)

lemma open_at_Inr: "open_at p f = Inr n \<longleftrightarrow> (\<exists>c. n = Reg c \<and> lstat p f = Inr (Reg c))"
  by (cases n) (auto simp: open_at_def validateRegularNoFollowFile_def split: sum.splits node.splits option.splits if_splits)

lemma reads_entry:
  "\<exists>x. reads f (read_entry ft inc p) x \<and>
     (\<forall>y. x = Inr y \<longleftrightarrow> (\<exists>c. lstat p f = Inr (Reg c) \<and> entry_in ft inc c = Some y))"
proof (cases "open_at p f")
  case (Inl e)
  then have "reads f (ReadMessageFile ft p) (Inl e)" "reads f (ReadHeaderFile ft p) (Inl e)"
    unfolding ReadMessageFile_def ReadHeaderFile_def
    by (auto intro!: reads_on_err [OF reads_open] simp: reads_fail)
  then have "reads f (read_entry ft inc p) (Inl e)"
    unfolding read_entry_def by (auto intro!: reads_on_err simp: reads_fail)
  moreover have "lstat p f \<noteq> Inr (Reg c)" for c using Inl open_at_Inr [of p f "Reg c"] by auto
  ultimately show ?thesis by blast
next
  case (Inr n)
  then obtain c where c: "n = Reg c" "lstat p f = Inr (Reg c)" by (auto simp: open_at_Inr)
  have big: "\<exists>e. reads f (ReadMessageFile ft p) (Inl e)" if "length c > MaxMessageSize"
    unfolding ReadMessageFile_def
    by (rule exI, rule reads_on_err [OF reads_open]) (use Inr c that in \<open>auto simp: read_bytes_def intro: reads_fail\<close>)
  have small: "reads f (ReadMessageFile ft p) (ParseMessage ft c)" if "length c \<le> MaxMessageSize"
    unfolding ReadMessageFile_def
    by (rule reads_on_err [OF reads_open])
       (use Inr c that in \<open>auto simp: read_bytes_def intro!: reads_on_err [OF reads_query] reads_ret\<close>)
  have head: "reads f (ReadHeaderFile ft p) (ReadHeader ft c)"
    unfolding ReadHeaderFile_def
    by (rule reads_on_err [OF reads_open])
       (use Inr c in \<open>auto simp: read_bytes_def intro!: reads_on_err [OF reads_query] reads_ret\<close>)
  have "\<exists>x. reads f (read_entry ft inc p) x \<and> (\<forall>y. x = Inr y \<longleftrightarrow> entry_in ft inc c = Some y)"
  proof (cases inc)
    case True
    show ?thesis
    proof (cases "length c > MaxMessageSize")
      case big': True
      then obtain e e' where "reads f (ReadMessageFile ft p) (Inl e)" "ParseMessage ft c = Inl e'"
        using big parse_too_large by blast
      then have "reads f (read_entry ft inc p) (Inl e)" "entry_in ft inc c = None"
        using True by (auto simp: read_entry_def entry_in_def reads_fail intro!: reads_on_err)
      then show ?thesis by (intro exI [of _ "Inl e"]) simp
    next
      case False
      then have "reads f (read_entry ft inc p)
          (case ParseMessage ft c of Inl e \<Rightarrow> Inl e | Inr m \<Rightarrow> Inr (mHeader m, Body m))"
        using True small by (auto simp: read_entry_def reads_fail reads_ok intro!: reads_on_err split: sum.split)
      then show ?thesis
        using True by (intro exI [of _ "case ParseMessage ft c of Inl e \<Rightarrow> Inl e | Inr m \<Rightarrow> Inr (mHeader m, Body m)"])
          (auto simp: entry_in_def split: sum.split)
    qed
  next
    case False
    then have "reads f (read_entry ft inc p) (case ReadHeader ft c of Inl e \<Rightarrow> Inl e | Inr h \<Rightarrow> Inr (h, []))"
      using head by (auto simp: read_entry_def reads_fail reads_ok intro!: reads_on_err split: sum.split)
    then show ?thesis
      using False by (intro exI [of _ "case ReadHeader ft c of Inl e \<Rightarrow> Inl e | Inr h \<Rightarrow> Inr (h, [])"])
        (auto simp: entry_in_def split: sum.split)
  qed
  with c show ?thesis by auto
qed

section \<open>What is collected\<close>

text \<open>The messages of a thread in one box: the file name, the header and the body that reading it gives.\<close>

definition thread_files ::
    "(string \<Rightarrow> string option) \<Rightarrow> string \<Rightarrow> bool \<Rightarrow> fs \<Rightarrow> path \<Rightarrow> string set \<Rightarrow> (Header \<times> bytes) set" where
  "thread_files float_text threadID includeBody f dir names =
     {m. Thread (fst m) = threadID \<and> (\<exists>name \<in> names. message_name name \<and>
        (\<exists>c. lstat (dir @ [name]) f = Inr (Reg c) \<and> entry_in float_text includeBody c = Some m))}"

text \<open>
  A step from one state of the loops to a later one: the new entries are of the messages \<open>M\<close>, one for each
  identifier that was not seen yet.
\<close>

definition gathered :: "(Header \<times> bytes) set \<Rightarrow> Entry list \<times> string list \<Rightarrow> Entry list \<times> string list \<Rightarrow> bool" where
  "gathered M st st' \<longleftrightarrow>
     set (snd st') = set (snd st) \<union> hID ` fst ` M \<and>
     (\<exists>new. fst st' = fst st @ new \<and> distinct (map eID new) \<and>
        eID ` set new = hID ` fst ` M - set (snd st) \<and> (\<forall>e \<in> set new. \<exists>(h, b) \<in> M. e = entry_of h b))"

lemma gathered_refl: "gathered {} st st"
  by (simp add: gathered_def)

lemma gathered_trans:
  assumes "gathered M st st1" and "gathered N st1 st2"
  shows "gathered (M \<union> N) st st2"
proof -
  from assms obtain u v where u: "fst st1 = fst st @ u" "distinct (map eID u)" "eID ` set u = hID ` fst ` M - set (snd st)"
      "\<forall>e \<in> set u. \<exists>(h, b) \<in> M. e = entry_of h b"
    and v: "fst st2 = fst st1 @ v" "distinct (map eID v)" "eID ` set v = hID ` fst ` N - set (snd st1)"
      "\<forall>e \<in> set v. \<exists>(h, b) \<in> N. e = entry_of h b"
    and s: "set (snd st1) = set (snd st) \<union> hID ` fst ` M" "set (snd st2) = set (snd st1) \<union> hID ` fst ` N"
    unfolding gathered_def by (elim conjE exE) (rule that)
  have "eID ` set u \<inter> eID ` set v = {}" unfolding u(3) v(3) s(1) by blast
  then have "distinct (map eID (u @ v))" using u(2) v(2) by simp
  moreover have "eID ` set (u @ v) = hID ` fst ` (M \<union> N) - set (snd st)"
    unfolding set_append image_Un u(3) v(3) s(1) by blast
  moreover have "\<forall>e \<in> set (u @ v). \<exists>(h, b) \<in> M \<union> N. e = entry_of h b" using u(4) v(4) by fastforce
  moreover have "fst st2 = fst st @ (u @ v)" using u(1) v(1) by simp
  moreover have "set (snd st2) = set (snd st) \<union> hID ` fst ` (M \<union> N)" using s by (simp add: image_Un Un_assoc)
  ultimately show ?thesis unfolding gathered_def by blast
qed

lemma gathered_seen: "hID h \<in> set (snd st) \<Longrightarrow> gathered {(h, b)} st st"
  by (auto simp: gathered_def)

lemma gathered_new: "hID h \<notin> set (snd st) \<Longrightarrow> gathered {(h, b)} st (fst st @ [entry_of h b], hID h # snd st)"
  by (auto simp: gathered_def entry_of_def)

lemma thread_files_none [simp]: "thread_files ft tid inc f dir {} = {}"
  by (simp add: thread_files_def)

lemma thread_files_insert:
  "thread_files ft tid inc f dir (insert name names) = thread_files ft tid inc f dir {name} \<union> thread_files ft tid inc f dir names"
  by (auto simp: thread_files_def)

lemma lstat_not_dir: "lstat p f = Inr (Reg c) \<Longrightarrow> lstat p f = Inr n \<Longrightarrow> \<not> isDir n"
  by auto

text \<open>A program that only reads, and what it gathers when it succeeds.\<close>

definition gathers :: "fs \<Rightarrow> (Header \<times> bytes) set \<Rightarrow> Entry list \<times> string list \<Rightarrow> (goerr + Entry list \<times> string list) io \<Rightarrow> bool" where
  "gathers f M st m \<longleftrightarrow> (\<exists>x. reads f m x \<and> (\<forall>st'. x = Inr st' \<longrightarrow> gathered M st st'))"

lemma gathers_ok: "gathers f {} st (ok st)"
  unfolding gathers_def by (intro exI [of _ "Inr st"]) (simp add: reads_ok gathered_refl)

lemma gathers_fail: "gathers f M st (fail e)"
  unfolding gathers_def by (intro exI [of _ "Inl e"]) (simp add: reads_fail)

lemma gathers_after:
  assumes "gathered M st st1" and "gathers f N st1 m" and "L = M \<union> N"
  shows "gathers f L st m"
  using assms gathered_trans unfolding gathers_def by metis

lemma gathers_on_err:
  assumes "reads f m x" and "\<And>e. x = Inl e \<Longrightarrow> gathers f M st (h e)" and "\<And>v. x = Inr v \<Longrightarrow> gathers f M st (k v)"
  shows "gathers f M st (on_err m h k)"
proof (cases x)
  case (Inl e)
  with assms(2) obtain y where "reads f (h e) y" "\<forall>st'. y = Inr st' \<longrightarrow> gathered M st st'" by (auto simp: gathers_def)
  then show ?thesis using Inl reads_on_err [OF assms(1), of h y k] by (auto simp: gathers_def)
next
  case (Inr v)
  with assms(3) obtain y where "reads f (k v) y" "\<forall>st'. y = Inr st' \<longrightarrow> gathered M st st'" by (auto simp: gathers_def)
  then show ?thesis using Inr reads_on_err [OF assms(1), of h y k] by (auto simp: gathers_def)
qed

lemma gathers_guard:
  assumes "gathers f M st m" and "\<And>st'. gathers f N st' (k st')"
  shows "gathers f (M \<union> N) st (guard m k)"
proof -
  obtain x where x: "reads f m x" "\<forall>st'. x = Inr st' \<longrightarrow> gathered M st st'"
    using assms(1) unfolding gathers_def by blast
  show ?thesis
    by (rule gathers_on_err [OF x(1)]) (use x(2) in \<open>auto intro: gathers_fail gathers_after [OF _ assms(2) refl]\<close>)
qed

text \<open>
  The loop over the files of a box. An entry that the listing calls a directory is one when it is looked at
  again, since nothing changes the tree meanwhile.
\<close>

lemma thread_files_one:
  assumes "\<And>y. x = Inr y \<longleftrightarrow> (\<exists>c. lstat (dir @ [name]) f = Inr (Reg c) \<and> entry_in ft inc c = Some y)"
    and "message_name name"
  shows "thread_files ft tid inc f dir {name} =
     (case x of Inl _ \<Rightarrow> {} | Inr (h, b) \<Rightarrow> if Thread h = tid then {(h, b)} else {})"
proof -
  have eq: "thread_files ft tid inc f dir {name} = {y. Thread (fst y) = tid \<and> x = Inr y}"
    unfolding thread_files_def assms(1) using assms(2) by simp
  show ?thesis
  proof (cases x)
    case (Inr y)
    have "{y'. Thread (fst y') = tid \<and> y = y'} = (if Thread (fst y) = tid then {y} else {})" by auto
    then show ?thesis unfolding eq Inr by (simp add: case_prod_beta)
  qed (simp add: eq)
qed

lemma collect_files_gathers:
  assumes "\<forall>(name, n) \<in> set es. isDir n \<longrightarrow> (\<forall>c. lstat (dir @ [name]) f \<noteq> Inr (Reg c))"
  shows "gathers f (thread_files ft tid inc f dir (fst ` set es)) st (collect_files ft tid inc onError dir es st)"
  using assms
proof (induction es arbitrary: st)
  case Nil
  show ?case by (simp add: gathers_ok)
next
  case (Cons e es)
  obtain name n where e: "e = (name, n)" by (cases e)
  let ?T = "thread_files ft tid inc f dir"
  let ?next = "collect_files ft tid inc onError dir es"
  have split: "?T (fst ` set (e # es)) = ?T {name} \<union> ?T (fst ` set es)"
    using thread_files_insert [of ft tid inc f dir name "fst ` set es"] by (simp add: e)
  have next_step: "gathers f (?T (fst ` set (e # es))) st (?next st1)" if "gathered (?T {name}) st st1" for st1
    by (rule gathers_after [OF that Cons.IH split]) (use Cons.prems in simp)
  show ?case
  proof (cases "isDir n \<or> \<not> message_name name")
    case True
    then have "?T {name} = {}" using Cons.prems e by (auto simp: thread_files_def)
    with next_step [of st] True show ?thesis by (simp add: e gathered_refl Let_def)
  next
    case False
    obtain x where x: "reads f (read_entry ft inc (dir @ [name])) x"
      "\<And>y. x = Inr y \<longleftrightarrow> (\<exists>c. lstat (dir @ [name]) f = Inr (Reg c) \<and> entry_in ft inc c = Some y)"
      using reads_entry [of f ft inc "dir @ [name]"] by blast
    have one: "?T {name} = (case x of Inl _ \<Rightarrow> {} | Inr (h, b) \<Rightarrow> if Thread h = tid then {(h, b)} else {})"
      using thread_files_one [OF x(2)] False by blast
    have bad: "gathers f (?T (fst ` set (e # es))) st (case onError of None \<Rightarrow> fail (Wrap ''parse message'' er)
        | Some cb \<Rightarrow> (case cb (dir @ [name]) er of Some ce \<Rightarrow> fail ce | None \<Rightarrow> ?next st))" if "x = Inl er" for er
      using next_step [of st] that one by (auto simp: gathered_refl gathers_fail split: option.split)
    have good: "gathers f (?T (fst ` set (e # es))) st
        (case hb of (h, b) \<Rightarrow> if Thread h \<noteq> tid \<or> hID h \<in> set (snd st) then ?next st
          else ?next (fst st @ [entry_of h b], hID h # snd st))" if "x = Inr hb" for hb
      using next_step that one by (cases hb) (auto simp: gathered_refl gathered_seen gathered_new)
    show ?thesis
      using gathers_on_err [OF x(1) bad good] False by (simp add: e Let_def)
  qed
qed

section \<open>Listings of boxes\<close>

lemma walk_parent:
  assumes "walk f seen (d @ [x]) = None" and "d \<noteq> []"
  shows "walk f seen d = None \<and> (\<exists>m. map_of f (seen @ d) = Some (Dir m))"
  using assms
proof (induction f seen d rule: walk.induct)
  case (2 f seen y)
  then show ?case by (auto split: option.splits node.splits)
next
  case (3 f seen y z r)
  then show ?case by (auto split: option.splits node.splits)
qed simp

lemma readdir_lists:
  assumes "lstat (dir @ [name]) f = Inr n" and "dir \<noteq> []"
  shows "\<exists>es. readdir dir f = Inr es \<and> name \<in> fst ` set es"
proof -
  from assms(1) have w: "walk f [] (dir @ [name]) = None" and n: "map_of f (dir @ [name]) = Some n"
    by (auto simp: lstat_def split: option.splits)
  from walk_parent [OF w assms(2)] obtain m where "walk f [] dir = None" "map_of f dir = Some (Dir m)" by auto
  then have "follow 8 dir f = Inr (dir, Dir m)"
    using assms(2) by (subst follow.simps) (simp add: lstat_def)
  moreover have "name \<in> fst ` set (children dir f)"
    using map_of_SomeD [OF n] by (force simp: children_def)
  ultimately show ?thesis by (simp add: readdir_def)
qed

text \<open>The tree names every path once, and no box is a symbolic link.\<close>

definition boxes_ok :: "fs \<Rightarrow> path list \<Rightarrow> bool" where
  "boxes_ok f dirs \<longleftrightarrow>
     distinct (map fst f) \<and> (\<forall>dir \<in> set dirs. dir \<noteq> [] \<and> (case map_of f dir of Some (Sym _) \<Rightarrow> False | _ \<Rightarrow> True))"

lemma listed_dir:
  assumes "boxes_ok f dirs" and "dir \<in> set dirs" and "readdir dir f = Inr es" and "(name, n) \<in> set es" and "isDir n"
  shows "lstat (dir @ [name]) f \<noteq> Inr (Reg c)"
proof -
  from assms(1,2) have d: "dir \<noteq> []" "\<And>t. map_of f dir \<noteq> Some (Sym t)" by (auto simp: boxes_ok_def)
  have "es = children dir f"
    using assms(3) d by (auto simp: readdir_def follow.simps [of 8 dir] lstat_def split: sum.splits option.splits prod.splits node.splits)
  with assms(4) obtain p where p: "(p, n) \<in> set f" "p \<noteq> []" "butlast p = dir" "last p = name"
    by (auto simp: children_def)
  have "dir @ [name] = p" using append_butlast_last_id [OF p(2)] p(3,4) by simp
  with p(1) have "map_of f (dir @ [name]) = Some n" using assms(1) by (simp add: boxes_ok_def)
  with assms(5) show ?thesis by (auto simp: lstat_def split: option.splits)
qed

lemma thread_files_listed:
  "dir \<noteq> [] \<Longrightarrow> readdir dir f = Inr es \<Longrightarrow>
   thread_files ft tid inc f dir (fst ` set es) = thread_files ft tid inc f dir UNIV"
  using readdir_lists [of dir _ f] unfolding thread_files_def by (intro Collect_cong) fastforce

lemma thread_files_unlisted: "dir \<noteq> [] \<Longrightarrow> readdir dir f = Inl e \<Longrightarrow> thread_files ft tid inc f dir UNIV = {}"
  using readdir_lists [of dir _ f] by (fastforce simp: thread_files_def)

text \<open>All messages of the thread in the boxes.\<close>

definition thread_messages ::
    "(string \<Rightarrow> string option) \<Rightarrow> string \<Rightarrow> bool \<Rightarrow> fs \<Rightarrow> path list \<Rightarrow> (Header \<times> bytes) set" where
  "thread_messages float_text threadID includeBody f dirs =
     (\<Union>dir \<in> set dirs. thread_files float_text threadID includeBody f dir UNIV)"

lemma reads_ReadDir:
  "reads f (os_ReadDir dir) (case readdir dir f of Inl e \<Rightarrow> Inl (Sys e) | Inr es \<Rightarrow> Inr (sort_key fst es))"
  using reads_query [of f "\<lambda>f. case readdir dir f of Inl e \<Rightarrow> Inl e | Inr es \<Rightarrow> Inr (sort_key fst es)"]
  by (cases "readdir dir f") (simp_all add: os_ReadDir_def)

lemma collect_dirs_gathers:
  "boxes_ok f dirs \<Longrightarrow>
   gathers f (thread_messages ft tid inc f dirs) st (collect_dirs ft tid inc onError dirs st)"
proof (induction dirs arbitrary: st)
  case Nil
  show ?case by (simp add: thread_messages_def gathers_ok)
next
  case (Cons dir dirs)
  let ?T = "thread_files ft tid inc f dir UNIV" and ?R = "thread_messages ft tid inc f dirs"
  have all: "thread_messages ft tid inc f (dir # dirs) = ?T \<union> ?R" by (simp add: thread_messages_def)
  have d: "dir \<noteq> []" and rest: "\<And>st. gathers f ?R st (collect_dirs ft tid inc onError dirs st)"
    using Cons.IH Cons.prems by (auto simp: boxes_ok_def)
  show ?case
  proof (cases "readdir dir f")
    case (Inl e)
    with rest [of st] show ?thesis
      unfolding all thread_files_unlisted [OF d Inl] collect_dirs.simps
      by (intro gathers_on_err [OF reads_ReadDir]) (auto simp: gathers_fail)
  next
    case (Inr es)
    have files: "gathers f ?T st1 (collect_files ft tid inc onError dir (sort_key fst es) st1)" for st1
      using collect_files_gathers [of "sort_key fst es" dir f ft tid inc st1 onError] listed_dir [OF Cons.prems _ Inr]
        thread_files_listed [OF d Inr, of ft tid inc] by auto
    show ?thesis
      unfolding all collect_dirs.simps
      by (intro gathers_on_err [OF reads_ReadDir]) (simp_all add: Inr, rule gathers_guard, rule files, rule rest)
  qed
qed

section \<open>The view of a thread\<close>

lemma boxes_nonempty: "dir \<in> set (boxes_of agents) \<Longrightarrow> dir \<noteq> []"
  by (auto simp: boxes_of_def AgentInboxNew_def AgentInboxCur_def AgentOutboxSent_def AgentMailboxPath_def)

lemma CollectThread_gathered:
  assumes "boxes_ok (fs w) (boxes_of agents)" and "\<forall>t. faults w t = None"
    and "fst (CollectThread ft tid agents inc onError w) = Inr es"
  shows "\<exists>st. gathered (thread_messages ft tid inc (fs w) (boxes_of agents)) ([], []) st \<and>
     es = SortByTimestamp eCreated eID eRawTime (fst st)"
proof -
  let ?f = "fs w"
  obtain x where x: "reads ?f (collect_dirs ft tid inc onError (boxes_of agents) ([], [])) x"
    "\<forall>st'. x = Inr st' \<longrightarrow> gathered (thread_messages ft tid inc ?f (boxes_of agents)) ([], []) st'"
    using collect_dirs_gathers [OF assms(1)] unfolding gathers_def by blast
  have "reads ?f (CollectThread ft tid agents inc onError)
      (case x of Inl e \<Rightarrow> Inl e | Inr st \<Rightarrow> Inr (SortByTimestamp eCreated eID eRawTime (fst st)))"
    unfolding CollectThread_def
    by (rule reads_on_err [OF x(1)]) (auto simp: reads_fail reads_ok split: sum.split prod.split)
  from readsD [OF this refl assms(2)] assms(3) x(2) show ?thesis by (cases x) auto
qed

text \<open>
  C40: the view of a thread has every message of the thread that a file of the agents' boxes holds, once for
  each identifier, with the fields of its header, and nothing else; where all creation times parse it is in
  time order.
\<close>

theorem thread_view_complete:
  assumes "boxes_ok (fs w) (boxes_of agents)" and "\<forall>t. faults w t = None"
    and "fst (CollectThread float_text threadID agents includeBody onError w) = Inr es"
  shows "distinct (map eID es) \<and>
     eID ` set es = hID ` fst ` thread_messages float_text threadID includeBody (fs w) (boxes_of agents) \<and>
     (\<forall>e \<in> set es. \<exists>(h, b) \<in> thread_messages float_text threadID includeBody (fs w) (boxes_of agents). e = entry_of h b) \<and>
     ((\<forall>e \<in> set es. \<not> IsZero (eRawTime e)) \<longrightarrow> sorted (map (\<lambda>e. (eRawTime e, eID e)) es))"
proof -
  obtain st where g: "gathered (thread_messages float_text threadID includeBody (fs w) (boxes_of agents)) ([], []) st"
    and es: "es = SortByTimestamp eCreated eID eRawTime (fst st)"
    using CollectThread_gathered [OF assms] by blast
  have m: "mset es = mset (fst st)" unfolding es by (rule SortByTimestamp_mset)
  then have s: "set es = set (fst st)" and "mset (map eID es) = mset (map eID (fst st))"
    by (auto dest: mset_eq_setD)
  then have d: "distinct (map eID es) \<longleftrightarrow> distinct (map eID (fst st))" by (metis mset_eq_imp_distinct_iff)
  have o: "sorted (map (\<lambda>e. (eRawTime e, eID e)) es)" if "\<forall>e \<in> set es. \<not> IsZero (eRawTime e)"
    unfolding es by (rule SortByTimestamp_sorted) (use that s in simp)
  show ?thesis using g d o unfolding s gathered_def by simp
qed

text \<open>A box with one message.\<close>

definition thread_fs :: fs where
  "thread_fs = [([''agents''], Dir 448), ([''agents'', ''a''], Dir 448), ([''agents'', ''a'', ''inbox''], Dir 448),
     (inbox_new ''a'', Dir 448), (inbox_new ''a'' @ [''m.md''], Reg (Marshal 0 hello))]"

lemma hello_header: "ReadHeader Some (Marshal 0 hello) = Inr ((mHeader hello)\<lparr>hSchema := 1\<rparr>)"
proof -
  have "CHR 0x0D \<notin> set (Marshal 0 hello)" by code_simp
  from ReadHeader_ParseMessage [OF this hello_parsed] show ?thesis by simp
qed

lemma hello_thread: "Thread (mHeader hello) = ''t''"
  by (simp add: hello_def)

lemma thread_fs_nodes:
  "readdir (AgentInboxNew ''a'') thread_fs = Inr [(''m.md'', Reg (Marshal 0 hello))]"
  "readdir (AgentInboxCur ''a'') thread_fs = Inl ENOENT"
  "readdir (AgentOutboxSent ''a'') thread_fs = Inl ENOENT"
  "lstat (AgentInboxNew ''a'' @ [''m.md'']) thread_fs = Inr (Reg (Marshal 0 hello))"
  "message_name ''m.md''"
  by (simp_all add: thread_fs_def readdir_def follow.simps lstat_def node_at_def children_def message_name_def hasPrefix_def
      hasSuffix_def suffix_def AgentInboxNew_def AgentInboxCur_def AgentOutboxSent_def AgentMailboxPath_def)

theorem thread_view_complete_witness:
  "\<exists>es. fst (CollectThread Some ''t'' [''a''] False None (calm thread_fs)) = Inr es \<and> length es = 1 \<and> distinct (map eID es)"
proof -
  have "\<exists>es. fst (CollectThread Some ''t'' [''a''] False None (calm thread_fs)) = Inr es \<and> length es = 1"
    by (simp add: CollectThread_def boxes_of_def os_ReadDir_def sys_query_def sys_def on_err_def fail_def ok_def ret_def Let_def
        sys_noop_def read_entry_def ReadHeaderFile_def OpenRegularNoFollowPath_def openRegularNoFollow_def calm_def
        validateRegularNoFollowFile_def read_bytes_def SortByTimestamp_def ins_def thread_fs_nodes hello_header hello_thread)
  then obtain es where es: "fst (CollectThread Some ''t'' [''a''] False None (calm thread_fs)) = Inr es" "length es = 1" by blast
  have "boxes_ok (fs (calm thread_fs)) (boxes_of [''a''])" by code_simp
  from thread_view_complete [OF this _ es(1)] es show ?thesis by (simp add: calm_def)
qed

end
