(* ===== verification/Validate.thy ===== *)
theory Validate
  imports Message Time_Parse
begin

text \<open>
  Validation of headers and names at the command line (\<^verbatim>\<open>internal/cli/validate.go\<close>, parts of
  \<^verbatim>\<open>internal/cli/common.go\<close>). A validator returns \<open>None\<close> where the source returns nil.
\<close>

definition normalizeHandle :: "string \<Rightarrow> goerr + string" where
  "normalizeHandle raw =
     (let handle = trimSpace raw in
      if contains handle ''/'' \<or> contains handle [CHR 0x5C] then Inl (Msg ''invalid handle (slashes not allowed)'')
      else case ValidateHandle handle of Some e \<Rightarrow> Inl e | None \<Rightarrow> Inr handle)"

text \<open>\<^verbatim>\<open>filepath.Base\<close> of a name differs from it only if the name has a slash.\<close>

definition ensureSafeBaseName :: "string \<Rightarrow> goerr + string" where
  "ensureSafeBaseName raw =
     (let name = trimSpace raw in
      if name = [] then Inl (Msg ''name cannot be empty'')
      else if hasPrefix name ''.'' then Inl (Msg ''invalid name'')
      else if name = ''.'' \<or> name = ''..'' then Inl (Msg ''invalid name'')
      else if contains name ''/'' \<or> contains name [CHR 0x5C] then Inl (Msg ''invalid name'')
      else if hasSuffix name ''.md'' then Inl (Msg ''invalid name'')
      else Inr name)"

definition safeHeaderID :: "string \<Rightarrow> string option" where
  "safeHeaderID i = (case ensureSafeBaseName i of Inl _ \<Rightarrow> None | Inr _ \<Rightarrow> Some i)"

definition validateHandleValue :: "string \<Rightarrow> string \<Rightarrow> goerr option" where
  "validateHandleValue label handle =
     (if trimSpace handle = [] then Some (Msg (label @ '' handle is empty''))
      else case normalizeHandle handle of
        Inl e \<Rightarrow> Some (Wrap (''invalid '' @ label @ '' handle'') e)
      | Inr norm \<Rightarrow> if norm \<noteq> handle then Some (Msg (''invalid '' @ label @ '' handle (not normalized)'')) else None)"

definition validateLegacyInspectionHandleValue :: "string \<Rightarrow> string \<Rightarrow> goerr option" where
  "validateLegacyInspectionHandleValue label handle =
     (if validateHandleValue label handle = None then None
      else case validateLegacyInspectableHandle handle of
        Some e \<Rightarrow> Some (Wrap (''invalid '' @ label @ '' handle'') e)
      | None \<Rightarrow> None)"

fun first_error :: "('a \<Rightarrow> goerr option) \<Rightarrow> 'a list \<Rightarrow> goerr option" where
  "first_error v [] = None"
| "first_error v (x # xs) = (case v x of Some e \<Rightarrow> Some e | None \<Rightarrow> first_error v xs)"

definition recipients_of :: "Header \<Rightarrow> string list" where
  "recipients_of h = (case To h of None \<Rightarrow> [] | Some xs \<Rightarrow> xs)"

definition validateHeaderFieldsWithHandleValidation ::
    "(string \<Rightarrow> string \<Rightarrow> goerr option) \<Rightarrow> Header \<Rightarrow> goerr option" where
  "validateHeaderFieldsWithHandleValidation valid h =
     (case ensureSafeBaseName (hID h) of Inl e \<Rightarrow> Some (Wrap ''invalid message id'' e) | Inr _ \<Rightarrow>
      case valid ''sender'' (From h) of Some e \<Rightarrow> Some e | None \<Rightarrow>
      if recipients_of h = [] then Some (Msg ''missing recipients'')
      else case first_error (valid ''recipient'') (recipients_of h) of Some e \<Rightarrow> Some e | None \<Rightarrow>
      let thread = trimSpace (Thread h) in
      if thread = [] then Some (Msg ''missing thread'')
      else if thread \<noteq> Thread h then Some (Msg ''thread contains leading/trailing whitespace'')
      else let created = trimSpace (Created h) in
      if created = [] then Some (Msg ''missing created timestamp'')
      else if created \<noteq> Created h then Some (Msg ''created timestamp contains leading/trailing whitespace'')
      else if parseRFC3339Nano (Created h) = None then Some (Msg ''invalid created timestamp'')
      else if \<not> IsValidPriority (Priority h) then Some (Msg ''invalid priority'')
      else if \<not> IsValidKind (hKind h) then Some (Msg ''invalid kind'')
      else None)"

definition validateHeaderFields :: "Header \<Rightarrow> goerr option" where
  "validateHeaderFields = validateHeaderFieldsWithHandleValidation validateHandleValue"

record headerValidator =
  vstrict :: bool
  known :: "string list"
  allowLegacyFlagHandles :: bool

text \<open>The validator of commands that were given none: \<^verbatim>\<open>&headerValidator{}\<close>.\<close>

definition no_validator :: headerValidator where
  "no_validator = \<lparr>vstrict = False, known = [], allowLegacyFlagHandles = False\<rparr>"

definition validateHeaderBasic :: "headerValidator \<Rightarrow> Header \<Rightarrow> goerr option" where
  "validateHeaderBasic v h =
     (if vstrict v \<and> hSchema h \<noteq> CurrentSchema then Some (Msg ''unsupported schema'')
      else if allowLegacyFlagHandles v
        then validateHeaderFieldsWithHandleValidation validateLegacyInspectionHandleValue h
      else validateHeaderFields h)"

definition validate :: "headerValidator \<Rightarrow> Header \<Rightarrow> goerr option" where
  "validate v h =
     (case validateHeaderBasic v h of Some e \<Rightarrow> Some e | None \<Rightarrow>
      if known v = [] then None
      else if From h \<notin> set (known v) then Some (Msg ''unknown sender handle'')
      else first_error (\<lambda>rcp. if rcp \<notin> set (known v) then Some (Msg ''unknown recipient handle'') else None)
        (recipients_of h))"

section \<open>What a valid header satisfies\<close>

lemma first_error_None: "first_error v xs = None \<longleftrightarrow> (\<forall>x \<in> set xs. v x = None)"
  by (induction xs) (auto split: option.split)

lemma validateHandleValue_None: "validateHandleValue label handle = None \<longleftrightarrow> ValidateHandle handle = None"
proof
  assume "validateHandleValue label handle = None"
  then show "ValidateHandle handle = None"
    by (auto simp: validateHandleValue_def normalizeHandle_def Let_def split: if_splits option.splits)
next
  assume v: "ValidateHandle handle = None"
  then have h: "handleRe handle" by (simp add: validate_handle_iff)
  then have "trimSpace handle = handle" "handle \<noteq> []" by (simp_all add: handleRe_def handle_chars_trim)
  moreover have "CHR ''/'' \<notin> set handle" "CHR 0x5C \<notin> set handle"
    using h by (auto simp: handleRe_def handle_char_def list_all_iff is_digit_def less_eq_char_def)
  ultimately show "validateHandleValue label handle = None"
    using v by (simp add: validateHandleValue_def normalizeHandle_def contains_single)
qed

text \<open>A header that passes names a sender, recipients, a thread and a time that parses.\<close>

lemma valid_header:
  assumes "validate v h = None"
  shows "parseRFC3339Nano (Created h) \<noteq> None" "recipients_of h \<noteq> []" "Thread h \<noteq> []"
    "IsValidPriority (Priority h)" "IsValidKind (hKind h)" "\<exists>i. ensureSafeBaseName (hID h) = Inr i"
  using assms
  by (auto simp: validate_def validateHeaderBasic_def validateHeaderFields_def
      validateHeaderFieldsWithHandleValidation_def Let_def split: option.splits if_splits sum.splits)

end
