(* ===== verification/Drain.thy ===== *)
theory Drain
  imports Validate Receipt Dlq_Safety Mailbox
begin

text \<open>
  Draining an inbox (\<^verbatim>\<open>internal/cli/inbox_collect.go\<close>): every message in \<^verbatim>\<open>inbox/new\<close> is claimed, read
  and validated; a message that cannot be used goes to the DLQ; a receipt says what happened. This is
  where the claim, the DLQ and the receipts meet.

  Errors are values here, not texts: the text of an error, which the code stores as the reason a message
  was refused, is the argument \<open>err_text\<close>. Warnings on the standard error stream are left out.
\<close>

record inboxItem =
  iID :: string
  iFrom :: string
  iTo :: "string list option"
  iThread :: string
  iSubject :: string
  iCreated :: string
  iBody :: bytes
  iPriority :: string
  iKind :: string
  iLabels :: "string list option"
  iContext :: "(string \<times> json) list option"
  iFromProject :: string
  iReplyProject :: string
  iMovedToCur :: bool
  iMovedToDLQ :: bool
  iParseError :: string
  iFailureReason :: string
  iFilename :: string
  iSortKey :: time

definition item_zero :: inboxItem where
  "item_zero = \<lparr>iID = [], iFrom = [], iTo = None, iThread = [], iSubject = [], iCreated = [], iBody = [], iPriority = [],
     iKind = [], iLabels = None, iContext = None, iFromProject = [], iReplyProject = [], iMovedToCur = False,
     iMovedToDLQ = False, iParseError = [], iFailureReason = [], iFilename = [], iSortKey = zero_time\<rparr>"

definition baseID :: "string \<Rightarrow> string" where
  "baseID filename = (if hasSuffix filename ''.md'' then take (length filename - 3) filename else filename)"

definition failedClaimedInboxItem :: "string \<Rightarrow> string \<Rightarrow> string \<Rightarrow> inboxItem" where
  "failedClaimedInboxItem filename reason txt =
     item_zero\<lparr>iID := baseID filename, iFilename := filename, iParseError := txt, iFailureReason := reason\<rparr>"

definition finishInboxBatch :: "inboxItem list \<Rightarrow> goerr option \<Rightarrow> inboxItem list \<times> goerr option" where
  "finishInboxBatch items err = (SortByTimestamp iCreated iID iSortKey items, err)"

definition claimMailboxDirsExist :: "droot \<Rightarrow> string \<Rightarrow> (goerr + bool) io" where
  "claimMailboxDirsExist r me =
     on_err (StatR r (inbox_new me)) (\<lambda>e. if osIsNotExist e then ok False else fail e) (\<lambda>n1.
     if \<not> isDir n1 then ok False
     else on_err (StatR r (inbox_cur me)) (\<lambda>e. if osIsNotExist e then ok False else fail e) (\<lambda>n2.
     if \<not> isDir n2 then ok False else ok True))"

definition receiptSenderUnavailableDetail :: string where
  "receiptSenderUnavailableDetail = ''sender unavailable because message metadata could not be parsed''"

definition emitReceipt :: "droot \<Rightarrow> string \<Rightarrow> inboxItem \<Rightarrow> string \<Rightarrow> string \<Rightarrow> unit io" where
  "emitReceipt r consumer item stage detail0 =
     (let sender = (if trimSpace (iFrom item) \<noteq> [] then (case normalizeHandle (iFrom item) of Inl _ \<Rightarrow> [] | Inr h \<Rightarrow> h) else []);
          detail = (if trimSpace (iFrom item) = [] \<and> stage = StageDLQ
                    then (if trimSpace detail0 = [] then receiptSenderUnavailableDetail
                          else detail0 @ ''; '' @ receiptSenderUnavailableDetail)
                    else detail0) in
      bind get_now (\<lambda>t.
      bind (EmitDeliveryRoot r (New t (iID item) (iThread item) sender consumer stage detail)) (\<lambda>_. ret ())))"

definition collectInboxFilenames :: "droot \<Rightarrow> string \<Rightarrow> (goerr + string list) io" where
  "collectInboxFilenames r me =
     guard (ReadDirR r (inbox_new me)) (\<lambda>entries.
     ok (sort (map fst (filter (\<lambda>(filename, n). \<not> isDir n \<and> \<not> hasPrefix filename ''.'' \<and> hasSuffix filename ''.md'') entries))))"

definition size_of :: "node \<Rightarrow> nat" where
  "size_of n = (case n of Reg c \<Rightarrow> length c | _ \<Rightarrow> 0)"

text \<open>The fields of an item whose file was read: the result of parsing, validated.\<close>

definition fill_item ::
    "(goerr \<Rightarrow> string) \<Rightarrow> headerValidator \<Rightarrow> bool \<Rightarrow> inboxItem \<Rightarrow> goerr + Header \<times> bytes \<Rightarrow> inboxItem" where
  "fill_item err_text validator includeBody item parsed =
     (case parsed of
        Inl parseErr \<Rightarrow> item\<lparr>iParseError := err_text parseErr, iFailureReason := ''parse_error''\<rparr>
      | Inr (header, body) \<Rightarrow>
          (case validate validator header of
             Some e \<Rightarrow>
               item\<lparr>iFrom := From header, iThread := Thread header, iParseError := ''invalid header: '' @ err_text e,
                    iFailureReason := ''invalid_header'',
                    iID := (case safeHeaderID (hID header) of Some i \<Rightarrow> i | None \<Rightarrow> iID item)\<rparr>
           | None \<Rightarrow>
               item\<lparr>iID := hID header, iFrom := From header, iTo := To header, iThread := Thread header,
                    iSubject := Subject header, iCreated := Created header, iPriority := Priority header,
                    iKind := hKind header, iLabels := Labels header, iContext := Context header,
                    iFromProject := FromProject header, iReplyProject := ReplyProject header,
                    iBody := (if includeBody then body else iBody item),
                    iSortKey := (case parseRFC3339Nano (Created header) of Some t \<Rightarrow> t | None \<Rightarrow> iSortKey item)\<rparr>))"

text \<open>
  Reading the file, whole or up to its header: \<open>Inl\<close> is an error that \<^verbatim>\<open>readInboxItem\<close> returns, \<open>Inr\<close> the
  result of parsing.
\<close>

definition read_whole :: "(string \<Rightarrow> string option) \<Rightarrow> droot \<Rightarrow> path \<Rightarrow> (goerr + (goerr + Header \<times> bytes)) io" where
  "read_whole float_text r p =
     guard (StatR r p) (\<lambda>info.
     if size_of info > MaxMessageSize then ok (Inl (Wrap ''bytes'' ErrMessageTooLarge))
     else guard (ReadRegularNoFollow r p) (\<lambda>data.
     if length data > MaxMessageSize then ok (Inl (Wrap ''bytes'' ErrMessageTooLarge))
     else ok (case ParseMessage float_text data of Inl e \<Rightarrow> Inl e | Inr m \<Rightarrow> Inr (mHeader m, Body m))))"

definition read_head :: "(string \<Rightarrow> string option) \<Rightarrow> droot \<Rightarrow> path \<Rightarrow> (goerr + (goerr + Header \<times> bytes)) io" where
  "read_head float_text r p =
     guard (OpenRegularNoFollow r p) (\<lambda>n.
     bind (sys_query (\<lambda>_. read_bytes n)) (\<lambda>rd.
     let parsed = (case rd of Inl e \<Rightarrow> Inl e | Inr content \<Rightarrow>
                     (case ReadHeader float_text content of Inl e \<Rightarrow> Inl e | Inr h \<Rightarrow> Inr (h, []))) in
     bind sys_noop (\<lambda>closed.
     case closed of
       Inl e \<Rightarrow> (case parsed of Inr _ \<Rightarrow> fail e | Inl _ \<Rightarrow> ok parsed)
     | Inr _ \<Rightarrow> ok parsed)))"

definition readInboxItem ::
    "(string \<Rightarrow> string option) \<Rightarrow> (goerr \<Rightarrow> string) \<Rightarrow> droot \<Rightarrow> path \<Rightarrow> string \<Rightarrow> bool \<Rightarrow> headerValidator \<Rightarrow>
     (inboxItem \<times> goerr option) io" where
  "readInboxItem float_text err_text r p filename includeBody validator =
     (let item = item_zero\<lparr>iID := baseID filename, iFilename := filename\<rparr> in
      on_err (if includeBody then read_whole float_text r p else read_head float_text r p)
        (\<lambda>e. ret (item, Some e))
        (\<lambda>parsed. ret (fill_item err_text validator includeBody item parsed, None)))"

text \<open>A message that cannot be used: the placement in the DLQ, by the outcome of the claim.\<close>

definition place_in_dlq :: "droot \<Rightarrow> string \<Rightarrow> inboxItem \<Rightarrow> goerr option \<Rightarrow> (path \<times> goerr option) io" where
  "place_in_dlq r me item claimErr =
     (let reason = (if iFailureReason item = [] then ''parse_error'' else iFailureReason item) in
      case claimErr of
        Some ce \<Rightarrow> MoveClaimedCurToDLQ r me (iFilename item) (iID item) reason (iParseError item) (Some ce)
      | None \<Rightarrow> MoveCurToDLQ r me (iFilename item) (iID item) reason (iParseError item))"

text \<open>
  What follows a claim: \<open>claimErr\<close> is the error of a claim that committed. The result is the item to
  report, and the error with which the batch ends, if it ends.
\<close>

definition dead_letter_item :: "droot \<Rightarrow> string \<Rightarrow> inboxItem \<Rightarrow> goerr option \<Rightarrow> (inboxItem \<times> goerr option) io" where
  "dead_letter_item r me item claimErr =
     bind (place_in_dlq r me item claimErr) (\<lambda>(dlqPath, dlqErr).
     let moved = item\<lparr>iMovedToDLQ := True\<rparr> in
     case dlqErr of
       None \<Rightarrow> bind (emitReceipt r me moved StageDLQ (iParseError item)) (\<lambda>_. ret (moved, None))
     | Some de \<Rightarrow>
         (if asTransition de then ret (item, Some de)
          else if dlqPath \<noteq> [] \<and> asCommitted de \<noteq> None
            then bind (emitReceipt r me moved StageDLQ (iParseError item)) (\<lambda>_. ret (moved, Some de))
          else ret (item, Some de)))"

definition claimed_item :: "(goerr \<Rightarrow> string) \<Rightarrow> inboxItem \<times> goerr option \<Rightarrow> inboxItem" where
  "claimed_item err_text x =
     (case snd x of
        None \<Rightarrow> fst x
      | Some e \<Rightarrow> (fst x)\<lparr>iParseError := err_text e, iFailureReason := ''parse_error''\<rparr>)"

definition process_claimed ::
    "(string \<Rightarrow> string option) \<Rightarrow> (goerr \<Rightarrow> string) \<Rightarrow> droot \<Rightarrow> string \<Rightarrow> bool \<Rightarrow> headerValidator \<Rightarrow> string \<Rightarrow>
     goerr option \<Rightarrow> (inboxItem \<times> goerr option) io" where
  "process_claimed float_text err_text r me includeBody validator filename claimErr =
     bind (readInboxItem float_text err_text r (cur_msg me filename) filename includeBody validator) (\<lambda>x.
     let item = claimed_item err_text x in
     if iParseError item \<noteq> [] then dead_letter_item r me item claimErr
     else
       bind (emitReceipt r me (item\<lparr>iMovedToCur := True\<rparr>) StageDrained []) (\<lambda>_.
       ret (item\<lparr>iMovedToCur := True\<rparr>, claimErr)))"

text \<open>The loop over the file names.\<close>

fun drain_loop ::
    "(string \<Rightarrow> string option) \<Rightarrow> (goerr \<Rightarrow> string) \<Rightarrow> droot \<Rightarrow> string \<Rightarrow> bool \<Rightarrow> int \<Rightarrow> headerValidator \<Rightarrow>
     (string \<Rightarrow> (goerr + unit) io) option \<Rightarrow> string list \<Rightarrow> inboxItem list \<Rightarrow> (inboxItem list \<times> goerr option) io" where
  "drain_loop float_text err_text r me includeBody limit validator afterClaim [] items = ret (finishInboxBatch items None)"
| "drain_loop float_text err_text r me includeBody limit validator afterClaim (filename # filenames) items =
     (let next = drain_loop float_text err_text r me includeBody limit validator afterClaim filenames;
          process = (\<lambda>claimErr.
            bind (process_claimed float_text err_text r me includeBody validator filename claimErr) (\<lambda>(item, err).
            case err of
              Some e \<Rightarrow> ret (finishInboxBatch (items @ [item]) (Some e))
            | None \<Rightarrow> next (items @ [item])));
          hooked = (\<lambda>claimErr.
            case afterClaim of
              None \<Rightarrow> process claimErr
            | Some hook \<Rightarrow>
                on_err (hook filename)
                  (\<lambda>e. ret (finishInboxBatch (items @ [failedClaimedInboxItem filename ''processing_error'' (err_text e)])
                         (Some (case claimErr of None \<Rightarrow> e | Some ce \<Rightarrow> Join ce e))))
                  (\<lambda>_. process claimErr)) in
      if limit > 0 \<and> int (length items) \<ge> limit then ret (finishInboxBatch items None)
      else bind (MoveNewToCur r me filename) (\<lambda>x.
        case x of
          Inr _ \<Rightarrow> hooked None
        | Inl claimErr \<Rightarrow>
            (if asCommitted claimErr \<noteq> None then hooked (Some claimErr)
             else if osIsNotExist claimErr then
               on_err (claimMailboxDirsExist r me) (\<lambda>e. ret (finishInboxBatch items (Some e))) (\<lambda>exists.
               if exists then next items
               else ret (finishInboxBatch items (Some (Msg ''mailbox disappeared while claiming''))))
             else ret (finishInboxBatch items (Some claimErr)))))"

definition drainInboxItemsPinned ::
    "(string \<Rightarrow> string option) \<Rightarrow> (goerr \<Rightarrow> string) \<Rightarrow> droot \<Rightarrow> string \<Rightarrow> bool \<Rightarrow> int \<Rightarrow> headerValidator option \<Rightarrow>
     (string \<Rightarrow> (goerr + unit) io) option \<Rightarrow> (inboxItem list \<times> goerr option) io" where
  "drainInboxItemsPinned float_text err_text r me includeBody limit validator afterClaim =
     on_err (collectInboxFilenames r me) (\<lambda>e. ret ([], Some e)) (\<lambda>filenames.
     drain_loop float_text err_text r me includeBody limit
       (case validator of None \<Rightarrow> no_validator | Some v \<Rightarrow> v) afterClaim filenames [])"

definition drainInboxItemsWithClaimHook ::
    "(string \<Rightarrow> string option) \<Rightarrow> (goerr \<Rightarrow> string) \<Rightarrow> droot \<Rightarrow> string \<Rightarrow> bool \<Rightarrow> int \<Rightarrow> headerValidator option \<Rightarrow>
     (string \<Rightarrow> (goerr + unit) io) option \<Rightarrow> (inboxItem list \<times> goerr option) io" where
  "drainInboxItemsWithClaimHook float_text err_text r me includeBody limit validator afterClaim =
     on_err (WithPinnedBatch r (\<lambda>batch.
         drainInboxItemsPinned float_text err_text batch me includeBody limit validator afterClaim))
       (\<lambda>e. ret ([], Some e)) ret"

definition drainInboxItems ::
    "(string \<Rightarrow> string option) \<Rightarrow> (goerr \<Rightarrow> string) \<Rightarrow> droot \<Rightarrow> string \<Rightarrow> bool \<Rightarrow> int \<Rightarrow> headerValidator option \<Rightarrow>
     (inboxItem list \<times> goerr option) io" where
  "drainInboxItems float_text err_text r me includeBody limit validator =
     drainInboxItemsWithClaimHook float_text err_text r me includeBody limit validator None"

section \<open>Peeking\<close>

text \<open>The loop of \<^verbatim>\<open>collectInboxItemsPinned\<close>: reading without claiming.\<close>

fun peek_loop ::
    "(string \<Rightarrow> string option) \<Rightarrow> (goerr \<Rightarrow> string) \<Rightarrow> droot \<Rightarrow> string \<Rightarrow> bool \<Rightarrow> headerValidator \<Rightarrow>
     (goerr + unit) io option \<Rightarrow> string list \<Rightarrow> inboxItem list \<Rightarrow> (goerr + inboxItem list) io" where
  "peek_loop float_text err_text r me includeBody validator revalidate [] items = ok items"
| "peek_loop float_text err_text r me includeBody validator revalidate (filename # filenames) items =
     guard (case revalidate of None \<Rightarrow> ok () | Some m \<Rightarrow> m) (\<lambda>_.
     bind (readInboxItem float_text err_text r (new_msg me filename) filename includeBody validator) (\<lambda>(item, err).
     case err of
       Some e \<Rightarrow> (if osIsNotExist e then peek_loop float_text err_text r me includeBody validator revalidate filenames items
                  else fail e)
     | None \<Rightarrow> peek_loop float_text err_text r me includeBody validator revalidate filenames (items @ [item])))"

definition collectInboxItemsPinned ::
    "(string \<Rightarrow> string option) \<Rightarrow> (goerr \<Rightarrow> string) \<Rightarrow> droot \<Rightarrow> string \<Rightarrow> bool \<Rightarrow> int \<Rightarrow> headerValidator option \<Rightarrow>
     (goerr + unit) io option \<Rightarrow> (goerr + inboxItem list) io" where
  "collectInboxItemsPinned float_text err_text r me includeBody limit validator revalidate =
     guard (collectInboxFilenames r me) (\<lambda>filenames.
     guard (peek_loop float_text err_text r me includeBody
              (case validator of None \<Rightarrow> no_validator | Some v \<Rightarrow> v) revalidate filenames []) (\<lambda>items.
     let sorted_items = SortByTimestamp iCreated iID iSortKey items in
     ok (if limit > 0 \<and> int (length sorted_items) > limit then take (nat limit) sorted_items else sorted_items)))"

definition collectInboxItems ::
    "(string \<Rightarrow> string option) \<Rightarrow> (goerr \<Rightarrow> string) \<Rightarrow> droot \<Rightarrow> string \<Rightarrow> bool \<Rightarrow> int \<Rightarrow> headerValidator option \<Rightarrow>
     (goerr + unit) io option \<Rightarrow> (goerr + inboxItem list) io" where
  "collectInboxItems float_text err_text r me includeBody limit validator revalidate =
     on_err (WithPinnedBatch r (\<lambda>batch.
         collectInboxItemsPinned float_text err_text batch me includeBody limit validator revalidate))
       fail ret"

end
