(* ===== verification/Drain_Safety.thy ===== *)
theory Drain_Safety
  imports Drain Thread_Collect
begin

text \<open>
  Guarantees of draining, for every fault schedule: no message is lost, and what is reported about a
  message is true of the files.
\<close>

section \<open>The boxes of an agent\<close>

definition boxes :: "string \<Rightarrow> path set" where
  "boxes a = {p. \<exists>x. p = new_msg a x \<or> p = cur_msg a x \<or> p = dlq_new a @ [x]}"

lemma boxes_in [simp]: "new_msg a x \<in> boxes a" "cur_msg a x \<in> boxes a" "[''agents'', a, ''dlq'', ''new'', x] \<in> boxes a"
  by (auto simp: boxes_def)

lemma boxes_length: "p \<in> boxes a \<Longrightarrow> length p = 5"
  by (auto simp: boxes_def)

lemma boxes_apart:
  "boxes a \<inter> above (dlq_tmp a) = {}" "boxes a \<inter> above (dlq_new a) = {}" "boxes a \<inter> dot_names (dlq_tmp a) = {}"
  "boxes a \<inter> above [''agents'', c, ''receipts''] = {}" "boxes a \<inter> dot_names [''agents'', c, ''receipts''] = {}"
  by (auto simp: above_def dot_names_def boxes_def dest!: prefix_length_le)

lemma keeps_boxes_emit: "keeps (agree (boxes a) \<sigma>) (EmitDeliveryRoot r rc)"
proof -
  have "triple (agree (boxes a) \<sigma>) (WriteFileAtomic r [''agents'', rConsumer rc, ''receipts''] fn d) (\<lambda>_. agree (boxes a) \<sigma>)" for fn d
  proof (rule triple_post [OF WriteFileAtomic_agree [OF boxes_apart(4,5)]])
    fix x :: "path \<times> goerr option" and f
    assume "replaced (boxes a) \<sigma> ([''agents'', rConsumer rc, ''receipts''] @ [fn]) d (snd x) f"
    moreover have "[''agents'', rConsumer rc, ''receipts''] @ [fn] \<notin> boxes a" by (auto simp: boxes_def)
    ultimately show "agree (boxes a) \<sigma> f" by (auto simp: replaced_def agree_upd_out)
  qed
  then show ?thesis
    unfolding EmitDeliveryRoot_def keeps_def
    by (intro triple_bind) (auto split: option.split intro!: triple_fail triple_ok)
qed

lemma keeps_boxes_emitReceipt: "keeps (agree (boxes a) \<sigma>) (emitReceipt r me item stage detail)"
  unfolding emitReceipt_def Let_def by (intro stable_rules keeps_boxes_emit)

section \<open>One message placed in the DLQ\<close>

text \<open>The envelope of a message, by its node.\<close>

definition envelope_of :: "string \<Rightarrow> bytes \<Rightarrow> bytes \<Rightarrow> bool" where
  "envelope_of fn c d \<longleftrightarrow> (\<exists>env. serializeDLQMessage env c = Inr d \<and> OriginalFile env = fn \<and> RetryCount env = 0)"

text \<open>The result of a placement that a caller may report.\<close>

definition placed :: "path \<times> goerr option \<Rightarrow> bool" where
  "placed x \<longleftrightarrow> (case snd x of None \<Rightarrow> True | Some e \<Rightarrow> \<not> asTransition e \<and> fst x \<noteq> [])"

text \<open>
  What a placement of the claimed message does to the boxes: nothing, or a new envelope is there and the
  claimed file may be gone.
\<close>

definition dlq_step :: "string \<Rightarrow> string \<Rightarrow> tree \<Rightarrow> tree \<Rightarrow> bool" where
  "dlq_step a fn \<sigma> \<sigma>' \<longleftrightarrow>
     (\<exists>c name d. \<sigma> (cur_msg a fn) = Some (Reg c) \<and> envelope_of fn c d \<and> \<sigma> (dlq_new a @ [name]) \<in> {None, Some (Reg d)} \<and>
        \<sigma>' \<in> {\<sigma>(dlq_new a @ [name] \<mapsto> Reg d), \<sigma>(dlq_new a @ [name] \<mapsto> Reg d, cur_msg a fn := None)})"

definition dlq_post :: "string \<Rightarrow> string \<Rightarrow> tree \<Rightarrow> path \<times> goerr option \<Rightarrow> fs \<Rightarrow> bool" where
  "dlq_post a fn \<sigma> x f \<longleftrightarrow>
     agree (boxes a) \<sigma> f \<and> \<not> placed x \<or> (\<exists>\<sigma>'. dlq_step a fn \<sigma> \<sigma>' \<and> agree (boxes a) \<sigma>' f)"

lemma dlq_post_quit: "triple (agree (boxes a) \<sigma>) (ret ([], Some e)) (dlq_post a fn \<sigma>)"
  by (rule triple_ret) (simp add: dlq_post_def placed_def)

lemma dlq_post_part: "triple (agree (boxes a) \<sigma>) (ret (p, Some (DLQTransition q s e))) (dlq_post a fn \<sigma>)"
  by (rule triple_ret) (simp add: dlq_post_def placed_def)

lemma dlq_post_done: "dlq_step a fn \<sigma> \<sigma>' \<Longrightarrow> triple (agree (boxes a) \<sigma>') (ret x) (dlq_post a fn \<sigma>)"
  by (rule triple_ret) (auto simp: dlq_post_def)

lemma retire_dlq_post:
  assumes "dlq_step a fn \<sigma> \<sigma>'" and "dlq_step a fn \<sigma> (\<sigma>'(cur_msg a fn := None))"
  shows "triple (agree (boxes a) \<sigma>') (retire_source r a srcDir (cur_msg a fn) dp) (dlq_post a fn \<sigma>)"
proof -
  let ?P = "\<lambda>f. agree (boxes a) \<sigma>' f \<or> agree (boxes a) (\<sigma>'(cur_msg a fn := None)) f"
  have rm: "triple (agree (boxes a) \<sigma>') (sys_upd (remove (cur_msg a fn))) (\<lambda>_. ?P)"
    by (rule triple_sys_upd) (auto dest!: remove_cases simp: agree_def)
  have fin: "triple ?P (ret x) (dlq_post a fn \<sigma>)" for x
    by (rule triple_ret) (use assms in \<open>auto simp: dlq_post_def\<close>)
  have sync: "triple ?P (on_err (syncDir srcDir) (\<lambda>e. ret (dp, Some (h e))) (\<lambda>_. ret (dp, None))) (dlq_post a fn \<sigma>)" for h
    by (rule triple_on_err [OF keeps_triple [OF keeps_syncDir] fin fin])
  show ?thesis
    unfolding retire_source_def removeDLQSource_def
    by (rule triple_bind [OF rm]) (auto split: sum.split intro!: sync fin)
qed

lemma move_dlq_post:
  "triple (agree (boxes a) \<sigma>) (moveInboxMessageToDLQ r a BoxCur eb fn oid reason detail) (dlq_post a fn \<sigma>)"
  (is "triple ?P _ ?Q")
proof -
  have deliver: "triple ?P (bind (deliverToDLQ r a name d) (\<lambda>(dlqPath, err). case err of
            Some e \<Rightarrow> (if asCommitted e \<noteq> None then ret (dlqPath, Some (DLQTransition dlqPath (displayPath r (cur_msg a fn)) e))
               else ret ([], Some (Wrap ''deliver to dlq'' e)))
          | None \<Rightarrow> retire_source r a srcDir (cur_msg a fn) dlqPath)) ?Q"
    if c: "\<sigma> (cur_msg a fn) = Some (Reg c)" and d: "envelope_of fn c d" for name d c srcDir
  proof (rule triple_bind [OF deliverToDLQ_added [OF boxes_apart(1-3)]])
    fix x :: "path \<times> goerr option"
    obtain dp err where x: "x = (dp, err)" by (cases x)
    let ?np = "dlq_new a @ [name]"
    have step: "dlq_step a fn \<sigma> (\<sigma>(?np \<mapsto> Reg d))" "dlq_step a fn \<sigma> (\<sigma>(?np \<mapsto> Reg d, cur_msg a fn := None))"
      if "\<sigma> ?np \<in> {None, Some (Reg d)}"
      using that c d unfolding dlq_step_def by blast+
    have "triple (\<lambda>f. agree (boxes a) (\<sigma>(?np \<mapsto> Reg d)) f \<and> \<sigma> ?np \<in> {None, Some (Reg d)}) m ?Q"
      if "\<And>\<sigma>'. dlq_step a fn \<sigma> \<sigma>' \<Longrightarrow> dlq_step a fn \<sigma> (\<sigma>'(cur_msg a fn := None)) \<Longrightarrow> triple (agree (boxes a) \<sigma>') m ?Q" for m
      by (rule triple_pure2) (use that step in blast)
    note after = triple_pre [OF this]
    show "triple (added (boxes a) \<sigma> ?np d (snd x)) (case x of (dlqPath, err) \<Rightarrow> case err of
            Some e \<Rightarrow> (if asCommitted e \<noteq> None then ret (dlqPath, Some (DLQTransition dlqPath (displayPath r (cur_msg a fn)) e))
               else ret ([], Some (Wrap ''deliver to dlq'' e)))
          | None \<Rightarrow> retire_source r a srcDir (cur_msg a fn) dlqPath) ?Q"
    proof (cases err)
      case None
      show ?thesis unfolding x None prod.case option.case
        by (rule after) (use retire_dlq_post in \<open>auto simp: added_def\<close>)
    next
      case (Some e)
      have "triple (added (boxes a) \<sigma> ?np d (Some e)) (ret y) ?Q" if "\<not> placed y" for y
        by (rule triple_ret) (use that step in \<open>auto simp: added_def dlq_post_def\<close>)
      then show ?thesis unfolding x Some by (auto simp: placed_def)
    qed
  qed
  have gen: "keeps ?P GenerateDLQID" unfolding GenerateDLQID_def by (intro stable_rules)
  have src: "inboxSourceDir a BoxCur @ [fn] = cur_msg a fn" by (simp add: inboxSourceDir_def)
  have env: "envelope_of fn c d" if "serializeDLQMessage (new_envelope i oid fn reason detail t eb) c = Inr d" for i t c d
    using that unfolding envelope_of_def by (auto simp: new_envelope_def)
  show ?thesis
  proof (cases "ValidateMessageFilename fn")
    case (Some e)
    then show ?thesis by (simp add: moveInboxMessageToDLQ_def dlq_post_quit)
  next
    case None
    show ?thesis
      unfolding moveInboxMessageToDLQ_def None option.case Let_def src
    proof (rule triple_on_err [OF ReadRegular_agree [OF boxes_in(2)]]; (rule triple_pure2)?)
      fix c assume "\<forall>x. Inr c = Inr x \<longrightarrow> \<sigma> (cur_msg a fn) = Some (Reg x)"
      then have c: "\<sigma> (cur_msg a fn) = Some (Reg c)" by simp
      show "triple ?P (on_err GenerateDLQID (\<lambda>e. ret ([], Some (Wrap ''generate dlq id'' e))) (\<lambda>dlqID.
        bind get_now (\<lambda>t. case serializeDLQMessage (new_envelope dlqID oid fn reason detail (RFC3339 t) eb) c of
          Inl e \<Rightarrow> ret ([], Some (Wrap ''serialize dlq'' e))
        | Inr d \<Rightarrow> bind (deliverToDLQ r a (dlqID @ ''.md'') d) (\<lambda>(dlqPath, err). case err of
            Some e \<Rightarrow> (if asCommitted e \<noteq> None then ret (dlqPath, Some (DLQTransition dlqPath (displayPath r (cur_msg a fn)) e))
               else ret ([], Some (Wrap ''deliver to dlq'' e)))
          | None \<Rightarrow> retire_source r a (inboxSourceDir a BoxCur) (cur_msg a fn) dlqPath)))) ?Q"
        by (rule triple_on_err [OF keeps_triple [OF gen] dlq_post_quit], rule triple_bind [OF keeps_triple [OF keeps_get_now]])
           (auto split: sum.split intro!: dlq_post_quit deliver [OF c] env)
    qed (use dlq_post_quit in simp_all)
  qed
qed

lemma moveClaimed_dlq_post:
  "triple (agree (boxes a) \<sigma>) (moveClaimedCurToDLQ r a eb fn oid reason detail claimErr) (dlq_post a fn \<sigma>)"
  (is "triple ?P _ ?Q")
proof -
  have sync: "keeps P (syncInboxClaimDirs a)" for P
    unfolding syncInboxClaimDirs_def by (intro stable_rules)
  have placed_any: "?Q x f \<Longrightarrow> placed x \<Longrightarrow> ?Q y f" for x y f by (auto simp: dlq_post_def)
  have after: "triple (?Q x) (bind (syncInboxClaimDirs a) (\<lambda>s. case s of
      None \<Rightarrow> ret (p, None) | Some se \<Rightarrow> ret (p, Some (h se)))) ?Q" if "placed x" for x p h
    by (rule triple_bind [OF keeps_triple [OF sync]])
       (auto split: option.split intro!: triple_ret intro: placed_any [OF _ that])
  have both: "triple (?Q (p, Some te)) (ret (p, Some (Join e te))) ?Q" for p te e
    by (rule triple_ret) (auto simp: dlq_post_def placed_def)
  have pass: "triple (?Q x) (ret x) ?Q" for x by (rule triple_ret)
  show ?thesis
    unfolding moveClaimedCurToDLQ_def
    by (rule triple_bind [OF move_dlq_post], simp only: split_paired_all prod.case)
       (cases claimErr; auto split: option.split intro!: pass both after simp: placed_def)
qed

lemma place_dlq_post: "triple (agree (boxes a) \<sigma>) (place_in_dlq r a item claimErr) (dlq_post a (iFilename item) \<sigma>)"
proof -
  have cur: "triple (agree (boxes a) \<sigma>) (MoveCurToDLQ r a fn oid reason detail) (dlq_post a fn \<sigma>)" for fn oid reason detail
    unfolding MoveCurToDLQ_def by (rule move_dlq_post)
  have "triple (agree (boxes a) \<sigma>) (MoveClaimedCurToDLQ r a fn oid reason detail (Some ce)) (dlq_post a fn \<sigma>)"
    for fn oid reason detail ce
    unfolding MoveClaimedCurToDLQ_def Let_def
    by (auto split: option.split intro!: dlq_post_quit moveClaimed_dlq_post triple_on_err [OF keeps_triple [OF keeps_VerifyBase]])
  with cur show ?thesis by (auto simp: place_in_dlq_def Let_def split: option.split)
qed

section \<open>What is held and what is reported\<close>

text \<open>The bytes of a message are in a box of the agent, or in an envelope of its DLQ.\<close>

definition held :: "string \<Rightarrow> string \<Rightarrow> bytes \<Rightarrow> tree \<Rightarrow> bool" where
  "held a fn c g \<longleftrightarrow> g (new_msg a fn) = Some (Reg c) \<or> g (cur_msg a fn) = Some (Reg c) \<or>
     (\<exists>name d. g (dlq_new a @ [name]) = Some (Reg d) \<and> envelope_of fn c d)"

text \<open>An item of a message that reading its file gives, and that passes validation.\<close>

definition usable_item ::
    "(string \<Rightarrow> string option) \<Rightarrow> (goerr \<Rightarrow> string) \<Rightarrow> headerValidator \<Rightarrow> bool \<Rightarrow> bytes \<Rightarrow> inboxItem \<Rightarrow> bool" where
  "usable_item float_text err_text v includeBody c item \<longleftrightarrow>
     (\<exists>h b. entry_in float_text includeBody c = Some (h, b) \<and> validate v h = None \<and>
        item = (fill_item err_text v includeBody (item_zero\<lparr>iID := baseID (iFilename item), iFilename := iFilename item\<rparr>) (Inr (h, b)))
                 \<lparr>iMovedToCur := True\<rparr>)"

definition truly_reported ::
    "(string \<Rightarrow> string option) \<Rightarrow> (goerr \<Rightarrow> string) \<Rightarrow> headerValidator \<Rightarrow> bool \<Rightarrow> string \<Rightarrow> inboxItem \<Rightarrow> tree \<Rightarrow> bool" where
  "truly_reported float_text err_text v includeBody a item g \<longleftrightarrow>
     (iMovedToCur item \<longrightarrow> (\<exists>c. g (cur_msg a (iFilename item)) = Some (Reg c) \<and>
        usable_item float_text err_text v includeBody c item)) \<and>
     (iMovedToDLQ item \<longrightarrow> (\<exists>c name d. g (dlq_new a @ [name]) = Some (Reg d) \<and> envelope_of (iFilename item) c d))"

lemma dlq_step_kept:
  assumes "dlq_step a fn \<sigma> \<sigma>'" and "\<sigma> p = Some n" and "p \<noteq> cur_msg a fn"
  shows "\<sigma>' p = Some n"
proof -
  from assms(1) obtain name d where "\<sigma> (dlq_new a @ [name]) \<in> {None, Some (Reg d)}"
    "\<sigma>' \<in> {\<sigma>(dlq_new a @ [name] \<mapsto> Reg d), \<sigma>(dlq_new a @ [name] \<mapsto> Reg d, cur_msg a fn := None)}"
    unfolding dlq_step_def by blast
  with assms(2,3) show ?thesis by (cases "p = dlq_new a @ [name]") auto
qed

lemma dlq_step_envelope:
  assumes "dlq_step a fn \<sigma> \<sigma>'"
  obtains c name d where "\<sigma> (cur_msg a fn) = Some (Reg c)" "\<sigma>' (dlq_new a @ [name]) = Some (Reg d)" "envelope_of fn c d"
proof -
  from assms obtain c name d where "\<sigma> (cur_msg a fn) = Some (Reg c)" "envelope_of fn c d"
    "\<sigma>' \<in> {\<sigma>(dlq_new a @ [name] \<mapsto> Reg d), \<sigma>(dlq_new a @ [name] \<mapsto> Reg d, cur_msg a fn := None)}"
    unfolding dlq_step_def by blast
  then show thesis by (intro that [of c name d]) auto
qed

lemma dlq_step_held:
  assumes "dlq_step a fn \<sigma> \<sigma>'" and "held a x c \<sigma>"
  shows "held a x c \<sigma>'"
proof -
  note kept = dlq_step_kept [OF assms(1)]
  from assms(2) consider "\<sigma> (new_msg a x) = Some (Reg c)" | "\<sigma> (cur_msg a x) = Some (Reg c)"
    | name d where "\<sigma> (dlq_new a @ [name]) = Some (Reg d)" "envelope_of x c d"
    unfolding held_def by blast
  then show ?thesis
  proof cases
    case 2
    then show ?thesis
    proof (cases "x = fn")
      case True
      obtain c' name d where e: "\<sigma> (cur_msg a fn) = Some (Reg c')" "\<sigma>' (dlq_new a @ [name]) = Some (Reg d)" "envelope_of fn c' d"
        by (rule dlq_step_envelope [OF assms(1)])
      with 2 True have "c' = c" by simp
      with e(2,3) show ?thesis unfolding held_def True by blast
    next
      case False
      with kept [OF 2] show ?thesis by (simp add: held_def)
    qed
  next
    case 3
    from kept [OF 3(1)] have "\<sigma>' (dlq_new a @ [name]) = Some (Reg d)" by simp
    with 3(2) show ?thesis unfolding held_def by blast
  qed (use kept in \<open>simp add: held_def\<close>)
qed

lemma dlq_step_reported:
  assumes "dlq_step a fn \<sigma> \<sigma>'" and "truly_reported ft et v inc a item \<sigma>" and "iMovedToCur item \<longrightarrow> iFilename item \<noteq> fn"
  shows "truly_reported ft et v inc a item \<sigma>'"
proof -
  note kept = dlq_step_kept [OF assms(1)]
  have "\<exists>c. \<sigma>' (cur_msg a (iFilename item)) = Some (Reg c) \<and> usable_item ft et v inc c item" if "iMovedToCur item"
    using assms(2,3) that kept [of "cur_msg a (iFilename item)"] unfolding truly_reported_def by auto
  moreover have "\<exists>c name d. \<sigma>' (dlq_new a @ [name]) = Some (Reg d) \<and> envelope_of (iFilename item) c d" if m: "iMovedToDLQ item"
  proof -
    from assms(2) m obtain c name d where d: "\<sigma> (dlq_new a @ [name]) = Some (Reg d)" "envelope_of (iFilename item) c d"
      unfolding truly_reported_def by blast
    from kept [OF d(1)] have "\<sigma>' (dlq_new a @ [name]) = Some (Reg d)" by simp
    with d(2) show ?thesis by blast
  qed
  ultimately show ?thesis unfolding truly_reported_def by blast
qed

lemma agree_held: "agree (boxes a) \<sigma> f \<Longrightarrow> held a x c (map_of f) \<longleftrightarrow> held a x c \<sigma>"
  by (auto simp: held_def agree_def)

lemma agree_reported: "agree (boxes a) \<sigma> f \<Longrightarrow> truly_reported ft et v inc a item (map_of f) \<longleftrightarrow> truly_reported ft et v inc a item \<sigma>"
  by (auto simp: truly_reported_def agree_def)

section \<open>One claimed message\<close>

text \<open>
  The state of a batch that started on the tree \<open>g0\<close> and reported \<open>items\<close>: nothing of \<open>g0\<close> is lost, no
  directory stands where a message is expected, and the reports are true. The name \<open>used\<close> is that of a
  message claimed just now.
\<close>

definition batch ::
    "(string \<Rightarrow> string option) \<Rightarrow> (goerr \<Rightarrow> string) \<Rightarrow> headerValidator \<Rightarrow> bool \<Rightarrow> string \<Rightarrow> tree \<Rightarrow> inboxItem list \<Rightarrow>
     string option \<Rightarrow> tree \<Rightarrow> bool" where
  "batch float_text err_text v includeBody a g0 items used g \<longleftrightarrow>
     (\<forall>fn c. held a fn c g0 \<longrightarrow> held a fn c g) \<and> (\<forall>x m. g (new_msg a x) \<noteq> Some (Dir m)) \<and>
     (\<forall>item \<in> set items. truly_reported float_text err_text v includeBody a item g \<and>
        (iMovedToCur item \<longrightarrow> used \<noteq> Some (iFilename item)))"

lemma batch_agree: "agree (boxes a) \<sigma> f \<Longrightarrow> batch ft et v inc a g0 items used (map_of f) \<longleftrightarrow> batch ft et v inc a g0 items used \<sigma>"
  unfolding batch_def by (simp add: agree_held agree_reported) (simp add: agree_def)

lemma batch_unused: "batch ft et v inc a g0 items used g \<Longrightarrow> batch ft et v inc a g0 items None g"
  by (simp add: batch_def)

lemma batch_snoc:
  "batch ft et v inc a g0 items used g \<Longrightarrow> truly_reported ft et v inc a item g \<Longrightarrow> batch ft et v inc a g0 (items @ [item]) None g"
  by (simp add: batch_def)

lemma batch_dlq_step:
  assumes "batch ft et v inc a g0 items (Some fn) \<sigma>" and "dlq_step a fn \<sigma> \<sigma>'"
  shows "batch ft et v inc a g0 items (Some fn) \<sigma>'"
proof -
  have "\<sigma>' (new_msg a x) \<noteq> Some (Dir m)" for x m
  proof -
    from assms(2) have "\<sigma>' (new_msg a x) = \<sigma> (new_msg a x)" by (auto simp: dlq_step_def)
    with assms(1) show ?thesis by (simp add: batch_def)
  qed
  with assms(1) show ?thesis
    unfolding batch_def using dlq_step_held [OF assms(2)] dlq_step_reported [OF assms(2)] by blast
qed

text \<open>Reading the claimed file: an item without a parse error is of the bytes in the file.\<close>

lemma item_file [simp]: "iFilename (fill_item et v inc item parsed) = iFilename item"
  "iMovedToCur (fill_item et v inc item parsed) = iMovedToCur item" "iMovedToDLQ (fill_item et v inc item parsed) = iMovedToDLQ item"
  by (auto simp: fill_item_def split: sum.split option.split prod.split)

definition read_ok ::
    "(string \<Rightarrow> string option) \<Rightarrow> (goerr \<Rightarrow> string) \<Rightarrow> headerValidator \<Rightarrow> bool \<Rightarrow> string \<Rightarrow> node option \<Rightarrow> inboxItem \<times> goerr option \<Rightarrow> bool" where
  "read_ok float_text err_text v includeBody fn n x \<longleftrightarrow>
     iFilename (fst x) = fn \<and> \<not> iMovedToCur (fst x) \<and> \<not> iMovedToDLQ (fst x) \<and>
     (snd x = None \<and> iParseError (fst x) = [] \<longrightarrow>
        (\<exists>c. n = Some (Reg c) \<and> usable_item float_text err_text v includeBody c ((fst x)\<lparr>iMovedToCur := True\<rparr>)))"

lemma read_ok_error:
  "\<not> iMovedToCur item \<Longrightarrow> \<not> iMovedToDLQ item \<Longrightarrow> iFilename item = fn \<Longrightarrow> read_ok ft et v inc fn n (item, Some e)"
  by (simp add: read_ok_def)

lemma read_ok_fill:
  assumes "\<forall>e. et e \<noteq> []" and "\<And>h b. parsed = Inr (h, b) \<Longrightarrow> \<exists>c. n = Some (Reg c) \<and> entry_in ft inc c = Some (h, b)"
  shows "read_ok ft et v inc fn n (fill_item et v inc (item_zero\<lparr>iID := baseID fn, iFilename := fn\<rparr>) parsed, None)"
proof -
  let ?item = "item_zero\<lparr>iID := baseID fn, iFilename := fn\<rparr>"
  have "\<exists>c. n = Some (Reg c) \<and> usable_item ft et v inc c ((fill_item et v inc ?item parsed)\<lparr>iMovedToCur := True\<rparr>)"
    if e: "iParseError (fill_item et v inc ?item parsed) = []"
  proof -
    obtain h b where p: "parsed = Inr (h, b)" using e assms(1) by (cases parsed) (auto simp: fill_item_def)
    have v: "validate v h = None" using e p by (cases "validate v h") (auto simp: fill_item_def)
    from assms(2) [OF p] obtain c where "n = Some (Reg c)" "entry_in ft inc c = Some (h, b)" by blast
    with v show ?thesis unfolding usable_item_def p by (intro exI [of _ c] conjI exI [of _ h] exI [of _ b]) simp_all
  qed
  then show ?thesis unfolding read_ok_def by (simp add: item_zero_def)
qed

lemma Open_agree:
  assumes "p \<in> W"
  shows "triple (agree W \<sigma>) (OpenRegularNoFollow r p)
     (\<lambda>x f. agree W \<sigma> f \<and> (\<forall>n. x = Inr n \<longrightarrow> isRegular n \<and> \<sigma> p = Some n))"
  by (rule triple_agree_by_map [OF OpenRegularNoFollow_spec]) (use assms in \<open>auto simp: agree_def\<close>)

text \<open>A parsed result is of the bytes in the file.\<close>

definition parsed_of :: "(string \<Rightarrow> string option) \<Rightarrow> bool \<Rightarrow> node option \<Rightarrow> goerr + (goerr + Header \<times> bytes) \<Rightarrow> bool" where
  "parsed_of float_text includeBody n x \<longleftrightarrow>
     (\<forall>h b. x = Inr (Inr (h, b)) \<longrightarrow> (\<exists>c. n = Some (Reg c) \<and> entry_in float_text includeBody c = Some (h, b)))"

lemma read_whole_ok:
  assumes "p \<in> W"
  shows "triple (agree W \<sigma>) (read_whole ft r p) (\<lambda>x f. agree W \<sigma> f \<and> parsed_of ft True (\<sigma> p) x)"
proof -
  have "parsed_of ft True (\<sigma> p) (Inr (case ParseMessage ft data of Inl e \<Rightarrow> Inl e | Inr m \<Rightarrow> Inr (mHeader m, Body m)))"
    if "\<sigma> p = Some (Reg data)" for data
    using that by (auto simp: parsed_of_def entry_in_def split: sum.splits)
  then show ?thesis
    unfolding read_whole_def
    by (intro triple_on_err [OF keeps_triple [OF keeps_StatR]] triple_if triple_on_err [OF ReadRegular_agree [OF assms]])
       (auto intro!: triple_fail triple_ok simp: parsed_of_def)
qed

lemma read_head_ok:
  assumes "p \<in> W"
  shows "triple (agree W \<sigma>) (read_head ft r p) (\<lambda>x f. agree W \<sigma> f \<and> parsed_of ft False (\<sigma> p) x)"
  unfolding read_head_def Let_def
proof (rule triple_on_err [OF Open_agree [OF assms]]; rule triple_pure2)
  fix n assume "\<forall>m. Inr n = Inr m \<longrightarrow> isRegular m \<and> \<sigma> p = Some m"
  then obtain c where c: "n = Reg c" "\<sigma> p = Some (Reg c)" by (cases n) auto
  let ?parsed = "\<lambda>rd. case rd of Inl e \<Rightarrow> Inl e | Inr content \<Rightarrow>
    (case ReadHeader ft content of Inl e \<Rightarrow> Inl e | Inr h \<Rightarrow> Inr (h, []))"
  have "triple (agree W \<sigma>) (sys_query (\<lambda>_. read_bytes n)) (\<lambda>rd f. agree W \<sigma> f \<and> (\<forall>d. rd = Inr d \<longrightarrow> d = c))"
    by (rule triple_sys_query) (auto simp: c read_bytes_def)
  then show "triple (agree W \<sigma>) (bind (sys_query (\<lambda>_. read_bytes n)) (\<lambda>rd. bind sys_noop (\<lambda>closed.
      case closed of Inl e \<Rightarrow> (case ?parsed rd of Inr _ \<Rightarrow> fail e | Inl _ \<Rightarrow> ok (?parsed rd)) | Inr _ \<Rightarrow> ok (?parsed rd))))
      (\<lambda>x f. agree W \<sigma> f \<and> parsed_of ft False (\<sigma> p) x)"
  proof (rule triple_bind; intro triple_pure2 triple_bind [OF keeps_triple [OF keeps_sys_noop]])
    fix rd :: "goerr + bytes" and closed :: "goerr + unit" assume "\<forall>d. rd = Inr d \<longrightarrow> d = c"
    then have "parsed_of ft False (\<sigma> p) (Inr (?parsed rd))"
      using c(2) by (auto simp: parsed_of_def entry_in_def split: sum.splits)
    moreover have "parsed_of ft False (\<sigma> p) (Inl e)" for e by (simp add: parsed_of_def)
    ultimately show "triple (agree W \<sigma>) (case closed of Inl e \<Rightarrow> (case ?parsed rd of Inr _ \<Rightarrow> fail e | Inl _ \<Rightarrow> ok (?parsed rd))
        | Inr _ \<Rightarrow> ok (?parsed rd)) (\<lambda>x f. agree W \<sigma> f \<and> parsed_of ft False (\<sigma> p) x)"
      by (auto intro!: triple_case_sum triple_ok triple_fail)
  qed
qed (auto intro: triple_fail simp: parsed_of_def)

lemma readInboxItem_ok:
  assumes "\<forall>e. et e \<noteq> []"
  shows "triple (agree (boxes a) \<sigma>) (readInboxItem ft et r (cur_msg a fn) fn inc v)
     (\<lambda>x f. agree (boxes a) \<sigma> f \<and> read_ok ft et v inc fn (\<sigma> (cur_msg a fn)) x)"
proof -
  have rd: "triple (agree (boxes a) \<sigma>) (if inc then read_whole ft r (cur_msg a fn) else read_head ft r (cur_msg a fn))
      (\<lambda>x f. agree (boxes a) \<sigma> f \<and> parsed_of ft inc (\<sigma> (cur_msg a fn)) x)"
    using read_whole_ok [OF boxes_in(2)] read_head_ok [OF boxes_in(2)] by (cases inc) simp_all
  show ?thesis
    unfolding readInboxItem_def Let_def
  proof (rule triple_on_err [OF rd]; rule triple_pure2; rule triple_ret)
    fix parsed f assume "parsed_of ft inc (\<sigma> (cur_msg a fn)) (Inr parsed)" "agree (boxes a) \<sigma> f"
    then show "agree (boxes a) \<sigma> f \<and> read_ok ft et v inc fn (\<sigma> (cur_msg a fn))
        (fill_item et v inc (item_zero\<lparr>iID := baseID fn, iFilename := fn\<rparr>) parsed, None)"
      using read_ok_fill [OF assms, of parsed "\<sigma> (cur_msg a fn)" ft inc v fn] unfolding parsed_of_def by blast
  qed (simp add: read_ok_error item_zero_def)
qed

lemma batch_by_boxes:
  assumes "\<And>\<sigma>. batch ft et v inc a g0 items used \<sigma> \<Longrightarrow> triple (agree (boxes a) \<sigma>) m Q"
  shows "triple (\<lambda>f. batch ft et v inc a g0 items used (map_of f)) m Q"
  unfolding triple_def
proof (intro allI impI)
  fix w :: world assume "batch ft et v inc a g0 items used (map_of (fs w))"
  from triple_run [OF assms [OF this], of w] show "case m w of (x, w') \<Rightarrow> Q x (fs w')" by (simp add: agree_def case_prod_beta)
qed

text \<open>A program that keeps every state of the boxes keeps what depends on the boxes alone.\<close>

lemma keeps_dlq_post:
  assumes "\<And>\<sigma>. keeps (agree (boxes a) \<sigma>) m"
  shows "keeps (dlq_post a fn \<sigma> x) m"
  unfolding keeps_def triple_def
proof (intro allI impI)
  fix w :: world assume p: "dlq_post a fn \<sigma> x (fs w)"
  have "agree (boxes a) \<tau> (fs w) \<Longrightarrow> agree (boxes a) \<tau> (fs (snd (m w)))" for \<tau>
    using triple_run [OF keeps_triple [OF assms], of \<tau> w] by simp
  with p show "case m w of (y, w') \<Rightarrow> dlq_post a fn \<sigma> x (fs w')" by (auto simp: dlq_post_def case_prod_beta)
qed

lemma dlq_post_batch:
  assumes "batch ft et v inc a g0 items (Some fn) \<sigma>" and "dlq_post a fn \<sigma> x f"
    and "iFilename item = fn" and "\<not> iMovedToCur item" and "iMovedToDLQ item \<longrightarrow> placed x"
  shows "batch ft et v inc a g0 (items @ [item]) None (map_of f)"
proof (cases "agree (boxes a) \<sigma> f \<and> \<not> placed x")
  case True
  with assms(1) batch_agree have "batch ft et v inc a g0 items (Some fn) (map_of f)" by blast
  moreover have "truly_reported ft et v inc a item (map_of f)" using assms(4,5) True by (simp add: truly_reported_def)
  ultimately show ?thesis by (rule batch_snoc)
next
  case False
  with assms(2) obtain \<sigma>' where s: "dlq_step a fn \<sigma> \<sigma>'" "agree (boxes a) \<sigma>' f" unfolding dlq_post_def by blast
  have "batch ft et v inc a g0 items (Some fn) (map_of f)"
    using batch_dlq_step [OF assms(1) s(1)] batch_agree [OF s(2)] by blast
  moreover have "truly_reported ft et v inc a item \<sigma>'"
    unfolding truly_reported_def using dlq_step_envelope [OF s(1)] assms(3,4) by metis
  then have "truly_reported ft et v inc a item (map_of f)" using agree_reported [OF s(2)] by blast
  ultimately show ?thesis by (rule batch_snoc)
qed

lemma dead_letter_batch:
  assumes b: "batch ft et v inc a g0 items (Some fn) \<sigma>"
    and i: "iFilename item = fn" "\<not> iMovedToCur item" "\<not> iMovedToDLQ item"
  shows "triple (agree (boxes a) \<sigma>) (dead_letter_item r a item claimErr)
     (\<lambda>x f. batch ft et v inc a g0 (items @ [fst x]) None (map_of f))" (is "triple _ _ ?Q")
proof -
  let ?moved = "item\<lparr>iMovedToDLQ := True\<rparr>"
  have place: "triple (agree (boxes a) \<sigma>) (place_in_dlq r a item claimErr) (dlq_post a fn \<sigma>)"
    using place_dlq_post [of a \<sigma> r item claimErr] i(1) by simp
  have kept: "triple (dlq_post a fn \<sigma> x) (ret (item, e)) ?Q" for x and e :: "goerr option"
    by (rule triple_ret) (use i in \<open>simp add: dlq_post_batch [OF b]\<close>)
  have moved: "triple (dlq_post a fn \<sigma> x) (bind (emitReceipt r a ?moved StageDLQ detail) (\<lambda>_. ret (?moved, e))) ?Q"
    if "placed x" for x detail and e :: "goerr option"
    by (rule triple_bind [OF keeps_triple [OF keeps_dlq_post [OF keeps_boxes_emitReceipt]]], rule triple_ret)
       (use i that in \<open>simp add: dlq_post_batch [OF b]\<close>)
  show ?thesis
    unfolding dead_letter_item_def Let_def
    by (rule triple_bind [OF place]) (auto split: option.split intro!: kept moved simp: placed_def)
qed

lemma drained_batch:
  assumes b: "batch ft et v inc a g0 items (Some fn) \<sigma>"
    and i: "iFilename item = fn" "\<not> iMovedToDLQ item"
    and u: "\<exists>c. \<sigma> (cur_msg a fn) = Some (Reg c) \<and> usable_item ft et v inc c (item\<lparr>iMovedToCur := True\<rparr>)"
  shows "triple (agree (boxes a) \<sigma>) (bind (emitReceipt r a (item\<lparr>iMovedToCur := True\<rparr>) StageDrained []) (\<lambda>_.
       ret (item\<lparr>iMovedToCur := True\<rparr>, e))) (\<lambda>x f. batch ft et v inc a g0 (items @ [fst x]) None (map_of f))"
proof (rule triple_bind [OF keeps_triple [OF keeps_boxes_emitReceipt]], rule triple_ret)
  fix f assume f: "agree (boxes a) \<sigma> f"
  have "truly_reported ft et v inc a (item\<lparr>iMovedToCur := True\<rparr>) \<sigma>" using i u by (auto simp: truly_reported_def)
  then have "batch ft et v inc a g0 (items @ [item\<lparr>iMovedToCur := True\<rparr>]) None \<sigma>" by (rule batch_snoc [OF b])
  then show "batch ft et v inc a g0 (items @ [fst (item\<lparr>iMovedToCur := True\<rparr>, e)]) None (map_of f)"
    using batch_agree [OF f] by simp
qed

lemma process_claimed_batch:
  assumes "\<forall>e. et e \<noteq> []"
  shows "triple (\<lambda>f. batch ft et v inc a g0 items (Some fn) (map_of f)) (process_claimed ft et r a inc v fn claimErr)
     (\<lambda>x f. batch ft et v inc a g0 (items @ [fst x]) None (map_of f))"
proof (rule batch_by_boxes)
  fix \<sigma> assume b: "batch ft et v inc a g0 items (Some fn) \<sigma>"
  show "triple (agree (boxes a) \<sigma>) (process_claimed ft et r a inc v fn claimErr)
     (\<lambda>x f. batch ft et v inc a g0 (items @ [fst x]) None (map_of f))"
    unfolding process_claimed_def Let_def
  proof (rule triple_bind [OF readInboxItem_ok [OF assms]], rule triple_pure2)
    fix x assume x: "read_ok ft et v inc fn (\<sigma> (cur_msg a fn)) x"
    then have i: "iFilename (claimed_item et x) = fn" "\<not> iMovedToCur (claimed_item et x)" "\<not> iMovedToDLQ (claimed_item et x)"
      by (auto simp: read_ok_def claimed_item_def split: option.split)
    have "\<exists>c. \<sigma> (cur_msg a fn) = Some (Reg c) \<and> usable_item ft et v inc c ((claimed_item et x)\<lparr>iMovedToCur := True\<rparr>)"
      if "iParseError (claimed_item et x) = []"
      using x that assms by (auto simp: read_ok_def claimed_item_def split: option.splits)
    then show "triple (agree (boxes a) \<sigma>) (if iParseError (claimed_item et x) \<noteq> [] then dead_letter_item r a (claimed_item et x) claimErr
        else bind (emitReceipt r a ((claimed_item et x)\<lparr>iMovedToCur := True\<rparr>) StageDrained []) (\<lambda>_.
          ret ((claimed_item et x)\<lparr>iMovedToCur := True\<rparr>, claimErr)))
        (\<lambda>x f. batch ft et v inc a g0 (items @ [fst x]) None (map_of f))"
      using dead_letter_batch [OF b i] drained_batch [OF b i(1,3)] by (intro triple_if) auto
  qed
qed

section \<open>The whole batch\<close>

lemma claim_held:
  assumes g: "claim_post g (new_msg a fn) (cur_msg a fn) x f" and h: "held a y c g"
  shows "held a y c (map_of f)"
proof -
  note kept = claim_post_kept [OF g]
  from h consider "g (new_msg a y) = Some (Reg c)" | "g (cur_msg a y) = Some (Reg c)"
    | name d where "g (dlq_new a @ [name]) = Some (Reg d)" "envelope_of y c d"
    unfolding held_def by blast
  then show ?thesis
  proof cases
    case 1
    show ?thesis
    proof (cases "claimed x \<and> y = fn")
      case True
      with claim_postD(2) [OF g] 1 show ?thesis by (simp add: held_def)
    next
      case False
      with kept [OF 1] show ?thesis by (auto simp: held_def)
    qed
  next
    case 2
    with kept [OF 2] show ?thesis by (simp add: held_def)
  next
    case 3
    from kept [OF 3(1)] have "map_of f (dlq_new a @ [name]) = Some (Reg d)" by simp
    with 3(2) show ?thesis unfolding held_def by blast
  qed
qed

lemma claim_reported:
  assumes g: "claim_post g (new_msg a fn) (cur_msg a fn) x f" and t: "truly_reported ft et v inc a item g"
  shows "truly_reported ft et v inc a item (map_of f)"
    and "claimed x \<Longrightarrow> iMovedToCur item \<Longrightarrow> iFilename item \<noteq> fn"
proof -
  note kept = claim_post_kept [OF g]
  have "\<exists>c. map_of f (cur_msg a (iFilename item)) = Some (Reg c) \<and> usable_item ft et v inc c item" if m: "iMovedToCur item"
  proof -
    from t m obtain c where c: "g (cur_msg a (iFilename item)) = Some (Reg c)" "usable_item ft et v inc c item"
      unfolding truly_reported_def by blast
    from kept [OF c(1)] have "map_of f (cur_msg a (iFilename item)) = Some (Reg c)" by simp
    with c(2) show ?thesis by blast
  qed
  moreover have "\<exists>c name d. map_of f (dlq_new a @ [name]) = Some (Reg d) \<and> envelope_of (iFilename item) c d" if m: "iMovedToDLQ item"
  proof -
    from t m obtain c name d where d: "g (dlq_new a @ [name]) = Some (Reg d)" "envelope_of (iFilename item) c d"
      unfolding truly_reported_def by blast
    from kept [OF d(1)] have "map_of f (dlq_new a @ [name]) = Some (Reg d)" by simp
    with d(2) show ?thesis by blast
  qed
  ultimately show "truly_reported ft et v inc a item (map_of f)" unfolding truly_reported_def by blast
  show "iFilename item \<noteq> fn" if "claimed x" "iMovedToCur item"
    using claim_postD(2) [OF g that(1)] t that(2) by (auto simp: truly_reported_def)
qed

lemma claim_no_dir:
  assumes "claim_post g (new_msg a fn) (cur_msg a fn) x f" and "\<forall>y m. g (new_msg a y) \<noteq> Some (Dir m)"
  shows "map_of f (new_msg a y) \<noteq> Some (Dir m)"
proof -
  from assms(1) obtain h where "with_dirs g h" "map_of f = h \<or> (\<exists>n. map_of f = h(new_msg a fn := None, cur_msg a fn \<mapsto> n))"
    unfolding claim_post_def by (auto split: if_splits)
  moreover have "h (new_msg a y) \<noteq> Some (Dir m)" using with_dirs_deep [OF \<open>with_dirs g h\<close>, of "new_msg a y"] assms(2) by simp
  ultimately show ?thesis by (auto split: if_splits)
qed

lemma claim_batch:
  "triple (\<lambda>f. batch ft et v inc a g0 items None (map_of f)) (MoveNewToCur r a fn)
     (\<lambda>x f. batch ft et v inc a g0 items (if claimed x then Some fn else None) (map_of f))"
proof (rule triple_by_map')
  fix g assume b: "batch ft et v inc a g0 items None g"
  then have nd: "\<forall>y m. g (new_msg a y) \<noteq> Some (Dir m)" by (simp add: batch_def)
  show "triple (\<lambda>f. map_of f = g) (MoveNewToCur r a fn) (claim_post g (new_msg a fn) (cur_msg a fn))"
    by (rule triple_pre [OF MoveNewToCur_spec]) (use nd dirs.refl in auto)
  fix x f assume p: "claim_post g (new_msg a fn) (cur_msg a fn) x f"
  have "\<forall>item\<in>set items. truly_reported ft et v inc a item (map_of f) \<and>
      (claimed x \<longrightarrow> iMovedToCur item \<longrightarrow> iFilename item \<noteq> fn)"
    using b claim_reported [OF p] unfolding batch_def by blast
  moreover have "\<forall>y c. held a y c g0 \<longrightarrow> held a y c (map_of f)" using b claim_held [OF p] unfolding batch_def by blast
  ultimately show "batch ft et v inc a g0 items (if claimed x then Some fn else None) (map_of f)"
    using claim_no_dir [OF p nd] unfolding batch_def by (cases "claimed x") (simp_all, metis)
qed

lemma finish_batch:
  "batch ft et v inc a g0 items used g \<Longrightarrow> batch ft et v inc a g0 (fst (finishInboxBatch items e)) None g"
proof -
  have "set (SortByTimestamp iCreated iID iSortKey items) = set items" by (rule mset_eq_setD [OF SortByTimestamp_mset])
  then show "batch ft et v inc a g0 items used g \<Longrightarrow> ?thesis" by (simp add: batch_def finishInboxBatch_def)
qed

lemma keeps_claimMailboxDirsExist: "keeps P (claimMailboxDirsExist r me)"
  unfolding claimMailboxDirsExist_def by (intro stable_rules)

lemma drain_loop_batch:
  assumes "\<forall>e. et e \<noteq> []"
  shows "triple (\<lambda>f. batch ft et v inc a g0 items None (map_of f)) (drain_loop ft et r a inc limit v None filenames items)
     (\<lambda>x f. batch ft et v inc a g0 (fst x) None (map_of f))"
proof (induction filenames arbitrary: items)
  case Nil
  show ?case unfolding drain_loop.simps by (rule triple_ret) (rule finish_batch)
next
  case (Cons fn filenames)
  let ?P = "\<lambda>items used f. batch ft et v inc a g0 items used (map_of f)"
  let ?Q = "\<lambda>x f. batch ft et v inc a g0 (fst x) None (map_of f)"
  let ?next = "drain_loop ft et r a inc limit v None filenames"
  have fin: "triple (?P items' used) (ret (finishInboxBatch items' e)) ?Q" for items' used e
    by (rule triple_ret) (rule finish_batch)
  have process: "triple (?P items (Some fn)) (bind (process_claimed ft et r a inc v fn claimErr) (\<lambda>(item, err).
      case err of Some e \<Rightarrow> ret (finishInboxBatch (items @ [item]) (Some e)) | None \<Rightarrow> ?next (items @ [item]))) ?Q" for claimErr
    by (rule triple_bind [OF process_claimed_batch [OF assms]])
       (auto split: option.split intro!: Cons.IH fin)
  have missing: "triple (?P items None) (on_err (claimMailboxDirsExist r a) (\<lambda>e. ret (finishInboxBatch items (Some e))) (\<lambda>exists.
      if exists then ?next items else ret (finishInboxBatch items (Some (Msg ''mailbox disappeared while claiming''))))) ?Q"
    by (rule triple_on_err [OF keeps_triple [OF keeps_claimMailboxDirsExist]]) (auto intro: Cons.IH fin)
  show ?case
    unfolding drain_loop.simps Let_def option.case
    by (intro triple_if fin triple_bind [OF claim_batch])
       (auto split: sum.split intro!: process missing fin simp: claimed_def)
qed


lemma triple_WithPinnedBatch:
  assumes "\<And>r'. triple P (k r') Q" and "\<And>f e. P f \<Longrightarrow> R (Inl e) f" and "\<And>x f. Q x f \<Longrightarrow> R (Inr x) f"
  shows "triple P (WithPinnedBatch r k) R"
  unfolding WithPinnedBatch_def
  by (rule triple_on_err [OF keeps_triple [OF keeps_VerifyBase]], rule triple_fail, erule assms(2),
      rule triple_bind [OF keeps_triple [OF keeps_new_lease]], rule triple_bind [OF keeps_triple [OF keeps_set_lease]],
      rule triple_bind [OF assms(1)], rule triple_bind [OF keeps_triple [OF keeps_set_lease]], rule triple_ok, erule assms(3))

lemma keeps_collectInboxFilenames: "keeps P (collectInboxFilenames r me)"
  unfolding collectInboxFilenames_def by (intro stable_rules)

text \<open>The validator that a drain uses.\<close>

abbreviation the_validator :: "headerValidator option \<Rightarrow> headerValidator" where
  "the_validator v \<equiv> (case v of None \<Rightarrow> no_validator | Some v \<Rightarrow> v)"

lemma drainInboxItems_batch:
  assumes "\<forall>e. et e \<noteq> []"
  shows "triple (\<lambda>f. map_of f = g0 \<and> mail_wf f) (drainInboxItems ft et r a inc limit v)
     (\<lambda>x f. batch ft et (the_validator v) inc a g0 (fst x) None (map_of f))"
proof -
  let ?P = "\<lambda>f. batch ft et (the_validator v) inc a g0 [] None (map_of f)"
  let ?Q = "\<lambda>x f. batch ft et (the_validator v) inc a g0 (fst x) None (map_of f)"
  have quit: "triple ?P (ret ([], Some e)) ?Q" for e by (rule triple_ret) simp
  have "triple ?P (drainInboxItemsPinned ft et b a inc limit v None) ?Q" for b
    unfolding drainInboxItemsPinned_def
    by (rule triple_on_err [OF keeps_triple [OF keeps_collectInboxFilenames] quit]) (rule drain_loop_batch [OF assms])
  note pinned = triple_WithPinnedBatch [OF this,
      where R = "\<lambda>x f. case x of Inl _ \<Rightarrow> ?P f | Inr y \<Rightarrow> ?Q y f"]
  have "triple ?P (drainInboxItems ft et r a inc limit v) ?Q"
    unfolding drainInboxItems_def drainInboxItemsWithClaimHook_def
    by (rule triple_on_err [OF pinned]) (auto intro!: quit triple_ret)
  then show ?thesis by (rule triple_pre) (auto simp: batch_def mail_wf_iff)
qed



text \<open>
  C5: what a drain reports is true of the files when it returns, on every fault schedule: a message
  reported as moved to \<^verbatim>\<open>inbox/cur\<close> is there, its header passes validation and the reported fields are
  those of its header; a message reported as moved to the DLQ has an envelope there.
\<close>

theorem drained_items_true:
  assumes "mail_wf (fs w)" and "\<forall>e. err_text e \<noteq> []"
    and "drainInboxItems float_text err_text r a includeBody limit validator w = ((items, err), w')"
    and "item \<in> set items"
  shows "truly_reported float_text err_text (the_validator validator) includeBody a item (map_of (fs w'))"
  using triple_elim [OF drainInboxItems_batch [OF assms(2), where ?g0.0 = "map_of (fs w)"] _ assms(3)] assms(1,4)
  by (simp add: batch_def)

theorem drained_items_true_witness:
  "let x = drainInboxItems Some (\<lambda>_. ''e'') root7 ''a'' False 0 None (dies_at 10 one_new) in
   map iFilename (fst (fst x)) = [''m.md''] \<and>
   list_all (\<lambda>item. truly_reported Some (\<lambda>_. ''e'') no_validator False ''a'' item (map_of (fs (snd x)))) (fst (fst x))"
proof -
  let ?x = "drainInboxItems Some (\<lambda>_. ''e'') root7 ''a'' False 0 None (dies_at 10 one_new)"
  have "mail_wf (fs (dies_at 10 one_new))" by code_simp
  then have "truly_reported Some (\<lambda>_. ''e'') no_validator False ''a'' item (map_of (fs (snd ?x)))" if "item \<in> set (fst (fst ?x))" for item
    using drained_items_true [of "dies_at 10 one_new" "\<lambda>_. ''e''" Some root7 "''a''" False 0 None "fst (fst ?x)" "snd (fst ?x)" "snd ?x" item] that
    by simp
  moreover have "map iFilename (fst (fst ?x)) = [''m.md'']" by code_simp
  ultimately show ?thesis by (simp add: Let_def list_all_iff)
qed

end
