(* ===== verification/Swarm_Tasks.thy ===== *)
theory Swarm_Tasks
  imports Ambient_Files Clock
begin

text \<open>
  The shared task list of a team (\<^verbatim>\<open>internal/swarm/tasks.go\<close>, \<^verbatim>\<open>internal/swarm/paths.go\<close>,
  \<^verbatim>\<open>internal/lock\<close>): agents claim tasks and mark them as completed, failed or blocked, in the JSON files of
  another program, whose unknown fields they keep. The tree is that of \<^verbatim>\<open>~/.claude\<close>. Warnings on the
  standard error stream are left out.
\<close>

section \<open>Tasks\<close>

definition TaskStatusPending :: string where "TaskStatusPending = ''pending''"
definition TaskStatusInProgress :: string where "TaskStatusInProgress = ''in_progress''"
definition TaskStatusCompleted :: string where "TaskStatusCompleted = ''completed''"
definition TaskStatusFailed :: string where "TaskStatusFailed = ''failed''"
definition TaskStatusBlocked :: string where "TaskStatusBlocked = ''blocked''"

lemmas task_status_defs = TaskStatusPending_def TaskStatusInProgress_def TaskStatusCompleted_def TaskStatusFailed_def
  TaskStatusBlocked_def

record Task =
  tID :: string
  tTitle :: string
  tDescription :: string
  tStatus :: string
  tAssignedTo :: string
  tDependsOn :: "string list option"
  tCreatedAt :: string
  tUpdatedAt :: string
  tEvidence :: "(string \<times> json) list option"
  tFailureReason :: string
  tBlockReason :: string

definition task_zero :: Task where
  "task_zero = \<lparr>tID = [], tTitle = [], tDescription = [], tStatus = [], tAssignedTo = [], tDependsOn = None,
     tCreatedAt = [], tUpdatedAt = [], tEvidence = None, tFailureReason = [], tBlockReason = []\<rparr>"

definition task_fields :: "string list" where
  "task_fields = [''id'', ''title'', ''description'', ''status'', ''assigned_to'', ''depends_on'', ''created_at'',
     ''updated_at'', ''evidence'', ''failure_reason'', ''block_reason'']"

definition task_store :: "(string \<Rightarrow> string option) \<Rightarrow> string \<Rightarrow> json \<Rightarrow> Task \<Rightarrow> Task option" where
  "task_store float_text n v x =
     (if n = ''id'' then map_option (\<lambda>s. x\<lparr>tID := s\<rparr>) (as_str v (tID x))
      else if n = ''title'' then map_option (\<lambda>s. x\<lparr>tTitle := s\<rparr>) (as_str v (tTitle x))
      else if n = ''description'' then map_option (\<lambda>s. x\<lparr>tDescription := s\<rparr>) (as_str v (tDescription x))
      else if n = ''status'' then map_option (\<lambda>s. x\<lparr>tStatus := s\<rparr>) (as_str v (tStatus x))
      else if n = ''assigned_to'' then map_option (\<lambda>s. x\<lparr>tAssignedTo := s\<rparr>) (as_str v (tAssignedTo x))
      else if n = ''depends_on'' then map_option (\<lambda>s. x\<lparr>tDependsOn := s\<rparr>) (as_strs v (tDependsOn x))
      else if n = ''created_at'' then map_option (\<lambda>s. x\<lparr>tCreatedAt := s\<rparr>) (as_str v (tCreatedAt x))
      else if n = ''updated_at'' then map_option (\<lambda>s. x\<lparr>tUpdatedAt := s\<rparr>) (as_str v (tUpdatedAt x))
      else if n = ''evidence'' then map_option (\<lambda>c. x\<lparr>tEvidence := c\<rparr>) (as_ctx float_text v (tEvidence x))
      else if n = ''failure_reason'' then map_option (\<lambda>s. x\<lparr>tFailureReason := s\<rparr>) (as_str v (tFailureReason x))
      else if n = ''block_reason'' then map_option (\<lambda>s. x\<lparr>tBlockReason := s\<rparr>) (as_str v (tBlockReason x))
      else Some x)"

definition unmarshalTask :: "(string \<Rightarrow> string option) \<Rightarrow> bytes \<Rightarrow> Task option" where
  "unmarshalTask float_text data =
     Option.bind (parse_json data) (dec_struct task_fields (task_store float_text) task_zero)"

text \<open>A slice of tasks: elements are decoded over those that an earlier member of the same name left.\<close>

fun task_elems :: "(string \<Rightarrow> string option) \<Rightarrow> json list \<Rightarrow> Task list \<Rightarrow> Task list option" where
  "task_elems float_text [] old = Some []"
| "task_elems float_text (v # vs) old =
     (case dec_struct task_fields (task_store float_text) (case old of [] \<Rightarrow> task_zero | x # _ \<Rightarrow> x) v of
        None \<Rightarrow> None
      | Some x \<Rightarrow> map_option (Cons x) (task_elems float_text vs (drop 1 old)))"

definition as_tasks :: "(string \<Rightarrow> string option) \<Rightarrow> json \<Rightarrow> Task list \<Rightarrow> Task list option" where
  "as_tasks float_text v old = (case v of JNull \<Rightarrow> Some [] | JArr vs \<Rightarrow> task_elems float_text vs old | _ \<Rightarrow> None)"

definition parseTasksFromList :: "(string \<Rightarrow> string option) \<Rightarrow> bytes \<Rightarrow> goerr + Task list" where
  "parseTasksFromList float_text data =
     (case Option.bind (parse_json data) (dec_struct [''tasks''] (\<lambda>_. as_tasks float_text) []) of
        None \<Rightarrow> Inl (Msg ''parse task list'')
      | Some ts \<Rightarrow> Inr ts)"

section \<open>Files\<close>

definition ClaudeTasksDir :: path where "ClaudeTasksDir = [''tasks'']"
definition TeamTasksDir :: "string \<Rightarrow> path" where "TeamTasksDir team = ClaudeTasksDir @ [team]"

definition os_ReadFile :: "path \<Rightarrow> (goerr + bytes) io" where
  "os_ReadFile p = sys_query (\<lambda>f. case stat p f of Inl e \<Rightarrow> Inl e | Inr n \<Rightarrow> read_bytes n)"

definition task_name :: "string \<times> node \<Rightarrow> bool" where
  "task_name e \<longleftrightarrow> \<not> isDir (snd e) \<and> hasSuffix (fst e) ''.json''"

text \<open>The loop over the files of the directory format.\<close>

fun list_files :: "(string \<Rightarrow> string option) \<Rightarrow> path \<Rightarrow> (string \<times> node) list \<Rightarrow> Task list \<Rightarrow> Task list io" where
  "list_files float_text tasksDir [] tasks = ret tasks"
| "list_files float_text tasksDir (entry # entries) tasks =
     (let next = list_files float_text tasksDir entries in
      if \<not> task_name entry \<or> hasPrefix (fst entry) ''.'' then next tasks
      else bind (os_ReadFile (tasksDir @ [fst entry])) (\<lambda>r.
        case r of
          Inl _ \<Rightarrow> next tasks
        | Inr data \<Rightarrow>
            (case unmarshalTask float_text data of
               Some task \<Rightarrow>
                 (if tID task \<noteq> [] then next (tasks @ [task])
                  else case parseTasksFromList float_text data of Inl _ \<Rightarrow> next tasks | Inr parsed \<Rightarrow> next (tasks @ parsed))
             | None \<Rightarrow> (case parseTasksFromList float_text data of Inl _ \<Rightarrow> next tasks | Inr parsed \<Rightarrow> next (tasks @ parsed)))))"

definition ListTasks :: "(string \<Rightarrow> string option) \<Rightarrow> string \<Rightarrow> (goerr + Task list) io" where
  "ListTasks float_text teamName =
     (let tasksDir = TeamTasksDir teamName in
      bind (os_ReadFile (tasksDir @ [''tasks.json''])) (\<lambda>r.
      case r of
        Inr data \<Rightarrow> ret (parseTasksFromList float_text data)
      | Inl e \<Rightarrow>
          (if \<not> osIsNotExist e then fail (Wrap ''read tasks.json'' e)
           else on_err (os_ReadDir tasksDir)
             (\<lambda>e. if osIsNotExist e then ok [] else fail (Wrap ''read tasks directory'' e))
             (\<lambda>entries. bind (list_files float_text tasksDir entries []) ok))))"

definition WithExclusiveFileLock :: "path \<Rightarrow> (goerr + 'a) io \<Rightarrow> (goerr + 'a) io" where
  "WithExclusiveFileLock lockPath fn =
     on_err (sys_upd (open_create lockPath)) (\<lambda>e. fail (Wrap ''open lock file'' e)) (\<lambda>_.
     on_err sys_noop (\<lambda>e. bind sys_noop (\<lambda>_. fail (Wrap ''acquire lock'' e))) (\<lambda>_.
     bind fn (\<lambda>x. bind sys_noop (\<lambda>_. bind sys_noop (\<lambda>_. ret x)))))"

definition withTasksLock :: "string \<Rightarrow> (goerr + 'a) io \<Rightarrow> (goerr + 'a) io" where
  "withTasksLock teamName fn =
     (let lockPath = ClaudeTasksDir @ [''.'' @ teamName @ ''.amq.lock''] in
      on_err (mkdirAll ClaudeTasksDir 448) (\<lambda>e. fail (Wrap ''ensure tasks root dir'' e)) (\<lambda>_.
      WithExclusiveFileLock lockPath fn))"

text \<open>A \<^verbatim>\<open>map[string]any\<close>; a \<^verbatim>\<open>nil\<close> map is \<open>None\<close>.\<close>

type_synonym raw = "(string \<times> json) list"

definition unmarshalMap :: "(string \<Rightarrow> string option) \<Rightarrow> bytes \<Rightarrow> raw option option" where
  "unmarshalMap float_text data = Option.bind (parse_json data) (\<lambda>v. as_ctx float_text v None)"

definition str_at :: "string \<Rightarrow> raw \<Rightarrow> string" where
  "str_at k m = (case map_of m k of Some (JStr s) \<Rightarrow> s | _ \<Rightarrow> [])"

definition del_key :: "string \<Rightarrow> raw \<Rightarrow> raw" where
  "del_key k m = filter (\<lambda>(l, _). l \<noteq> k) m"

definition render :: "raw \<Rightarrow> bytes" where
  "render m = MarshalIndent (JObj m) @ [CHR 0x0A]"

definition atomicWriteJSON :: "path \<Rightarrow> raw \<Rightarrow> (goerr + unit) io" where
  "atomicWriteJSON p v =
     bind get_now (\<lambda>t.
     let tmpPath = butlast p @ [last p @ ''.tmp.'' @ nat_str t];
         drop_tmp = (\<lambda>txt e. bind (sys_upd (remove tmpPath)) (\<lambda>_. fail (Wrap txt e))) in
     on_err (sys_upd (create_excl tmpPath)) (\<lambda>e. fail (Wrap ''create temp file'' e)) (\<lambda>_.
     on_err (sys_write tmpPath (render v)) (\<lambda>e. bind sys_noop (\<lambda>_. drop_tmp ''write temp file'' e)) (\<lambda>_.
     on_err sys_noop (\<lambda>e. bind sys_noop (\<lambda>_. drop_tmp ''fsync temp file'' e)) (\<lambda>_.
     on_err sys_noop (\<lambda>e. drop_tmp ''close temp file'' e) (\<lambda>_.
     on_err (sys_upd (rename tmpPath p)) (\<lambda>e. drop_tmp ''atomic rename'' e) (\<lambda>_.
     ok ()))))))"

section \<open>Updating a task\<close>

text \<open>The first task with the identifier, and the array with its replacement: \<open>None\<close> when there is none.\<close>

fun edit_items :: "string \<Rightarrow> (raw \<Rightarrow> goerr + raw) \<Rightarrow> json list \<Rightarrow> (goerr + json list) option" where
  "edit_items taskID mutate [] = None"
| "edit_items taskID mutate (item # items) =
     (let other = map_option (map_sum id (Cons item)) (edit_items taskID mutate items) in
      case item of
        JObj task \<Rightarrow> (if str_at ''id'' task = taskID then Some (map_sum id (\<lambda>task'. JObj task' # items) (mutate task)) else other)
      | _ \<Rightarrow> other)"

definition edit_list :: "string \<Rightarrow> (raw \<Rightarrow> goerr + raw) \<Rightarrow> raw \<Rightarrow> (goerr + raw) option" where
  "edit_list taskID mutate m =
     (case map_of m ''tasks'' of
        Some (JArr items) \<Rightarrow>
          map_option (map_sum id (\<lambda>items'. put_key ''tasks'' (JArr items') m)) (edit_items taskID mutate items)
      | _ \<Rightarrow> None)"

definition not_found :: goerr where "not_found = Msg ''task not found in team''"
definition nil_map :: goerr where "nil_map = Msg ''panic: assignment to entry in nil map''"

definition updateTaskInList ::
    "(string \<Rightarrow> string option) \<Rightarrow> path \<Rightarrow> bytes \<Rightarrow> string \<Rightarrow> (nat \<Rightarrow> raw \<Rightarrow> goerr + raw) \<Rightarrow> (goerr + unit) io" where
  "updateTaskInList float_text p data taskID mutate =
     bind get_now (\<lambda>now.
      case unmarshalMap float_text data of
        None \<Rightarrow> fail (Msg ''parse tasks.json'')
      | Some wrapper \<Rightarrow>
          (let m = (case wrapper of None \<Rightarrow> [] | Some m \<Rightarrow> m) in
           case map_of m ''tasks'' of
             Some (JArr _) \<Rightarrow>
               (case edit_list taskID (mutate now) m of
                  None \<Rightarrow> fail not_found
                | Some (Inl e) \<Rightarrow> fail e
                | Some (Inr m') \<Rightarrow> atomicWriteJSON p m')
           | _ \<Rightarrow> fail (Msg ''tasks.json missing tasks array'')))"

text \<open>
  The loop over the files: a mutation of a \<^verbatim>\<open>nil\<close> map (a file that holds \<^verbatim>\<open>null\<close>) that does not fail
  panics at its first assignment.
\<close>

fun update_files ::
    "(string \<Rightarrow> string option) \<Rightarrow> path \<Rightarrow> string \<Rightarrow> (nat \<Rightarrow> raw \<Rightarrow> goerr + raw) \<Rightarrow> (string \<times> node) list \<Rightarrow> (goerr + unit) io" where
  "update_files float_text tasksDir taskID mutate [] = fail not_found"
| "update_files float_text tasksDir taskID mutate (entry # entries) =
     (let next = update_files float_text tasksDir taskID mutate entries;
          p = tasksDir @ [fst entry] in
      if \<not> task_name entry then next
      else bind (os_ReadFile p) (\<lambda>r.
        case r of
          Inl _ \<Rightarrow> next
        | Inr data \<Rightarrow>
            bind get_now (\<lambda>now.
             case unmarshalMap float_text data of
               None \<Rightarrow> next
             | Some None \<Rightarrow>
                 (if taskID = [] then (case mutate now [] of Inl e \<Rightarrow> fail e | Inr _ \<Rightarrow> fail nil_map) else next)
             | Some (Some m) \<Rightarrow>
                 (if str_at ''id'' m = taskID
                  then (case mutate now m of Inl e \<Rightarrow> fail e | Inr m' \<Rightarrow> atomicWriteJSON p m')
                  else case edit_list taskID (mutate now) m of
                    None \<Rightarrow> next
                  | Some (Inl e) \<Rightarrow> fail e
                  | Some (Inr m') \<Rightarrow> atomicWriteJSON p m'))))"

definition updateTaskRaw ::
    "(string \<Rightarrow> string option) \<Rightarrow> string \<Rightarrow> string \<Rightarrow> (nat \<Rightarrow> raw \<Rightarrow> goerr + raw) \<Rightarrow> (goerr + unit) io" where
  "updateTaskRaw float_text teamName taskID mutate =
     (let tasksDir = TeamTasksDir teamName;
          singleFile = tasksDir @ [''tasks.json''] in
      bind (os_ReadFile singleFile) (\<lambda>r.
      case r of
        Inr data \<Rightarrow> updateTaskInList float_text singleFile data taskID mutate
      | Inl e \<Rightarrow>
          (if \<not> osIsNotExist e then fail (Wrap ''read tasks.json'' e)
           else on_err (os_ReadDir tasksDir)
             (\<lambda>e. if osIsNotExist e then fail not_found else fail (Wrap ''read tasks directory'' e))
             (\<lambda>entries. update_files float_text tasksDir taskID mutate entries))))"

section \<open>The operations\<close>

definition setOptionalObject :: "raw \<Rightarrow> string \<Rightarrow> raw option \<Rightarrow> raw" where
  "setOptionalObject m key v = (case v of None \<Rightarrow> del_key key m | Some c \<Rightarrow> put_key key (JObj c) m)"

definition setOptionalString :: "raw \<Rightarrow> string \<Rightarrow> string \<Rightarrow> raw" where
  "setOptionalString m key v = (if trimSpace v = [] then del_key key m else put_key key (JStr (trimSpace v)) m)"

definition requireInProgress :: "string \<Rightarrow> string \<Rightarrow> goerr option" where
  "requireInProgress status targetStatus =
     (if status = targetStatus then Some (Msg ''task is already in that status'')
      else if status = TaskStatusInProgress then None
      else if status \<in> {TaskStatusPending, TaskStatusCompleted, TaskStatusFailed, TaskStatusBlocked}
        then Some (Msg ''task is not in progress'')
      else Some (Msg ''task has invalid status''))"

definition isAssignedToMe :: "string \<Rightarrow> string \<Rightarrow> string \<Rightarrow> bool" where
  "isAssignedToMe assignedTo handle agentID \<longleftrightarrow> equalFold assignedTo handle \<or> equalFold assignedTo agentID"

definition requireTaskAssignee :: "raw \<Rightarrow> string \<Rightarrow> string \<Rightarrow> goerr option" where
  "requireTaskAssignee m agentHandle agentID =
     (let assigned = str_at ''assigned_to'' m in
      if assigned = [] \<or> isAssignedToMe assigned agentHandle agentID then None
      else Some (Msg ''task is assigned to another agent''))"

definition claim_task :: "string \<Rightarrow> nat \<Rightarrow> raw \<Rightarrow> goerr + raw" where
  "claim_task agentID now m =
     (let assigned = str_at ''assigned_to'' m in
      if str_at ''status'' m = TaskStatusCompleted then Inl (Msg ''task is already completed'')
      else if assigned \<noteq> [] \<and> \<not> equalFold assigned agentID then Inl (Msg ''task is already assigned'')
      else Inr (put_key ''updated_at'' (JStr (RFC3339 now))
        (del_key ''evidence'' (del_key ''block_reason'' (del_key ''failure_reason''
          (put_key ''assigned_to'' (JStr agentID) (put_key ''status'' (JStr TaskStatusInProgress) m)))))))"

text \<open>What the other three share: the checks, the new status, and the fields that go with it.\<close>

definition finish_task :: "string \<Rightarrow> string \<Rightarrow> string \<Rightarrow> (raw \<Rightarrow> raw) \<Rightarrow> nat \<Rightarrow> raw \<Rightarrow> goerr + raw" where
  "finish_task agentHandle agentID target adjust now m =
     (case requireInProgress (str_at ''status'' m) target of
        Some e \<Rightarrow> Inl e
      | None \<Rightarrow>
          (case requireTaskAssignee m agentHandle agentID of
             Some e \<Rightarrow> Inl e
           | None \<Rightarrow> Inr (put_key ''updated_at'' (JStr (RFC3339 now)) (adjust (put_key ''status'' (JStr target) m)))))"

text \<open>\<^verbatim>\<open>statusMap\<close> and \<^verbatim>\<open>target\<close>: of tasks with the same identifier the last one counts.\<close>

definition statusMap :: "Task list \<Rightarrow> string \<Rightarrow> string" where
  "statusMap tasks = fold (\<lambda>t m. m(tID t := tStatus t)) tasks (\<lambda>_. [])"

definition blocked_deps :: "Task list \<Rightarrow> string \<Rightarrow> string list" where
  "blocked_deps tasks taskID =
     (case filter (\<lambda>t. tID t = taskID) tasks of
        [] \<Rightarrow> []
      | ts \<Rightarrow> filter (\<lambda>dep. statusMap tasks dep \<noteq> TaskStatusCompleted)
          (case tDependsOn (last ts) of None \<Rightarrow> [] | Some deps \<Rightarrow> deps))"

definition ClaimTask :: "(string \<Rightarrow> string option) \<Rightarrow> string \<Rightarrow> string \<Rightarrow> string \<Rightarrow> (goerr + unit) io" where
  "ClaimTask float_text teamName taskID agentID =
     withTasksLock teamName
       (on_err (ListTasks float_text teamName) (\<lambda>e. fail (Wrap ''check dependencies'' e)) (\<lambda>tasks.
        if blocked_deps tasks taskID \<noteq> [] then fail (Msg ''task is blocked by incomplete dependencies'')
        else updateTaskRaw float_text teamName taskID (claim_task agentID)))"

definition CompleteTask ::
    "(string \<Rightarrow> string option) \<Rightarrow> string \<Rightarrow> string \<Rightarrow> string \<Rightarrow> string \<Rightarrow> raw option \<Rightarrow> (goerr + unit) io" where
  "CompleteTask float_text teamName taskID agentHandle agentID evidence =
     withTasksLock teamName
       (updateTaskRaw float_text teamName taskID (finish_task agentHandle agentID TaskStatusCompleted
         (\<lambda>m. setOptionalObject (del_key ''block_reason'' (del_key ''failure_reason'' m)) ''evidence'' evidence)))"

definition FailTask ::
    "(string \<Rightarrow> string option) \<Rightarrow> string \<Rightarrow> string \<Rightarrow> string \<Rightarrow> string \<Rightarrow> string \<Rightarrow> (goerr + unit) io" where
  "FailTask float_text teamName taskID agentHandle agentID reason =
     withTasksLock teamName
       (updateTaskRaw float_text teamName taskID (finish_task agentHandle agentID TaskStatusFailed
         (\<lambda>m. setOptionalString (del_key ''block_reason'' m) ''failure_reason'' reason)))"

definition BlockTask ::
    "(string \<Rightarrow> string option) \<Rightarrow> string \<Rightarrow> string \<Rightarrow> string \<Rightarrow> string \<Rightarrow> string \<Rightarrow> (goerr + unit) io" where
  "BlockTask float_text teamName taskID agentHandle agentID reason =
     withTasksLock teamName
       (updateTaskRaw float_text teamName taskID (finish_task agentHandle agentID TaskStatusBlocked
         (\<lambda>m. setOptionalString (del_key ''failure_reason'' m) ''block_reason'' reason)))"

end
