(* ===== verification/Swarm_Bridge.thy ===== *)
theory Swarm_Bridge
  imports Swarm_Tasks Maildir
begin

text \<open>
  The bridge from a team's task list to the queue (\<^verbatim>\<open>internal/swarm/bridge.go\<close>): each poll compares the
  task list with what the last poll saw and sends a message for every change that concerns the agent. The
  directory \<^verbatim>\<open>~/.claude\<close> and the queue's root are side by side in one tree. The loops that wait for the
  next poll (a ticker or a file watcher) are left out.
\<close>

record BridgeConfig =
  TeamName :: string
  AgentHandle :: string
  AgentID :: string
  AMQRoot :: string

record BridgeEvent =
  evType :: string
  evTaskID :: string
  evTitle :: string
  evStatus :: string
  evDetails :: string
  evReason :: string
  evEvidence :: "raw option"

text \<open>\<^verbatim>\<open>lastStates\<close> and \<^verbatim>\<open>lastDepsSatisfied\<close>; reading an absent key of the second gives \<^verbatim>\<open>false\<close>.\<close>

record bridge_state =
  lastStates :: "string \<rightharpoonup> string"
  lastDepsSatisfied :: "string \<rightharpoonup> bool"

definition deps_of :: "Task \<Rightarrow> string list" where
  "deps_of t = (case tDependsOn t of None \<Rightarrow> [] | Some ds \<Rightarrow> ds)"

definition allDepsCompleted :: "string list \<Rightarrow> (string \<Rightarrow> string) \<Rightarrow> bool" where
  "allDepsCompleted deps status = list_all (\<lambda>dep. status dep = TaskStatusCompleted) deps"

definition isRelevantToAgent :: "Task \<Rightarrow> string \<Rightarrow> string \<Rightarrow> bool" where
  "isRelevantToAgent task handle agentID \<longleftrightarrow> tAssignedTo task = [] \<or> isAssignedToMe (tAssignedTo task) handle agentID"

definition task_state :: "Task \<Rightarrow> string" where
  "task_state t = tStatus t @ '':'' @ tAssignedTo t"

definition initialScan :: "(string \<Rightarrow> string option) \<Rightarrow> BridgeConfig \<Rightarrow> (goerr + bridge_state) io" where
  "initialScan float_text cfg =
     on_err (ListTasks float_text (TeamName cfg)) (\<lambda>e. fail (Wrap ''initial task scan'' e)) (\<lambda>tasks.
     ok \<lparr>lastStates = fold (\<lambda>t m. m(tID t \<mapsto> task_state t)) tasks Map.empty,
         lastDepsSatisfied = fold (\<lambda>t m. m(tID t \<mapsto> allDepsCompleted (deps_of t) (statusMap tasks))) tasks Map.empty\<rparr>)"

text \<open>The events of one task, given what the last poll saw of it.\<close>

definition state_events :: "BridgeConfig \<Rightarrow> string option \<Rightarrow> Task \<Rightarrow> BridgeEvent list" where
  "state_events cfg prev task =
     (if \<not> isRelevantToAgent task (AgentHandle cfg) (AgentID cfg) then []
      else case prev of
        None \<Rightarrow> [\<lparr>evType = ''task_added'', evTaskID = tID task, evTitle = tTitle task, evStatus = tStatus task,
                 evDetails = [], evReason = [], evEvidence = None\<rparr>]
      | Some p \<Rightarrow>
          (if task_state task = p then []
           else
             (let (eventType, reason, evidence) =
                (if tStatus task = TaskStatusInProgress \<and> isAssignedToMe (tAssignedTo task) (AgentHandle cfg) (AgentID cfg)
                   then (''task_assigned'', [], None)
                 else if tStatus task = TaskStatusCompleted then (''task_completed'', [], tEvidence task)
                 else if tStatus task = TaskStatusFailed then (''task_failed'', tFailureReason task, None)
                 else if tStatus task = TaskStatusBlocked then (''task_blocked'', tBlockReason task, None)
                 else (''task_updated'', [], None)) in
              [\<lparr>evType = eventType, evTaskID = tID task, evTitle = tTitle task, evStatus = tStatus task,
                evDetails = ''assigned_to='' @ tAssignedTo task, evReason = reason, evEvidence = evidence\<rparr>])))"

definition unblocked_events :: "BridgeConfig \<Rightarrow> Task \<Rightarrow> BridgeEvent list" where
  "unblocked_events cfg task =
     (if isRelevantToAgent task (AgentHandle cfg) (AgentID cfg)
      then [\<lparr>evType = ''task_unblocked'', evTaskID = tID task, evTitle = tTitle task, evStatus = tStatus task,
             evDetails = ''dependencies satisfied: ['' @ join '' '' (deps_of task) @ '']'',
             evReason = [], evEvidence = None\<rparr>]
      else [])"

text \<open>The loop over the tasks.\<close>

fun poll_loop :: "BridgeConfig \<Rightarrow> (string \<Rightarrow> string) \<Rightarrow> Task list \<Rightarrow> bridge_state \<Rightarrow> BridgeEvent list \<times> bridge_state" where
  "poll_loop cfg status [] s = ([], s)"
| "poll_loop cfg status (task # tasks) s =
     (let prev = lastStates s (tID task);
          waits = deps_of task \<noteq> [] \<and> tStatus task = TaskStatusPending;
          depsSatisfied = allDepsCompleted (deps_of task) status;
          wasSatisfied = (lastDepsSatisfied s (tID task) = Some True);
          unblocked = (if prev \<noteq> None \<and> waits \<and> depsSatisfied \<and> \<not> wasSatisfied then unblocked_events cfg task else []);
          s' = \<lparr>lastStates = (lastStates s)(tID task \<mapsto> task_state task),
                lastDepsSatisfied = (lastDepsSatisfied s)(tID task \<mapsto> (waits \<longrightarrow> depsSatisfied))\<rparr>;
          (events, s'') = poll_loop cfg status tasks s' in
      (state_events cfg prev task @ unblocked @ events, s''))"

definition drop_removed :: "Task list \<Rightarrow> bridge_state \<Rightarrow> bridge_state" where
  "drop_removed tasks s =
     \<lparr>lastStates = (\<lambda>i. if i \<in> set (map tID tasks) then lastStates s i else None),
      lastDepsSatisfied = (\<lambda>i. if i \<in> set (map tID tasks) \<or> lastStates s i = None then lastDepsSatisfied s i else None)\<rparr>"

definition poll_tasks :: "BridgeConfig \<Rightarrow> Task list \<Rightarrow> bridge_state \<Rightarrow> BridgeEvent list \<times> bridge_state" where
  "poll_tasks cfg tasks s =
     (let (events, s') = poll_loop cfg (statusMap tasks) tasks s in (events, drop_removed tasks s'))"

definition pollForChanges ::
    "(string \<Rightarrow> string option) \<Rightarrow> BridgeConfig \<Rightarrow> bridge_state \<Rightarrow> (goerr + BridgeEvent list \<times> bridge_state) io" where
  "pollForChanges float_text cfg s =
     guard (ListTasks float_text (TeamName cfg)) (\<lambda>tasks. ok (poll_tasks cfg tasks s))"

section \<open>Delivery of an event\<close>

definition event_body :: "BridgeEvent \<Rightarrow> bytes" where
  "event_body event =
     ''Task: '' @ evTaskID event @ [CHR 0x0A] @ ''Status: '' @ evStatus event @ [CHR 0x0A] @ ''Type: '' @ evType event @ [CHR 0x0A]
     @ (if evDetails event \<noteq> [] then ''Details: '' @ evDetails event @ [CHR 0x0A] else [])
     @ (if evReason event \<noteq> [] then ''Reason: '' @ evReason event @ [CHR 0x0A] else [])
     @ (case evEvidence event of None \<Rightarrow> [] | Some c \<Rightarrow> ''Evidence:'' @ [CHR 0x0A] @ MarshalIndent (JObj c) @ [CHR 0x0A])"

definition event_context :: "BridgeConfig \<Rightarrow> BridgeEvent \<Rightarrow> raw" where
  "event_context cfg event =
     (let base = [(''event'', JStr (evType event)), (''source'', JStr ''swarm-bridge''), (''task_id'', JStr (evTaskID event)),
            (''team'', JStr (TeamName cfg))];
          c1 = (if evReason event \<noteq> [] then put_key ''reason'' (JStr (evReason event)) base else base) in
      case evEvidence event of None \<Rightarrow> c1 | Some e \<Rightarrow> put_key ''evidence'' (JObj e) c1)"

definition event_message :: "BridgeConfig \<Rightarrow> BridgeEvent \<Rightarrow> string \<Rightarrow> nat \<Rightarrow> Message" where
  "event_message cfg event i now =
     \<lparr>mHeader = \<lparr>hSchema = CurrentSchema, hID = i, From = AgentHandle cfg, To = Some [AgentHandle cfg],
        Thread = ''swarm/'' @ TeamName cfg, Subject = ''[swarm] '' @ evType event @ '': '' @ evTitle event,
        Created = RFC3339Nano now, Refs = None, Priority = ''normal'', hKind = ''status'',
        Labels = Some [''swarm'', evType event], Context = Some (event_context cfg event), ReplyTo = [], ReplyProject = [],
        FromProject = []\<rparr>,
      Body = event_body event\<rparr>"

definition deliverBridgeEvent :: "BridgeConfig \<Rightarrow> BridgeEvent \<Rightarrow> (goerr + unit) io" where
  "deliverBridgeEvent cfg event =
     bind get_now (\<lambda>now. bind get_pid (\<lambda>pid.
     bind (read_random 4) (\<lambda>rnd.
     case NewMessageID now pid (case rnd of Inl _ \<Rightarrow> None | Inr b \<Rightarrow> Some b) of
       Inl e \<Rightarrow> fail e
     | Inr i \<Rightarrow>
         guard (SnapshotDeliveryRoot (AMQRoot cfg)) (\<lambda>identity.
         guard (OpenDeliveryRoot (AMQRoot cfg) (Some identity)) (\<lambda>deliveryRoot.
         bind get_now (\<lambda>now'.
         guard (DeliverToInboxes deliveryRoot [AgentHandle cfg] (i @ ''.md'') (Marshal now' (event_message cfg event i now))) (\<lambda>_.
         ok ())))))))"

fun deliver_events :: "BridgeConfig \<Rightarrow> BridgeEvent list \<Rightarrow> unit io" where
  "deliver_events cfg [] = ret ()"
| "deliver_events cfg (event # events) = bind (deliverBridgeEvent cfg event) (\<lambda>_. deliver_events cfg events)"

definition processPollEvents :: "(string \<Rightarrow> string option) \<Rightarrow> BridgeConfig \<Rightarrow> bridge_state \<Rightarrow> bridge_state io" where
  "processPollEvents float_text cfg s =
     on_err (pollForChanges float_text cfg s) (\<lambda>_. ret s) (\<lambda>(events, s'). bind (deliver_events cfg events) (\<lambda>_. ret s'))"


section \<open>What a poll reports\<close>

text \<open>The reference: the events of a task, from what the state before the poll says of it alone.\<close>

definition change_events :: "BridgeConfig \<Rightarrow> bridge_state \<Rightarrow> Task list \<Rightarrow> Task \<Rightarrow> BridgeEvent list" where
  "change_events cfg s tasks t =
     state_events cfg (lastStates s (tID t)) t @
     (if lastStates s (tID t) \<noteq> None \<and> deps_of t \<noteq> [] \<and> tStatus t = TaskStatusPending \<and>
         allDepsCompleted (deps_of t) (statusMap tasks) \<and> lastDepsSatisfied s (tID t) \<noteq> Some True
      then unblocked_events cfg t else [])"

definition dep_state :: "(string \<Rightarrow> string) \<Rightarrow> Task \<Rightarrow> bool" where
  "dep_state status t \<longleftrightarrow> (deps_of t \<noteq> [] \<and> tStatus t = TaskStatusPending \<longrightarrow> allDepsCompleted (deps_of t) status)"

definition seen_all :: "(string \<Rightarrow> string) \<Rightarrow> Task list \<Rightarrow> bridge_state \<Rightarrow> bool" where
  "seen_all status tasks s \<longleftrightarrow>
     (\<forall>t \<in> set tasks. lastStates s (tID t) = Some (task_state t) \<and> lastDepsSatisfied s (tID t) = Some (dep_state status t))"

lemma poll_loop_other:
  "i \<notin> tID ` set tasks \<Longrightarrow> lastStates (snd (poll_loop cfg status tasks s)) i = lastStates s i \<and>
     lastDepsSatisfied (snd (poll_loop cfg status tasks s)) i = lastDepsSatisfied s i"
  by (induction tasks arbitrary: s) (simp_all add: Let_def case_prod_beta)

lemma poll_loop_seen:
  "distinct (map tID tasks) \<Longrightarrow> seen_all status tasks (snd (poll_loop cfg status tasks s))"
proof (induction tasks arbitrary: s)
  case Nil
  show ?case by (simp add: seen_all_def)
next
  case (Cons t tasks)
  then show ?case
    using poll_loop_other [of "tID t" tasks cfg status]
    by (auto simp: seen_all_def Let_def case_prod_beta dep_state_def)
qed

lemma poll_loop_events:
  "distinct (map tID tasks) \<Longrightarrow> \<forall>t \<in> set tasks. lastStates s (tID t) = lastStates s0 (tID t) \<and>
       lastDepsSatisfied s (tID t) = lastDepsSatisfied s0 (tID t) \<Longrightarrow>
   fst (poll_loop cfg (statusMap all) tasks s) = concat (map (change_events cfg s0 all) tasks)"
proof (induction tasks arbitrary: s)
  case (Cons t tasks)
  let ?s = "\<lparr>lastStates = (lastStates s)(tID t \<mapsto> task_state t), lastDepsSatisfied = (lastDepsSatisfied s)(tID t \<mapsto>
      (deps_of t \<noteq> [] \<and> tStatus t = TaskStatusPending \<longrightarrow> allDepsCompleted (deps_of t) (statusMap all)))\<rparr>"
  have "fst (poll_loop cfg (statusMap all) tasks ?s) = concat (map (change_events cfg s0 all) tasks)"
    by (rule Cons.IH) (use Cons.prems in \<open>auto simp: image_iff\<close>)
  then show ?case using Cons.prems(2) by (simp add: Let_def case_prod_beta change_events_def [of cfg s0 all t])
qed simp

lemma poll_loop_same: "seen_all status tasks s \<Longrightarrow> snd (poll_loop cfg status tasks s) = s"
proof (induction tasks arbitrary: s)
  case (Cons t tasks)
  then have "lastStates s (tID t) = Some (task_state t)" "lastDepsSatisfied s (tID t) = Some (dep_state status t)"
    and rest: "seen_all status tasks s" by (simp_all add: seen_all_def)
  then have "s\<lparr>lastStates := (lastStates s)(tID t \<mapsto> task_state t), lastDepsSatisfied := (lastDepsSatisfied s)(tID t \<mapsto> dep_state status t)\<rparr> = s"
    by (simp add: fun_upd_idem)
  with Cons.IH [OF rest] show ?case by (cases s) (simp add: Let_def case_prod_beta dep_state_def)
qed simp

lemma seen_quiet: "seen_all (statusMap all) tasks s \<Longrightarrow> t \<in> set tasks \<Longrightarrow> change_events cfg s all t = []"
  by (auto simp: seen_all_def change_events_def state_events_def dep_state_def)




end
