(* ===== verification/Swarm_Safety.thy ===== *)
theory Swarm_Safety
  imports Swarm_Tasks Receipt
begin

text \<open>
  Guarantees of the shared task list, for every fault schedule: an operation changes one task or nothing,
  a completed task is final, and a task in the hands of one agent is not changed by another.
\<close>

section \<open>One operation on the files\<close>

definition task_files :: "string \<Rightarrow> path set" where
  "task_files team = {p. \<exists>x. p = TeamTasksDir team @ [x] \<and> hasSuffix x ''.json''}"

lemma task_files_path: "hasSuffix x ''.json'' \<Longrightarrow> TeamTasksDir team @ [x] \<in> task_files team"
  by (simp add: task_files_def)

lemma tmp_not_json: "\<not> hasSuffix (x @ ''.tmp.'' @ nat_str t) ''.json''"
proof
  assume "hasSuffix (x @ ''.tmp.'' @ nat_str t) ''.json''"
  then obtain y where "x @ ''.tmp.'' @ nat_str t = y @ ''.json''" by (auto simp: hasSuffix_def suffix_def)
  then have "last (x @ ''.tmp.'' @ nat_str t) = last (y @ ''.json'')" by (rule arg_cong)
  then have "last (nat_str t) = CHR ''n''" by simp
  moreover have "is_digit (last (nat_str t))" using nat_str_digits [of t] nat_str_nonempty [of t] by (simp add: list_all_iff)
  ultimately show False by (simp add: is_digit_def less_eq_char_def)
qed

lemma write_agree:
  assumes "tp \<notin> W"
  shows "triple (agree W \<sigma>) (sys_write tp d)
     (\<lambda>x f. case x of Inl _ \<Rightarrow> agree W \<sigma> f | Inr _ \<Rightarrow> agree (insert tp W) (\<sigma>(tp \<mapsto> Reg d)) f)"
  by (rule triple_sys_write) (use assms in \<open>auto simp: agree_def\<close>)

lemma create_agree: "tp \<notin> W \<Longrightarrow> keeps (agree W \<sigma>) (sys_upd (create_excl tp))"
  by (rule keeps_sys_upd) (auto dest!: create_excl_cases simp: agree_def)

lemma atomicWriteJSON_agree:
  assumes "\<And>t. dir @ [x @ ''.tmp.'' @ nat_str t] \<notin> W"
  shows "triple (agree W \<sigma>) (atomicWriteJSON (dir @ [x]) v)
     (\<lambda>r f. case r of Inl _ \<Rightarrow> agree W \<sigma> f | Inr _ \<Rightarrow> agree W (\<sigma>(dir @ [x] \<mapsto> Reg (render v))) f)" (is "triple ?P _ ?Q")
proof -
  let ?p = "dir @ [x]"
  have "triple ?P (let tmpPath = butlast ?p @ [last ?p @ ''.tmp.'' @ nat_str t];
         drop_tmp = (\<lambda>txt e. bind (sys_upd (remove tmpPath)) (\<lambda>_. fail (Wrap txt e))) in
     on_err (sys_upd (create_excl tmpPath)) (\<lambda>e. fail (Wrap ''create temp file'' e)) (\<lambda>_.
     on_err (sys_write tmpPath (render v)) (\<lambda>e. bind sys_noop (\<lambda>_. drop_tmp ''write temp file'' e)) (\<lambda>_.
     on_err sys_noop (\<lambda>e. bind sys_noop (\<lambda>_. drop_tmp ''fsync temp file'' e)) (\<lambda>_.
     on_err sys_noop (\<lambda>e. drop_tmp ''close temp file'' e) (\<lambda>_.
     on_err (sys_upd (rename tmpPath ?p)) (\<lambda>e. drop_tmp ''atomic rename'' e) (\<lambda>_.
     ok ())))))) ?Q" for t
  proof -
    let ?t = "dir @ [x @ ''.tmp.'' @ nat_str t]"
    have t: "?t \<notin> W" "?t \<noteq> ?p" using assms [of t] by simp_all
    let ?T = "agree (insert ?t W) (\<sigma>(?t \<mapsto> Reg (render v)))"
    have forget: "?T f \<Longrightarrow> ?P f" for f using t(1) by (auto simp: agree_def)
    have quit: "triple ?P (fail e) ?Q" for e by (rule triple_fail) simp
    have clean: "triple ?P (bind (sys_upd (remove ?t)) (\<lambda>_. fail e)) ?Q" for e
      by (rule triple_bind [OF keeps_triple [OF keeps_agree_remove [OF t(1)]] quit])
    note clean' = triple_pre [OF clean forget]
    have rn: "triple ?T (on_err (sys_upd (rename ?t ?p)) (\<lambda>e. bind (sys_upd (remove ?t)) (\<lambda>_. fail (Wrap ''atomic rename'' e))) (\<lambda>_. ok ())) ?Q"
      by (rule triple_on_err [OF rename_agree [OF t]], simp only: sum.distinct if_False, rule clean, rule triple_ok, simp)
    have noop: "triple P sys_noop (\<lambda>_. P)" for P :: "fs \<Rightarrow> bool" by (rule keeps_triple) (rule keeps_sys_noop)
    show ?thesis
      unfolding Let_def butlast_snoc last_snoc
      by (rule triple_on_err [OF keeps_triple [OF create_agree [OF t(1)]] quit],
          rule triple_on_err [OF write_agree [OF t(1)]]; simp only: sum.case;
          intro triple_bind [OF noop] clean clean' rn triple_on_err [OF noop])
  qed
  then show ?thesis
    unfolding atomicWriteJSON_def by (intro triple_bind [OF keeps_triple [OF keeps_get_now]])
qed

definition no_links :: "path set \<Rightarrow> tree \<Rightarrow> bool" where
  "no_links W \<sigma> \<longleftrightarrow> (\<forall>p \<in> W. \<forall>t. \<sigma> p \<noteq> Some (Sym t))"

lemma stat_no_link: "stat p f = Inr n \<Longrightarrow> p \<noteq> [] \<Longrightarrow> \<forall>t. map_of f p \<noteq> Some (Sym t) \<Longrightarrow> map_of f p = Some n"
  by (auto simp: stat_def follow.simps lstat_def split: sum.splits option.splits node.splits)

lemma ReadFile_agree:
  assumes "p \<in> W" and "p \<noteq> []" and "no_links W \<sigma>"
  shows "triple (agree W \<sigma>) (os_ReadFile p) (\<lambda>x f. agree W \<sigma> f \<and> (\<forall>c. x = Inr c \<longrightarrow> \<sigma> p = Some (Reg c) \<or> c = []))"
  unfolding os_ReadFile_def
proof (rule triple_sys_query)
  fix f c assume a: "agree W \<sigma> f" and q: "(case stat p f of Inl e \<Rightarrow> Inl e | Inr n \<Rightarrow> read_bytes n) = Inr c"
  from q obtain n where n: "stat p f = Inr n" "read_bytes n = Inr c" by (auto split: sum.splits)
  have "map_of f p = \<sigma> p" using a assms(1) by (simp add: agree_def)
  moreover have "map_of f p = Some n"
    by (rule stat_no_link [OF n(1) assms(2)]) (use assms(1,3) calculation in \<open>simp add: no_links_def\<close>)
  ultimately show "agree W \<sigma> f \<and> (\<forall>c'. Inr c = Inr c' \<longrightarrow> \<sigma> p = Some (Reg c') \<or> c' = [])"
    using a n(2) by (cases n) (auto simp: read_bytes_def)
qed simp_all

lemma keeps_ReadFile [stable_rules]: "keeps P (os_ReadFile p)"
  unfolding os_ReadFile_def by (intro stable_rules)

text \<open>The text of a file in which the mutation changed one task.\<close>

definition edited ::
    "(string \<Rightarrow> string option) \<Rightarrow> string \<Rightarrow> (nat \<Rightarrow> raw \<Rightarrow> goerr + raw) \<Rightarrow> bytes \<Rightarrow> bytes \<Rightarrow> bool" where
  "edited float_text taskID mutate c d \<longleftrightarrow>
     (\<exists>now m m'. unmarshalMap float_text c = Some (Some m) \<and> d = render m' \<and>
        (str_at ''id'' m = taskID \<and> mutate now m = Inr m' \<or> edit_list taskID (mutate now) m = Some (Inr m')))"

text \<open>One task file changed, or nothing when the operation failed.\<close>

definition one_edit ::
    "(string \<Rightarrow> string option) \<Rightarrow> string \<Rightarrow> string \<Rightarrow> (nat \<Rightarrow> raw \<Rightarrow> goerr + raw) \<Rightarrow> tree \<Rightarrow> goerr + unit \<Rightarrow> fs \<Rightarrow> bool" where
  "one_edit float_text team taskID mutate \<sigma> x f \<longleftrightarrow>
     (case x of
        Inl _ \<Rightarrow> agree (task_files team) \<sigma> f
      | Inr _ \<Rightarrow> \<exists>p c d. p \<in> task_files team \<and> \<sigma> p = Some (Reg c) \<and> edited float_text taskID mutate c d \<and>
          agree (task_files team) (\<sigma>(p \<mapsto> Reg d)) f)"

lemma unmarshal_empty: "unmarshalMap ft [] = None"
  by (simp add: unmarshalMap_def parse_json_def)

lemma one_edit_fail: "triple (agree (task_files team) \<sigma>) (fail e) (one_edit ft team taskID mutate \<sigma>)"
  by (rule triple_fail) (simp add: one_edit_def)

lemma one_edit_write:
  assumes "hasSuffix x ''.json''" and "\<sigma> (TeamTasksDir team @ [x]) = Some (Reg c)" and "edited ft taskID mutate c (render m)"
  shows "triple (agree (task_files team) \<sigma>) (atomicWriteJSON (TeamTasksDir team @ [x]) m) (one_edit ft team taskID mutate \<sigma>)"
  by (rule triple_post [OF atomicWriteJSON_agree]) (simp only: task_files_def mem_Collect_eq append1_eq_conv tmp_not_json simp_thms,
      use assms task_files_path in \<open>auto simp: one_edit_def split: sum.splits\<close>)

lemma editedI:
  assumes "unmarshalMap ft c = Some (Some m)"
  shows "str_at ''id'' m = taskID \<Longrightarrow> mutate now m = Inr m' \<Longrightarrow> edited ft taskID mutate c (render m')"
    and "edit_list taskID (mutate now) m = Some (Inr m') \<Longrightarrow> edited ft taskID mutate c (render m')"
  using assms unfolding edited_def by blast+

lemma updateTaskInList_edit:
  assumes "\<sigma> (TeamTasksDir team @ [''tasks.json'']) = Some (Reg c) \<or> c = []"
  shows "triple (agree (task_files team) \<sigma>) (updateTaskInList ft (TeamTasksDir team @ [''tasks.json'']) c taskID mutate)
     (one_edit ft team taskID mutate \<sigma>)"
proof (cases "unmarshalMap ft c")
  case (Some wrapper)
  with assms have c: "\<sigma> (TeamTasksDir team @ [''tasks.json'']) = Some (Reg c)" by (auto simp: unmarshal_empty)
  have j: "hasSuffix ''tasks.json'' ''.json''" by (simp add: hasSuffix_def suffix_def)
  show ?thesis
  proof (cases wrapper)
    case (Some m)
    with \<open>unmarshalMap ft c = Some wrapper\<close> have "unmarshalMap ft c = Some (Some m)" by simp
    note e = editedI(2) [OF this]
    show ?thesis
      unfolding updateTaskInList_def \<open>unmarshalMap ft c = Some wrapper\<close> Some
      by (rule triple_bind [OF keeps_triple [OF keeps_get_now]])
         (auto split: option.split json.split sum.split intro!: one_edit_fail one_edit_write [where c = c] j c e)
  qed (auto simp: updateTaskInList_def Some intro!: triple_bind [OF keeps_triple [OF keeps_get_now]] one_edit_fail)
qed (auto simp: updateTaskInList_def intro!: triple_bind [OF keeps_triple [OF keeps_get_now]] one_edit_fail)

lemma update_files_edit:
  assumes "no_links (task_files team) \<sigma>"
  shows "triple (agree (task_files team) \<sigma>) (update_files ft (TeamTasksDir team) taskID mutate entries)
     (one_edit ft team taskID mutate \<sigma>)"
proof (induction entries)
  case Nil
  show ?case by (simp add: one_edit_fail)
next
  case (Cons entry entries)
  let ?W = "task_files team" and ?p = "TeamTasksDir team @ [fst entry]"
  show ?case
  proof (cases "task_name entry")
    case True
    then have j: "hasSuffix (fst entry) ''.json''" by (simp add: task_name_def)
    have put_file: "triple (agree ?W \<sigma>) (atomicWriteJSON ?p m') (one_edit ft team taskID mutate \<sigma>)"
      if "\<sigma> ?p = Some (Reg c) \<or> c = []" and "unmarshalMap ft c = Some (Some m)"
        and "str_at ''id'' m = taskID \<and> mutate now m = Inr m' \<or> edit_list taskID (mutate now) m = Some (Inr m')" for c m m' now
      by (rule one_edit_write [OF j]) (use that editedI [OF that(2)] in \<open>auto simp: unmarshal_empty\<close>)
    have body: "triple (agree ?W \<sigma>) (bind get_now (\<lambda>now.
             case unmarshalMap ft c of
               None \<Rightarrow> update_files ft (TeamTasksDir team) taskID mutate entries
             | Some None \<Rightarrow>
                 (if taskID = [] then (case mutate now [] of Inl e \<Rightarrow> fail e | Inr _ \<Rightarrow> fail nil_map)
                  else update_files ft (TeamTasksDir team) taskID mutate entries)
             | Some (Some m) \<Rightarrow>
                 (if str_at ''id'' m = taskID
                  then (case mutate now m of Inl e \<Rightarrow> fail e | Inr m' \<Rightarrow> atomicWriteJSON ?p m')
                  else case edit_list taskID (mutate now) m of
                    None \<Rightarrow> update_files ft (TeamTasksDir team) taskID mutate entries
                  | Some (Inl e) \<Rightarrow> fail e
                  | Some (Inr m') \<Rightarrow> atomicWriteJSON ?p m'))) (one_edit ft team taskID mutate \<sigma>)"
      if "\<sigma> ?p = Some (Reg c) \<or> c = []" for c
    proof (rule triple_bind [OF keeps_triple [OF keeps_get_now]], rule triple_case_option)
      fix now r assume r: "unmarshalMap ft c = Some r"
      show "triple (agree ?W \<sigma>) (case r of None \<Rightarrow>
                 (if taskID = [] then (case mutate now [] of Inl e \<Rightarrow> fail e | Inr _ \<Rightarrow> fail nil_map)
                  else update_files ft (TeamTasksDir team) taskID mutate entries)
             | Some m \<Rightarrow>
                 (if str_at ''id'' m = taskID
                  then (case mutate now m of Inl e \<Rightarrow> fail e | Inr m' \<Rightarrow> atomicWriteJSON ?p m')
                  else case edit_list taskID (mutate now) m of
                    None \<Rightarrow> update_files ft (TeamTasksDir team) taskID mutate entries
                  | Some (Inl e) \<Rightarrow> fail e
                  | Some (Inr m') \<Rightarrow> atomicWriteJSON ?p m')) (one_edit ft team taskID mutate \<sigma>)"
        by (intro triple_case_option triple_if triple_case_sum one_edit_fail Cons.IH; rule put_file [where now = now, OF that]) (simp add: r | blast)+
    qed (rule Cons.IH)
    show ?thesis
      unfolding update_files.simps Let_def using True
      by (simp, intro triple_bind [OF ReadFile_agree [OF task_files_path [OF j] _ assms]])
         (auto split: sum.split intro!: triple_pure2 body Cons.IH intro: triple_pre [OF Cons.IH])
  qed (simp add: Cons.IH)
qed

lemma updateTaskRaw_edit:
  assumes "no_links (task_files team) \<sigma>"
  shows "triple (agree (task_files team) \<sigma>) (updateTaskRaw ft team taskID mutate) (one_edit ft team taskID mutate \<sigma>)"
proof -
  have "hasSuffix ''tasks.json'' ''.json''" by (simp add: hasSuffix_def suffix_def)
  note rd = ReadFile_agree [OF task_files_path [OF this] _ assms]
  have dir: "triple (agree (task_files team) \<sigma>) (on_err (os_ReadDir (TeamTasksDir team))
             (\<lambda>e. if osIsNotExist e then fail not_found else fail (Wrap ''read tasks directory'' e))
             (\<lambda>entries. update_files ft (TeamTasksDir team) taskID mutate entries)) (one_edit ft team taskID mutate \<sigma>)"
    by (rule triple_on_err [OF keeps_triple [OF keeps_os_ReadDir]]) (auto intro: one_edit_fail update_files_edit [OF assms])
  show ?thesis
    unfolding updateTaskRaw_def Let_def
    by (rule triple_bind [OF rd]; (simp add: TeamTasksDir_def; fail)?)
       (auto split: sum.split intro!: triple_pure2 updateTaskInList_edit intro: triple_pre [OF one_edit_fail] triple_pre [OF dir])
qed


lemma open_create_keeps: "p \<notin> W \<Longrightarrow> keeps (agree W \<sigma>) (sys_upd (open_create p))"
  by (rule keeps_sys_upd) (auto simp: open_create_def agree_def split: option.splits node.splits sum.splits)

lemma locked_triple:
  assumes "triple P m Q" and "keeps P (sys_upd (open_create l))" and "\<And>f e. P f \<Longrightarrow> Q (Inl e) f"
  shows "triple P (WithExclusiveFileLock l m) Q"
proof -
  have noop: "triple P sys_noop (\<lambda>_. P)" for P :: "fs \<Rightarrow> bool" by (rule keeps_triple) (rule keeps_sys_noop)
  have quit: "triple P (fail e) Q" for e by (rule triple_fail) (rule assms(3))
  show ?thesis
    unfolding WithExclusiveFileLock_def
    by (intro triple_on_err [OF keeps_triple [OF assms(2)]] triple_on_err [OF noop] triple_bind [OF noop] triple_bind [OF assms(1)] quit;
        rule triple_ret)
qed

lemma locked_edit:
  assumes "triple (agree (task_files team) \<sigma>) m (one_edit ft team taskID mutate \<sigma>)"
  shows "triple (agree (task_files team) \<sigma>) (withTasksLock team m) (one_edit ft team taskID mutate \<sigma>)"
proof -
  let ?W = "task_files team"
  have mk: "keeps (agree ?W \<sigma>) (mkdirAll ClaudeTasksDir 448)"
    by (rule keeps_agree_mkdirAll) (auto simp: task_files_def TeamTasksDir_def ClaudeTasksDir_def dest!: prefix_length_le)
  have opn: "keeps (agree ?W \<sigma>) (sys_upd (open_create (ClaudeTasksDir @ [l])))" for l
    by (rule open_create_keeps) (auto simp: task_files_def TeamTasksDir_def ClaudeTasksDir_def)
  show ?thesis
    unfolding withTasksLock_def Let_def
    by (intro triple_on_err [OF keeps_triple [OF mk]] one_edit_fail locked_triple [OF assms opn]) (simp add: one_edit_def)
qed

lemma keeps_list_files [stable_rules]: "keeps P (list_files ft d es ts)"
  by (induction es arbitrary: ts) (auto simp: Let_def split: sum.split option.split intro!: stable_rules)

lemma keeps_ListTasks [stable_rules]: "keeps P (ListTasks ft team)"
  unfolding ListTasks_def Let_def by (intro stable_rules)

section \<open>The operations as one transition\<close>

datatype task_op =
    Claim (by_id: string)
  | Complete (by_handle: string) (by_id: string) "raw option"
  | Fail (by_handle: string) (by_id: string) string
  | Block (by_handle: string) (by_id: string) string

fun task_mutation :: "task_op \<Rightarrow> nat \<Rightarrow> raw \<Rightarrow> goerr + raw" where
  "task_mutation (Claim a) = claim_task a"
| "task_mutation (Complete h a evidence) = finish_task h a TaskStatusCompleted
     (\<lambda>m. setOptionalObject (del_key ''block_reason'' (del_key ''failure_reason'' m)) ''evidence'' evidence)"
| "task_mutation (Fail h a reason) = finish_task h a TaskStatusFailed
     (\<lambda>m. setOptionalString (del_key ''block_reason'' m) ''failure_reason'' reason)"
| "task_mutation (Block h a reason) = finish_task h a TaskStatusBlocked
     (\<lambda>m. setOptionalString (del_key ''failure_reason'' m) ''block_reason'' reason)"

fun task_exec :: "(string \<Rightarrow> string option) \<Rightarrow> string \<Rightarrow> string \<Rightarrow> task_op \<Rightarrow> (goerr + unit) io" where
  "task_exec float_text team taskID (Claim a) = ClaimTask float_text team taskID a"
| "task_exec float_text team taskID (Complete h a evidence) = CompleteTask float_text team taskID h a evidence"
| "task_exec float_text team taskID (Fail h a reason) = FailTask float_text team taskID h a reason"
| "task_exec float_text team taskID (Block h a reason) = BlockTask float_text team taskID h a reason"

lemma task_exec_edit:
  assumes "no_links (task_files team) \<sigma>"
  shows "triple (agree (task_files team) \<sigma>) (task_exec ft team taskID op)
     (one_edit ft team taskID (task_mutation op) \<sigma>)"
proof -
  note upd = updateTaskRaw_edit [OF assms]
  show ?thesis
  proof (cases op)
    case (Claim a)
    show ?thesis
      unfolding Claim task_exec.simps task_mutation.simps ClaimTask_def
      by (rule locked_edit, rule triple_on_err [OF keeps_triple [OF keeps_ListTasks] one_edit_fail])
         (intro triple_if one_edit_fail upd)
  qed (simp_all add: CompleteTask_def FailTask_def BlockTask_def locked_edit upd)
qed


section \<open>The tasks of a file\<close>

text \<open>
  A file holds a task itself, or a list of tasks, or both: the task at \<open>None\<close> is the object of the file
  without its list, the one at \<open>Some i\<close> an element of the list.
\<close>

definition task_at :: "raw \<Rightarrow> nat option \<Rightarrow> raw option" where
  "task_at m loc =
     (case loc of
        None \<Rightarrow> Some (del_key ''tasks'' m)
      | Some i \<Rightarrow>
          (case map_of m ''tasks'' of
             Some (JArr items) \<Rightarrow> (if i < length items then (case items ! i of JObj t \<Rightarrow> Some t | _ \<Rightarrow> None) else None)
           | _ \<Rightarrow> None))"

lemma map_of_put_key [simp]: "map_of (put_key k v m) = (map_of m)(k \<mapsto> v)"
  by (induction k v m rule: put_key.induct) (auto simp: fun_eq_iff)

lemma map_of_del_key [simp]: "map_of (del_key k m) = (map_of m)(k := None)"
  by (induction m) (auto simp: del_key_def fun_eq_iff)

lemma del_put_key [simp]: "del_key k (put_key k v m) = del_key k m"
  by (induction k v m rule: put_key.induct) (auto simp: del_key_def)

lemma str_at_put [simp]: "str_at k (put_key k (JStr s) m) = s" "k \<noteq> l \<Longrightarrow> str_at k (put_key l v m) = str_at k m"
  by (simp_all add: str_at_def)

lemma str_at_del [simp]: "k \<noteq> l \<Longrightarrow> str_at k (del_key l m) = str_at k m"
  by (simp add: str_at_def)

text \<open>Who may do what to a task, and what becomes of it.\<close>

fun acts_as :: "task_op \<Rightarrow> string \<Rightarrow> bool" where
  "acts_as (Claim a) assigned = equalFold assigned a"
| "acts_as (Complete h a _) assigned = isAssignedToMe assigned h a"
| "acts_as (Fail h a _) assigned = isAssignedToMe assigned h a"
| "acts_as (Block h a _) assigned = isAssignedToMe assigned h a"

fun op_target :: "task_op \<Rightarrow> string" where
  "op_target (Claim _) = TaskStatusInProgress"
| "op_target (Complete _ _ _) = TaskStatusCompleted"
| "op_target (Fail _ _ _) = TaskStatusFailed"
| "op_target (Block _ _ _) = TaskStatusBlocked"

definition may_do :: "task_op \<Rightarrow> raw \<Rightarrow> bool" where
  "may_do op t \<longleftrightarrow>
     (case op of Claim _ \<Rightarrow> str_at ''status'' t \<noteq> TaskStatusCompleted | _ \<Rightarrow> str_at ''status'' t = TaskStatusInProgress) \<and>
     (str_at ''assigned_to'' t = [] \<or> acts_as op (str_at ''assigned_to'' t))"

definition own_fields :: "string set" where
  "own_fields = {''status'', ''assigned_to'', ''failure_reason'', ''block_reason'', ''evidence'', ''updated_at''}"

definition task_moved :: "task_op \<Rightarrow> raw \<Rightarrow> raw \<Rightarrow> bool" where
  "task_moved op t t' \<longleftrightarrow>
     may_do op t \<and> str_at ''status'' t' = op_target op \<and>
     str_at ''assigned_to'' t' = (case op of Claim a \<Rightarrow> a | _ \<Rightarrow> str_at ''assigned_to'' t) \<and>
     (\<forall>k. k \<notin> own_fields \<longrightarrow> map_of t' k = map_of t k)"

lemma setOptional_at [simp]:
  "k \<noteq> l \<Longrightarrow> str_at k (setOptionalString m l s) = str_at k m" "k \<noteq> l \<Longrightarrow> str_at k (setOptionalObject m l x) = str_at k m"
  "k \<noteq> l \<Longrightarrow> map_of (setOptionalString m l s) k = map_of m k" "k \<noteq> l \<Longrightarrow> map_of (setOptionalObject m l x) k = map_of m k"
  by (simp_all add: setOptionalString_def setOptionalObject_def split: option.split)

lemma finish_task_Inr:
  "finish_task h a target adjust now m = Inr m' \<longleftrightarrow>
     str_at ''status'' m \<noteq> target \<and> str_at ''status'' m = TaskStatusInProgress \<and>
     (str_at ''assigned_to'' m = [] \<or> isAssignedToMe (str_at ''assigned_to'' m) h a) \<and>
     m' = put_key ''updated_at'' (JStr (RFC3339 now)) (adjust (put_key ''status'' (JStr target) m))"
  by (auto simp: finish_task_def requireInProgress_def requireTaskAssignee_def Let_def split: option.splits if_splits)

lemma task_mutation_moved: "task_mutation op now m = Inr m' \<Longrightarrow> task_moved op m m'"
  by (cases op) (auto simp: task_moved_def may_do_def own_fields_def finish_task_Inr claim_task_def Let_def split: if_splits)

lemma task_mutation_refused: "\<not> may_do op m \<Longrightarrow> \<exists>e. task_mutation op now m = Inl e"
  using task_mutation_moved [of op now m] by (cases "task_mutation op now m") (auto simp: task_moved_def)

lemma task_moved_del: "task_moved op m m' \<Longrightarrow> task_moved op (del_key ''tasks'' m) (del_key ''tasks'' m')"
  by (auto simp: task_moved_def may_do_def split: task_op.splits)

text \<open>
  One step of the task list as its users see it: one task with the identifier moves, every other task of
  the file and every field the operations do not know stays.
\<close>

definition task_step :: "string \<Rightarrow> task_op \<Rightarrow> raw \<Rightarrow> raw \<Rightarrow> bool" where
  "task_step taskID op m m' \<longleftrightarrow>
     (\<exists>loc t t'. task_at m loc = Some t \<and> task_at m' loc = Some t' \<and> (\<forall>l. l \<noteq> loc \<longrightarrow> task_at m' l = task_at m l) \<and>
        str_at ''id'' t = taskID \<and> task_moved op t t')"

lemma map_sum_Inr: "map_sum id g x = Inr y \<longleftrightarrow> (\<exists>z. x = Inr z \<and> y = g z)"
  by (cases x) auto

lemma edit_items_Inr:
  assumes "edit_items taskID mutate items = Some (Inr items')"
  obtains i t t' where "i < length items" "items ! i = JObj t" "str_at ''id'' t = taskID" "mutate t = Inr t'"
    "items' = items[i := JObj t']"
  using assms
proof (induction items arbitrary: items' thesis)
  case (Cons item items)
  show ?case
  proof (cases "\<exists>t. item = JObj t \<and> str_at ''id'' t = taskID")
    case True
    then obtain t where t: "item = JObj t" "str_at ''id'' t = taskID" by blast
    with Cons.prems(2) obtain t' where "mutate t = Inr t'" "items' = JObj t' # items"
      by (cases "mutate t") auto
    with t show ?thesis by (intro Cons.prems(1) [of 0 t t']) auto
  next
    case False
    then have "edit_items taskID mutate (item # items) = map_option (map_sum id (Cons item)) (edit_items taskID mutate items)"
      by (cases item) (auto simp: Let_def)
    with Cons.prems(2) have "map_option (map_sum id (Cons item)) (edit_items taskID mutate items) = Some (Inr items')" by simp
    then obtain rest where r: "edit_items taskID mutate items = Some (Inr rest)" "items' = item # rest"
      by (auto simp: map_sum_Inr)
    obtain i t t' where "i < length items" "items ! i = JObj t" "str_at ''id'' t = taskID" "mutate t = Inr t'"
      "rest = items[i := JObj t']"
      by (rule Cons.IH [OF _ r(1)])
    with r(2) show ?thesis by (intro Cons.prems(1) [of "Suc i" t t']) auto
  qed
qed simp

lemma edit_list_Inr:
  assumes "edit_list taskID mutate m = Some (Inr m')"
  obtains items i t t' where "map_of m ''tasks'' = Some (JArr items)" "i < length items" "items ! i = JObj t"
    "str_at ''id'' t = taskID" "mutate t = Inr t'" "m' = put_key ''tasks'' (JArr (items[i := JObj t'])) m"
proof -
  from assms obtain items items' where i: "map_of m ''tasks'' = Some (JArr items)"
    "edit_items taskID mutate items = Some (Inr items')" "m' = put_key ''tasks'' (JArr items') m"
    by (auto simp: edit_list_def map_sum_Inr split: option.splits json.splits)
  from i(2) obtain i t t' where "i < length items" "items ! i = JObj t" "str_at ''id'' t = taskID" "mutate t = Inr t'"
    "items' = items[i := JObj t']" by (rule edit_items_Inr)
  with i that show ?thesis by blast
qed

lemma top_edit_step:
  assumes "str_at ''id'' m = taskID" and "task_mutation op now m = Inr m'"
  shows "task_step taskID op m m'"
proof -
  note moved = task_mutation_moved [OF assms(2)]
  then have "map_of m' ''tasks'' = map_of m ''tasks''" by (simp add: task_moved_def own_fields_def)
  then have "task_at m' l = task_at m l" if "l \<noteq> None" for l using that by (auto simp: task_at_def split: option.split)
  moreover have "str_at ''id'' (del_key ''tasks'' m) = taskID" using assms(1) by simp
  ultimately show ?thesis
    unfolding task_step_def using task_moved_del [OF moved] by (intro exI [of _ None]) (auto simp: task_at_def)
qed

lemma list_edit_step:
  assumes "edit_list taskID (task_mutation op now) m = Some (Inr m')"
  shows "task_step taskID op m m'"
proof -
  obtain items i t t' where i: "map_of m ''tasks'' = Some (JArr items)" "i < length items" "items ! i = JObj t"
    "str_at ''id'' t = taskID" "task_mutation op now t = Inr t'" "m' = put_key ''tasks'' (JArr (items[i := JObj t'])) m"
    by (rule edit_list_Inr [OF assms])
  then have "task_at m (Some i) = Some t" "task_at m' (Some i) = Some t'" by (simp_all add: task_at_def)
  moreover have "task_at m' l = task_at m l" if "l \<noteq> Some i" for l
    using that i by (cases l) (auto simp: task_at_def nth_list_update)
  ultimately show ?thesis
    unfolding task_step_def using i(4) task_mutation_moved [OF i(5)] by blast
qed


section \<open>Files in normal form\<close>

text \<open>
  A file that an operation wrote is read back as it was written, if its numbers are integers that the
  printer keeps and its strings are UTF-8; the operations keep it so.
\<close>

lemma unmarshalMap_render: "ctx_ok ft m \<Longrightarrow> unmarshalMap ft (render m) = Some (Some m)"
  using parse_MarshalIndent_nl [of "JObj m"] as_ctx_ok [of ft m]
  by (simp add: unmarshalMap_def render_def ctx_ok_def)

definition val_ok :: "(string \<Rightarrow> string option) \<Rightarrow> json \<Rightarrow> bool" where
  "val_ok ft v \<longleftrightarrow> any_of ft v = Some v \<and> wf_json v"

lemma ctx_ok_iff: "ctx_ok ft m \<longleftrightarrow> sorted_wrt (<) (map fst m) \<and> (\<forall>(k, v) \<in> set m. valid_utf8 k \<and> val_ok ft v)"
proof -
  have "wf_members m \<longleftrightarrow> (\<forall>(k, v) \<in> set m. valid_utf8 k \<and> wf_json v)"
    by (induction m) auto
  then show ?thesis by (auto simp: ctx_ok_def val_ok_def list_all_iff)
qed

lemma set_put_key: "set (put_key k v m) \<subseteq> insert (k, v) (set m)"
  by (induction k v m rule: put_key.induct) auto

lemma keys_put_key: "set (map fst (put_key k v m)) = insert k (set (map fst m))"
  by (induction k v m rule: put_key.induct) auto

lemma sorted_put_key: "sorted_wrt (<) (map fst m) \<Longrightarrow> sorted_wrt (<) (map fst (put_key k v m))"
proof (induction k v m rule: put_key.induct)
  case (2 k v l w ms)
  have keys: "fst ` set (put_key k v ms) = insert k (fst ` set ms)" using keys_put_key [of k v ms] by simp
  show ?case
  proof (cases "k < l")
    case True
    with 2 show ?thesis by (auto intro: less_trans)
  next
    case False
    then consider "k = l" | "l < k" by fastforce
    then show ?thesis using 2 False keys by cases auto
  qed
qed simp

lemma ctx_ok_put:
  assumes "ctx_ok ft m" and "valid_utf8 k" and "val_ok ft v"
  shows "ctx_ok ft (put_key k v m)"
proof -
  have "\<forall>(l, w) \<in> set (put_key k v m). valid_utf8 l \<and> val_ok ft w"
    using set_put_key [of k v m] assms unfolding ctx_ok_iff by blast
  with assms(1) show ?thesis unfolding ctx_ok_iff by (simp add: sorted_put_key)
qed

lemma ctx_ok_del: "ctx_ok ft m \<Longrightarrow> ctx_ok ft (del_key k m)"
  unfolding ctx_ok_iff del_key_def by (induction m) (auto simp: sorted_wrt_append)

lemma any_members_sorted:
  "any_members ft ms acc = Some r \<Longrightarrow> sorted_wrt (<) (map fst acc) \<Longrightarrow> sorted_wrt (<) (map fst r)"
  by (induction ms arbitrary: acc) (auto split: option.splits, metis sorted_put_key)

lemma any_members_prefix:
  "any_members ft ms acc = Some r \<Longrightarrow> sorted_wrt (<) (map fst (acc @ ms)) \<Longrightarrow> prefix acc r"
proof (induction ms arbitrary: acc)
  case (Cons m ms)
  obtain k v where m: "m = (k, v)" by (cases m)
  with Cons.prems obtain w where w: "any_members ft ms (put_key k w acc) = Some r" by (auto split: option.splits)
  have "put_key k w acc = acc @ [(k, w)]" using Cons.prems(2) by (intro put_key_last) (auto simp: m sorted_wrt_append)
  with w have "prefix (acc @ [(k, w)]) r" using Cons.prems(2) by (intro Cons.IH) (auto simp: m sorted_wrt_append)
  then show ?case by (auto simp: prefix_def)
qed simp

lemma any_members_fixed:
  "any_members ft ms acc = Some (acc @ ms) \<Longrightarrow> sorted_wrt (<) (map fst (acc @ ms)) \<Longrightarrow> \<forall>(k, v) \<in> set ms. any_of ft v = Some v"
proof (induction ms arbitrary: acc)
  case (Cons m ms)
  obtain k v where m: "m = (k, v)" by (cases m)
  with Cons.prems obtain w where w: "any_of ft v = Some w" "any_members ft ms (put_key k w acc) = Some (acc @ m # ms)"
    by (auto split: option.splits)
  have "put_key k w acc = acc @ [(k, w)]" using Cons.prems(2) by (intro put_key_last) (auto simp: m sorted_wrt_append)
  with w(2) have r: "any_members ft ms (acc @ [(k, w)]) = Some (acc @ m # ms)" by simp
  have srt: "sorted_wrt (<) (map fst ((acc @ [(k, w)]) @ ms))" using Cons.prems(2) by (simp add: m)
  from any_members_prefix [OF r srt] have "w = v" by (simp add: m)
  moreover from this r srt have "\<forall>(k, v) \<in> set ms. any_of ft v = Some v" by (intro Cons.IH [of "acc @ [m]"]) (simp_all add: m)
  ultimately show ?case using w(1) by (auto simp: m)
qed simp

lemma val_ok_obj: "val_ok ft (JObj m) \<longleftrightarrow> ctx_ok ft m"
proof
  assume v: "val_ok ft (JObj m)"
  then have m: "any_members ft m [] = Some m" by (auto simp: val_ok_def)
  then have "sorted_wrt (<) (map fst m)" by (rule any_members_sorted) simp
  moreover from this m have "\<forall>(k, v) \<in> set m. any_of ft v = Some v" by (intro any_members_fixed [of ft m "[]"]) simp_all
  ultimately show "ctx_ok ft m" using v by (auto simp: ctx_ok_def val_ok_def list_all_iff)
next
  assume "ctx_ok ft m"
  then show "val_ok ft (JObj m)" using any_members_ok [of "[]" m ft] by (auto simp: ctx_ok_def val_ok_def)
qed

lemma val_ok_arr: "val_ok ft (JArr vs) \<longleftrightarrow> (\<forall>v \<in> set vs. val_ok ft v)"
proof -
  have "any_elems ft vs = Some vs \<longleftrightarrow> (\<forall>v \<in> set vs. any_of ft v = Some v)"
    by (induction vs) (auto split: option.splits)
  moreover have "wf_elems vs \<longleftrightarrow> (\<forall>v \<in> set vs. wf_json v)" by (induction vs) auto
  ultimately show ?thesis by (auto simp: val_ok_def)
qed

lemma val_ok_str: "val_ok ft (JStr s) \<longleftrightarrow> valid_utf8 s"
  by (simp add: val_ok_def)

text \<open>Operations whose texts are UTF-8 and whose evidence is in normal form.\<close>

fun op_ok :: "(string \<Rightarrow> string option) \<Rightarrow> task_op \<Rightarrow> bool" where
  "op_ok ft (Claim a) \<longleftrightarrow> valid_utf8 a"
| "op_ok ft (Complete h a evidence) \<longleftrightarrow> (case evidence of None \<Rightarrow> True | Some c \<Rightarrow> ctx_ok ft c)"
| "op_ok ft (Fail h a reason) \<longleftrightarrow> valid_utf8 (trimSpace reason)"
| "op_ok ft (Block h a reason) \<longleftrightarrow> valid_utf8 (trimSpace reason)"

lemma own_fields_utf8: "k \<in> own_fields \<Longrightarrow> valid_utf8 k" "valid_utf8 ''tasks''"
  by (auto simp: own_fields_def ascii_valid code_def)

lemma status_utf8: "valid_utf8 (op_target op)" "valid_utf8 (RFC3339 now)"
  by (cases op) (auto simp: task_status_defs ascii_valid ascii_RFC3339 code_def)

lemma mutation_ok:
  assumes "task_mutation op now m = Inr m'" and "op_ok ft op" and "ctx_ok ft m"
  shows "ctx_ok ft m'"
proof -
  have put: "ctx_ok ft x \<Longrightarrow> k \<in> own_fields \<Longrightarrow> valid_utf8 s \<Longrightarrow> ctx_ok ft (put_key k (JStr s) x)" for x k s
    by (rule ctx_ok_put) (simp_all add: own_fields_utf8 val_ok_str)
  have obj: "ctx_ok ft x \<Longrightarrow> k \<in> own_fields \<Longrightarrow> ctx_ok ft c \<Longrightarrow> ctx_ok ft (put_key k (JObj c) x)" for x k c
    by (rule ctx_ok_put) (simp_all add: own_fields_utf8 val_ok_obj)
  note own = own_fields_def [THEN eqset_imp_iff, THEN iffD2]
  show ?thesis
    using assms status_utf8(1) [of op] status_utf8(2) [of now]
    by (cases op)
       (auto simp: finish_task_Inr claim_task_def Let_def setOptionalObject_def setOptionalString_def split: if_splits option.splits
         intro!: put obj ctx_ok_del own)
qed

lemma edit_list_ok:
  assumes "edit_list taskID (task_mutation op now) m = Some (Inr m')" and "op_ok ft op" and "ctx_ok ft m"
  shows "ctx_ok ft m'"
proof -
  obtain items i t t' where i: "map_of m ''tasks'' = Some (JArr items)" "i < length items" "items ! i = JObj t"
    "task_mutation op now t = Inr t'" "m' = put_key ''tasks'' (JArr (items[i := JObj t'])) m"
    by (rule edit_list_Inr [OF assms(1)])
  have "(''tasks'', JArr items) \<in> set m" using i(1) by (rule map_of_SomeD)
  with assms(3) have items: "\<forall>v \<in> set items. val_ok ft v" unfolding ctx_ok_iff by (auto simp: val_ok_arr)
  with i(2,3) have "ctx_ok ft t" by (metis nth_mem val_ok_obj)
  with mutation_ok [OF i(4) assms(2)] have "val_ok ft (JObj t')" by (simp add: val_ok_obj)
  with items have "\<forall>v \<in> set (items[i := JObj t']). val_ok ft v" using set_update_subset_insert [of items i "JObj t'"] by blast
  then show ?thesis unfolding i(5) by (intro ctx_ok_put assms(3) own_fields_utf8) (simp add: val_ok_arr)
qed


lemma edited_step:
  assumes "edited ft taskID (task_mutation op) c d"
  obtains m m' where "unmarshalMap ft c = Some (Some m)" "d = render m'" "task_step taskID op m m'"
    "op_ok ft op \<and> ctx_ok ft m \<longrightarrow> ctx_ok ft m'"
proof -
  from assms obtain now m m' where m: "unmarshalMap ft c = Some (Some m)" "d = render m'"
    and e: "str_at ''id'' m = taskID \<and> task_mutation op now m = Inr m' \<or> edit_list taskID (task_mutation op now) m = Some (Inr m')"
    unfolding edited_def by blast
  have "task_step taskID op m m'" using e top_edit_step list_edit_step by blast
  moreover have "op_ok ft op \<and> ctx_ok ft m \<longrightarrow> ctx_ok ft m'" using e mutation_ok edit_list_ok by blast
  ultimately show ?thesis using m that by blast
qed

section \<open>Sequences of operations\<close>

fun task_run :: "(string \<Rightarrow> string option) \<Rightarrow> string \<Rightarrow> (string \<times> task_op) list \<Rightarrow> unit io" where
  "task_run float_text team [] = ret ()"
| "task_run float_text team ((taskID, op) # ops) =
     bind (task_exec float_text team taskID op) (\<lambda>_. task_run float_text team ops)"

text \<open>The task at a place of a file that is in normal form.\<close>

definition task_in :: "(string \<Rightarrow> string option) \<Rightarrow> path \<Rightarrow> nat option \<Rightarrow> raw \<Rightarrow> tree \<Rightarrow> bool" where
  "task_in float_text p loc t g \<longleftrightarrow>
     (\<exists>m. g p = Some (Reg (render m)) \<and> ctx_ok float_text m \<and> task_at m loc = Some t)"

lemma refused_task_kept:
  assumes p: "p \<in> task_files team" and op: "op_ok ft op" "\<not> may_do op t"
    and g: "no_links (task_files team) g" "task_in ft p loc t g"
    and e: "one_edit ft team taskID (task_mutation op) g x f"
  shows "no_links (task_files team) (map_of f) \<and> task_in ft p loc t (map_of f)"
proof (cases x)
  case (Inl err)
  with e have "agree (task_files team) g f" by (simp add: one_edit_def)
  with g p show ?thesis by (auto simp: no_links_def task_in_def agree_def)
next
  case (Inr u)
  with e obtain q c d where q: "q \<in> task_files team" "g q = Some (Reg c)" "edited ft taskID (task_mutation op) c d"
    and f: "agree (task_files team) (g(q \<mapsto> Reg d)) f" by (auto simp: one_edit_def)
  from f have same: "map_of f y = (g(q \<mapsto> Reg d)) y" if "y \<in> task_files team" for y using that by (simp add: agree_def)
  have "no_links (task_files team) (map_of f)" using g(1) same by (auto simp: no_links_def)
  moreover have "task_in ft p loc t (map_of f)"
  proof (cases "q = p")
    case False
    with same [OF p] g(2) show ?thesis by (simp add: task_in_def)
  next
    case True
    from g(2) obtain m where m: "g p = Some (Reg (render m))" "ctx_ok ft m" "task_at m loc = Some t" by (auto simp: task_in_def)
    obtain n m' where m': "unmarshalMap ft c = Some (Some n)" "d = render m'" "task_step taskID op n m'"
      "op_ok ft op \<and> ctx_ok ft n \<longrightarrow> ctx_ok ft m'" by (rule edited_step [OF q(3)])
    from True q(2) m(1) have "c = render m" by simp
    with m'(1) unmarshalMap_render [OF m(2)] have n: "n = m" by simp
    from m'(3) obtain loc0 t0 t1 where s: "task_at m loc0 = Some t0" "\<forall>l. l \<noteq> loc0 \<longrightarrow> task_at m' l = task_at m l" "task_moved op t0 t1"
      unfolding task_step_def n by blast
    have "loc \<noteq> loc0" using s(1,3) m(3) op(2) by (auto simp: task_moved_def)
    with s(2) m(3) have "task_at m' loc = Some t" by simp
    moreover have "ctx_ok ft m'" using m'(4) op(1) m(2) n by simp
    ultimately show ?thesis using same [OF p] True m'(2) unfolding task_in_def by (intro exI [of _ m']) simp
  qed
  ultimately show ?thesis ..
qed

lemma task_run_kept:
  assumes p: "p \<in> task_files team" and "\<forall>(i, op) \<in> set ops. op_ok ft op \<and> \<not> may_do op t"
  shows "triple (\<lambda>f. no_links (task_files team) (map_of f) \<and> task_in ft p loc t (map_of f)) (task_run ft team ops)
     (\<lambda>_ f. no_links (task_files team) (map_of f) \<and> task_in ft p loc t (map_of f))" (is "triple ?P _ _")
  using assms(2)
proof (induction ops)
  case Nil
  show ?case by (simp add: triple_ret)
next
  case (Cons o1 ops)
  obtain i op where o1: "o1 = (i, op)" by (cases o1)
  with Cons.prems have op: "op_ok ft op" "\<not> may_do op t" by auto
  have "triple ?P (task_exec ft team i op) (\<lambda>_. ?P)"
    unfolding triple_def
  proof (intro allI impI)
    fix w :: world assume w: "?P (fs w)"
    have "agree (task_files team) (map_of (fs w)) (fs w)" by (simp add: agree_def)
    from triple_run [OF task_exec_edit this] w
    have "one_edit ft team i (task_mutation op) (map_of (fs w)) (fst (task_exec ft team i op w)) (fs (snd (task_exec ft team i op w)))"
      by blast
    from refused_task_kept [where loc = loc, OF p op _ _ this] w show "case task_exec ft team i op w of (x, w') \<Rightarrow> ?P (fs w')"
      by (simp add: case_prod_beta)
  qed
  with Cons show ?case unfolding o1 task_run.simps by (intro triple_bind) auto
qed


section \<open>Properties\<close>


text \<open>A team with one task in a file of its own.\<close>

definition one_task :: "raw \<Rightarrow> fs" where
  "one_task m = [([''tasks''], Dir 448), ([''tasks'', ''x''], Dir 448), ([''tasks'', ''x'', ''t.json''], Reg (render m))]"

lemma one_task_no_links: "no_links (task_files ''x'') (map_of (one_task m))"
  by (auto simp: no_links_def task_files_def TeamTasksDir_def ClaudeTasksDir_def one_task_def)


text \<open>
  C12: a task is safe from operations that its state or its assignee forbids: over any sequence of
  operations by any agents, with any faults, none of which may move the task (it is completed, or it is
  assigned to an agent that none of them acts as, or not in progress), the task stays exactly as it is,
  field by field, in its place, and its file stays readable.
\<close>

theorem forbidden_operations_harmless:
  assumes "no_links (task_files team) (map_of (fs w))" and "p \<in> task_files team" and "task_in float_text p loc t (map_of (fs w))"
    and "\<forall>(taskID, op) \<in> set ops. op_ok float_text op \<and> \<not> may_do op t"
  shows "task_in float_text p loc t (map_of (fs (snd (task_run float_text team ops w))))"
  using triple_run [OF task_run_kept [OF assms(2,4), where loc = loc], of w] assms(1,3) by simp

theorem forbidden_operations_harmless_witness:
  "let m = [(''id'', JStr ''t''), (''status'', JStr ''completed'')] in
   task_in Some [''tasks'', ''x'', ''t.json''] None m
     (map_of (fs (snd (task_run Some ''x'' [(''t'', Claim ''b''), (''t'', Fail ''b'' ''b'' ''no'')] (dies_at 20 (one_task m))))))"
proof -
  let ?m = "[(''id'', JStr ''t''), (''status'', JStr ''completed'')]"
  have t: "task_in Some [''tasks'', ''x'', ''t.json''] None ?m (map_of (fs (dies_at 20 (one_task ?m))))"
    by (auto simp: task_in_def task_at_def del_key_def one_task_def dies_at_def calm_def ctx_ok_def ascii_valid code_def)
  have "[''tasks'', ''x'', ''t.json''] \<in> task_files ''x''"
    by (simp add: task_files_def TeamTasksDir_def ClaudeTasksDir_def hasSuffix_def suffix_def)
  moreover have "no_links (task_files ''x'') (map_of (fs (dies_at 20 (one_task ?m))))"
    using one_task_no_links by (simp add: dies_at_def calm_def)
  moreover have "\<not> may_do (Claim ''b'') ?m" "\<not> may_do (Fail ''b'' ''b'' ''no'') ?m" by code_simp+
  moreover have "op_ok Some (Claim ''b'')" "op_ok Some (Fail ''b'' ''b'' ''no'')" by code_simp+
  ultimately show ?thesis
    unfolding Let_def using t by (intro forbidden_operations_harmless) auto
qed


text \<open>
  A task file that does not decode as a task (its title is a number) is not in the list that the dependency
  check reads, but it is found by the update: the same task with a title that decodes is refused.
\<close>

lemma undecodable_task_not_gated:
  "fst (ClaimTask Some ''x'' ''t'' ''b'' (calm (one_task
     [(''depends_on'', JArr [JStr ''u'']), (''id'', JStr ''t''), (''title'', JStr ''1'')]))) \<noteq> Inr ()"
  "fst (ClaimTask Some ''x'' ''t'' ''b'' (calm (one_task
     [(''depends_on'', JArr [JStr ''u'']), (''id'', JStr ''t''), (''title'', JNum ''1'')]))) = Inr ()"
  by code_simp+

end
