(* ===== verification/Swarm_Team.thy ===== *)
theory Swarm_Team
  imports Swarm_Safety
begin

text \<open>
  The members of a team (\<^verbatim>\<open>internal/swarm/team.go\<close>): external agents are registered in and removed from
  the configuration file of another program, whose unknown fields stay.
\<close>

record Member =
  mbName :: string
  mbAgentID :: string
  mbAgentType :: string

record TeamConfig =
  tcName :: string
  tcLead :: string
  tcMembers :: "Member list"

definition ClaudeTeamsDir :: path where "ClaudeTeamsDir = [''teams'']"
definition TeamConfigDir :: "string \<Rightarrow> path" where "TeamConfigDir team = ClaudeTeamsDir @ [team]"
definition TeamConfigPath :: "string \<Rightarrow> path" where "TeamConfigPath team = TeamConfigDir team @ [''config.json'']"

section \<open>Reading\<close>

definition member_store :: "string \<Rightarrow> json \<Rightarrow> Member \<Rightarrow> Member option" where
  "member_store n v x =
     (if n = ''name'' then map_option (\<lambda>s. x\<lparr>mbName := s\<rparr>) (as_str v (mbName x))
      else if n = ''agent_id'' then map_option (\<lambda>s. x\<lparr>mbAgentID := s\<rparr>) (as_str v (mbAgentID x))
      else if n = ''agent_type'' then map_option (\<lambda>s. x\<lparr>mbAgentType := s\<rparr>) (as_str v (mbAgentType x))
      else Some x)"

definition member_zero :: Member where "member_zero = \<lparr>mbName = [], mbAgentID = [], mbAgentType = []\<rparr>"
definition member_fields :: "string list" where "member_fields = [''name'', ''agent_id'', ''agent_type'']"

fun member_elems :: "json list \<Rightarrow> Member list \<Rightarrow> Member list option" where
  "member_elems [] old = Some []"
| "member_elems (v # vs) old =
     (case dec_struct member_fields member_store (case old of [] \<Rightarrow> member_zero | x # _ \<Rightarrow> x) v of
        None \<Rightarrow> None
      | Some x \<Rightarrow> map_option (Cons x) (member_elems vs (drop 1 old)))"

definition team_store :: "string \<Rightarrow> json \<Rightarrow> TeamConfig \<Rightarrow> TeamConfig option" where
  "team_store n v x =
     (if n = ''name'' then map_option (\<lambda>s. x\<lparr>tcName := s\<rparr>) (as_str v (tcName x))
      else if n = ''lead'' then map_option (\<lambda>s. x\<lparr>tcLead := s\<rparr>) (as_str v (tcLead x))
      else if n = ''members'' then
        (case v of
           JNull \<Rightarrow> Some (x\<lparr>tcMembers := []\<rparr>)
         | JArr vs \<Rightarrow> map_option (\<lambda>ms. x\<lparr>tcMembers := ms\<rparr>) (member_elems vs (tcMembers x))
         | _ \<Rightarrow> None)
      else Some x)"

definition unmarshalTeam :: "bytes \<Rightarrow> TeamConfig option" where
  "unmarshalTeam data =
     Option.bind (parse_json data)
       (dec_struct [''name'', ''lead'', ''members''] team_store \<lparr>tcName = [], tcLead = [], tcMembers = []\<rparr>)"

definition LoadTeam :: "string \<Rightarrow> (goerr + TeamConfig) io" where
  "LoadTeam name =
     on_err (os_ReadFile (TeamConfigPath name)) (\<lambda>e. fail (Wrap ''read team config'' e)) (\<lambda>data.
     case unmarshalTeam data of
       None \<Rightarrow> fail (Msg ''parse team config'')
     | Some cfg \<Rightarrow> ok (if tcName cfg = [] then cfg\<lparr>tcName := name\<rparr> else cfg))"

definition FindMember :: "TeamConfig \<Rightarrow> string \<Rightarrow> Member option" where
  "FindMember tc agentID = find (\<lambda>x. mbAgentID x = agentID) (tcMembers tc)"

definition FindMemberByName :: "TeamConfig \<Rightarrow> string \<Rightarrow> Member option" where
  "FindMemberByName tc name = find (\<lambda>x. mbName x = name) (tcMembers tc)"

record TeamSummary =
  sumName :: string
  sumMemberCount :: nat
  sumConfigPath :: path

fun summaries :: "(string \<times> node) list \<Rightarrow> TeamSummary list io" where
  "summaries [] = ret []"
| "summaries ((name, n) # entries) =
     (if \<not> isDir n \<or> hasPrefix name ''.'' then summaries entries
      else bind (LoadTeam name) (\<lambda>r. bind (summaries entries) (\<lambda>rest.
        ret (\<lparr>sumName = name, sumMemberCount = (case r of Inl _ \<Rightarrow> 0 | Inr cfg \<Rightarrow> length (tcMembers cfg)),
              sumConfigPath = TeamConfigPath name\<rparr> # rest))))"

definition DiscoverTeams :: "(goerr + TeamSummary list) io" where
  "DiscoverTeams =
     on_err (os_ReadDir ClaudeTeamsDir)
       (\<lambda>e. if osIsNotExist e then ok [] else fail (Wrap ''read teams directory'' e))
       (\<lambda>entries. bind (summaries entries) ok)"

section \<open>Changing\<close>

definition readTeamConfigRaw :: "(string \<Rightarrow> string option) \<Rightarrow> string \<Rightarrow> (goerr + raw option) io" where
  "readTeamConfigRaw float_text teamName =
     on_err (os_ReadFile (TeamConfigPath teamName)) (\<lambda>e. fail (Wrap ''read team config'' e)) (\<lambda>data.
     case unmarshalMap float_text data of None \<Rightarrow> fail (Msg ''parse team config'') | Some m \<Rightarrow> ok m)"

definition members_of :: "raw \<Rightarrow> json list" where
  "members_of m = (case map_of m ''members'' of Some (JArr xs) \<Rightarrow> xs | _ \<Rightarrow> [])"

definition has_id :: "string \<Rightarrow> json \<Rightarrow> bool" where
  "has_id i item = (case item of JObj x \<Rightarrow> str_at ''agent_id'' x = i | _ \<Rightarrow> False)"

definition member_raw :: "Member \<Rightarrow> raw" where
  "member_raw x = [(''agent_id'', JStr (mbAgentID x)), (''agent_type'', JStr (mbAgentType x)), (''name'', JStr (mbName x))]"

definition add_member :: "Member \<Rightarrow> raw \<Rightarrow> goerr + raw" where
  "add_member x m =
     (if list_ex (has_id (mbAgentID x)) (members_of m) then Inl (Msg ''member already registered'')
      else Inr (put_key ''members'' (JArr (members_of m @ [JObj (member_raw x)])) m))"

definition drop_member :: "string \<Rightarrow> raw \<Rightarrow> goerr + raw" where
  "drop_member i m =
     (if \<not> list_ex (has_id i) (members_of m) then Inl (Msg ''member not found in team'')
      else Inr (put_key ''members'' (JArr (filter (\<lambda>item. \<not> has_id i item) (members_of m))) m))"

text \<open>
  Both changes: read, change and write under the lock. A file that holds \<^verbatim>\<open>null\<close> gives a \<^verbatim>\<open>nil\<close> map, in
  which the assignment panics.
\<close>

definition change_team ::
    "(string \<Rightarrow> string option) \<Rightarrow> string \<Rightarrow> (raw \<Rightarrow> goerr + raw) \<Rightarrow> (goerr + unit) io" where
  "change_team float_text teamName change =
     WithExclusiveFileLock (TeamConfigDir teamName @ [''config.json.lock''])
       (guard (readTeamConfigRaw float_text teamName) (\<lambda>r.
        case change (case r of None \<Rightarrow> [] | Some m \<Rightarrow> m) of
          Inl e \<Rightarrow> fail e
        | Inr m' \<Rightarrow> (case r of None \<Rightarrow> fail nil_map | Some _ \<Rightarrow> atomicWriteJSON (TeamConfigPath teamName) m')))"

definition RegisterMember :: "(string \<Rightarrow> string option) \<Rightarrow> string \<Rightarrow> Member \<Rightarrow> (goerr + unit) io" where
  "RegisterMember float_text teamName member = change_team float_text teamName (add_member member)"

definition UnregisterMember :: "(string \<Rightarrow> string option) \<Rightarrow> string \<Rightarrow> string \<Rightarrow> (goerr + unit) io" where
  "UnregisterMember float_text teamName agentID = change_team float_text teamName (drop_member agentID)"

text \<open>
  The identifier of an external agent: when the random source fails the low 32 bits of the clock stand in,
  least significant byte first.
\<close>

definition agent_stamp :: "nat \<Rightarrow> string" where
  "agent_stamp ns =
     (let secs = int ns div 1000000000; (y, m, d) = civil_from_days (secs div 86400); r = secs mod 86400 in
      pad_num 4 y @ pad_num 2 m @ pad_num 2 d @ ''T'' @ pad_num 2 (r div 3600) @ pad_num 2 (r div 60 mod 60) @ pad_num 2 (r mod 60))"

definition clock_bytes :: "nat \<Rightarrow> bytes" where
  "clock_bytes ns = map (\<lambda>i. char_of (ns div 256 ^ i mod 256)) [0..<4]"

definition NewExternalAgentID :: "string \<Rightarrow> string io" where
  "NewExternalAgentID handle =
     bind get_now (\<lambda>now. bind get_pid (\<lambda>pid. bind (read_random 4) (\<lambda>rnd.
     ret (''ext_'' @ handle @ ''_'' @ agent_stamp now @ ''_'' @ pad_num 9 (int (now mod 1000000000)) @ ''_pid'' @ nat_str pid @ ''_''
       @ toLower (hex_str (case rnd of Inl _ \<Rightarrow> clock_bytes now | Inr b \<Rightarrow> b))))))"

section \<open>Members stay distinct\<close>

definition item_ids :: "json \<Rightarrow> string list" where
  "item_ids item = (case item of JObj x \<Rightarrow> [str_at ''agent_id'' x] | _ \<Rightarrow> [])"

definition member_ids :: "raw \<Rightarrow> string list" where
  "member_ids m = concat (map item_ids (members_of m))"

datatype team_op = Register Member | Unregister string

fun team_change :: "team_op \<Rightarrow> raw \<Rightarrow> goerr + raw" where
  "team_change (Register x) = add_member x"
| "team_change (Unregister i) = drop_member i"

fun team_exec :: "(string \<Rightarrow> string option) \<Rightarrow> string \<Rightarrow> team_op \<Rightarrow> (goerr + unit) io" where
  "team_exec float_text team (Register x) = RegisterMember float_text team x"
| "team_exec float_text team (Unregister i) = UnregisterMember float_text team i"

lemma has_id_item: "has_id i item \<longleftrightarrow> i \<in> set (item_ids item)"
  by (cases item) (auto simp: has_id_def item_ids_def)

lemma has_id_ids: "list_ex (has_id i) (members_of m) \<longleftrightarrow> i \<in> set (member_ids m)"
  by (auto simp: list_ex_iff has_id_item member_ids_def)

lemma members_of_put [simp]: "members_of (put_key ''members'' (JArr xs) m) = xs"
  by (simp add: members_of_def)

lemma add_member_Inr:
  "add_member x m = Inr m' \<longleftrightarrow> mbAgentID x \<notin> set (member_ids m) \<and>
     m' = put_key ''members'' (JArr (members_of m @ [JObj (member_raw x)])) m"
  by (auto simp: add_member_def has_id_ids)

lemma add_member_ids: "add_member x m = Inr m' \<Longrightarrow> member_ids m' = member_ids m @ [mbAgentID x] \<and> mbAgentID x \<notin> set (member_ids m)"
  by (auto simp: add_member_Inr member_ids_def member_raw_def str_at_def item_ids_def [of "JObj x" for x])

lemma drop_member_Inr:
  "drop_member i m = Inr m' \<longleftrightarrow> i \<in> set (member_ids m) \<and>
     m' = put_key ''members'' (JArr (filter (\<lambda>item. \<not> has_id i item) (members_of m))) m"
  by (auto simp: drop_member_def has_id_ids)

lemma drop_member_ids: "drop_member i m = Inr m' \<Longrightarrow> member_ids m' = filter (\<lambda>j. j \<noteq> i) (member_ids m) \<and> i \<in> set (member_ids m)"
proof -
  have "filter (\<lambda>j. j \<noteq> i) (item_ids item) = (if has_id i item then [] else item_ids item)" for item
    by (cases item) (auto simp: has_id_def item_ids_def)
  then have "concat (map item_ids (filter (\<lambda>item. \<not> has_id i item) xs)) = filter (\<lambda>j. j \<noteq> i) (concat (map item_ids xs))" for xs
    by (induction xs) simp_all
  then show "drop_member i m = Inr m' \<Longrightarrow> ?thesis"
    by (simp add: drop_member_Inr member_ids_def)
qed

text \<open>One change of the members, as the list of their identifiers shows it.\<close>

definition team_step :: "team_op \<Rightarrow> raw \<Rightarrow> raw \<Rightarrow> bool" where
  "team_step op m m' \<longleftrightarrow>
     (case op of
        Register x \<Rightarrow> mbAgentID x \<notin> set (member_ids m) \<and> member_ids m' = member_ids m @ [mbAgentID x]
      | Unregister i \<Rightarrow> i \<in> set (member_ids m) \<and> member_ids m' = filter (\<lambda>j. j \<noteq> i) (member_ids m)) \<and>
     (\<forall>k. k \<noteq> ''members'' \<longrightarrow> map_of m' k = map_of m k)"

lemma team_change_step: "team_change op m = Inr m' \<Longrightarrow> team_step op m m'"
proof (cases op)
  case (Register x)
  then show "team_change op m = Inr m' \<Longrightarrow> ?thesis"
    using add_member_ids [of x m m'] by (auto simp: team_step_def add_member_Inr)
next
  case (Unregister i)
  then show "team_change op m = Inr m' \<Longrightarrow> ?thesis"
    using drop_member_ids [of i m m'] by (auto simp: team_step_def drop_member_Inr)
qed

lemma team_exec_edit:
  assumes "\<sigma> (TeamConfigPath team) = Some (Reg c)"
  shows "triple (agree {TeamConfigPath team} \<sigma>) (team_exec ft team op)
     (\<lambda>x f. case x of
        Inl _ \<Rightarrow> agree {TeamConfigPath team} \<sigma> f
      | Inr _ \<Rightarrow> \<exists>m m'. unmarshalMap ft c = Some (Some m) \<and> team_change op m = Inr m' \<and>
          agree {TeamConfigPath team} (\<sigma>(TeamConfigPath team \<mapsto> Reg (render m'))) f)" (is "triple ?P _ ?Q")
proof -
  let ?p = "TeamConfigPath team"
  have p: "?p = TeamConfigDir team @ [''config.json'']" by (simp add: TeamConfigPath_def)
  have rd: "triple ?P (os_ReadFile ?p) (\<lambda>x f. ?P f \<and> (\<forall>d. x = Inr d \<longrightarrow> \<sigma> ?p = Some (Reg d) \<or> d = []))"
    by (rule ReadFile_agree) (use assms in \<open>auto simp: no_links_def TeamConfigPath_def\<close>)
  have quit: "triple ?P (fail e) ?Q" for e by (rule triple_fail) simp
  have wr: "triple ?P (atomicWriteJSON ?p m') ?Q" if "unmarshalMap ft c = Some (Some m)" "team_change op m = Inr m'" for m m'
    unfolding p by (rule triple_post [OF atomicWriteJSON_agree]) (use that in \<open>auto simp: p split: sum.splits\<close>)
  have body: "triple ?P (guard (readTeamConfigRaw ft team) (\<lambda>r.
        case team_change op (case r of None \<Rightarrow> [] | Some m \<Rightarrow> m) of
          Inl e \<Rightarrow> fail e
        | Inr m' \<Rightarrow> (case r of None \<Rightarrow> fail nil_map | Some _ \<Rightarrow> atomicWriteJSON ?p m'))) ?Q"
  proof (rule triple_on_err [where R = "\<lambda>x f. ?P f \<and> (\<forall>r. x = Inr r \<longrightarrow> unmarshalMap ft c = Some r)"])
    show "triple ?P (readTeamConfigRaw ft team) (\<lambda>x f. ?P f \<and> (\<forall>r. x = Inr r \<longrightarrow> unmarshalMap ft c = Some r))"
      unfolding readTeamConfigRaw_def
      by (rule triple_on_err [OF rd]) (use assms in \<open>auto intro!: triple_fail triple_ok split: option.split simp: unmarshal_empty\<close>)
    fix r :: "raw option"
    show "triple (\<lambda>f. ?P f \<and> (\<forall>r'. Inr r = Inr r' \<longrightarrow> unmarshalMap ft c = Some r')) (
        case team_change op (case r of None \<Rightarrow> [] | Some m \<Rightarrow> m) of
          Inl e \<Rightarrow> fail e
        | Inr m' \<Rightarrow> (case r of None \<Rightarrow> fail nil_map | Some _ \<Rightarrow> atomicWriteJSON ?p m')) ?Q"
      by (rule triple_pure2, intro triple_case_sum triple_case_option quit; rule wr) auto
  qed (rule triple_fail, simp)
  have opn: "keeps ?P (sys_upd (open_create (TeamConfigDir team @ [''config.json.lock''])))"
    by (rule open_create_keeps) (simp add: p)
  have "triple ?P (change_team ft team (team_change op)) ?Q"
    unfolding change_team_def by (rule locked_triple [OF body opn]) simp
  then show ?thesis by (cases op) (simp_all add: RegisterMember_def UnregisterMember_def)
qed



definition empty_team :: fs where
  "empty_team = [([''teams''], Dir 448), ([''teams'', ''x''], Dir 448), ([''teams'', ''x'', ''config.json''], Reg ''{}'')]"


end
