(* ===== verification/Layout.thy ===== *)
theory Layout
  imports Frame Json
begin

text \<open>
  Inspection of the mailbox layout of a queue root (\<^verbatim>\<open>internal/fsq/layout.go\<close> with the Unix
  capabilities of \<^verbatim>\<open>layout_cap_unix.go\<close>): which directories of every configured or discovered mailbox
  exist, as real directories with mode 0700, and the validation of existing mailboxes built on it.

  A directory capability is the path it was opened at. A node's identity is its path and kind; the
  mode bits of nodes that are not directories, which the tree does not keep, are the parameter
  \<open>fmode\<close>. Closing a descriptor, whose result the code ignores, is left out, and so is the text of an
  error that the code appends to an issue.
\<close>

section \<open>Capabilities\<close>

datatype layoutNodeKind = layoutNodeOther | layoutNodeDirectory | layoutNodeRegular | layoutNodeSymlink

record layoutNodeInfo =
  ikind :: layoutNodeKind
  imode :: nat
  identity :: "path \<times> layoutNodeKind"

type_synonym modes = "path \<Rightarrow> nat"

fun unixLayoutKind :: "node \<Rightarrow> layoutNodeKind" where
  "unixLayoutKind (Dir _) = layoutNodeDirectory"
| "unixLayoutKind (Reg _) = layoutNodeRegular"
| "unixLayoutKind (Sym _) = layoutNodeSymlink"
| "unixLayoutKind Special = layoutNodeOther"

definition unixLayoutInfo :: "modes \<Rightarrow> path \<Rightarrow> node \<Rightarrow> layoutNodeInfo" where
  "unixLayoutInfo fmode p n =
     \<lparr>ikind = unixLayoutKind n, imode = (case n of Dir m \<Rightarrow> m | _ \<Rightarrow> fmode p), identity = (p, unixLayoutKind n)\<rparr>"

definition openLayoutRootCapability :: "(goerr + path) io" where
  "openLayoutRootCapability = guard (sys_query (stat [])) (\<lambda>_. ok [])"

definition lstatLayoutNode :: "modes \<Rightarrow> path \<Rightarrow> string \<Rightarrow> (goerr + layoutNodeInfo) io" where
  "lstatLayoutNode fmode parent name =
     guard (sys_query (lstat (parent @ [name]))) (\<lambda>n. ok (unixLayoutInfo fmode (parent @ [name]) n))"

definition sameLayoutNode :: "layoutNodeInfo \<Rightarrow> layoutNodeInfo \<Rightarrow> bool" where
  "sameLayoutNode left right \<longleftrightarrow> identity left = identity right"

text \<open>The error \<^verbatim>\<open>errLayoutIdentityChanged\<close>.\<close>

definition errLayoutIdentityChanged :: goerr where
  "errLayoutIdentityChanged = Msg ''layout component changed during inspection''"

text \<open>\<^verbatim>\<open>openat\<close> with \<^verbatim>\<open>O_NOFOLLOW\<close>, with \<^verbatim>\<open>O_DIRECTORY\<close> when \<open>dir\<close>.\<close>

definition openat :: "bool \<Rightarrow> path \<Rightarrow> fs \<Rightarrow> errno + node" where
  "openat dir p f =
     (case lstat p f of
        Inl e \<Rightarrow> Inl e
      | Inr (Sym t) \<Rightarrow> Inl ELOOP
      | Inr n \<Rightarrow> (if dir \<and> \<not> isDir n then Inl ENOTDIR else Inr n))"

definition openLayoutDirectory :: "modes \<Rightarrow> path \<Rightarrow> string \<Rightarrow> layoutNodeInfo \<Rightarrow> (goerr + path) io" where
  "openLayoutDirectory fmode parent name before =
     guard (sys_query (openat True (parent @ [name]))) (\<lambda>n.
     guard sys_noop (\<lambda>_.
     let after = unixLayoutInfo fmode (parent @ [name]) n in
     if ikind after \<noteq> layoutNodeDirectory \<or> \<not> sameLayoutNode before after
     then fail errLayoutIdentityChanged else ok (parent @ [name])))"

definition readDirNames :: "path \<Rightarrow> (goerr + string list) io" where
  "readDirNames cap = guard (sys_query (readdir cap)) (\<lambda>es. ok (sort (map fst es)))"

text \<open>\<^verbatim>\<open>mkdirat\<close>: never reuses a name.\<close>

definition mkdirat :: "path \<Rightarrow> nat \<Rightarrow> fs \<Rightarrow> errno + fs" where
  "mkdirat p perm f =
     (case walk f [] p of
        Some e \<Rightarrow> Inl e
      | None \<Rightarrow> (case node_at f p of Some _ \<Rightarrow> Inl EEXIST | None \<Rightarrow> Inr (put p (Dir perm) f)))"

definition mkdirLayoutDirectory :: "path \<Rightarrow> string \<Rightarrow> nat \<Rightarrow> (goerr + unit) io" where
  "mkdirLayoutDirectory parent name perm = sys_upd (mkdirat (parent @ [name]) perm)"

text \<open>\<^verbatim>\<open>fchmod\<close> and \<^verbatim>\<open>fstat\<close> on the descriptor of a directory.\<close>

definition fchmod :: "path \<Rightarrow> nat \<Rightarrow> fs \<Rightarrow> errno + fs" where
  "fchmod p perm f =
     (case node_at f p of Some (Dir _) \<Rightarrow> Inr (if p = [] then f else put p (Dir perm) f) | _ \<Rightarrow> Inl ENOENT)"

definition cap_chmod :: "path \<Rightarrow> nat \<Rightarrow> (goerr + unit) io" where
  "cap_chmod cap perm = sys_upd (fchmod cap perm)"

definition cap_mode :: "path \<Rightarrow> (goerr + nat) io" where
  "cap_mode cap = sys_query (\<lambda>f. case node_at f cap of Some (Dir m) \<Rightarrow> Inr m | _ \<Rightarrow> Inl ENOENT)"

definition cap_sync :: "path \<Rightarrow> (goerr + unit) io" where
  "cap_sync cap =
     on_err sys_noop (\<lambda>e. if e = Sys EINVAL \<or> e = Sys ENOTSUP then ok () else fail e) (\<lambda>_. ok ())"

definition layoutModeSupported :: "nat \<Rightarrow> bool" where
  "layoutModeSupported m \<longleftrightarrow> m = 448"

section \<open>States of mailbox paths\<close>

datatype MailboxProvenance = MailboxConfigured | MailboxDiscovered | MailboxConfiguredAndDiscovered

datatype MailboxPathState =
    MailboxPathDirectory | MailboxPathMissing | MailboxPathSymlink | MailboxPathNonDirectory
  | MailboxPathUnreadable | MailboxPathChangedDuringInspection

fun state_str :: "MailboxPathState \<Rightarrow> string" where
  "state_str MailboxPathDirectory = ''directory''"
| "state_str MailboxPathMissing = ''missing''"
| "state_str MailboxPathSymlink = ''symlink''"
| "state_str MailboxPathNonDirectory = ''non_directory''"
| "state_str MailboxPathUnreadable = ''unreadable''"
| "state_str MailboxPathChangedDuringInspection = ''changed_during_inspection''"

text \<open>A path below a mailbox is the list of its components; the mailbox itself is \<^verbatim>\<open>"."\<close>.\<close>

definition slash :: "path \<Rightarrow> string" where
  "slash p = (if p = [] then ''.'' else join ''/'' p)"

record MailboxPathInspection =
  piPath :: path
  piState :: MailboxPathState
  piMode :: string

record MailboxInspection =
  mbHandle :: string
  mbProvenance :: MailboxProvenance
  mbStatus :: string
  mbIssues :: "string list"
  mbPaths :: "MailboxPathInspection list"
  mbRepairEligible :: bool
  mbCreatedPaths :: "path list"

record MailboxInventory =
  Mailboxes :: "MailboxInspection list"
  ActiveConfigStatus :: string
  ActiveConfigIssue :: string
  ConfiguredAgents :: "string list"
  AgentsState :: "MailboxPathState option"
  AgentsIssue :: string
  RepairAuthorized :: bool

record mailboxLayoutNode =
  lstate :: MailboxPathState
  lmode :: nat
  linfo :: "layoutNodeInfo option"

record mailboxLayoutPlan =
  inventory :: MailboxInventory
  nodes :: "(path \<times> mailboxLayoutNode) list"

definition empty_inventory :: MailboxInventory where
  "empty_inventory = \<lparr>Mailboxes = [], ActiveConfigStatus = [], ActiveConfigIssue = [], ConfiguredAgents = [],
     AgentsState = None, AgentsIssue = [], RepairAuthorized = False\<rparr>"

text \<open>\<^verbatim>\<open>mailboxComponentPaths\<close>: the mailbox, every intermediate directory and every leaf, parents first.\<close>

fun add_missing :: "'a list \<Rightarrow> 'a list \<Rightarrow> 'a list" where
  "add_missing paths [] = paths"
| "add_missing paths (p # ps) = add_missing (if p \<in> set paths then paths else paths @ [p]) ps"

definition mailboxComponentPaths :: "path list" where
  "mailboxComponentPaths =
     foldl (\<lambda>paths leaf. let parts = leafPath leaf in
              add_missing paths (map (\<lambda>i. take (Suc i) parts) [0..<length parts])) [[]] requiredMailboxLeaves"

definition mailboxIssue :: "MailboxPathState \<Rightarrow> path \<Rightarrow> string" where
  "mailboxIssue state p = state_str state @ '':'' @ slash p"

definition bare_node :: "MailboxPathState \<Rightarrow> mailboxLayoutNode" where
  "bare_node s = \<lparr>lstate = s, lmode = 0, linfo = None\<rparr>"

definition seen_node :: "MailboxPathState \<Rightarrow> layoutNodeInfo \<Rightarrow> mailboxLayoutNode" where
  "seen_node s info = \<lparr>lstate = s, lmode = imode info, linfo = Some info\<rparr>"

definition inspectDirectoryComponent :: "modes \<Rightarrow> path \<Rightarrow> string \<Rightarrow> (mailboxLayoutNode \<times> path option) io" where
  "inspectDirectoryComponent fmode parent name =
     on_err (lstatLayoutNode fmode parent name)
       (\<lambda>e. ret (bare_node (if e = Sys ENOENT then MailboxPathMissing else MailboxPathUnreadable), None)) (\<lambda>info.
     case ikind info of
       layoutNodeSymlink \<Rightarrow> ret (seen_node MailboxPathSymlink info, None)
     | layoutNodeDirectory \<Rightarrow>
         on_err (openLayoutDirectory fmode parent name info)
           (\<lambda>e. ret (seen_node (if e = errLayoutIdentityChanged then MailboxPathChangedDuringInspection
                               else MailboxPathUnreadable) info, None))
           (\<lambda>child. ret (seen_node MailboxPathDirectory info, Some child))
     | _ \<Rightarrow> ret (seen_node MailboxPathNonDirectory info, None))"

section \<open>The active configuration\<close>

text \<open>\<^verbatim>\<open>readLayoutRegularFile\<close>: the content, or the state and that an error is returned.\<close>

definition readLayoutRegularFile :: "modes \<Rightarrow> path \<Rightarrow> string \<Rightarrow> (MailboxPathState + bytes) io" where
  "readLayoutRegularFile fmode parent name =
     on_err (lstatLayoutNode fmode parent name)
       (\<lambda>e. fail (if e = Sys ENOENT then MailboxPathMissing else MailboxPathUnreadable)) (\<lambda>before.
     if ikind before = layoutNodeSymlink then fail MailboxPathSymlink
     else if ikind before \<noteq> layoutNodeRegular then fail MailboxPathNonDirectory
     else
       on_err (sys_query (openat False (parent @ [name]))) (\<lambda>_. fail MailboxPathUnreadable) (\<lambda>n.
       on_err sys_noop (\<lambda>_. fail MailboxPathUnreadable) (\<lambda>_.
       let after = unixLayoutInfo fmode (parent @ [name]) n in
       if ikind after \<noteq> layoutNodeRegular \<or> \<not> sameLayoutNode before after
       then fail MailboxPathChangedDuringInspection
       else on_err (sys_query (\<lambda>_. read_bytes n)) (\<lambda>_. fail MailboxPathUnreadable) ok)))"

text \<open>\<^verbatim>\<open>mailboxActiveConfig\<close> is its roster.\<close>

definition parse_config :: "bytes \<Rightarrow> string list option" where
  "parse_config data =
     (case parse_json data of
        None \<Rightarrow> None
      | Some j \<Rightarrow>
          map_option (\<lambda>a. case a of None \<Rightarrow> [] | Some xs \<Rightarrow> xs)
            (dec_struct [''agents''] (\<lambda>_ v old. as_strs v old) None j))"

fun bad_handle :: "string list \<Rightarrow> string option" where
  "bad_handle [] = None"
| "bad_handle (h # hs) = (if ValidateHandle h = None then bad_handle hs else Some h)"

definition config_path :: path where "config_path = [''meta'', ''config.json'']"

definition readActiveMailboxConfig :: "modes \<Rightarrow> path \<Rightarrow> (string list \<times> string \<times> string) io" where
  "readActiveMailboxConfig fmode root =
     bind (inspectDirectoryComponent fmode root ''meta'') (\<lambda>(metaNode, meta).
     case meta of
       None \<Rightarrow> ret ([], state_str (lstate metaNode), mailboxIssue (lstate metaNode) [''meta''])
     | Some cap \<Rightarrow>
         on_err (readLayoutRegularFile fmode cap ''config.json'')
           (\<lambda>s. ret ([], state_str s, mailboxIssue s config_path)) (\<lambda>data.
         case parse_config data of
           None \<Rightarrow> ret ([], ''malformed'', ''malformed:meta/config.json'')
         | Some agents \<Rightarrow>
             (case bad_handle agents of
                Some h \<Rightarrow> ret (agents, ''invalid_handles'', ''invalid_handle:'' @ h)
              | None \<Rightarrow> ret (agents, ''ok'', []))))"

section \<open>Inspection of mailboxes\<close>

fun mailboxSeverity :: "MailboxProvenance \<Rightarrow> string" where
  "mailboxSeverity MailboxDiscovered = ''warn''"
| "mailboxSeverity _ = ''error''"

definition mailboxIssuesRepairable :: "string list \<Rightarrow> bool" where
  "mailboxIssuesRepairable issues \<longleftrightarrow> issues \<noteq> [] \<and> list_all (\<lambda>i. hasPrefix i ''missing:'') issues"

text \<open>\<^verbatim>\<open>fmt.Sprintf("%04o", m)\<close> of permission bits.\<close>

definition octal4 :: "nat \<Rightarrow> string" where
  "octal4 m = map digit [m div 512 mod 8, m div 64 mod 8, m div 8 mod 8, m mod 8]"

definition mailbox_path :: "string \<Rightarrow> path \<Rightarrow> path" where
  "mailbox_path h rel = [''agents'', h] @ rel"

text \<open>One component: its node and, when it was opened, its capability.\<close>

definition inspect_component ::
    "modes \<Rightarrow> MailboxPathState option \<Rightarrow> path option \<Rightarrow> (path \<times> mailboxLayoutNode) list \<Rightarrow> (path \<times> path) list \<Rightarrow> string \<Rightarrow> path \<Rightarrow>
     (mailboxLayoutNode \<times> path option) io" where
  "inspect_component fmode agentsState agentsCap ns caps h rel =
     (let parent = (if rel = [] then agentsCap else map_of caps (butlast rel));
          parentState = (if rel = [] then agentsState else map_option lstate (map_of ns (mailbox_path h (butlast rel)))) in
      case parent of
        Some cap \<Rightarrow> inspectDirectoryComponent fmode cap (last (h # rel))
      | None \<Rightarrow>
          ret (bare_node (if parentState = Some MailboxPathMissing then MailboxPathMissing else MailboxPathUnreadable), None))"

definition path_result :: "path \<Rightarrow> mailboxLayoutNode \<Rightarrow> MailboxPathInspection" where
  "path_result rel node =
     \<lparr>piPath = rel, piState = lstate node,
      piMode = (if lstate node \<noteq> MailboxPathMissing \<and> lmode node \<noteq> 0 then octal4 (lmode node) else [])\<rparr>"

definition component_issues :: "path \<Rightarrow> mailboxLayoutNode \<Rightarrow> string list" where
  "component_issues rel node =
     (if lstate node \<noteq> MailboxPathDirectory then [mailboxIssue (lstate node) rel]
      else if \<not> layoutModeSupported (lmode node) then [''permissive_mode:'' @ slash rel]
      else [])"

text \<open>The loop of \<^verbatim>\<open>inspectOneMailbox\<close>: the nodes of the plan and the issues and paths of the entry grow.\<close>

fun inspect_components ::
    "modes \<Rightarrow> MailboxPathState option \<Rightarrow> path option \<Rightarrow> string \<Rightarrow> path list \<Rightarrow> (path \<times> path) list \<Rightarrow>
     (path \<times> mailboxLayoutNode) list \<Rightarrow> MailboxInspection \<Rightarrow> ((path \<times> mailboxLayoutNode) list \<times> MailboxInspection) io" where
  "inspect_components fmode st cap h [] caps ns entry = ret (ns, entry)"
| "inspect_components fmode st cap h (rel # rels) caps ns entry =
     bind (inspect_component fmode st cap ns caps h rel) (\<lambda>(node, child).
     inspect_components fmode st cap h rels
       (case child of None \<Rightarrow> caps | Some c \<Rightarrow> (rel, c) # caps)
       ((mailbox_path h rel, node) # ns)
       (entry\<lparr>mbPaths := mbPaths entry @ [path_result rel node],
              mbIssues := mbIssues entry @ component_issues rel node\<rparr>))"

definition inspectOneMailbox ::
    "modes \<Rightarrow> MailboxPathState option \<Rightarrow> path option \<Rightarrow> string \<Rightarrow> (path \<times> mailboxLayoutNode) list \<Rightarrow> MailboxInspection \<Rightarrow>
     ((path \<times> mailboxLayoutNode) list \<times> MailboxInspection) io" where
  "inspectOneMailbox fmode st cap h ns entry =
     bind (inspect_components fmode st cap h mailboxComponentPaths [] ns entry) (\<lambda>(ns', e).
     ret (ns', e\<lparr>mbStatus := (if mbIssues e = [] then ''ok'' else mailboxSeverity (mbProvenance e))\<rparr>))"

definition mailbox_entry :: "string \<Rightarrow> string list \<Rightarrow> string list \<Rightarrow> MailboxInspection" where
  "mailbox_entry h configured discovered =
     \<lparr>mbHandle = h,
      mbProvenance = (if h \<in> set configured \<and> h \<in> set discovered then MailboxConfiguredAndDiscovered
                      else if h \<in> set configured then MailboxConfigured else MailboxDiscovered),
      mbStatus = [], mbIssues = [], mbPaths = [], mbRepairEligible = False, mbCreatedPaths = []\<rparr>"

fun inspect_handles ::
    "modes \<Rightarrow> MailboxPathState option \<Rightarrow> path option \<Rightarrow> string list \<Rightarrow> string list \<Rightarrow> bool \<Rightarrow> string list \<Rightarrow>
     (path \<times> mailboxLayoutNode) list \<Rightarrow> MailboxInspection list \<Rightarrow> ((path \<times> mailboxLayoutNode) list \<times> MailboxInspection list) io" where
  "inspect_handles fmode st cap configured discovered authorized [] ns done = ret (ns, done)"
| "inspect_handles fmode st cap configured discovered authorized (h # hs) ns done =
     (let entry = mailbox_entry h configured discovered in
      if ValidateHandle h \<noteq> None then
        inspect_handles fmode st cap configured discovered authorized hs ns
          (done @ [entry\<lparr>mbStatus := mailboxSeverity (mbProvenance entry), mbIssues := [''invalid_handle'']\<rparr>])
      else
        bind (inspectOneMailbox fmode st cap h ns entry) (\<lambda>(ns', e).
        inspect_handles fmode st cap configured discovered authorized hs ns'
          (done @ [e\<lparr>mbRepairEligible := (h \<in> set configured \<and> authorized \<and> mailboxIssuesRepairable (mbIssues e))\<rparr>])))"

definition discover :: "path option \<Rightarrow> (goerr + string list) io" where
  "discover agentsCap = (case agentsCap of None \<Rightarrow> ok [] | Some cap \<Rightarrow> readDirNames cap)"

definition inspectMailboxLayoutCapability ::
    "modes \<Rightarrow> path \<Rightarrow> string list \<Rightarrow> string \<Rightarrow> string \<Rightarrow> string list \<Rightarrow> mailboxLayoutPlan io" where
  "inspectMailboxLayoutCapability fmode rootCap cfg configStatus configIssue additional =
     bind (inspectDirectoryComponent fmode rootCap ''agents'') (\<lambda>(agentsNode, agentsCap).
     bind (discover agentsCap) (\<lambda>names.
     let unreadable = (case names of Inl _ \<Rightarrow> True | Inr _ \<Rightarrow> False);
         discovered = (case names of Inl _ \<Rightarrow> [] | Inr ns \<Rightarrow> ns);
         st = (if unreadable then MailboxPathUnreadable else lstate agentsNode);
         inv = \<lparr>Mailboxes = [], ActiveConfigStatus = configStatus, ActiveConfigIssue = configIssue,
                ConfiguredAgents = cfg, AgentsState = Some st,
                AgentsIssue = (if st \<noteq> MailboxPathDirectory \<and> st \<noteq> MailboxPathMissing
                               then mailboxIssue st [''agents''] else []),
                RepairAuthorized = (configStatus = ''ok'')\<rparr>;
         handles = sort (remdups (cfg @ discovered @ additional)) in
     bind (inspect_handles fmode (Some st) agentsCap cfg discovered (configStatus = ''ok'') handles
             [([''agents''], agentsNode)] []) (\<lambda>(ns, mailboxes).
     ret \<lparr>inventory = inv\<lparr>Mailboxes := mailboxes\<rparr>, nodes = ns\<rparr>)))"

definition inspectMailboxLayout :: "modes \<Rightarrow> droot \<Rightarrow> string list \<Rightarrow> (goerr + mailboxLayoutPlan) io" where
  "inspectMailboxLayout fmode r additional =
     guard (VerifyBase r) (\<lambda>_.
     guard openLayoutRootCapability (\<lambda>rootCap.
     bind (readActiveMailboxConfig fmode rootCap) (\<lambda>(cfg, status, issue).
     bind (inspectMailboxLayoutCapability fmode rootCap cfg status issue additional) ok)))"

definition inspectMailboxLayoutWithConfig :: "modes \<Rightarrow> droot \<Rightarrow> string list \<Rightarrow> string list \<Rightarrow> (goerr + mailboxLayoutPlan) io" where
  "inspectMailboxLayoutWithConfig fmode r cfg additional =
     guard (VerifyBase r) (\<lambda>_.
     guard openLayoutRootCapability (\<lambda>rootCap.
     bind (inspectMailboxLayoutCapability fmode rootCap cfg ''ok'' [] additional) ok))"

section \<open>Validation of existing mailboxes\<close>

definition by_handle :: "MailboxInspection list \<Rightarrow> string \<Rightarrow> MailboxInspection option" where
  "by_handle ms h = map_of (rev (map (\<lambda>m. (mbHandle m, m)) ms)) h"

fun incomplete :: "MailboxInspection list \<Rightarrow> string list \<Rightarrow> goerr option" where
  "incomplete ms [] = None"
| "incomplete ms (h # hs) =
     (case by_handle ms h of
        None \<Rightarrow> Some (Msg ''mailbox is incomplete: missing:.'')
      | Some m \<Rightarrow>
          (if mbIssues m \<noteq> [] then Some (Msg (''mailbox is incomplete: '' @ join '','' (mbIssues m)))
           else incomplete ms hs))"

definition ValidateExistingMailboxLayout :: "modes \<Rightarrow> droot \<Rightarrow> string list \<Rightarrow> (goerr + unit) io" where
  "ValidateExistingMailboxLayout fmode r handles =
     (case first_invalid handles of Some e \<Rightarrow> fail e | None \<Rightarrow>
      let unique = add_missing [] handles in
      guard (inspectMailboxLayout fmode r unique) (\<lambda>plan.
      case incomplete (Mailboxes (inventory plan)) unique of Some e \<Rightarrow> fail e | None \<Rightarrow> ok ()))"

section \<open>Inspection tells the truth\<close>

lemma components: "mailboxComponentPaths =
  [[], [''inbox''], [''inbox'', ''tmp''], [''inbox'', ''new''], [''inbox'', ''cur''], [''outbox''], [''outbox'', ''sent''],
   [''dlq''], [''dlq'', ''tmp''], [''dlq'', ''new''], [''dlq'', ''cur''], [''receipts'']]"
  by code_simp

lemma keeps_lstatLayoutNode [stable_rules]: "keeps P (lstatLayoutNode fm p n)"
  unfolding lstatLayoutNode_def by (intro stable_rules)

lemma keeps_openLayoutDirectory [stable_rules]: "keeps P (openLayoutDirectory fm p n b)"
  unfolding openLayoutDirectory_def by (intro stable_rules)

lemma keeps_readLayoutRegularFile [stable_rules]: "keeps P (readLayoutRegularFile fm p n)"
  unfolding readLayoutRegularFile_def by (intro stable_rules)

lemma keeps_openLayoutRootCapability [stable_rules]: "keeps P openLayoutRootCapability"
  unfolding openLayoutRootCapability_def by (intro stable_rules)

lemma keeps_case_kind [stable_rules]:
  "keeps P a \<Longrightarrow> keeps P b \<Longrightarrow> keeps P c \<Longrightarrow> keeps P d \<Longrightarrow>
   keeps P (case k of layoutNodeOther \<Rightarrow> a | layoutNodeDirectory \<Rightarrow> b | layoutNodeRegular \<Rightarrow> c | layoutNodeSymlink \<Rightarrow> d)"
  by (cases k) simp_all

lemma keeps_inspectDirectoryComponent [stable_rules]: "keeps P (inspectDirectoryComponent fm p n)"
  unfolding inspectDirectoryComponent_def by (intro stable_rules)

lemma keeps_readActiveMailboxConfig [stable_rules]: "keeps P (readActiveMailboxConfig fm c)"
  unfolding readActiveMailboxConfig_def by (intro stable_rules)

lemma keeps_discover [stable_rules]: "keeps P (discover c)"
  unfolding discover_def readDirNames_def by (intro stable_rules)

text \<open>What a node of the plan says of the tree \<open>g\<close>.\<close>

definition node_true :: "tree \<Rightarrow> path \<Rightarrow> mailboxLayoutNode \<Rightarrow> bool" where
  "node_true g p n \<longleftrightarrow> (lstate n = MailboxPathDirectory \<longrightarrow> g p = Some (Dir (lmode n)))"

lemma openLayoutDirectory_spec:
  "triple (\<lambda>f. map_of f = g) (openLayoutDirectory fm parent name i)
     (\<lambda>x f. map_of f = g \<and> (\<forall>c. x = Inr c \<longrightarrow> c = parent @ [name]))"
  unfolding openLayoutDirectory_def Let_def
  by (rule triple_on_err [OF keeps_triple [OF keeps_sys_query]], rule triple_fail, simp,
      rule triple_on_err [OF keeps_triple [OF keeps_sys_noop]])
     (auto intro!: triple_fail triple_ok)

lemma inspectDirectoryComponent_spec:
  "triple (\<lambda>f. map_of f = g) (inspectDirectoryComponent fm parent name)
     (\<lambda>x f. map_of f = g \<and> node_true g (parent @ [name]) (fst x) \<and> (\<forall>c. snd x = Some c \<longrightarrow> c = parent @ [name]))"
  (is "triple ?P _ ?Q")
proof -
  have look: "triple ?P (lstatLayoutNode fm parent name)
      (\<lambda>x f. ?P f \<and> (\<forall>i. x = Inr i \<longrightarrow> ikind i = layoutNodeDirectory \<longrightarrow> g (parent @ [name]) = Some (Dir (imode i))))"
    unfolding lstatLayoutNode_def
    by (rule triple_on_err [where R = "\<lambda>x f. ?P f \<and> (\<forall>n. x = Inr n \<longrightarrow> g (parent @ [name]) = Some n)"])
       (auto intro!: triple_sys_query triple_fail triple_ok simp: lstat_def unixLayoutInfo_def
          split: option.splits node.splits)
  show ?thesis
    unfolding inspectDirectoryComponent_def
  proof (rule triple_on_err [OF look])
    show "triple (\<lambda>f. ?P f \<and> (\<forall>i. Inl e = Inr i \<longrightarrow> ikind i = layoutNodeDirectory \<longrightarrow> g (parent @ [name]) = Some (Dir (imode i))))
        (ret (bare_node (if e = Sys ENOENT then MailboxPathMissing else MailboxPathUnreadable), None)) ?Q" for e
      by (rule triple_ret) (auto simp: bare_node_def node_true_def)
  next
    fix i
    show "triple (\<lambda>f. ?P f \<and> (\<forall>i'. Inr i = Inr i' \<longrightarrow> ikind i' = layoutNodeDirectory \<longrightarrow> g (parent @ [name]) = Some (Dir (imode i'))))
        (case ikind i of
       layoutNodeOther \<Rightarrow> ret (seen_node MailboxPathNonDirectory i, None)
     | layoutNodeDirectory \<Rightarrow>
         on_err (openLayoutDirectory fm parent name i)
           (\<lambda>e. ret (seen_node (if e = errLayoutIdentityChanged then MailboxPathChangedDuringInspection
                               else MailboxPathUnreadable) i, None))
           (\<lambda>child. ret (seen_node MailboxPathDirectory i, Some child))
     | layoutNodeRegular \<Rightarrow> ret (seen_node MailboxPathNonDirectory i, None)
     | layoutNodeSymlink \<Rightarrow> ret (seen_node MailboxPathSymlink i, None)) ?Q"
    proof (cases "ikind i")
      case layoutNodeDirectory
      show ?thesis
        unfolding layoutNodeDirectory layoutNodeKind.case
        by (rule triple_pure2, rule triple_on_err [OF openLayoutDirectory_spec])
           (auto intro!: triple_ret simp: seen_node_def node_true_def layoutNodeDirectory)
    qed (auto intro!: triple_ret simp: seen_node_def node_true_def)
  qed
qed

text \<open>What the entry \<open>e\<close> of a mailbox says of its component \<open>rel\<close>, found to be \<open>n\<close>.\<close>

definition told :: "tree \<Rightarrow> MailboxInspection \<Rightarrow> path \<Rightarrow> mailboxLayoutNode \<Rightarrow> bool" where
  "told g e rel n \<longleftrightarrow> node_true g (mailbox_path (mbHandle e) rel) n \<and> path_result rel n \<in> set (mbPaths e)
     \<and> set (component_issues rel n) \<subseteq> set (mbIssues e)"

lemma told_sound:
  "told g e rel n \<Longrightarrow> mbIssues e = [] \<Longrightarrow> g (mailbox_path (mbHandle e) rel) = Some (Dir 448)"
  by (auto simp: told_def node_true_def component_issues_def layoutModeSupported_def split: if_splits)

lemma inspect_component_spec:
  assumes "\<And>c. cap = Some c \<Longrightarrow> c = [''agents'']" and "\<forall>(rel, c) \<in> set caps. c = mailbox_path h rel"
  shows "triple (\<lambda>f. map_of f = g) (inspect_component fm st cap ns caps h rel)
     (\<lambda>x f. map_of f = g \<and> node_true g (mailbox_path h rel) (fst x) \<and> (\<forall>c. snd x = Some c \<longrightarrow> c = mailbox_path h rel))"
proof -
  have "c @ [last (h # rel)] = mailbox_path h rel"
    if "(if rel = [] then cap else map_of caps (butlast rel)) = Some c" for c
    using that assms by (cases rel rule: rev_cases) (auto simp: mailbox_path_def split: if_splits dest!: map_of_SomeD)
  then show ?thesis
    unfolding inspect_component_def Let_def
    by (cases "if rel = [] then cap else map_of caps (butlast rel)")
       (auto intro!: triple_ret triple_post [OF inspectDirectoryComponent_spec] simp: bare_node_def node_true_def)
qed

lemma told_mono:
  "told g e rel n \<Longrightarrow> mbHandle e' = mbHandle e \<Longrightarrow> set (mbPaths e) \<subseteq> set (mbPaths e') \<Longrightarrow>
   set (mbIssues e) \<subseteq> set (mbIssues e') \<Longrightarrow> told g e' rel n"
  by (auto simp: told_def)

text \<open>The components \<open>rels\<close> were added to the plan's nodes and to the entry.\<close>

definition inspected ::
    "tree \<Rightarrow> path list \<Rightarrow> (path \<times> mailboxLayoutNode) list \<times> MailboxInspection \<Rightarrow> (path \<times> mailboxLayoutNode) list \<times> MailboxInspection \<Rightarrow> bool" where
  "inspected g rels x y \<longleftrightarrow>
     mbHandle (snd y) = mbHandle (snd x) \<and> set (mbPaths (snd x)) \<subseteq> set (mbPaths (snd y)) \<and> set (mbIssues (snd x)) \<subseteq> set (mbIssues (snd y))
     \<and> (\<exists>new. fst y = new @ fst x \<and> fst ` set new = mailbox_path (mbHandle (snd x)) ` set rels
          \<and> (\<forall>(p, n) \<in> set new. \<exists>rel. p = mailbox_path (mbHandle (snd x)) rel \<and> told g (snd y) rel n))"

definition add_component :: "path \<Rightarrow> mailboxLayoutNode \<Rightarrow> (path \<times> mailboxLayoutNode) list \<times> MailboxInspection \<Rightarrow>
    (path \<times> mailboxLayoutNode) list \<times> MailboxInspection" where
  "add_component rel n x = ((mailbox_path (mbHandle (snd x)) rel, n) # fst x,
     (snd x)\<lparr>mbPaths := mbPaths (snd x) @ [path_result rel n], mbIssues := mbIssues (snd x) @ component_issues rel n\<rparr>)"

lemma inspected_Cons:
  assumes "node_true g (mailbox_path (mbHandle (snd x)) rel) n" and "inspected g rels (add_component rel n x) y"
  shows "inspected g (rel # rels) x y"
proof -
  from assms(2) obtain new where y: "mbHandle (snd y) = mbHandle (snd x)"
      "set (mbPaths (snd x) @ [path_result rel n]) \<subseteq> set (mbPaths (snd y))"
      "set (mbIssues (snd x) @ component_issues rel n) \<subseteq> set (mbIssues (snd y))"
    and new: "fst y = new @ (mailbox_path (mbHandle (snd x)) rel, n) # fst x" "fst ` set new = mailbox_path (mbHandle (snd x)) ` set rels"
      "\<forall>(p, n) \<in> set new. \<exists>rel. p = mailbox_path (mbHandle (snd x)) rel \<and> told g (snd y) rel n"
    by (auto simp: inspected_def add_component_def)
  have "told g (snd y) rel n" using assms(1) y by (auto simp: told_def)
  then show ?thesis
    unfolding inspected_def using y new
    by (intro conjI exI [of _ "new @ [(mailbox_path (mbHandle (snd x)) rel, n)]"]) auto
qed

lemma inspect_components_spec:
  assumes "\<And>c. cap = Some c \<Longrightarrow> c = [''agents'']" and "\<forall>(rel, c) \<in> set caps. c = mailbox_path (mbHandle e) rel"
  shows "triple (\<lambda>f. map_of f = g) (inspect_components fm st cap (mbHandle e) rels caps ns e)
     (\<lambda>y f. map_of f = g \<and> inspected g rels (ns, e) y)"
  using assms(2)
proof (induction rels arbitrary: caps ns e)
  case Nil
  show ?case by (auto intro!: triple_ret simp: inspected_def)
next
  case (Cons rel rels)
  show ?case
    unfolding inspect_components.simps
  proof (rule triple_bind [OF inspect_component_spec [OF assms(1) Cons.prems]], simp_all only: case_prod_beta, rule triple_pure2)
    fix x :: "mailboxLayoutNode \<times> path option"
    assume nc: "node_true g (mailbox_path (mbHandle e) rel) (fst x) \<and> (\<forall>c. snd x = Some c \<longrightarrow> c = mailbox_path (mbHandle e) rel)"
    let ?y = "add_component rel (fst x) (ns, e)"
    have "\<forall>(rel, c) \<in> set (case snd x of None \<Rightarrow> caps | Some c \<Rightarrow> (rel, c) # caps). c = mailbox_path (mbHandle (snd ?y)) rel"
      using Cons.prems nc by (auto simp: add_component_def split: option.splits)
    from Cons.IH [OF this, where ns = "fst ?y"]
    show "triple (\<lambda>f. map_of f = g)
        (inspect_components fm st cap (mbHandle e) rels (case snd x of None \<Rightarrow> caps | Some c \<Rightarrow> (rel, c) # caps)
          ((mailbox_path (mbHandle e) rel, fst x) # ns)
          (e\<lparr>mbPaths := mbPaths e @ [path_result rel (fst x)], mbIssues := mbIssues e @ component_issues rel (fst x)\<rparr>))
        (\<lambda>y f. map_of f = g \<and> inspected g (rel # rels) (ns, e) y)"
      using nc by (auto simp: add_component_def elim!: triple_post intro!: inspected_Cons [of _ "(ns, e)"])
  qed
qed

lemma inspectOneMailbox_spec:
  assumes "\<And>c. cap = Some c \<Longrightarrow> c = [''agents'']"
  shows "triple (\<lambda>f. map_of f = g) (inspectOneMailbox fm st cap (mbHandle e) ns e)
     (\<lambda>y f. map_of f = g \<and> inspected g mailboxComponentPaths (ns, e) y)"
proof -
  have "triple (\<lambda>f. map_of f = g) (inspect_components fm st cap (mbHandle e) mailboxComponentPaths [] ns e)
     (\<lambda>y f. map_of f = g \<and> inspected g mailboxComponentPaths (ns, e) y)"
    by (rule inspect_components_spec [OF assms]) simp_all
  then show ?thesis
    unfolding inspectOneMailbox_def
    by (rule triple_bind) (auto intro!: triple_ret simp: inspected_def told_def)
qed

text \<open>
  The plan has one entry per handle, and every node of a mailbox's component is in the tree as its
  entry says; every valid handle has a node for each component.
\<close>

definition node_told :: "tree \<Rightarrow> MailboxInspection list \<Rightarrow> path \<Rightarrow> mailboxLayoutNode \<Rightarrow> bool" where
  "node_told g ms p n \<longleftrightarrow> (\<exists>e \<in> set ms. \<exists>rel. p = mailbox_path (mbHandle e) rel \<and> told g e rel n)"

definition plan_true :: "tree \<Rightarrow> string list \<Rightarrow> (path \<times> mailboxLayoutNode) list \<Rightarrow> MailboxInspection list \<Rightarrow> bool" where
  "plan_true g hs ns ms \<longleftrightarrow>
     map mbHandle ms = hs
     \<and> (\<forall>p n. (p, n) \<in> set ns \<longrightarrow> p \<noteq> [''agents''] \<longrightarrow> node_told g ms p n)
     \<and> (\<forall>e \<in> set ms. if ValidateHandle (mbHandle e) = None
          then \<forall>rel \<in> set mailboxComponentPaths. mailbox_path (mbHandle e) rel \<in> fst ` set ns
          else mbIssues e = [''invalid_handle''])"

lemma node_told_append: "node_told g (ms @ ms') p n \<longleftrightarrow> node_told g ms p n \<or> node_told g ms' p n"
  by (auto simp: node_told_def)

lemma plan_true_add_invalid:
  assumes "plan_true g hs ns ms" and "mbHandle e = h" and "ValidateHandle h \<noteq> None" and "mbIssues e = [''invalid_handle'']"
  shows "plan_true g (hs @ [h]) ns (ms @ [e])"
  using assms by (auto simp: plan_true_def node_told_append)

lemma plan_true_add:
  assumes "plan_true g hs ns ms" and y: "inspected g mailboxComponentPaths (ns, e) y" and "ValidateHandle (mbHandle e) = None"
    and e': "e' = (snd y)\<lparr>mbRepairEligible := b\<rparr>"
  shows "plan_true g (hs @ [mbHandle e]) (fst y) (ms @ [e'])"
proof -
  from y obtain new where h: "mbHandle e' = mbHandle e" and n: "fst y = new @ ns"
      "fst ` set new = mailbox_path (mbHandle e) ` set mailboxComponentPaths"
      "\<forall>(p, n) \<in> set new. \<exists>rel. p = mailbox_path (mbHandle e) rel \<and> told g (snd y) rel n"
    by (auto simp: inspected_def e')
  have t: "told g (snd y) rel m \<Longrightarrow> told g e' rel m" for rel m by (simp add: told_def e')
  have old: "node_told g (ms @ [e']) p m" if "(p, m) \<in> set ns" "p \<noteq> [''agents'']" for p m
    using that assms(1) by (auto simp: plan_true_def node_told_append)
  have young: "node_told g (ms @ [e']) p m" if "(p, m) \<in> set new" for p m
    using that n(3) t h unfolding node_told_def by fastforce
  show ?thesis
    unfolding plan_true_def
  proof (intro conjI)
    show "map mbHandle (ms @ [e']) = hs @ [mbHandle e]" using assms(1) h by (simp add: plan_true_def)
    show "\<forall>p m. (p, m) \<in> set (fst y) \<longrightarrow> p \<noteq> [''agents''] \<longrightarrow> node_told g (ms @ [e']) p m"
      using old young n(1) by auto
    have "\<forall>rel \<in> set mailboxComponentPaths. mailbox_path (mbHandle e') rel \<in> fst ` set (fst y)"
      using n h by (auto simp: image_Un)
    moreover have "if ValidateHandle (mbHandle e1) = None
          then \<forall>rel \<in> set mailboxComponentPaths. mailbox_path (mbHandle e1) rel \<in> fst ` set (fst y)
          else mbIssues e1 = [''invalid_handle'']" if "e1 \<in> set ms" for e1
      using that assms(1) n(1) by (auto simp: plan_true_def image_Un)
    ultimately show "\<forall>e \<in> set (ms @ [e']). if ValidateHandle (mbHandle e) = None
          then \<forall>rel \<in> set mailboxComponentPaths. mailbox_path (mbHandle e) rel \<in> fst ` set (fst y)
          else mbIssues e = [''invalid_handle'']"
      using assms(3) h by auto
  qed
qed

lemma inspect_handles_spec:
  assumes "\<And>c. cap = Some c \<Longrightarrow> c = [''agents'']" and "plan_true g hs0 ns ms"
  shows "triple (\<lambda>f. map_of f = g) (inspect_handles fm st cap cfg disc auth hs ns ms)
     (\<lambda>y f. map_of f = g \<and> plan_true g (hs0 @ hs) (fst y) (snd y))"
  using assms(2)
proof (induction hs arbitrary: hs0 ns ms)
  case Nil
  then show ?case by (auto intro!: triple_ret)
next
  case (Cons h hs)
  let ?e = "mailbox_entry h cfg disc"
  have h: "mbHandle ?e = h" by (simp add: mailbox_entry_def)
  show ?case
  proof (cases "ValidateHandle h")
    case None
    note one = inspectOneMailbox_spec [OF assms(1), where e = ?e and ns = ns, unfolded h]
    show ?thesis
      unfolding inspect_handles.simps Let_def None simp_thms if_False
    proof (rule triple_bind [OF one], simp_all only: case_prod_beta, rule triple_pure2)
      fix y :: "(path \<times> mailboxLayoutNode) list \<times> MailboxInspection"
      assume y: "inspected g mailboxComponentPaths (ns, ?e) y"
      note plan_true_add [OF Cons.prems y _ refl, unfolded h, OF None]
      from Cons.IH [OF this]
      show "triple (\<lambda>f. map_of f = g)
        (inspect_handles fm st cap cfg disc auth hs (fst y)
          (ms @ [snd y\<lparr>mbRepairEligible := h \<in> set cfg \<and> auth \<and> mailboxIssuesRepairable (mbIssues (snd y))\<rparr>]))
        (\<lambda>y f. map_of f = g \<and> plan_true g (hs0 @ h # hs) (fst y) (snd y))"
        by simp
    qed
  next
    case (Some err)
    have "plan_true g (hs0 @ [h]) ns (ms @ [?e\<lparr>mbStatus := mailboxSeverity (mbProvenance ?e), mbIssues := [''invalid_handle'']\<rparr>])"
      by (rule plan_true_add_invalid [OF Cons.prems]) (simp_all add: h Some)
    from Cons.IH [OF this] show ?thesis by (simp add: Some Let_def)
  qed
qed

lemma inspectMailboxLayoutCapability_spec:
  "triple (\<lambda>f. map_of f = g) (inspectMailboxLayoutCapability fm [] cfg cs ci extra)
     (\<lambda>plan f. map_of f = g \<and> ConfiguredAgents (inventory plan) = cfg \<and> (\<exists>hs. set cfg \<union> set extra \<subseteq> set hs \<and> distinct hs
        \<and> plan_true g hs (nodes plan) (Mailboxes (inventory plan))))"
  (is "triple ?P _ ?Q")
  unfolding inspectMailboxLayoutCapability_def
  apply (rule triple_bind [OF inspectDirectoryComponent_spec], simp_all only: case_prod_beta, rule triple_pure2)
  subgoal premises prems for x
  proof -
    from prems have cap: "\<And>c. snd x = Some c \<Longrightarrow> c = [''agents'']" by simp
    have start: "plan_true g [] [([''agents''], fst x)] []" by (simp add: plan_true_def)
    have cover: "\<exists>hs. set cfg \<subseteq> set hs \<and> set extra \<subseteq> set hs \<and> distinct hs \<and> plan_true g hs ns ms"
      if "plan_true g (sort (remdups (cfg @ d @ extra))) ns ms" for d ns ms
      using that by (intro exI [of _ "sort (remdups (cfg @ d @ extra))"]) auto
    show ?thesis
      unfolding Let_def
      by (rule triple_bind [OF keeps_triple [OF keeps_discover]], rule triple_bind [OF inspect_handles_spec [OF cap start]], assumption)
         (simp only: case_prod_beta, rule triple_ret, simp, rule cover, erule conjunct2)
  qed
  done

lemma openLayoutRootCapability_spec:
  "triple (\<lambda>f. map_of f = g) openLayoutRootCapability (\<lambda>x f. map_of f = g \<and> (\<forall>c. x = Inr c \<longrightarrow> c = []))"
  unfolding openLayoutRootCapability_def
  by (rule triple_on_err [OF keeps_triple [OF keeps_sys_query]]) (auto intro!: triple_fail triple_ok)

lemma inspectMailboxLayout_spec:
  "triple (\<lambda>f. map_of f = g) (inspectMailboxLayout fm r extra)
     (\<lambda>x f. map_of f = g \<and> (\<forall>plan. x = Inr plan \<longrightarrow> (\<exists>hs. set extra \<subseteq> set hs \<and> distinct hs
        \<and> plan_true g hs (nodes plan) (Mailboxes (inventory plan)))))"
  unfolding inspectMailboxLayout_def
  apply (rule triple_on_err [OF keeps_triple [OF keeps_VerifyBase]], rule triple_fail, simp)
  apply (rule triple_on_err [OF openLayoutRootCapability_spec], rule triple_fail, simp)
  apply (rule triple_pure2, simp)
  apply (rule triple_bind [OF keeps_triple [OF keeps_readActiveMailboxConfig]], simp only: case_prod_beta)
  apply (rule triple_bind [OF inspectMailboxLayoutCapability_spec], rule triple_ok, auto)
  done

lemma inspectMailboxLayoutWithConfig_spec:
  "triple (\<lambda>f. map_of f = g) (inspectMailboxLayoutWithConfig fm r cfg extra)
     (\<lambda>x f. map_of f = g \<and> (\<forall>plan. x = Inr plan \<longrightarrow> ConfiguredAgents (inventory plan) = cfg \<and> (\<exists>hs. set cfg \<union> set extra \<subseteq> set hs \<and> distinct hs
        \<and> plan_true g hs (nodes plan) (Mailboxes (inventory plan)))))"
  unfolding inspectMailboxLayoutWithConfig_def
  apply (rule triple_on_err [OF keeps_triple [OF keeps_VerifyBase]], rule triple_fail, simp)
  apply (rule triple_on_err [OF openLayoutRootCapability_spec], rule triple_fail, simp)
  apply (rule triple_pure2, simp)
  apply (rule triple_bind [OF inspectMailboxLayoutCapability_spec], rule triple_ok, auto)
  done

section \<open>A mailbox that validates is complete\<close>

lemma plan_true_entry:
  assumes p: "plan_true g hs ns ms" and "distinct hs" and e: "e \<in> set ms" "mbIssues e = []" and rel: "rel \<in> set mailboxComponentPaths"
  shows "g (mailbox_path (mbHandle e) rel) = Some (Dir 448)"
proof -
  have "ValidateHandle (mbHandle e) = None" using p e by (auto simp: plan_true_def split: if_splits)
  then have "mailbox_path (mbHandle e) rel \<in> fst ` set ns" using p e rel by (simp add: plan_true_def)
  then obtain n where "(mailbox_path (mbHandle e) rel, n) \<in> set ns" by auto
  moreover have "mailbox_path (mbHandle e) rel \<noteq> [''agents'']" by (simp add: mailbox_path_def)
  ultimately obtain e' rel' where e': "e' \<in> set ms" "mailbox_path (mbHandle e) rel = mailbox_path (mbHandle e') rel'" "told g e' rel' n"
    using p unfolding plan_true_def node_told_def by blast
  then have "mbHandle e' = mbHandle e" and "rel' = rel" by (auto simp: mailbox_path_def)
  moreover have "distinct (map mbHandle ms)" using p assms(2) by (simp add: plan_true_def)
  ultimately have "e' = e" using e(1) e'(1) by (simp add: distinct_map inj_on_def)
  with e' e(2) \<open>rel' = rel\<close> told_sound show ?thesis by blast
qed

lemma incomplete_None:
  "incomplete ms hs = None \<Longrightarrow> h \<in> set hs \<Longrightarrow> \<exists>m \<in> set ms. mbHandle m = h \<and> mbIssues m = []"
  by (induction hs) (auto simp: by_handle_def split: option.splits if_splits dest!: map_of_SomeD)

lemma add_missing_set: "set (add_missing xs ys) = set xs \<union> set ys"
  by (induction xs ys rule: add_missing.induct) auto

lemma Validate_spec:
  "triple (\<lambda>f. map_of f = g) (ValidateExistingMailboxLayout fm r hs)
     (\<lambda>x f. map_of f = g \<and> (x = Inr () \<longrightarrow> (\<forall>h \<in> set hs. \<forall>rel \<in> set mailboxComponentPaths. g (mailbox_path h rel) = Some (Dir 448))))"
  (is "triple ?P _ ?Q")
proof (cases "first_invalid hs")
  case (Some e)
  then show ?thesis by (auto simp: ValidateExistingMailboxLayout_def intro!: triple_fail)
next
  case None
  have complete: "g (mailbox_path h rel) = Some (Dir 448)"
    if "incomplete ms (add_missing [] hs) = None" "h \<in> set hs" "distinct l" "plan_true g l ns ms" "rel \<in> set mailboxComponentPaths"
    for ms h l ns rel
    using incomplete_None [OF that(1), of h] that plan_true_entry [OF that(4,3)] by (auto simp: add_missing_set)
  have fin: "triple (\<lambda>f. ?P f \<and> (\<exists>l. set (add_missing [] hs) \<subseteq> set l \<and> distinct l
        \<and> plan_true g l (nodes plan) (Mailboxes (inventory plan))))
     (case incomplete (Mailboxes (inventory plan)) (add_missing [] hs) of Some e \<Rightarrow> fail e | None \<Rightarrow> ok ()) ?Q" for plan
    by (cases "incomplete (Mailboxes (inventory plan)) (add_missing [] hs)")
       (use complete in \<open>auto intro!: triple_fail triple_ok simp: add_missing_set\<close>)
  show ?thesis
    unfolding ValidateExistingMailboxLayout_def Let_def None option.case
    by (rule triple_on_err [OF inspectMailboxLayout_spec]) (auto intro!: triple_fail triple_pre [OF fin])
qed

end
