(* ===== verification/Layout_Repair.thy ===== *)
theory Layout_Repair
  imports Layout
begin

text \<open>
  Repair of the mailbox layout (\<^verbatim>\<open>internal/fsq/layout.go\<close>): under an authorization that pins the
  active configuration, the whole set of mailboxes is inspected, and only then are missing directories
  created, parents first. Creation stops at the first surprise and reports what it created.

  A pinned configuration file is the node that was opened; comparing nodes stands for
  \<^verbatim>\<open>os.SameFile\<close>. Hooks that only tests set are left out; the failure hook is kept, because the guarded
  variant of the repair uses it. The umask leaves the mode 0700 as it is. An issue has no text of errors.
\<close>

section \<open>Authorization\<close>

fun isErrNotExist :: "goerr \<Rightarrow> bool" where
  "isErrNotExist (Sys e) = (e = ENOENT)"
| "isErrNotExist ErrNotExist = True"
| "isErrNotExist (Wrap _ e) = isErrNotExist e"
| "isErrNotExist (WrapV _ e _) = isErrNotExist e"
| "isErrNotExist (Join a b) = (isErrNotExist a \<or> isErrNotExist b)"
| "isErrNotExist (CommittedDurability _ _ e) = isErrNotExist e"
| "isErrNotExist (DLQTransition _ _ e) = isErrNotExist e"
| "isErrNotExist (PartialDelivery _ _ _ e) = isErrNotExist e"
| "isErrNotExist _ = False"

record mailboxConfigPin =
  pinRoot :: droot
  pinFile :: node
  pinData :: bytes
  pinCfg :: "string list"

text \<open>The pin, or the status and the issue.\<close>

definition pinActiveMailboxConfig :: "droot \<Rightarrow> ((string \<times> string) + mailboxConfigPin) io" where
  "pinActiveMailboxConfig r =
     on_err (OpenRegularNoFollow r config_path)
       (\<lambda>e. let s = (if isErrNotExist e then MailboxPathMissing else MailboxPathUnreadable) in
            fail (state_str s, mailboxIssue s config_path)) (\<lambda>file.
     on_err (sys_query (\<lambda>_. read_bytes file))
       (\<lambda>_. fail (state_str MailboxPathUnreadable, mailboxIssue MailboxPathUnreadable config_path)) (\<lambda>data.
     case parse_config data of
       None \<Rightarrow> fail (''malformed'', ''malformed:meta/config.json'')
     | Some agents \<Rightarrow>
         (case bad_handle agents of
            Some h \<Rightarrow> fail (''invalid_handles'', ''invalid_handle:'' @ h)
          | None \<Rightarrow> ok \<lparr>pinRoot = r, pinFile = file, pinData = data, pinCfg = agents\<rparr>)))"

definition pin_verify :: "mailboxConfigPin \<Rightarrow> (goerr + unit) io" where
  "pin_verify p =
     guard (VerifyBase (pinRoot p)) (\<lambda>_.
     on_err sys_noop (\<lambda>_. fail (Msg ''mailbox config descriptor identity changed'')) (\<lambda>_.
     on_err sys_noop (\<lambda>e. fail (Wrap ''rewind mailbox config descriptor'' e)) (\<lambda>_.
     on_err (sys_query (\<lambda>_. read_bytes (pinFile p))) (\<lambda>e. fail (Wrap ''re-read mailbox config descriptor'' e)) (\<lambda>pinned.
     if pinned \<noteq> pinData p then fail (Msg ''mailbox config content changed'')
     else
       on_err (OpenRegularNoFollow (pinRoot p) config_path) (\<lambda>e. fail (Wrap ''re-open mailbox config'' e)) (\<lambda>current.
       if pinFile p \<noteq> current then fail (Msg ''mailbox config path identity changed'')
       else
         on_err (sys_query (\<lambda>_. read_bytes current)) (\<lambda>e. fail (Wrap ''re-read current mailbox config'' e)) (\<lambda>data.
         if data \<noteq> pinData p then fail (Msg ''mailbox config path content changed'') else ok ()))))))"

text \<open>A \<^verbatim>\<open>*MailboxConfigAuthorization\<close> may be nil.\<close>

type_synonym authorization = "mailboxConfigPin option"

definition auth_Verify :: "authorization \<Rightarrow> (goerr + unit) io" where
  "auth_Verify a = (case a of None \<Rightarrow> fail (Msg ''mailbox config authorization is missing'') | Some p \<Rightarrow> pin_verify p)"

text \<open>The inventory the caller gets beside a refusal, and the pin.\<close>

definition OpenMailboxConfigAuthorization :: "droot \<Rightarrow> (MailboxInventory + mailboxConfigPin) io" where
  "OpenMailboxConfigAuthorization configRoot =
     on_err (pinActiveMailboxConfig configRoot)
       (\<lambda>(status, issue). fail (empty_inventory\<lparr>ActiveConfigStatus := status, ActiveConfigIssue := issue\<rparr>)) ok"

fun effective_agents :: "string list \<Rightarrow> string list \<Rightarrow> goerr + string list" where
  "effective_agents agents [] = Inr agents"
| "effective_agents agents (h # hs) =
     (case ValidateHandle h of
        Some e \<Rightarrow> Inl e
      | None \<Rightarrow> effective_agents (if h \<in> set agents then agents else agents @ [h]) hs)"

definition mailboxConfigWithEffectiveAgents :: "string list \<Rightarrow> string list \<Rightarrow> goerr + string list" where
  "mailboxConfigWithEffectiveAgents cfg effectiveAgents = effective_agents cfg effectiveAgents"

definition InspectMailboxLayout :: "modes \<Rightarrow> droot \<Rightarrow> (goerr + MailboxInventory) io" where
  "InspectMailboxLayout fmode r = guard (inspectMailboxLayout fmode r []) (\<lambda>plan. ok (inventory plan))"

definition InspectMailboxLayoutWithAuthorization ::
    "modes \<Rightarrow> droot \<Rightarrow> authorization \<Rightarrow> string list \<Rightarrow> (goerr + MailboxInventory) io" where
  "InspectMailboxLayoutWithAuthorization fmode r a effectiveAgents =
     (case a of None \<Rightarrow> fail (Msg ''mailbox config authorization is missing'') | Some pin \<Rightarrow>
      on_err (pin_verify pin) (\<lambda>e. fail (Wrap ''verify mailbox config authorization'' e)) (\<lambda>_.
      case mailboxConfigWithEffectiveAgents (pinCfg pin) effectiveAgents of Inl e \<Rightarrow> fail e | Inr cfg \<Rightarrow>
      guard (inspectMailboxLayoutWithConfig fmode r cfg []) (\<lambda>plan.
      on_err (pin_verify pin) (\<lambda>e. fail (Wrap ''mailbox config authorization changed during inspection'' e)) (\<lambda>_.
      ok (inventory plan)))))"

section \<open>Repair\<close>

record MailboxRepairFailure =
  frCode :: string
  frStage :: string
  frPath :: path
  frMessage :: goerr
  DurabilityIndeterminate :: bool

record MailboxRepairResult =
  rrStatus :: string
  rrCreatedPaths :: "path list"
  rrFailure :: "MailboxRepairFailure option"
  rrInventory :: MailboxInventory

type_synonym hook = "string \<Rightarrow> path \<Rightarrow> (goerr + unit) io"

definition no_hook :: hook where "no_hook stage p = ok ()"

fun path_hazard :: "MailboxInspection \<Rightarrow> MailboxPathInspection list \<Rightarrow> string option" where
  "path_hazard m [] = None"
| "path_hazard m (p # ps) =
     (if piState p = MailboxPathDirectory \<or> piState p = MailboxPathMissing then path_hazard m ps
      else Some (mbHandle m @ '':'' @ mailboxIssue (piState p) (piPath p)))"

fun mailbox_hazard :: "string list \<Rightarrow> MailboxInspection list \<Rightarrow> string option" where
  "mailbox_hazard repairSet [] = None"
| "mailbox_hazard repairSet (m # ms) =
     (if mbHandle m \<notin> set repairSet then mailbox_hazard repairSet ms
      else if mbIssues m \<noteq> [] \<and> \<not> mailboxIssuesRepairable (mbIssues m)
        then Some (mbHandle m @ '':'' @ join '','' (mbIssues m))
      else case path_hazard m (mbPaths m) of Some s \<Rightarrow> Some s | None \<Rightarrow> mailbox_hazard repairSet ms)"

definition preflightHazard :: "mailboxLayoutPlan \<Rightarrow> string list \<Rightarrow> string option" where
  "preflightHazard plan repairHandles =
     (let iv = inventory plan in
      if \<not> RepairAuthorized iv then Some (ActiveConfigIssue iv)
      else if AgentsState iv \<noteq> Some MailboxPathDirectory \<and> AgentsState iv \<noteq> Some MailboxPathMissing then Some (AgentsIssue iv)
      else mailbox_hazard repairHandles (Mailboxes iv))"

definition repairComponentPaths :: "string list \<Rightarrow> path list" where
  "repairComponentPaths repairHandles =
     add_missing [[''agents'']] (concat (map (\<lambda>h. map (mailbox_path h) mailboxComponentPaths) (sort repairHandles)))"

fun note_created :: "string \<Rightarrow> path \<Rightarrow> MailboxInspection list \<Rightarrow> MailboxInspection list" where
  "note_created h rel [] = []"
| "note_created h rel (m # ms) =
     (if mbHandle m = h then m\<lparr>mbCreatedPaths := mbCreatedPaths m @ [rel]\<rparr> # ms else m # note_created h rel ms)"

definition mergeCreatedPaths :: "MailboxInventory \<Rightarrow> path list \<Rightarrow> MailboxInventory" where
  "mergeCreatedPaths iv created =
     foldl (\<lambda>iv p. case p of
        a # h # rel \<Rightarrow> (if a = ''agents'' then iv\<lparr>Mailboxes := note_created h rel (Mailboxes iv)\<rparr> else iv)
      | _ \<Rightarrow> iv) iv created"

text \<open>What stopped a repair: code, stage, path and error.\<close>

type_synonym stop = "string \<times> string \<times> path \<times> goerr"

definition repairFailure :: "modes \<Rightarrow> droot \<Rightarrow> string list \<Rightarrow> stop \<Rightarrow> path list \<Rightarrow> MailboxRepairResult io" where
  "repairFailure fmode r cfg st created =
     (case st of (fcode, stage, p, err) \<Rightarrow>
      bind (inspectMailboxLayoutWithConfig fmode r cfg []) (\<lambda>x.
      let iv = (case x of Inl _ \<Rightarrow> empty_inventory | Inr plan \<Rightarrow> inventory plan);
          err' = (case x of Inl e \<Rightarrow> WrapV ''re-inspection failed'' err e | Inr _ \<Rightarrow> err) in
      ret \<lparr>rrStatus = ''partial'', rrCreatedPaths = created,
           rrFailure = Some \<lparr>frCode = fcode, frStage = stage, frPath = p, frMessage = err',
             DurabilityIndeterminate = (stage = ''child_sync'' \<or> stage = ''parent_sync'')\<rparr>,
           rrInventory = mergeCreatedPaths iv created\<rparr>))"

definition failed :: "string \<Rightarrow> string \<Rightarrow> path \<Rightarrow> goerr \<Rightarrow> MailboxInventory \<Rightarrow> MailboxRepairResult" where
  "failed fcode stage p err iv =
     \<lparr>rrStatus = ''failed'', rrCreatedPaths = [],
      rrFailure = Some \<lparr>frCode = fcode, frStage = stage, frPath = p, frMessage = err, DurabilityIndeterminate = False\<rparr>,
      rrInventory = iv\<rparr>"

text \<open>What is done with a directory that was just created.\<close>

definition finish_created :: "modes \<Rightarrow> hook \<Rightarrow> path \<Rightarrow> (stop + unit) io" where
  "finish_created fmode hook p =
     on_err (lstatLayoutNode fmode (butlast p) (last p)) (\<lambda>e. fail (''create_failed'', ''lstat'', p, e)) (\<lambda>current.
     if ikind current \<noteq> layoutNodeDirectory
     then fail (''concurrent_race'', ''identity'', p, Msg ''created path is not a directory'')
     else
     on_err (hook ''open'' p) (\<lambda>e. fail (''create_failed'', ''open'', p, e)) (\<lambda>_.
     on_err (openLayoutDirectory fmode (butlast p) (last p) current) (\<lambda>e. fail (''create_failed'', ''open'', p, e)) (\<lambda>child.
     on_err (hook ''chmod'' p) (\<lambda>e. fail (''create_failed'', ''chmod'', p, e)) (\<lambda>_.
     on_err (cap_chmod child 448) (\<lambda>e. fail (''create_failed'', ''chmod'', p, e)) (\<lambda>_.
     on_err (cap_mode child) (\<lambda>e. fail (''create_failed'', ''fstat'', p, e)) (\<lambda>mode.
     if \<not> layoutModeSupported mode then fail (''create_failed'', ''mode'', p, Msg ''created directory mode'')
     else
     on_err (hook ''child_sync'' p) (\<lambda>e. fail (''durability_failed'', ''child_sync'', p, e)) (\<lambda>_.
     on_err (cap_sync child) (\<lambda>e. fail (''durability_failed'', ''child_sync'', p, e)) (\<lambda>_.
     on_err (hook ''parent_sync'' p) (\<lambda>e. fail (''durability_failed'', ''parent_sync'', p, e)) (\<lambda>_.
     on_err (cap_sync (butlast p)) (\<lambda>e. fail (''durability_failed'', ''parent_sync'', p, e)) ok)))))))))"

text \<open>One component of the loop: whether it stopped, and the created paths.\<close>

definition repair_component ::
    "modes \<Rightarrow> hook \<Rightarrow> (path \<times> mailboxLayoutNode) list \<Rightarrow> path list \<Rightarrow> path list \<Rightarrow> path \<Rightarrow> (stop option \<times> path list) io" where
  "repair_component fmode hook ns caps created p =
     (if butlast p \<notin> set caps then ret (Some (''concurrent_change'', ''open'', p, errLayoutIdentityChanged), created)
      else
        bind (lstatLayoutNode fmode (butlast p) (last p)) (\<lambda>current.
        case map_of ns p of
          None \<Rightarrow> ret (Some (''preflight_failed'', ''preflight'', p, Msg ''unsafe preflight state''), created)
        | Some before \<Rightarrow>
          (if lstate before = MailboxPathMissing then
             (case current of
                Inr _ \<Rightarrow> ret (Some (''concurrent_race'', ''create'', p, Msg ''appeared after preflight''), created)
              | Inl e \<Rightarrow>
                  (if e \<noteq> Sys ENOENT then ret (Some (''create_failed'', ''create'', p, e), created)
                   else
                     on_err (hook ''mkdir'' p) (\<lambda>e. ret (Some (''create_failed'', ''mkdir'', p, e), created)) (\<lambda>_.
                     on_err (mkdirLayoutDirectory (butlast p) (last p) 448)
                       (\<lambda>e. ret (Some (if isErrExist e then ''concurrent_race'' else ''create_failed'', ''mkdir'', p, e), created)) (\<lambda>_.
                     on_err (finish_created fmode hook p)
                       (\<lambda>st. ret (Some st, created @ [p])) (\<lambda>_. ret (None, created @ [p]))))))
           else if lstate before = MailboxPathDirectory then
             (case current of
                Inl e \<Rightarrow> ret (Some (''concurrent_change'', ''identity'', p, e), created)
              | Inr info \<Rightarrow>
                  (if \<not> (case linfo before of None \<Rightarrow> False | Some b \<Rightarrow> sameLayoutNode b info)
                   then ret (Some (''concurrent_change'', ''identity'', p, errLayoutIdentityChanged), created)
                   else
                     on_err (openLayoutDirectory fmode (butlast p) (last p) info)
                       (\<lambda>e. ret (Some (''concurrent_change'', ''open'', p, e), created)) (\<lambda>_. ret (None, created))))
           else ret (Some (''preflight_failed'', ''preflight'', p, Msg ''unsafe preflight state''), created))))"

fun repair_components ::
    "modes \<Rightarrow> hook \<Rightarrow> (path \<times> mailboxLayoutNode) list \<Rightarrow> path list \<Rightarrow> path list \<Rightarrow> path list \<Rightarrow> (stop option \<times> path list) io" where
  "repair_components fmode hook ns caps created [] = ret (None, created)"
| "repair_components fmode hook ns caps created (p # ps) =
     bind (repair_component fmode hook ns caps created p) (\<lambda>(st, created').
     case st of Some s \<Rightarrow> ret (Some s, created')
     | None \<Rightarrow> repair_components fmode hook ns (p # caps) created' ps)"

fun unrepaired_path :: "string \<Rightarrow> MailboxPathInspection list \<Rightarrow> stop option" where
  "unrepaired_path h [] = None"
| "unrepaired_path h (p # ps) =
     (if piState p = MailboxPathDirectory then unrepaired_path h ps
      else Some (''verification_failed'', ''verify'', mailbox_path h (piPath p), Msg (''post-repair state '' @ state_str (piState p))))"

fun unrepaired :: "string list \<Rightarrow> MailboxInspection list \<Rightarrow> stop option" where
  "unrepaired repairSet [] = None"
| "unrepaired repairSet (m # ms) =
     (if mbHandle m \<notin> set repairSet then unrepaired repairSet ms
      else case unrepaired_path (mbHandle m) (mbPaths m) of Some s \<Rightarrow> Some s | None \<Rightarrow> unrepaired repairSet ms)"

text \<open>After the loop: the configuration and the layout are looked at again.\<close>

definition verify_repair ::
    "modes \<Rightarrow> droot \<Rightarrow> mailboxConfigPin \<Rightarrow> string list \<Rightarrow> string list \<Rightarrow> path list \<Rightarrow> MailboxRepairResult io" where
  "verify_repair fmode r pin repairHandles cfg created =
     (let stop = (\<lambda>st. repairFailure fmode r cfg st created) in
      on_err (pin_verify pin) (\<lambda>e. stop (''authorization_changed'', ''verify'', config_path, e)) (\<lambda>_.
      on_err (inspectMailboxLayoutWithConfig fmode r cfg repairHandles)
        (\<lambda>e. stop (''verification_failed'', ''verify'', [], e)) (\<lambda>plan.
      let iv = mergeCreatedPaths (inventory plan) created in
      case unrepaired repairHandles (Mailboxes iv) of Some st \<Rightarrow> stop st | None \<Rightarrow>
      on_err (pin_verify pin) (\<lambda>e. stop (''authorization_changed'', ''verify'', config_path, e)) (\<lambda>_.
      ret \<lparr>rrStatus = ''repaired'', rrCreatedPaths = created, rrFailure = None, rrInventory = iv\<rparr>))))"

definition repairMailboxLayoutHandlesAuthorizedWithConfig ::
    "modes \<Rightarrow> hook \<Rightarrow> droot \<Rightarrow> authorization \<Rightarrow> string list \<Rightarrow> bool \<Rightarrow> string list \<Rightarrow> MailboxRepairResult io" where
  "repairMailboxLayoutHandlesAuthorizedWithConfig fmode hook r a requested configuredSet cfg =
     (case a of
        None \<Rightarrow> ret (failed ''preflight_failed'' ''authorization'' [] (Msg ''mailbox config authorization is missing'') empty_inventory)
      | Some pin \<Rightarrow>
      on_err (pin_verify pin)
        (\<lambda>e. ret (failed ''authorization_changed'' ''authorization'' config_path e
                    (empty_inventory\<lparr>ActiveConfigStatus := ''changed'', ConfiguredAgents := cfg\<rparr>))) (\<lambda>_.
      on_err (inspectMailboxLayoutWithConfig fmode r cfg requested)
        (\<lambda>e. ret (failed ''unsafe_root'' ''preflight'' [] e empty_inventory)) (\<lambda>plan.
      let repairHandles = (if configuredSet then ConfiguredAgents (inventory plan) else requested) in
      case preflightHazard plan repairHandles of
        Some issue \<Rightarrow> ret (failed ''preflight_failed'' ''preflight'' [] (Msg issue) (inventory plan))
      | None \<Rightarrow>
      on_err (pin_verify pin)
        (\<lambda>e. ret (failed ''authorization_changed'' ''authorization'' config_path e (inventory plan))) (\<lambda>_.
      on_err openLayoutRootCapability (\<lambda>e. repairFailure fmode r cfg (''unsafe_root'', ''open'', [], e) []) (\<lambda>rootCap.
      bind (repair_components fmode hook (nodes plan) [rootCap] [] (repairComponentPaths repairHandles)) (\<lambda>(st, created).
      case st of Some s \<Rightarrow> repairFailure fmode r cfg s created
      | None \<Rightarrow> verify_repair fmode r pin repairHandles cfg created))))))"

definition repairMailboxLayoutHandlesAuthorized ::
    "modes \<Rightarrow> hook \<Rightarrow> droot \<Rightarrow> authorization \<Rightarrow> string list \<Rightarrow> bool \<Rightarrow> MailboxRepairResult io" where
  "repairMailboxLayoutHandlesAuthorized fmode hook r a requested configuredSet =
     (case a of
        None \<Rightarrow> ret (failed ''preflight_failed'' ''authorization'' [] (Msg ''mailbox config authorization is missing'') empty_inventory)
      | Some pin \<Rightarrow> repairMailboxLayoutHandlesAuthorizedWithConfig fmode hook r a requested configuredSet (pinCfg pin))"

definition repairMailboxLayoutHandles ::
    "modes \<Rightarrow> hook \<Rightarrow> droot \<Rightarrow> droot \<Rightarrow> string list \<Rightarrow> bool \<Rightarrow> MailboxRepairResult io" where
  "repairMailboxLayoutHandles fmode hook r configRoot requested configuredSet =
     on_err (OpenMailboxConfigAuthorization configRoot)
       (\<lambda>iv. ret (failed ''preflight_failed'' ''authorization'' [] (Msg (ActiveConfigIssue iv)) iv)) (\<lambda>pin.
     repairMailboxLayoutHandlesAuthorized fmode hook r (Some pin) requested configuredSet)"

definition RepairMailboxLayout :: "modes \<Rightarrow> droot \<Rightarrow> MailboxRepairResult io" where
  "RepairMailboxLayout fmode r = repairMailboxLayoutHandles fmode no_hook r r [] True"

definition RepairMailboxLayoutForAgentsWithAuthorization ::
    "modes \<Rightarrow> droot \<Rightarrow> authorization \<Rightarrow> string list \<Rightarrow> MailboxRepairResult io" where
  "RepairMailboxLayoutForAgentsWithAuthorization fmode r a agents =
     (case first_invalid agents of
        Some e \<Rightarrow> ret (failed ''preflight_failed'' ''preflight'' [] e empty_inventory)
      | None \<Rightarrow> repairMailboxLayoutHandlesAuthorized fmode no_hook r a (add_missing [] agents) False)"

definition RepairMailboxLayoutForAgentsAuthorized :: "modes \<Rightarrow> droot \<Rightarrow> droot \<Rightarrow> string list \<Rightarrow> MailboxRepairResult io" where
  "RepairMailboxLayoutForAgentsAuthorized fmode r configRoot agents =
     on_err (OpenMailboxConfigAuthorization configRoot)
       (\<lambda>iv. ret (failed ''preflight_failed'' ''authorization'' [] (Msg (ActiveConfigIssue iv)) iv)) (\<lambda>pin.
     RepairMailboxLayoutForAgentsWithAuthorization fmode r (Some pin) agents)"

definition RepairMailboxLayoutForAgents :: "modes \<Rightarrow> droot \<Rightarrow> string list \<Rightarrow> MailboxRepairResult io" where
  "RepairMailboxLayoutForAgents fmode r agents = RepairMailboxLayoutForAgentsAuthorized fmode r r agents"

text \<open>The guard is asked before every directory mutation and durability sync.\<close>

definition guard_hook :: "(goerr + unit) io \<Rightarrow> hook" where
  "guard_hook writeGuard stage p =
     (if stage \<in> {''mkdir'', ''chmod'', ''child_sync'', ''parent_sync''} then writeGuard else ok ())"

definition RepairMailboxLayoutForAgentsWithAuthorizationAndWriteGuard ::
    "modes \<Rightarrow> droot \<Rightarrow> authorization \<Rightarrow> string list \<Rightarrow> (goerr + unit) io option \<Rightarrow> MailboxRepairResult io" where
  "RepairMailboxLayoutForAgentsWithAuthorizationAndWriteGuard fmode r a agents writeGuard =
     (case a of
        None \<Rightarrow> ret (failed ''preflight_failed'' ''authorization'' [] (Msg ''mailbox config authorization is missing'') empty_inventory)
      | Some pin \<Rightarrow>
          (case writeGuard of
             None \<Rightarrow> ret (failed ''preflight_failed'' ''authorization'' [] (Msg ''mailbox write guard is missing'') empty_inventory)
           | Some wg \<Rightarrow> repairMailboxLayoutHandlesAuthorizedWithConfig fmode (guard_hook wg) r a agents False (pinCfg pin)))"

definition RepairMailboxLayoutForConfiguredAgentsWithAuthorization ::
    "modes \<Rightarrow> droot \<Rightarrow> authorization \<Rightarrow> string list \<Rightarrow> MailboxRepairResult io" where
  "RepairMailboxLayoutForConfiguredAgentsWithAuthorization fmode r a effectiveAgents =
     (case a of
        None \<Rightarrow> ret (failed ''preflight_failed'' ''authorization'' [] (Msg ''mailbox config authorization is missing'') empty_inventory)
      | Some pin \<Rightarrow>
          (case mailboxConfigWithEffectiveAgents (pinCfg pin) effectiveAgents of
             Inl e \<Rightarrow> ret (failed ''preflight_failed'' ''preflight'' [] e empty_inventory)
           | Inr cfg \<Rightarrow> repairMailboxLayoutHandlesAuthorizedWithConfig fmode no_hook r a cfg False cfg))"

section \<open>What a repair does to the tree\<close>

text \<open>The tree \<open>g\<close> with the directories \<open>cs\<close> created where there was nothing.\<close>

definition added :: "tree \<Rightarrow> path list \<Rightarrow> tree" where
  "added g cs = (\<lambda>p. if p \<in> set cs then Some (Dir 448) else g p)"

definition created_in :: "tree \<Rightarrow> path list \<Rightarrow> fs \<Rightarrow> bool" where
  "created_in g cs f \<longleftrightarrow> map_of f = added g cs \<and> (\<forall>p \<in> set cs. g p = None)"

text \<open>A hook only looks: it leaves the tree alone.\<close>

definition looks :: "hook \<Rightarrow> bool" where
  "looks hook \<longleftrightarrow> (\<forall>stage p P. keeps P (hook stage p))"

lemma looksD: "looks hook \<Longrightarrow> keeps P (hook stage p)"
  by (simp add: looks_def)

lemma looks_no_hook: "looks no_hook"
  by (simp add: looks_def no_hook_def keeps_ok)

lemma keeps_pin_verify [stable_rules]: "keeps P (pin_verify p)"
  unfolding pin_verify_def by (intro stable_rules)

lemma keeps_pinActive [stable_rules]: "keeps P (pinActiveMailboxConfig r)"
  unfolding pinActiveMailboxConfig_def by (intro stable_rules)

lemma keeps_cap_sync [stable_rules]: "keeps P (cap_sync c)"
  unfolding cap_sync_def by (intro stable_rules)

lemma keeps_by_map:
  "(\<And>g. triple (\<lambda>f. map_of f = g) m (\<lambda>x f. map_of f = g)) \<Longrightarrow> keeps (\<lambda>f. P (map_of f)) m"
  unfolding keeps_def by (rule triple_by_map, erule meta_allE, erule triple_post, simp)

lemma keeps_inspect: "keeps (\<lambda>f. P (map_of f)) (inspectMailboxLayoutWithConfig fm r cfg extra)"
  by (rule keeps_by_map, rule triple_post [OF inspectMailboxLayoutWithConfig_spec]) simp

lemma finish_created_spec:
  assumes "looks hook" and "p \<noteq> []" and g: "g p = Some (Dir 448)"
  shows "triple (\<lambda>f. map_of f = g) (finish_created fm hook p) (\<lambda>_ f. map_of f = g)"
proof -
  have p: "butlast p @ [last p] = p" using assms(2) by simp
  have chmod: "keeps (\<lambda>f. map_of f = g) (cap_chmod p 448)"
    unfolding cap_chmod_def
    by (rule keeps_sys_upd) (use assms(2) g in \<open>auto simp: fchmod_def fun_upd_idem split: option.splits node.splits\<close>)
  have mode: "keeps (\<lambda>f. map_of f = g) (cap_mode p)"
    unfolding cap_mode_def by (intro stable_rules)
  have "triple (\<lambda>f. map_of f = g) (openLayoutDirectory fm (butlast p) (last p) i)
      (\<lambda>x f. map_of f = g \<and> (\<forall>c. x = Inr c \<longrightarrow> c = p))" for i
    using openLayoutDirectory_spec [of g fm "butlast p" "last p" i] unfolding p .
  note opn = triple_on_err [OF this]
  note hk = keeps_triple [OF looksD [OF assms(1)]]
  show ?thesis
    unfolding finish_created_def
    apply (rule triple_on_err [OF keeps_triple [OF keeps_lstatLayoutNode]], rule triple_fail, simp)
    apply (rule triple_if, rule triple_fail, simp)
    apply (rule triple_on_err [OF hk], rule triple_fail, simp)
    apply (rule opn, rule triple_fail, simp)
    apply (rule triple_pure2, drule spec, drule mp [OF _ refl], hypsubst)
    apply (rule triple_on_err [OF hk], rule triple_fail, simp)
    apply (rule triple_on_err [OF keeps_triple [OF chmod]], rule triple_fail, simp)
    apply (rule triple_on_err [OF keeps_triple [OF mode]], rule triple_fail, simp)
    apply (rule triple_if, rule triple_fail, simp)
    apply (rule triple_on_err [OF hk], rule triple_fail, simp)
    apply (rule triple_on_err [OF keeps_triple [OF keeps_cap_sync]], rule triple_fail, simp)
    apply (rule triple_on_err [OF hk], rule triple_fail, simp)
    apply (rule triple_on_err [OF keeps_triple [OF keeps_cap_sync]], rule triple_fail, simp, rule triple_ok, simp)
    done
qed

lemma added_snoc: "p \<noteq> [] \<Longrightarrow> (added g cs)(p \<mapsto> Dir 448) = added g (cs @ [p])"
  by (auto simp: added_def)

definition component_done :: "(path \<times> mailboxLayoutNode) list \<Rightarrow> path list \<Rightarrow> path \<Rightarrow> bool" where
  "component_done ns created p \<longleftrightarrow> p \<in> set created \<or> (\<exists>n. map_of ns p = Some n \<and> lstate n = MailboxPathDirectory)"

lemma repair_component_spec:
  assumes "looks hook" and "p \<noteq> []"
  shows "triple (created_in g created) (repair_component fm hook ns caps created p)
     (\<lambda>x f. created_in g (snd x) f \<and> set created \<subseteq> set (snd x) \<and> (fst x = None \<longrightarrow> component_done ns (snd x) p))"
  (is "triple ?P _ ?Q")
proof -
  have stop: "triple ?P (ret (Some st, created)) ?Q" for st
    by (rule triple_ret) simp
  have p: "butlast p @ [last p] = p" using assms(2) by simp
  have mk: "triple ?P (mkdirLayoutDirectory (butlast p) (last p) 448)
      (\<lambda>x f. case x of Inl _ \<Rightarrow> ?P f | Inr _ \<Rightarrow> created_in g (created @ [p]) f)"
    unfolding mkdirLayoutDirectory_def p
    by (rule triple_sys_upd)
       (use assms(2) in \<open>auto simp: mkdirat_def created_in_def added_snoc split: option.splits,
          auto simp: added_def split: if_splits\<close>)
  have fin: "triple (created_in g (created @ [p])) (on_err (finish_created fm hook p)
       (\<lambda>st. ret (Some st, created @ [p])) (\<lambda>_. ret (None, created @ [p]))) ?Q"
  proof -
    have "triple (\<lambda>f. map_of f = added g (created @ [p])) (finish_created fm hook p) (\<lambda>_ f. map_of f = added g (created @ [p]))"
      by (rule finish_created_spec [OF assms]) (simp add: added_def)
    then have "triple (created_in g (created @ [p])) (finish_created fm hook p) (\<lambda>_. created_in g (created @ [p]))"
      by (auto simp: created_in_def [abs_def] intro!: triple_pure2 elim!: triple_post)
    then show ?thesis by (rule triple_on_err) (auto intro!: triple_ret simp: component_done_def)
  qed
  have make: "triple ?P (on_err (hook ''mkdir'' p) (\<lambda>e. ret (Some (''create_failed'', ''mkdir'', p, e), created)) (\<lambda>_.
       on_err (mkdirLayoutDirectory (butlast p) (last p) 448)
         (\<lambda>e. ret (Some (if isErrExist e then ''concurrent_race'' else ''create_failed'', ''mkdir'', p, e), created)) (\<lambda>_.
       on_err (finish_created fm hook p) (\<lambda>st. ret (Some st, created @ [p])) (\<lambda>_. ret (None, created @ [p]))))) ?Q"
    by (rule triple_on_err [OF keeps_triple [OF looksD [OF assms(1)]] stop], rule triple_on_err [OF mk]; simp only: sum.case)
       (rule stop, rule fin)
  have opn: "triple ?P (on_err (openLayoutDirectory fm (butlast p) (last p) info)
       (\<lambda>e. ret (Some (''concurrent_change'', ''open'', p, e), created)) (\<lambda>_. ret (None, created))) ?Q"
    if "map_of ns p = Some n" "lstate n = MailboxPathDirectory" for info n
    by (rule triple_on_err [OF keeps_triple [OF keeps_openLayoutDirectory] stop], rule triple_ret)
       (use that in \<open>auto simp: component_done_def\<close>)
  show ?thesis
    unfolding repair_component_def
    by (rule triple_if, rule stop, rule triple_bind [OF keeps_triple [OF keeps_lstatLayoutNode]])
       (use stop make opn in \<open>auto split: option.split sum.split if_split\<close>)
qed

lemma component_done_mono: "component_done ns cs p \<Longrightarrow> set cs \<subseteq> set cs' \<Longrightarrow> component_done ns cs' p"
  by (auto simp: component_done_def)

lemma repair_components_spec:
  assumes "looks hook" and "[] \<notin> set ps"
  shows "triple (created_in g created) (repair_components fm hook ns caps created ps)
     (\<lambda>x f. created_in g (snd x) f \<and> set created \<subseteq> set (snd x) \<and> (fst x = None \<longrightarrow> (\<forall>p \<in> set ps. component_done ns (snd x) p)))"
  using assms(2)
proof (induction ps arbitrary: caps created)
  case Nil
  show ?case by (auto intro!: triple_ret)
next
  case (Cons p ps)
  have p: "p \<noteq> []" and ps: "[] \<notin> set ps" using Cons.prems by auto
  show ?case
    unfolding repair_components.simps
  proof (rule triple_bind [OF repair_component_spec [OF assms(1) p]], simp_all only: case_prod_beta)
    fix x :: "stop option \<times> path list"
    show "triple (\<lambda>f. created_in g (snd x) f \<and> set created \<subseteq> set (snd x) \<and> (fst x = None \<longrightarrow> component_done ns (snd x) p))
        (case fst x of Some s \<Rightarrow> ret (Some s, snd x) | None \<Rightarrow> repair_components fm hook ns (p # caps) (snd x) ps)
        (\<lambda>x f. created_in g (snd x) f \<and> set created \<subseteq> set (snd x) \<and> (fst x = None \<longrightarrow> (\<forall>p \<in> set (p # ps). component_done ns (snd x) p)))"
      by (cases "fst x")
         (auto intro!: triple_ret triple_pure2 triple_post [OF Cons.IH [OF ps]] intro: component_done_mono)
  qed
qed

lemma mailbox_hazard_None:
  "mailbox_hazard hs ms = None \<Longrightarrow> m \<in> set ms \<Longrightarrow> mbHandle m \<in> set hs \<Longrightarrow> i \<in> set (mbIssues m) \<Longrightarrow> hasPrefix i ''missing:''"
  by (induction hs ms rule: mailbox_hazard.induct)
     (auto simp: mailboxIssuesRepairable_def list_all_iff split: if_splits option.splits)

lemma component_done_complete:
  assumes "preflightHazard plan hs = None" and p: "plan_true g l (nodes plan) (Mailboxes (inventory plan))" and "h \<in> set hs"
    and "component_done (nodes plan) created (mailbox_path h rel)"
  shows "added g created (mailbox_path h rel) = Some (Dir 448)"
proof (cases "mailbox_path h rel \<in> set created")
  case True
  then show ?thesis by (simp add: added_def)
next
  case False
  with assms(4) obtain n where n: "map_of (nodes plan) (mailbox_path h rel) = Some n" "lstate n = MailboxPathDirectory"
    by (auto simp: component_done_def)
  have "node_told g (Mailboxes (inventory plan)) (mailbox_path h rel) n"
    using p map_of_SomeD [OF n(1)] by (auto simp: plan_true_def mailbox_path_def)
  then obtain e where e: "e \<in> set (Mailboxes (inventory plan))" "mbHandle e = h" "told g e rel n"
    by (auto simp: node_told_def mailbox_path_def)
  have "mailbox_hazard hs (Mailboxes (inventory plan)) = None"
    using assms(1) by (auto simp: preflightHazard_def Let_def split: if_splits)
  from mailbox_hazard_None [OF this e(1)] e assms(3)
  have "\<forall>i \<in> set (component_issues rel n). hasPrefix i ''missing:''" by (auto simp: told_def)
  then have "lmode n = 448"
    using n(2) by (auto simp: component_issues_def layoutModeSupported_def hasPrefix_def split: if_splits)
  with e n(2) False show ?thesis by (simp add: told_def node_true_def added_def)
qed

text \<open>
  What a finished repair of the mailboxes \<open>hs\<close> says: it lists exactly the directories it created, none
  when it failed before starting, and all components are there when it says so.
\<close>

definition repair_post :: "tree \<Rightarrow> string list \<Rightarrow> MailboxRepairResult \<Rightarrow> fs \<Rightarrow> bool" where
  "repair_post g hs x f \<longleftrightarrow> created_in g (rrCreatedPaths x) f
     \<and> (rrStatus x = ''failed'' \<longrightarrow> rrCreatedPaths x = [])
     \<and> (rrStatus x = ''repaired'' \<longrightarrow> (\<forall>h \<in> set hs. \<forall>rel \<in> set mailboxComponentPaths. map_of f (mailbox_path h rel) = Some (Dir 448)))"

lemma failed_post: "created_in g [] f \<Longrightarrow> repair_post g hs (failed c s p e i) f"
  by (simp add: repair_post_def failed_def)

lemma keeps_created_inspect: "keeps (created_in g cs) (inspectMailboxLayoutWithConfig fm r cfg extra)"
  using keeps_inspect [where P = "\<lambda>m. m = added g cs \<and> (\<forall>p \<in> set cs. g p = None)"] by (simp add: created_in_def [abs_def])

lemma repairFailure_spec: "triple (created_in g cs) (repairFailure fm r cfg st cs) (repair_post g hs)"
  unfolding repairFailure_def Let_def
  by (cases st, simp, rule triple_bind [OF keeps_triple [OF keeps_created_inspect]], rule triple_ret) (simp add: repair_post_def)

lemma verify_repair_spec:
  assumes "\<And>h rel. h \<in> set hs \<Longrightarrow> rel \<in> set mailboxComponentPaths \<Longrightarrow> added g cs (mailbox_path h rel) = Some (Dir 448)"
  shows "triple (created_in g cs) (verify_repair fm r pin hs cfg cs) (repair_post g hs)"
proof -
  have complete: "repair_post g hs \<lparr>rrStatus = ''repaired'', rrCreatedPaths = cs, rrFailure = None, rrInventory = i\<rparr> f"
    if "created_in g cs f" for i f
    using that assms by (simp add: repair_post_def created_in_def)
  show ?thesis
    unfolding verify_repair_def Let_def
    by (rule triple_on_err [OF keeps_triple [OF keeps_pin_verify] repairFailure_spec],
        rule triple_on_err [OF keeps_triple [OF keeps_created_inspect] repairFailure_spec])
       (auto split: option.split intro!: repairFailure_spec triple_on_err [OF keeps_triple [OF keeps_pin_verify] repairFailure_spec]
          triple_ret complete)
qed

lemma created_in_start: "map_of f = g \<Longrightarrow> created_in g [] f"
  by (simp add: created_in_def added_def)

lemma repair_paths: "h \<in> set hs \<Longrightarrow> rel \<in> set mailboxComponentPaths \<Longrightarrow> mailbox_path h rel \<in> set (repairComponentPaths hs)"
  and repair_paths_ne: "[] \<notin> set (repairComponentPaths hs)"
  by (auto simp: repairComponentPaths_def add_missing_set mailbox_path_def)

lemma repair_with_config_spec:
  assumes "looks hook"
  shows "triple (\<lambda>f. map_of f = g) (repairMailboxLayoutHandlesAuthorizedWithConfig fm hook r a req cs cfg)
     (repair_post g (if cs then cfg else req))"
proof (cases a)
  case None
  then show ?thesis
    by (auto simp: repairMailboxLayoutHandlesAuthorizedWithConfig_def intro!: triple_ret failed_post created_in_start)
next
  case (Some pin)
  let ?P = "\<lambda>f. map_of f = g" and ?hs = "if cs then cfg else req"
  have quit: "triple ?P (ret (failed c s p e i)) (repair_post g ?hs)" for c s p e i
    by (rule triple_ret) (auto intro!: failed_post created_in_start)
  have work: "triple ?P
      (bind (repair_components fm hook (nodes plan) [rc] [] (repairComponentPaths ?hs)) (\<lambda>(st, created).
        case st of Some s \<Rightarrow> repairFailure fm r cfg s created
        | None \<Rightarrow> verify_repair fm r pin ?hs cfg created)) (repair_post g ?hs)"
    if plan: "preflightHazard plan ?hs = None" "plan_true g l (nodes plan) (Mailboxes (inventory plan))" for plan l rc
  proof (rule triple_pre [where P' = "created_in g []"], rule triple_bind [OF repair_components_spec [OF assms repair_paths_ne]])
    fix x :: "stop option \<times> path list"
    show "triple (\<lambda>f. created_in g (snd x) f \<and> set [] \<subseteq> set (snd x) \<and>
          (fst x = None \<longrightarrow> (\<forall>p \<in> set (repairComponentPaths ?hs). component_done (nodes plan) (snd x) p)))
        (case x of (st, created) \<Rightarrow> case st of Some s \<Rightarrow> repairFailure fm r cfg s created
          | None \<Rightarrow> verify_repair fm r pin ?hs cfg created) (repair_post g ?hs)"
      by (cases x; cases "fst x")
         (auto intro!: triple_pure2 triple_pre [OF repairFailure_spec] verify_repair_spec
            component_done_complete [OF plan] repair_paths)
  qed (rule created_in_start)
  have rest: "triple ?P
      (case preflightHazard plan ?hs of
        Some issue \<Rightarrow> ret (failed ''preflight_failed'' ''preflight'' [] (Msg issue) (inventory plan))
      | None \<Rightarrow>
      on_err (pin_verify pin)
        (\<lambda>e. ret (failed ''authorization_changed'' ''authorization'' config_path e (inventory plan))) (\<lambda>_.
      on_err openLayoutRootCapability (\<lambda>e. repairFailure fm r cfg (''unsafe_root'', ''open'', [], e) []) (\<lambda>rootCap.
      bind (repair_components fm hook (nodes plan) [rootCap] [] (repairComponentPaths ?hs)) (\<lambda>(st, created).
      case st of Some s \<Rightarrow> repairFailure fm r cfg s created
      | None \<Rightarrow> verify_repair fm r pin ?hs cfg created)))) (repair_post g ?hs)"
    if "plan_true g l (nodes plan) (Mailboxes (inventory plan))" for plan l
    using that
    by (cases "preflightHazard plan ?hs"; simp only: option.case)
       (rule triple_on_err [OF keeps_triple [OF keeps_pin_verify] quit],
        rule triple_on_err [OF keeps_triple [OF keeps_openLayoutRootCapability] triple_pre [OF repairFailure_spec created_in_start]],
        assumption, rule work, assumption+, rule quit)
  show ?thesis
    unfolding repairMailboxLayoutHandlesAuthorizedWithConfig_def Some option.case Let_def
    apply (rule triple_on_err [OF keeps_triple [OF keeps_pin_verify] quit])
    apply (rule triple_on_err [OF inspectMailboxLayoutWithConfig_spec], rule triple_pre [OF quit], simp)
    apply (rule triple_pure2)
    subgoal premises prems for _ plan
    proof -
      from prems obtain l where "ConfiguredAgents (inventory plan) = cfg"
          and "plan_true g l (nodes plan) (Mailboxes (inventory plan))" by auto
      then show ?thesis by (simp only: rest)
    qed
    done
qed

lemma repair_handles_spec:
  assumes "looks hook"
  shows "triple (\<lambda>f. map_of f = g) (repairMailboxLayoutHandles fm hook r cr req cs)
     (\<lambda>x f. created_in g (rrCreatedPaths x) f \<and> (rrStatus x = ''failed'' \<longrightarrow> rrCreatedPaths x = []))"
  unfolding repairMailboxLayoutHandles_def
proof (rule triple_on_err)
  show "triple (\<lambda>f. map_of f = g) (OpenMailboxConfigAuthorization cr) (\<lambda>_ f. map_of f = g)"
    unfolding OpenMailboxConfigAuthorization_def case_prod_beta by (rule keeps_triple) (intro stable_rules)
  show "triple (\<lambda>f. map_of f = g) (ret (failed ''preflight_failed'' ''authorization'' [] (Msg (ActiveConfigIssue i)) i))
      (\<lambda>x f. created_in g (rrCreatedPaths x) f \<and> (rrStatus x = ''failed'' \<longrightarrow> rrCreatedPaths x = []))" for i
    by (rule triple_ret) (simp add: failed_def created_in_start)
  show "triple (\<lambda>f. map_of f = g) (repairMailboxLayoutHandlesAuthorized fm hook r (Some pin) req cs)
      (\<lambda>x f. created_in g (rrCreatedPaths x) f \<and> (rrStatus x = ''failed'' \<longrightarrow> rrCreatedPaths x = []))" for pin
    unfolding repairMailboxLayoutHandlesAuthorized_def option.case
    by (rule triple_post [OF repair_with_config_spec [OF assms]]) (simp add: repair_post_def)
qed

section \<open>A repair does what it reports\<close>

text \<open>
  C19: a repair changes exactly what it reports, whichever calls fail: the directories it names were
  absent and are there afterwards with mode 0700, and every other path is as before. A repair that
  reports failure created nothing, and one that reports success leaves every component of the mailboxes
  it was asked for in place.
\<close>

theorem repair_exact:
  assumes "looks hook"
    and "repairMailboxLayoutHandlesAuthorizedWithConfig fm hook r a req configured cfg w = (x, w')"
  shows "(\<forall>p. map_of (fs w') p = (if p \<in> set (rrCreatedPaths x) then Some (Dir 448) else map_of (fs w) p))
     \<and> (\<forall>p \<in> set (rrCreatedPaths x). map_of (fs w) p = None)
     \<and> (rrStatus x = ''failed'' \<longrightarrow> rrCreatedPaths x = [])
     \<and> (rrStatus x = ''repaired'' \<longrightarrow> (\<forall>h \<in> set (if configured then cfg else req). \<forall>rel \<in> set mailboxComponentPaths.
           map_of (fs w') (mailbox_path h rel) = Some (Dir 448)))"
proof -
  have "repair_post (map_of (fs w)) (if configured then cfg else req) x (fs w')"
    using triple_run [OF repair_with_config_spec [OF assms(1)], of w "map_of (fs w)" configured cfg req fm r a] assms(2)
    by simp
  then have tree: "map_of (fs w') = added (map_of (fs w)) (rrCreatedPaths x)"
    and rest: "\<forall>p \<in> set (rrCreatedPaths x). map_of (fs w) p = None" "rrStatus x = ''failed'' \<longrightarrow> rrCreatedPaths x = []"
      "rrStatus x = ''repaired'' \<longrightarrow> (\<forall>h \<in> set (if configured then cfg else req). \<forall>rel \<in> set mailboxComponentPaths.
         map_of (fs w') (mailbox_path h rel) = Some (Dir 448))"
    unfolding repair_post_def created_in_def by blast+
  from tree have "map_of (fs w') p = (if p \<in> set (rrCreatedPaths x) then Some (Dir 448) else map_of (fs w) p)" for p
    by (simp add: added_def)
  with rest show ?thesis by blast
qed

text \<open>A queue without mailboxes, in which every call fails from some moment on.\<close>

definition bare_queue :: fs where
  "bare_queue = [([''meta'', ''config.json''], Reg ''{}''), ([''meta''], Dir 448), ([''agents''], Dir 448)]"

definition bare_pin :: mailboxConfigPin where
  "bare_pin = \<lparr>pinRoot = root7, pinFile = Reg ''{}'', pinData = ''{}'', pinCfg = []\<rparr>"

definition fails_from :: "nat \<Rightarrow> fs \<Rightarrow> world" where
  "fails_from n f = (calm f)\<lparr>faults := (\<lambda>t. if n \<le> t then Some (ENOSPC, 0) else None)\<rparr>"

definition mend :: "MailboxRepairResult io" where
  "mend = repairMailboxLayoutHandlesAuthorizedWithConfig (\<lambda>_. 384) no_hook root7 (Some bare_pin) [''a''] False []"

lemma mend_run: "rrCreatedPaths (fst (mend (fails_from 35 bare_queue))) = [[''agents'', ''a'']]"
  by code_simp

theorem repair_exact_witness:
  "map_of (fs (snd (mend (fails_from 35 bare_queue)))) [''agents'', ''a''] = Some (Dir 448)
   \<and> map_of (fs (fails_from 35 bare_queue)) [''agents'', ''a''] = None"
  using repair_exact [OF looks_no_hook prod.collapse [of "mend (fails_from 35 bare_queue)", symmetric, unfolded mend_def]] mend_run
  unfolding mend_def by simp

end
