(* ===== verification/Bridge_Envelope.thy ===== *)
theory Bridge_Envelope
  imports Names Json
begin

text \<open>
  The signed envelope of the cross-host bridge (\<^verbatim>\<open>internal/bridge/envelope.go\<close> and the signing part
  of \<^verbatim>\<open>internal/bridge/auth.go\<close>): its validation, the bytes a signature covers, signing and
  verification. The hash and the signature scheme of the Go library are the parameter \<open>c\<close>.
  \<^verbatim>\<open>strings.ToLower\<close> and \<^verbatim>\<open>strings.EqualFold\<close> act on ASCII text: a digest that validates is hexadecimal.
\<close>

section \<open>Model\<close>

record crypto =
  Sum256 :: "bytes \<Rightarrow> bytes"
  ed_Sign :: "bytes \<Rightarrow> bytes \<Rightarrow> bytes"
  ed_Verify :: "bytes \<Rightarrow> bytes \<Rightarrow> bytes \<Rightarrow> bool"
  ed_Public :: "bytes \<Rightarrow> bytes"

definition EnvelopeVersion :: int where "EnvelopeVersion = 1"

record Envelope =
  Version :: int
  TransferID :: string
  SourceHost :: string
  SourceHandle :: string
  DestAlias :: string
  SourceMessageID :: string
  ThreadID :: string
  PayloadSHA256 :: string
  KeyGeneration :: string
  Signature :: string
  Payload :: bytes

text \<open>\<^verbatim>\<open>hex.DecodeString\<close>.\<close>

fun hex_decode :: "string \<Rightarrow> bytes option" where
  "hex_decode [] = Some []"
| "hex_decode [a] = None"
| "hex_decode (a # b # s) =
     (case (hex_val a, hex_val b) of
        (Some x, Some y) \<Rightarrow> map_option (Cons (char_of (16 * x + y))) (hex_decode s)
      | _ \<Rightarrow> None)"

text \<open>\<^verbatim>\<open>strings.Cut\<close> and \<^verbatim>\<open>strings.ContainsAny\<close>.\<close>

definition cut :: "string \<Rightarrow> string \<Rightarrow> string \<times> string \<times> bool" where
  "cut s sep = (case cutOn sep s of None \<Rightarrow> (s, [], False) | Some (a, b) \<Rightarrow> (a, b, True))"

definition containsAny :: "string \<Rightarrow> string \<Rightarrow> bool" where
  "containsAny s cs \<longleftrightarrow> list_ex (\<lambda>c. c \<in> set cs) s"

definition ParseAlias :: "string \<Rightarrow> goerr + string \<times> string" where
  "ParseAlias alias =
     (case cut alias ''/'' of (host, agent, found) \<Rightarrow>
      if \<not> found \<or> contains agent ''/'' then Inl (Msg ''bridge dest_alias must be host/agent'')
      else case ValidateHandle host of Some e \<Rightarrow> Inl (Wrap ''bridge dest_alias host'' e) | None \<Rightarrow>
      case ValidateHandle agent of Some e \<Rightarrow> Inl (Wrap ''bridge dest_alias agent'' e) | None \<Rightarrow> Inr (host, agent))"

definition TransferFilename :: "string \<Rightarrow> string \<Rightarrow> string" where
  "TransferFilename sourceHost transferID = ''xfer-'' @ sourceHost @ ''-'' @ transferID @ ''.md''"

definition validateTransferID :: "string \<Rightarrow> goerr option" where
  "validateTransferID id' =
     (if containsAny id' (''/'' @ [CHR 0x5C] @ ''.'') \<or> hasPrefix id' ''-'' \<or> hasPrefix id' ''.''
      then Some (Msg ''bridge envelope transfer_id is invalid'')
      else case ValidateHandle id' of Some e \<Rightarrow> Some (Wrap ''bridge envelope transfer_id'' e) | None \<Rightarrow> None)"

fun blank_field :: "(string \<times> string) list \<Rightarrow> goerr option" where
  "blank_field [] = None"
| "blank_field ((name, v) # fs) =
     (if trimSpace v = [] \<or> v \<noteq> trimSpace v then Some (Msg (''bridge envelope '' @ name @ '' is invalid'')) else blank_field fs)"

definition envelope_texts :: "Envelope \<Rightarrow> (string \<times> string) list" where
  "envelope_texts env =
     [(''transfer_id'', TransferID env), (''source_host'', SourceHost env), (''source_handle'', SourceHandle env),
      (''dest_alias'', DestAlias env), (''source_message_id'', SourceMessageID env), (''thread_id'', ThreadID env),
      (''payload_sha256'', PayloadSHA256 env), (''key_generation'', KeyGeneration env), (''signature'', Signature env)]"

definition ValidateEnvelope :: "crypto \<Rightarrow> Envelope \<Rightarrow> goerr option" where
  "ValidateEnvelope c env =
     (if Version env \<noteq> EnvelopeVersion then Some (Msg ''bridge envelope version is unsupported'')
      else case blank_field (envelope_texts env) of Some e \<Rightarrow> Some e | None \<Rightarrow>
      case ValidateHandle (SourceHost env) of Some e \<Rightarrow> Some (Wrap ''bridge envelope source_host'' e) | None \<Rightarrow>
      case ValidateHandle (SourceHandle env) of Some e \<Rightarrow> Some (Wrap ''bridge envelope source_handle'' e) | None \<Rightarrow>
      case ParseAlias (DestAlias env) of Inl e \<Rightarrow> Some e | Inr _ \<Rightarrow>
      case validateTransferID (TransferID env) of Some e \<Rightarrow> Some e | None \<Rightarrow>
      if \<not> equalFold (PayloadSHA256 env) (hex_str (Sum256 c (Payload env)))
      then Some (Msg ''bridge envelope payload_sha256 does not match payload'')
      else if Payload env = [] then Some (Msg ''bridge envelope payload is empty'')
      else case hex_decode (Signature env) of
        None \<Rightarrow> Some (Msg ''bridge envelope signature is invalid'')
      | Some s \<Rightarrow> (if length s \<noteq> 64 then Some (Msg ''bridge envelope signature is invalid'') else None))"

section \<open>Signatures\<close>

record HostKey =
  Generation :: string
  Private :: bytes

definition Public :: "crypto \<Rightarrow> HostKey \<Rightarrow> bytes" where
  "Public c k = ed_Public c (Private k)"

definition canonical_lines :: "Envelope \<Rightarrow> string list" where
  "canonical_lines env =
     [''amq-bridge-envelope-v1'',
      ''version='' @ itoa (Version env),
      ''transfer_id='' @ TransferID env,
      ''source_host='' @ SourceHost env,
      ''source_handle='' @ SourceHandle env,
      ''dest_alias='' @ DestAlias env,
      ''source_message_id='' @ SourceMessageID env,
      ''thread_id='' @ ThreadID env,
      ''payload_sha256='' @ toLower (PayloadSHA256 env),
      ''key_generation='' @ KeyGeneration env]"

definition CanonicalBytes :: "Envelope \<Rightarrow> bytes" where
  "CanonicalBytes env = join [CHR 0x0A] (canonical_lines env)"

text \<open>The envelope is changed in place before it is validated.\<close>

definition SignEnvelope :: "crypto \<Rightarrow> Envelope \<Rightarrow> HostKey \<Rightarrow> goerr option \<times> Envelope" where
  "SignEnvelope c env key =
     (if KeyGeneration env \<noteq> Generation key then (Some (Msg ''envelope key_generation does not match identity generation''), env)
      else let env' = env\<lparr>Signature := hex_str (ed_Sign c (Private key) (CanonicalBytes env))\<rparr> in
        (ValidateEnvelope c env', env'))"

definition VerifyEnvelope :: "crypto \<Rightarrow> Envelope \<Rightarrow> bytes \<Rightarrow> string \<Rightarrow> goerr option" where
  "VerifyEnvelope c env pub generation =
     (case ValidateEnvelope c env of Some e \<Rightarrow> Some e | None \<Rightarrow>
      if KeyGeneration env \<noteq> generation then Some (Msg ''envelope key_generation is not the trusted generation'')
      else case hex_decode (Signature env) of
        None \<Rightarrow> Some (Msg ''bridge envelope signature'')
      | Some s \<Rightarrow>
          (if \<not> ed_Verify c pub (CanonicalBytes env) s then Some (Msg ''bridge envelope signature does not match source host'')
           else None))"

section \<open>The wire form\<close>

definition b64_val :: "char \<Rightarrow> nat option" where
  "b64_val ch' =
     (let n = of_char ch' :: nat in
      if 65 \<le> n \<and> n \<le> 90 then Some (n - 65)
      else if 97 \<le> n \<and> n \<le> 122 then Some (n - 71)
      else if 48 \<le> n \<and> n \<le> 57 then Some (n + 4)
      else if n = 43 then Some 62 else if n = 47 then Some 63 else None)"

text \<open>\<^verbatim>\<open>base64.StdEncoding\<close> on text without line breaks.\<close>

fun b64_groups :: "string \<Rightarrow> bytes option" where
  "b64_groups [] = Some []"
| "b64_groups (p # q # r # s # rest) =
     (case (b64_val p, b64_val q) of
        (Some a, Some b) \<Rightarrow>
          (if r = CHR ''='' then
             (if s = CHR ''='' \<and> rest = [] then Some [char_of ((a * 4 + b div 16) mod 256)] else None)
           else case b64_val r of
             None \<Rightarrow> None
           | Some d \<Rightarrow>
               (let x = char_of ((a * 4 + b div 16) mod 256); y = char_of ((b * 16 + d div 4) mod 256) in
                if s = CHR ''='' then (if rest = [] then Some [x, y] else None)
                else case b64_val s of
                  None \<Rightarrow> None
                | Some e \<Rightarrow> map_option (\<lambda>t. x # y # char_of ((d * 64 + e) mod 256) # t) (b64_groups rest)))
      | _ \<Rightarrow> None)"
| "b64_groups _ = None"

definition b64_decode :: "string \<Rightarrow> bytes option" where
  "b64_decode s = b64_groups (filter (\<lambda>ch'. ch' \<noteq> CHR 0x0A \<and> ch' \<noteq> CHR 0x0D) s)"

definition as_bytes :: "json \<Rightarrow> bytes option" where
  "as_bytes v = (case v of JNull \<Rightarrow> Some [] | JStr s \<Rightarrow> b64_decode s | _ \<Rightarrow> None)"

definition envelope_fields :: "string list" where
  "envelope_fields = [''version'', ''transfer_id'', ''source_host'', ''source_handle'', ''dest_alias'', ''source_message_id'',
     ''thread_id'', ''payload_sha256'', ''key_generation'', ''signature'', ''payload'']"

definition envelope_zero :: Envelope where
  "envelope_zero = \<lparr>Version = 0, TransferID = [], SourceHost = [], SourceHandle = [], DestAlias = [], SourceMessageID = [],
     ThreadID = [], PayloadSHA256 = [], KeyGeneration = [], Signature = [], Payload = []\<rparr>"

definition envelope_store :: "string \<Rightarrow> json \<Rightarrow> Envelope \<Rightarrow> Envelope option" where
  "envelope_store n v e =
     (if n = ''version'' then map_option (\<lambda>i. e\<lparr>Version := i\<rparr>) (as_int v (Version e))
      else if n = ''transfer_id'' then map_option (\<lambda>s. e\<lparr>TransferID := s\<rparr>) (as_str v (TransferID e))
      else if n = ''source_host'' then map_option (\<lambda>s. e\<lparr>SourceHost := s\<rparr>) (as_str v (SourceHost e))
      else if n = ''source_handle'' then map_option (\<lambda>s. e\<lparr>SourceHandle := s\<rparr>) (as_str v (SourceHandle e))
      else if n = ''dest_alias'' then map_option (\<lambda>s. e\<lparr>DestAlias := s\<rparr>) (as_str v (DestAlias e))
      else if n = ''source_message_id'' then map_option (\<lambda>s. e\<lparr>SourceMessageID := s\<rparr>) (as_str v (SourceMessageID e))
      else if n = ''thread_id'' then map_option (\<lambda>s. e\<lparr>ThreadID := s\<rparr>) (as_str v (ThreadID e))
      else if n = ''payload_sha256'' then map_option (\<lambda>s. e\<lparr>PayloadSHA256 := s\<rparr>) (as_str v (PayloadSHA256 e))
      else if n = ''key_generation'' then map_option (\<lambda>s. e\<lparr>KeyGeneration := s\<rparr>) (as_str v (KeyGeneration e))
      else if n = ''signature'' then map_option (\<lambda>s. e\<lparr>Signature := s\<rparr>) (as_str v (Signature e))
      else if n = ''payload'' then map_option (\<lambda>s. e\<lparr>Payload := s\<rparr>) (as_bytes v)
      else Some e)"

text \<open>\<^verbatim>\<open>DisallowUnknownFields\<close>: a member that names no field is refused.\<close>

definition strict_struct :: "string list \<Rightarrow> (string \<Rightarrow> json \<Rightarrow> 'a \<Rightarrow> 'a option) \<Rightarrow> 'a \<Rightarrow> json \<Rightarrow> 'a option" where
  "strict_struct names store zero j =
     (case j of
        JObj ms \<Rightarrow> (if list_all (\<lambda>(k, _). field_of names k \<noteq> None) ms then dec_struct names store zero j else None)
      | _ \<Rightarrow> dec_struct names store zero j)"

text \<open>A document followed by anything but white space is refused, as \<^verbatim>\<open>parse_json\<close> does.\<close>

definition UnmarshalEnvelope :: "crypto \<Rightarrow> bytes \<Rightarrow> goerr + Envelope" where
  "UnmarshalEnvelope c raw =
     (case Option.bind (parse_json raw) (strict_struct envelope_fields envelope_store envelope_zero) of
        None \<Rightarrow> Inl (Msg ''bridge envelope'')
      | Some env \<Rightarrow> (case ValidateEnvelope c env of Some e \<Rightarrow> Inl e | None \<Rightarrow> Inr env))"

section \<open>Lines\<close>

abbreviation newline :: char where "newline \<equiv> CHR 0x0A"

lemma splitOn_ne [simp]: "splitOn sep s \<noteq> []"
  by (induction s) (auto split: list.splits)

lemma splitOn_join: "ls \<noteq> [] \<Longrightarrow> \<forall>l \<in> set ls. sep \<notin> set l \<Longrightarrow> splitOn sep (join [sep] ls) = ls"
  by (induction "[sep]" ls rule: join.induct) (auto simp: splitOn_plain splitOn_append)

lemma count_join: "ls \<noteq> [] \<Longrightarrow> Suc (count_list (join [sep] ls) sep) = length ls + sum_list (map (\<lambda>l. count_list l sep) ls)"
  by (induction "[sep]" ls rule: join.induct) auto

text \<open>Plain lines are told apart from any other text of as many lines.\<close>

lemma join_lines_inj:
  assumes "join [sep] ls = join [sep] ls'" and "length ls = length ls'" and "ls' \<noteq> []" and "\<forall>l \<in> set ls'. sep \<notin> set l"
  shows "ls = ls'"
proof -
  have ne: "ls \<noteq> []" using assms(2,3) by auto
  have "sum_list (map (\<lambda>l. count_list l sep) ls') = 0"
    using assms(4) by (auto simp: sum_list_eq_0_iff count_list_0_iff)
  with count_join [OF ne] count_join [OF assms(3)] assms(1,2)
  have "sum_list (map (\<lambda>l. count_list l sep) ls) = 0" by (metis add_left_cancel)
  then have "\<forall>l \<in> set ls. sep \<notin> set l" by (auto simp: sum_list_eq_0_iff count_list_0_iff)
  from splitOn_join [OF ne this] splitOn_join [OF assms(3,4)] assms(1) show ?thesis by metis
qed

section \<open>Hexadecimal text\<close>

lemma hex_decode_hex_str: "hex_decode (hex_str bs) = Some bs"
proof (induction bs)
  case Nil
  show ?case by (simp add: hex_str_def)
next
  case (Cons b bs)
  have "(of_char b :: nat) < 16 * 16" by simp
  then have "(of_char b :: nat) div 16 < 16" by (rule less_mult_imp_div_less)
  then have "hex_decode (hex_digit (of_char b div 16) # hex_digit (of_char b mod 16) # hex_str bs)
      = map_option (Cons (char_of (16 * (of_char b div 16) + of_char b mod 16 :: nat))) (hex_decode (hex_str bs))"
    by simp
  also have "16 * (of_char b div 16) + of_char b mod 16 = (of_char b :: nat)" by simp
  finally show ?case using Cons by (simp add: hex_str_def)
qed

lemma hex_str_inj: "hex_str a = hex_str b \<Longrightarrow> a = b"
  by (metis hex_decode_hex_str option.inject)

lemma hex_str_chars:
  assumes "ch' \<in> set (hex_str bs)" shows "toLowerC ch' = ch'" and "ch' \<noteq> newline" and "\<not> spaceByte ch'"
proof -
  have "list_all (\<lambda>n. toLowerC (hex_digit n) = hex_digit n \<and> hex_digit n \<noteq> newline \<and> \<not> spaceByte (hex_digit n)) [0..<16]" by code_simp
  then have "toLowerC (hex_digit n) = hex_digit n \<and> hex_digit n \<noteq> newline \<and> \<not> spaceByte (hex_digit n)" if "n < 16" for n
    using that by (auto simp: list_all_iff)
  moreover obtain n where "ch' = hex_digit n" "n < 16"
  proof -
    from assms obtain b where "b \<in> set bs" "ch' = hex_digit (of_char b div 16) \<or> ch' = hex_digit (of_char b mod 16)"
      by (auto simp: hex_str_def)
    moreover have "(of_char b :: nat) div 16 < 16" by (simp add: less_mult_imp_div_less)
    ultimately show ?thesis using that by (metis mod_less_divisor zero_less_numeral)
  qed
  ultimately show "toLowerC ch' = ch'" and "ch' \<noteq> newline" and "\<not> spaceByte ch'" by simp_all
qed

lemma trimSpace_hex: "trimSpace (hex_str bs) = hex_str bs"
  by (rule trimSpace_plain) (use hex_str_chars(3) in auto)

lemma toLower_hex: "toLower (hex_str bs) = hex_str bs"
  by (simp add: toLower_def map_idI hex_str_chars(1))

section \<open>Valid envelopes\<close>

lemma handle_no_newline: "ValidateHandle h = None \<Longrightarrow> newline \<notin> set h"
proof -
  assume "ValidateHandle h = None"
  then have "\<forall>c \<in> set h. handle_char c" by (simp add: validate_handle_iff handleRe_def list_all_iff)
  moreover have "\<not> handle_char newline" by code_simp
  ultimately show ?thesis by auto
qed

lemma ParseAlias_Inr:
  "ParseAlias alias = Inr (host, agent) \<Longrightarrow> alias = host @ ''/'' @ agent \<and> ValidateHandle host = None \<and> ValidateHandle agent = None"
  by (auto simp: ParseAlias_def cut_def split: option.splits if_splits prod.splits dest!: cutOn_Some_append)

lemma validateTransferID_handle: "validateTransferID i = None \<Longrightarrow> ValidateHandle i = None"
  by (auto simp: validateTransferID_def split: if_splits option.splits)

text \<open>What validation establishes.\<close>

lemma valid_envelopeD:
  assumes "ValidateEnvelope c env = None"
  shows "Version env = EnvelopeVersion" and "ValidateHandle (SourceHost env) = None" and "ValidateHandle (SourceHandle env) = None"
    and "\<exists>host agent. ParseAlias (DestAlias env) = Inr (host, agent)" and "ValidateHandle (TransferID env) = None"
    and "toLower (PayloadSHA256 env) = hex_str (Sum256 c (Payload env))" and "Payload env \<noteq> []"
  using assms
  by (auto simp: ValidateEnvelope_def equalFold_def toLower_hex split: if_splits option.splits sum.splits dest: validateTransferID_handle)

text \<open>Identifiers that fit on one line of the signed text.\<close>

definition one_line_ids :: "Envelope \<Rightarrow> bool" where
  "one_line_ids env \<longleftrightarrow> newline \<notin> set (SourceMessageID env @ ThreadID env @ KeyGeneration env)"

lemma itoa_no_newline: "newline \<notin> set (itoa EnvelopeVersion)"
  by code_simp

lemma canonical_lines_plain:
  assumes "ValidateEnvelope c env = None" and "one_line_ids env" and "l \<in> set (canonical_lines env)"
  shows "newline \<notin> set l"
proof -
  note v = valid_envelopeD [OF assms(1)]
  from v(4) have "newline \<notin> set (DestAlias env)" by (auto dest!: ParseAlias_Inr handle_no_newline)
  moreover have "newline \<notin> set (toLower (PayloadSHA256 env))" using v(6) hex_str_chars(2) by auto
  ultimately show ?thesis
    using assms(2,3) v(2,3,5) handle_no_newline itoa_no_newline
    by (auto simp: canonical_lines_def one_line_ids_def v(1))
qed

lemma canonical_inj:
  assumes v: "ValidateEnvelope c env = None" and v': "ValidateEnvelope c env' = None" and "one_line_ids env'"
    and "CanonicalBytes env = CanonicalBytes env'"
  shows "env = env'\<lparr>PayloadSHA256 := PayloadSHA256 env, Signature := Signature env, Payload := Payload env\<rparr>"
    and "Sum256 c (Payload env) = Sum256 c (Payload env')"
proof -
  have eq: "canonical_lines env = canonical_lines env'"
  proof (rule join_lines_inj [of newline])
    show "join [newline] (canonical_lines env) = join [newline] (canonical_lines env')"
      using assms(4) by (simp add: CanonicalBytes_def)
    show "\<forall>l \<in> set (canonical_lines env'). newline \<notin> set l"
      using canonical_lines_plain [OF v' assms(3)] by blast
  qed (simp_all add: canonical_lines_def)
  note w = valid_envelopeD [OF v] valid_envelopeD [OF v']
  from eq w(1) w(8) show "env = env'\<lparr>PayloadSHA256 := PayloadSHA256 env, Signature := Signature env, Payload := Payload env\<rparr>"
    by (simp add: canonical_lines_def)
  from eq w(6) w(13) show "Sum256 c (Payload env) = Sum256 c (Payload env')"
    by (auto simp: canonical_lines_def intro: hex_str_inj)
qed

section \<open>A verified envelope was signed\<close>

text \<open>The envelopes that signing with a key can return.\<close>

definition signed_with :: "crypto \<Rightarrow> HostKey \<Rightarrow> Envelope \<Rightarrow> bool" where
  "signed_with c key env \<longleftrightarrow> (\<exists>env0. SignEnvelope c env0 key = (None, env))"

text \<open>
  What is assumed of the Go library and of the key's holder, who signed the envelopes \<open>S\<close> and nothing
  else: a signature that verifies is one of bytes the holder signed, and no other payload has the digest
  of a signed one.
\<close>

definition holder_signed :: "crypto \<Rightarrow> HostKey \<Rightarrow> bytes \<Rightarrow> Envelope set \<Rightarrow> bool" where
  "holder_signed c key pub S \<longleftrightarrow>
     (\<forall>env \<in> S. signed_with c key env \<and> one_line_ids env)
     \<and> (\<forall>m s. ed_Verify c pub m s \<longrightarrow> (\<exists>env \<in> S. m = CanonicalBytes env))
     \<and> (\<forall>env \<in> S. \<forall>d. Sum256 c d = Sum256 c (Payload env) \<longrightarrow> d = Payload env)"

lemma signed_valid: "signed_with c key env \<Longrightarrow> ValidateEnvelope c env = None"
  by (auto simp: signed_with_def SignEnvelope_def Let_def split: if_splits)

lemma VerifyEnvelope_None:
  assumes "VerifyEnvelope c env pub gen = None"
  shows "ValidateEnvelope c env = None" and "KeyGeneration env = gen"
    and "\<exists>s. hex_decode (Signature env) = Some s \<and> ed_Verify c pub (CanonicalBytes env) s"
  using assms by (auto simp: VerifyEnvelope_def split: option.splits if_splits)

lemma verified_signed:
  assumes "holder_signed c key pub S" and "VerifyEnvelope c env pub gen = None"
  shows "\<exists>env0 \<in> S. env = env0\<lparr>PayloadSHA256 := PayloadSHA256 env, Signature := Signature env\<rparr>"
proof -
  note v = VerifyEnvelope_None [OF assms(2)]
  from v(3) assms(1) obtain env0 where e: "env0 \<in> S" "CanonicalBytes env = CanonicalBytes env0"
    unfolding holder_signed_def by blast
  then have e0: "ValidateEnvelope c env0 = None" "one_line_ids env0"
    using assms(1) signed_valid by (auto simp: holder_signed_def)
  note i = canonical_inj [OF v(1) e0 e(2)]
  from i(2) e(1) assms(1) have "Payload env = Payload env0" by (auto simp: holder_signed_def)
  with i(1) have "env = env0\<lparr>PayloadSHA256 := PayloadSHA256 env, Signature := Signature env\<rparr>" by simp
  with e(1) show ?thesis by blast
qed


text \<open>A scheme for examples: it hashes nothing away and accepts the one envelope \<open>letter\<close>.\<close>

definition letter :: Envelope where
  "letter = \<lparr>Version = 1, TransferID = ''t1'', SourceHost = ''grok'', SourceHandle = ''codex'', DestAlias = ''mac/claude'',
     SourceMessageID = ''m1'', ThreadID = ''th'', PayloadSHA256 = ''6869'', KeyGeneration = ''1'',
     Signature = hex_str (replicate 64 (CHR ''x'')), Payload = ''hi''\<rparr>"

definition toy_crypto :: crypto where
  "toy_crypto = \<lparr>Sum256 = (\<lambda>d. d), ed_Sign = (\<lambda>k m. replicate 64 (CHR ''x'')),
     ed_Verify = (\<lambda>pub m s. m = CanonicalBytes letter \<and> s = replicate 64 (CHR ''x'')), ed_Public = (\<lambda>k. k)\<rparr>"

definition toy_key :: HostKey where "toy_key = \<lparr>Generation = ''1'', Private = ''k''\<rparr>"

lemma letter_texts:
  "trimSpace ''t1'' = ''t1''" "trimSpace ''grok'' = ''grok''" "trimSpace ''codex'' = ''codex''" "trimSpace ''mac/claude'' = ''mac/claude''"
  "trimSpace ''m1'' = ''m1''" "trimSpace ''th'' = ''th''" "trimSpace ''6869'' = ''6869''" "trimSpace ''1'' = ''1''"
  "ValidateHandle ''grok'' = None" "ValidateHandle ''codex'' = None" "ParseAlias ''mac/claude'' = Inr (''mac'', ''claude'')"
  "validateTransferID ''t1'' = None" "equalFold ''6869'' (hex_str ''hi'')"
  by code_simp+

lemma letter_valid:
  assumes "trimSpace i = i" "i \<noteq> []" "trimSpace t = t" "t \<noteq> []"
  shows "ValidateEnvelope toy_crypto (letter\<lparr>SourceMessageID := i, ThreadID := t\<rparr>) = None"
proof -
  have "hex_str (replicate 64 (CHR ''x'')) \<noteq> []"
    using hex_decode_hex_str [of "replicate 64 (CHR ''x'')"] by auto
  then show ?thesis
    using assms by (simp add: ValidateEnvelope_def envelope_texts_def letter_def EnvelopeVersion_def toy_crypto_def
        letter_texts trimSpace_hex hex_decode_hex_str)
qed

lemma letter_valid0: "ValidateEnvelope toy_crypto letter = None"
  using letter_valid [of "''m1''" "''th''"] by (simp add: letter_def letter_texts)

lemma letter_verified: "VerifyEnvelope toy_crypto letter pub ''1'' = None"
  by (simp add: VerifyEnvelope_def letter_valid0) (simp add: letter_def toy_crypto_def hex_decode_hex_str)

lemma toy_holder: "holder_signed toy_crypto toy_key pub {letter}"
proof -
  have "letter\<lparr>Signature := hex_str (ed_Sign toy_crypto (Private toy_key) (CanonicalBytes letter))\<rparr> = letter"
    by (simp add: letter_def toy_crypto_def)
  then have "SignEnvelope toy_crypto letter toy_key = (None, letter)"
    by (simp add: SignEnvelope_def letter_valid0) (simp add: letter_def toy_key_def)
  moreover have "one_line_ids letter" by code_simp
  moreover have "ed_Verify toy_crypto pub m s \<Longrightarrow> m = CanonicalBytes letter" for m s by (simp add: toy_crypto_def)
  moreover have "Sum256 toy_crypto d = Sum256 toy_crypto d' \<Longrightarrow> d = d'" for d d' by (simp add: toy_crypto_def)
  ultimately show ?thesis unfolding holder_signed_def signed_with_def by blast
qed


text \<open>
  The restriction to identifiers of one line is needed: the code accepts identifiers with line breaks,
  and then different envelopes have the same signed bytes.
\<close>

lemma line_breaks_ambiguous:
  assumes "e1 = letter\<lparr>SourceMessageID := ''m1'' @ [newline] @ ''thread_id=x'', ThreadID := ''y''\<rparr>"
    and "e2 = letter\<lparr>ThreadID := ''x'' @ [newline] @ ''thread_id=y''\<rparr>"
  shows "CanonicalBytes e1 = CanonicalBytes e2 \<and> ThreadID e1 \<noteq> ThreadID e2
     \<and> ValidateEnvelope toy_crypto e1 = None \<and> ValidateEnvelope toy_crypto e2 = None"
proof -
  have "trimSpace (''m1'' @ [newline] @ ''thread_id=x'') = ''m1'' @ [newline] @ ''thread_id=x''" "trimSpace ''y'' = ''y''"
      "trimSpace (''x'' @ [newline] @ ''thread_id=y'') = ''x'' @ [newline] @ ''thread_id=y''"
    by code_simp+
  then have "ValidateEnvelope toy_crypto e1 = None" "ValidateEnvelope toy_crypto e2 = None"
    using letter_valid [of "''m1''" "''x'' @ [newline] @ ''thread_id=y''"] unfolding assms
    by (auto intro!: letter_valid) (simp add: letter_def letter_texts)
  then show ?thesis
    by (simp add: assms CanonicalBytes_def canonical_lines_def letter_def)
qed

end
