(* ===== verification/Bridge_Apply.thy ===== *)
theory Bridge_Apply
  imports Layout Bridge_Envelope Ambient_Files
begin

text \<open>
  The receiving side of the bridge: the private files that name the local host and the trusted peers
  (\<^verbatim>\<open>internal/bridge/auth.go\<close>), delivery into an existing inbox (\<^verbatim>\<open>internal/fsq/maildir.go\<close>), and
  the commit of an envelope (\<^verbatim>\<open>internal/bridge/apply.go\<close>). The permission bits of files are the
  parameter \<open>fmode\<close>.
\<close>

section \<open>Private files\<close>

definition HostIDPath :: path where "HostIDPath = [''bridge'', ''host-id'']"
definition IdentityPath :: path where "IdentityPath = [''bridge'', ''identity'']"
definition TrustedPath :: "string \<Rightarrow> path" where "TrustedPath host = [''bridge'', ''trusted'', host]"

definition validatePrivateKeyInfo :: "modes \<Rightarrow> path \<Rightarrow> node \<Rightarrow> goerr option" where
  "validatePrivateKeyInfo fmode p n =
     (if isSymlink n then Some (Msg ''must not be a symlink'')
      else if \<not> isRegular n then Some (Msg ''must be a regular file'')
      else if fmode p \<noteq> 384 then Some (Msg ''mode is not 0600'')
      else None)"

definition readPrivateKeyRootFile :: "modes \<Rightarrow> droot \<Rightarrow> path \<Rightarrow> (goerr + bytes) io" where
  "readPrivateKeyRootFile fmode r rel =
     guard (OpenRegularNoFollow r rel) (\<lambda>n.
     case validatePrivateKeyInfo fmode rel n of Some e \<Rightarrow> fail e | None \<Rightarrow>
     bind (sys_query (\<lambda>_. read_bytes n)) (\<lambda>d.
     bind sys_noop (\<lambda>closed.
     case d of Inl e \<Rightarrow> fail e | Inr data \<Rightarrow> (case closed of Inl e \<Rightarrow> fail e | Inr _ \<Rightarrow> ok data))))"

definition readPrivateKeyFile :: "modes \<Rightarrow> path \<Rightarrow> (goerr + bytes) io" where
  "readPrivateKeyFile fmode p =
     guard (sys_query (lstat p)) (\<lambda>n.
     case validatePrivateKeyInfo fmode p n of Some e \<Rightarrow> fail e | None \<Rightarrow> ReadRegularNoFollowPath p)"

definition writePrivateFile :: "path \<Rightarrow> bytes \<Rightarrow> (goerr + unit) io" where
  "writePrivateFile p d =
     guard (sys_upd (create_excl p)) (\<lambda>_.
     let undo = (\<lambda>e. bind (sys_upd (remove p)) (\<lambda>_. fail e)) in
     on_err (sys_write p d) (\<lambda>e. bind sys_noop (\<lambda>_. undo e)) (\<lambda>_.
     on_err sys_noop (\<lambda>e. bind sys_noop (\<lambda>_. undo e)) (\<lambda>_.
     on_err sys_noop undo (\<lambda>_. ok ()))))"

definition parseHostID :: "bytes \<Rightarrow> goerr + string" where
  "parseHostID data =
     (let host = trimSpace data in
      case ValidateHandle host of Some e \<Rightarrow> Inl (Wrap ''bridge host-id'' e) | None \<Rightarrow>
      if data \<noteq> host @ [newline] \<and> data \<noteq> host then Inl (Msg ''bridge host-id has surrounding whitespace'') else Inr host)"

fun key_lines :: "(string \<times> string) list \<Rightarrow> string list \<Rightarrow> goerr + (string \<times> string) list" where
  "key_lines kv [] = Inr kv"
| "key_lines kv (l # ls) =
     (case cut (trimSpace l) '' '' of (k, v, found) \<Rightarrow>
      if \<not> found \<or> k = [] \<or> v = [] \<or> containsAny v ('' '' @ [CHR 0x09]) then Inl (Msg ''line is invalid'')
      else if map_of kv k \<noteq> None then Inl (Msg ''repeats field'')
      else key_lines (kv @ [(k, v)]) ls)"

text \<open>A missing field of a Go map reads as the empty string.\<close>

definition field_val :: "(string \<times> string) list \<Rightarrow> string \<Rightarrow> string" where
  "field_val kv k = (case map_of kv k of None \<Rightarrow> [] | Some v \<Rightarrow> v)"

definition parseKeyFields :: "bytes \<Rightarrow> string \<Rightarrow> goerr + (string \<times> string) list" where
  "parseKeyFields data secretField =
     (case key_lines [] (splitOn newline (trimSpace data)) of Inl e \<Rightarrow> Inl e | Inr kv \<Rightarrow>
      let generation = field_val kv ''generation'' in
      if generation = [] \<or> generation \<noteq> trimSpace generation then Inl (Msg ''generation is invalid'')
      else if field_val kv secretField = [] then Inl (Msg ''missing field'')
      else if length kv \<noteq> 2 then Inl (Msg ''has unknown fields'')
      else Inr kv)"

definition LoadHostID :: "modes \<Rightarrow> (goerr + string) io" where
  "LoadHostID fmode =
     on_err (readPrivateKeyFile fmode HostIDPath) (\<lambda>e. fail (Wrap ''bridge host-id'' e)) (\<lambda>data. ret (parseHostID data))"

definition LoadHostIDFromDeliveryRoot :: "modes \<Rightarrow> droot \<Rightarrow> (goerr + string) io" where
  "LoadHostIDFromDeliveryRoot fmode r =
     on_err (readPrivateKeyRootFile fmode r HostIDPath) (\<lambda>e. fail (Wrap ''bridge host-id'' e)) (\<lambda>data. ret (parseHostID data))"

definition WriteHostID :: "string \<Rightarrow> (goerr + unit) io" where
  "WriteHostID host =
     (case ValidateHandle host of Some e \<Rightarrow> fail (Wrap ''bridge host-id'' e) | None \<Rightarrow>
      on_err (mkdirAll [''bridge''] 448) (\<lambda>e. fail (Wrap ''create bridge directory'' e)) (\<lambda>_.
      writePrivateFile HostIDPath (host @ [newline])))"

text \<open>The public key and the generation in the text of a trusted file.\<close>

definition parse_trusted :: "bytes \<Rightarrow> goerr + bytes \<times> string" where
  "parse_trusted data =
     (case parseKeyFields data ''public'' of Inl e \<Rightarrow> Inl (Wrap ''trusted host'' e) | Inr kv \<Rightarrow>
      case hex_decode (field_val kv ''public'') of
        None \<Rightarrow> Inl (Msg ''trusted host public key'')
      | Some pub \<Rightarrow>
          (if length pub \<noteq> 32 then Inl (Msg ''trusted host public key must be 32 bytes'')
           else Inr (pub, field_val kv ''generation'')))"

definition LoadTrusted :: "modes \<Rightarrow> string \<Rightarrow> (goerr + bytes \<times> string) io" where
  "LoadTrusted fmode host =
     (case ValidateHandle host of Some e \<Rightarrow> fail (Wrap ''trusted source host'' e) | None \<Rightarrow>
      on_err (readPrivateKeyFile fmode (TrustedPath host)) (\<lambda>e. fail (Wrap ''trusted host'' e)) (\<lambda>data. ret (parse_trusted data)))"

definition LoadTrustedFromDeliveryRoot :: "modes \<Rightarrow> droot \<Rightarrow> string \<Rightarrow> (goerr + bytes \<times> string) io" where
  "LoadTrustedFromDeliveryRoot fmode r host =
     (case ValidateHandle host of Some e \<Rightarrow> fail (Wrap ''trusted source host'' e) | None \<Rightarrow>
      on_err (readPrivateKeyRootFile fmode r (TrustedPath host)) (\<lambda>e. fail (Wrap ''trusted host'' e)) (\<lambda>data. ret (parse_trusted data)))"

definition trusted_text :: "bytes \<Rightarrow> string \<Rightarrow> bytes" where
  "trusted_text pub generation = ''generation '' @ generation @ [newline] @ ''public '' @ hex_str pub @ [newline]"

definition WriteTrusted :: "string \<Rightarrow> bytes \<Rightarrow> string \<Rightarrow> (goerr + unit) io" where
  "WriteTrusted host pub generation0 =
     (case ValidateHandle host of Some e \<Rightarrow> fail (Wrap ''trusted source host'' e) | None \<Rightarrow>
      let generation = trimSpace generation0 in
      if generation = [] then fail (Msg ''trusted host generation is required'')
      else if length pub \<noteq> 32 then fail (Msg ''trusted host public key must be 32 bytes'')
      else on_err (mkdirAll [''bridge'', ''trusted''] 448) (\<lambda>e. fail (Wrap ''create trusted directory'' e)) (\<lambda>_.
        writePrivateFile (TrustedPath host) (trusted_text pub generation)))"

section \<open>Delivery into an existing inbox\<close>

definition DeliverToExistingInbox :: "modes \<Rightarrow> droot \<Rightarrow> string \<Rightarrow> string \<Rightarrow> bytes \<Rightarrow> (goerr + path) io" where
  "DeliverToExistingInbox fmode r agent filename d =
     (case ValidateHandle agent of Some e \<Rightarrow> fail e | None \<Rightarrow>
      case ValidateMessageFilename filename of Some e \<Rightarrow> fail e | None \<Rightarrow>
      guard (VerifyBase r) (\<lambda>_.
      guard (ValidateExistingMailboxLayout fmode r [agent]) (\<lambda>_.
      bind (dirExists (inbox_tmp agent)) (\<lambda>hasTmp.
      if \<not> hasTmp then fail (Msg ''peer inbox tmp dir does not exist'') else
      bind (dirExists (inbox_new agent)) (\<lambda>hasNew.
      if \<not> hasNew then fail (Msg ''peer inbox new dir does not exist'') else
      guard (uniqueAttemptTmpPath (inbox_tmp agent) filename) (\<lambda>tp.
      guard (writeAndSync tp d) (\<lambda>_.
      on_err (syncDir (inbox_tmp agent)) (\<lambda>e. bind (cleanupTemp tp e) fail) (\<lambda>_.
      on_err (publishTmpNoReplace r tp (new_msg agent filename) d) (\<lambda>e. fail (Wrap ''rename tmp->new'' e)) (\<lambda>_.
      let committedPath = displayPath r (new_msg agent filename) in
      on_err (syncDir (inbox_new agent))
        (\<lambda>e. fail (CommittedDurability committedPath agent (Wrap ''sync new dir'' e))) (\<lambda>_.
      bind (syncDir (inbox_tmp agent)) (\<lambda>_. ok committedPath)))))))))))"

section \<open>Committing an envelope\<close>

record ApplyResult =
  arPath :: path
  Replayed :: bool

definition ApplyEnvelope :: "crypto \<Rightarrow> modes \<Rightarrow> droot \<Rightarrow> string \<Rightarrow> string \<Rightarrow> Envelope \<Rightarrow> (goerr + ApplyResult) io" where
  "ApplyEnvelope c fmode r localHost localAgent env =
     (case ValidateEnvelope c env of Some e \<Rightarrow> fail e | None \<Rightarrow>
      case ParseAlias (DestAlias env) of Inl e \<Rightarrow> fail e | Inr (destHost, destAgent) \<Rightarrow>
      if destHost \<noteq> localHost then fail (Msg ''bridge dest_alias host is not local host'')
      else if destAgent \<noteq> localAgent then fail (Msg ''bridge dest_alias agent is not local agent'')
      else
        let filename = TransferFilename (SourceHost env) (TransferID env); rel = new_msg localAgent filename in
        bind (StatR r rel) (\<lambda>existed.
        on_err (DeliverToExistingInbox fmode r localAgent filename (Payload env))
          (\<lambda>err. if \<not> isErrExist err then fail err
            else on_err (ReadRegularNoFollow r rel) (\<lambda>_. fail err) (\<lambda>existing.
              if existing = Payload env then ok \<lparr>arPath = displayPath r rel, Replayed = True\<rparr> else fail err))
          (\<lambda>p. ok \<lparr>arPath = p, Replayed = (case existed of Inr _ \<Rightarrow> True | Inl _ \<Rightarrow> False)\<rparr>)))"

lemmas [go_defs] = readPrivateKeyRootFile_def DeliverToExistingInbox_def ApplyEnvelope_def

section \<open>Delivery into an existing inbox is whole or nothing\<close>

fun durability_error :: "goerr \<Rightarrow> bool" where
  "durability_error (CommittedDurability _ _ _) = True"
| "durability_error _ = False"

text \<open>The agents that have the message, by the result of a delivery to one agent.\<close>

definition reached :: "string \<Rightarrow> goerr + 'a \<Rightarrow> string list" where
  "reached agent x = (case x of Inr _ \<Rightarrow> [agent] | Inl e \<Rightarrow> if durability_error e then [agent] else [])"

lemma errs_inspect: "errs (\<lambda>e. \<not> durability_error e) (inspectMailboxLayout fm r extra)"
  unfolding inspectMailboxLayout_def openLayoutRootCapability_def case_prod_beta
  by (intro errs_guard errs_VerifyBase errs_sys_query errs_ok errs_bind) simp_all

lemma first_invalid_soft: "first_invalid hs = Some e \<Longrightarrow> \<not> durability_error e"
  by (induction hs)
     (auto simp: ValidateHandle_def validateLegacyInspectableHandle_def split: option.splits if_splits)

lemma incomplete_soft: "incomplete ms hs = Some e \<Longrightarrow> \<not> durability_error e"
  by (induction hs) (auto split: option.splits if_splits)

lemma errs_Validate: "errs (\<lambda>e. \<not> durability_error e) (ValidateExistingMailboxLayout fm r hs)"
  unfolding ValidateExistingMailboxLayout_def Let_def
  by (auto split: option.split intro!: errs_guard errs_inspect errs_ok errs_fail dest: first_invalid_soft incomplete_soft)

lemma keeps_Validate: "keeps (\<lambda>f. map_of f = g) (ValidateExistingMailboxLayout fm r hs)"
  unfolding keeps_def by (rule triple_post [OF Validate_spec]) simp

lemma attempt_delivered: "g tp = None \<Longrightarrow> attempt_tmp fn tp \<Longrightarrow> delivered_only g fn d rs (g(tp \<mapsto> Reg c))"
  by (rule delivered_only_put_attempt) (simp_all add: delivered_only_refl)

lemma errs_attempt_name: "errs (\<lambda>e. \<not> durability_error e) (uniqueAttemptTmpPath dir fn)"
  by (auto simp: errs_def uniqueAttemptTmpPath_def uniqueAttemptTmpName_def on_err_def bind_def fail_def ok_def ret_def
      read_random_def get_now_def get_pid_def Let_def split: prod.splits option.splits sum.splits)

lemma deliver_existing_commit:
  assumes tp: "attempt_tmp fn tp" and free: "g tp = None"
  shows "triple (\<lambda>f. map_of f = g(tp \<mapsto> Reg d))
     (on_err (publishTmpNoReplace r tp (new_msg a fn) d) (\<lambda>e. fail (Wrap ''rename tmp->new'' e)) (\<lambda>_.
      let committedPath = displayPath r (new_msg a fn) in
      on_err (syncDir (inbox_new a)) (\<lambda>e. fail (CommittedDurability committedPath a (Wrap ''sync new dir'' e))) (\<lambda>_.
      bind (syncDir (inbox_tmp a)) (\<lambda>_. ok committedPath))))
     (\<lambda>x f. published g fn d (reached a x) (map_of f))" (is "triple ?P _ ?Q")
proof -
  have tn: "tp \<noteq> new_msg a fn" using attempt_new_disjoint [OF tp, of a fn] by simp
  have base: "delivered_only g fn d [a] g" "delivered_only g fn d [] g" by (rule delivered_only_refl)+
  have put: "delivered_only g fn d rs (g(tp \<mapsto> Reg d))" for rs
    by (rule attempt_delivered) (rule free, rule tp)
  have dropped: "(g(tp \<mapsto> Reg d))(tp := None) = g" using free by auto
  have fin: "published g fn d [a] h"
    if "(g(tp \<mapsto> Reg d)) (new_msg a fn) = None \<and> h = (g(tp \<mapsto> Reg d))(tp := None, new_msg a fn \<mapsto> Reg d)
      \<or> (g(tp \<mapsto> Reg d)) (new_msg a fn) = Some (Reg d) \<and> (h = g(tp \<mapsto> Reg d) \<or> h = (g(tp \<mapsto> Reg d))(tp := None))" for h
  proof -
    have np: "(g(tp \<mapsto> Reg d)) (new_msg a fn) = g (new_msg a fn)" using tn by simp
    from that consider "g (new_msg a fn) = None" "h = g(new_msg a fn \<mapsto> Reg d)"
      | "g (new_msg a fn) = Some (Reg d)" "h = g(tp \<mapsto> Reg d)" | "g (new_msg a fn) = Some (Reg d)" "h = g"
      unfolding np dropped by iprover
    then show ?thesis
    proof cases
      case 1
      have "delivered_only g fn d [a] h"
        unfolding 1(2) by (rule delivered_only_put_final [OF base(1) 1(1), of a]) simp_all
      with 1 show ?thesis by (simp add: published_def)
    qed (use tn base(1) put in \<open>simp_all add: published_def\<close>)
  qed
  have none: "published g fn d [] h" if "h = g(tp \<mapsto> Reg d) \<or> h = (g(tp \<mapsto> Reg d))(tp := None)" for h
    using that dropped base(2) put [of "[]"] by (auto simp: published_def)
  have finish: "triple (\<lambda>f. published g fn d [a] (map_of f))
      (on_err (syncDir (inbox_new a)) (\<lambda>e. fail (CommittedDurability cp a (Wrap ''sync new dir'' e))) (\<lambda>_.
        bind (syncDir (inbox_tmp a)) (\<lambda>_. ok cp))) ?Q" for cp
    by (rule triple_on_err [OF keeps_triple [OF keeps_syncDir]], rule triple_fail, simp add: reached_def,
        rule triple_bind [OF keeps_triple [OF keeps_syncDir]], rule triple_ok, simp add: reached_def)
  show ?thesis
    unfolding Let_def
    by (rule triple_on_err [OF publishTmpNoReplace_spec], simp, simp_all only: sum.case,
        rule triple_fail, simp add: reached_def none, rule triple_pre [OF finish], rule fin)
qed

lemma deliver_existing_stage:
  assumes tp: "attempt_tmp fn tp"
  shows "triple (\<lambda>f. map_of f = g)
     (guard (writeAndSync tp d) (\<lambda>_.
      on_err (syncDir (inbox_tmp a)) (\<lambda>e. bind (cleanupTemp tp e) fail) (\<lambda>_.
      on_err (publishTmpNoReplace r tp (new_msg a fn) d) (\<lambda>e. fail (Wrap ''rename tmp->new'' e)) (\<lambda>_.
      let committedPath = displayPath r (new_msg a fn) in
      on_err (syncDir (inbox_new a)) (\<lambda>e. fail (CommittedDurability committedPath a (Wrap ''sync new dir'' e))) (\<lambda>_.
      bind (syncDir (inbox_tmp a)) (\<lambda>_. ok committedPath))))))
     (\<lambda>x f. published g fn d (reached a x) (map_of f))" (is "triple ?P _ ?Q")
proof -
  have soft: "triple (\<lambda>f. published g fn d [] (map_of f)) (fail e) ?Q" if "\<not> durability_error e" for e
    by (rule triple_fail) (use that in \<open>simp add: reached_def\<close>)
  have attempt: "published g fn d [] (g(tp \<mapsto> Reg c))" if "g tp = None" for c
    using attempt_delivered [where tp = tp, OF _ tp] that by (simp add: published_def)
  have undo: "triple (\<lambda>f. map_of f = g(tp \<mapsto> Reg d)) (bind (cleanupTemp tp e) fail) ?Q"
    if "g tp = None" "\<not> durability_error e" for e
  proof (rule triple_bind)
    have "triple (\<lambda>f. map_of f = g(tp \<mapsto> Reg d)) (cleanupTemp tp e)
        (\<lambda>e' f. (map_of f = g(tp \<mapsto> Reg d) \<or> map_of f = (g(tp \<mapsto> Reg d))(tp := None)) \<and> \<not> durability_error e')"
      unfolding cleanupTemp_def
      by (rule triple_bind [OF sys_remove_spec]) (use that in \<open>auto intro!: triple_ret split: sum.splits\<close>)
    then show "triple (\<lambda>f. map_of f = g(tp \<mapsto> Reg d)) (cleanupTemp tp e)
        (\<lambda>e' f. published g fn d [] (map_of f) \<and> \<not> durability_error e')"
      by (rule triple_post) (use that attempt published_refl in \<open>auto simp: fun_upd_idem\<close>)
    show "triple (\<lambda>f. published g fn d [] (map_of f) \<and> \<not> durability_error e') (fail e') ?Q" for e'
      by (rule triple_pure2) (rule soft)
  qed
  have sync: "triple (\<lambda>f. map_of f = h) (syncDir p) (\<lambda>x f. map_of f = h \<and> (\<forall>e. x = Inl e \<longrightarrow> \<not> durability_error e))" for h p
    by (rule triple_errs [OF keeps_triple [OF keeps_syncDir] errs_syncDir]) simp
  note wr = triple_errs [where E = "\<lambda>e. \<not> durability_error e", OF writeAndSync_spec errs_writeAndSync]
  show ?thesis
  proof (rule triple_on_err [OF wr], simp, simp_all only: sum.case)
    show "triple (\<lambda>f. (map_of f = g \<or> g tp = None \<and> (\<exists>c. map_of f = g(tp \<mapsto> Reg c))) \<and> (\<forall>e'. Inl e = Inl e' \<longrightarrow> \<not> durability_error e'))
        (fail e) ?Q" for e
      by (rule triple_pure2, rule triple_pre [OF soft]) (use attempt published_refl in auto)
    show "triple (\<lambda>f. (g tp = None \<and> map_of f = g(tp \<mapsto> Reg d)) \<and> (\<forall>e. Inr u = Inl e \<longrightarrow> \<not> durability_error e))
        (on_err (syncDir (inbox_tmp a)) (\<lambda>e. bind (cleanupTemp tp e) fail) (\<lambda>_.
         on_err (publishTmpNoReplace r tp (new_msg a fn) d) (\<lambda>e. fail (Wrap ''rename tmp->new'' e)) (\<lambda>_.
         let committedPath = displayPath r (new_msg a fn) in
         on_err (syncDir (inbox_new a)) (\<lambda>e. fail (CommittedDurability committedPath a (Wrap ''sync new dir'' e))) (\<lambda>_.
         bind (syncDir (inbox_tmp a)) (\<lambda>_. ok committedPath))))) ?Q" for u
      by (rule triple_pure2, rule triple_pure, rule triple_on_err [OF sync]; rule triple_pure2)
         (simp_all add: undo deliver_existing_commit [OF tp, unfolded Let_def] Let_def)
  qed
qed

lemma DeliverToExistingInbox_spec:
  "triple (\<lambda>f. map_of f = g) (DeliverToExistingInbox fm r a fn d) (\<lambda>x f. published g fn d (reached a x) (map_of f))"
  (is "triple ?P _ ?Q")
proof -
  have soft: "triple ?P (fail e) ?Q" if "\<not> durability_error e" for e
    by (rule triple_fail) (use that in \<open>auto simp: reached_def intro: published_refl\<close>)
  have softly: "triple (\<lambda>f. ?P f \<and> (\<forall>e'. Inl e = Inl e' \<longrightarrow> \<not> durability_error e')) (fail e) ?Q" for e
    by (rule triple_pure2) (simp add: soft)
  have bad: "\<not> durability_error e" if "ValidateHandle a = Some e" for e
    using first_invalid_soft [of "[a]" e] that by simp
  have bad': "\<not> durability_error e" if "ValidateMessageFilename fn = Some e" for e
    using that by (auto simp: ValidateMessageFilename_def split: if_splits)
  have verify: "triple ?P (VerifyBase r) (\<lambda>x f. ?P f \<and> (\<forall>e. x = Inl e \<longrightarrow> \<not> durability_error e))"
    by (rule triple_errs [OF keeps_triple [OF keeps_VerifyBase] errs_VerifyBase]) simp_all
  have layout: "triple ?P (ValidateExistingMailboxLayout fm r [a]) (\<lambda>x f. ?P f \<and> (\<forall>e. x = Inl e \<longrightarrow> \<not> durability_error e))"
    by (rule triple_errs [OF keeps_triple [OF keeps_Validate] errs_Validate])
  have name: "triple ?P (uniqueAttemptTmpPath (inbox_tmp a) fn)
      (\<lambda>x f. ?P f \<and> (case x of Inl e \<Rightarrow> \<not> durability_error e | Inr tp \<Rightarrow> attempt_tmp fn tp))"
    by (rule triple_post [OF triple_errs [OF uniqueAttemptTmpPath_spec errs_attempt_name]]) (auto split: sum.splits)
  show ?thesis
    unfolding DeliverToExistingInbox_def
    apply (cases "ValidateHandle a"; cases "ValidateMessageFilename fn"; simp add: soft bad bad')
    apply (rule triple_on_err [OF verify softly], rule triple_pure2)
    apply (rule triple_on_err [OF layout softly], rule triple_pure2)
    apply (rule triple_bind [OF keeps_triple [OF keeps_dirExists]], rule triple_if, rule soft, simp)
    apply (rule triple_bind [OF keeps_triple [OF keeps_dirExists]], rule triple_if, rule soft, simp)
    apply (rule triple_on_err [OF name]; rule triple_pure2, simp add: soft deliver_existing_stage)
    done
qed

section \<open>Committing an envelope is exact\<close>

lemma ValidateHandle_soft: "ValidateHandle h = Some e \<Longrightarrow> \<not> durability_error e"
  using first_invalid_soft [of "[h]" e] by simp

lemma ParseAlias_soft: "ParseAlias a = Inl e \<Longrightarrow> \<not> durability_error e"
  by (auto simp: ParseAlias_def split: prod.splits if_splits option.splits)

lemma blank_field_soft: "blank_field ts = Some e \<Longrightarrow> \<not> durability_error e"
  by (induction ts rule: blank_field.induct) (auto split: if_splits)

lemma ValidateEnvelope_soft: "ValidateEnvelope c env = Some e \<Longrightarrow> \<not> durability_error e"
  by (auto simp: ValidateEnvelope_def validateTransferID_def split: if_splits option.splits sum.splits
      dest: blank_field_soft ParseAlias_soft)

lemma published_found:
  "published g fn d [] h \<Longrightarrow> h (new_msg a fn) = Some (Reg d) \<Longrightarrow> published g fn d [a] h"
  by (auto simp: published_def intro: delivered_only_mono)

lemma ApplyEnvelope_spec:
  "triple (\<lambda>f. map_of f = g) (ApplyEnvelope c fm r host agent env)
     (\<lambda>x f. published g (TransferFilename (SourceHost env) (TransferID env)) (Payload env) (reached agent x) (map_of f)
        \<and> (reached agent x \<noteq> [] \<longrightarrow> ValidateEnvelope c env = None \<and> ParseAlias (DestAlias env) = Inr (host, agent)))"
  (is "triple ?P _ ?Q")
proof -
  let ?fn = "TransferFilename (SourceHost env) (TransferID env)"
  have soft: "triple ?P (fail e) ?Q" if "\<not> durability_error e" for e
    by (rule triple_fail) (use that in \<open>auto simp: reached_def intro: published_refl\<close>)
  have late: "triple (\<lambda>f. published g ?fn (Payload env) (reached agent (Inl err)) (map_of f))
      (if \<not> isErrExist err then fail err
       else on_err (ReadRegularNoFollow r (new_msg agent ?fn)) (\<lambda>_. fail err) (\<lambda>existing.
         if existing = Payload env then ok \<lparr>arPath = displayPath r (new_msg agent ?fn), Replayed = True\<rparr> else fail err)) ?Q"
    if "ValidateEnvelope c env = None" "ParseAlias (DestAlias env) = Inr (host, agent)" for err
  proof (rule triple_if)
    show "triple (\<lambda>f. published g ?fn (Payload env) (reached agent (Inl err)) (map_of f)) (fail err) ?Q"
      by (rule triple_fail) (use that in \<open>simp add: reached_def\<close>)
    show "triple (\<lambda>f. published g ?fn (Payload env) (reached agent (Inl err)) (map_of f))
       (on_err (ReadRegularNoFollow r (new_msg agent ?fn)) (\<lambda>_. fail err) (\<lambda>existing.
         if existing = Payload env then ok \<lparr>arPath = displayPath r (new_msg agent ?fn), Replayed = True\<rparr> else fail err)) ?Q"
    proof (rule triple_by_map, rule triple_on_err [OF ReadRegularNoFollow_spec])
      fix h assume h: "published g ?fn (Payload env) (reached agent (Inl err)) h"
      show "triple (\<lambda>f. map_of f = h \<and> (\<forall>ca. Inl e = Inr ca \<longrightarrow> h (new_msg agent ?fn) = Some (Reg ca))) (fail err) ?Q" for e
        by (rule triple_fail) (use that h in \<open>simp add: reached_def\<close>)
      have "published g ?fn (Payload env) [agent] h" if "h (new_msg agent ?fn) = Some (Reg (Payload env))"
        using h that by (auto simp: reached_def published_found split: if_splits)
      then show "triple (\<lambda>f. map_of f = h \<and> (\<forall>ca. Inr existing = Inr ca \<longrightarrow> h (new_msg agent ?fn) = Some (Reg ca)))
        (if existing = Payload env then ok \<lparr>arPath = displayPath r (new_msg agent ?fn), Replayed = True\<rparr> else fail err) ?Q" for existing
        using that h by (auto intro!: triple_ok triple_fail triple_pure2 simp: reached_def)
    qed
  qed
  have commit: "triple ?P (bind (StatR r (new_msg agent ?fn)) (\<lambda>existed.
        on_err (DeliverToExistingInbox fm r agent ?fn (Payload env))
          (\<lambda>err. if \<not> isErrExist err then fail err
            else on_err (ReadRegularNoFollow r (new_msg agent ?fn)) (\<lambda>_. fail err) (\<lambda>existing.
              if existing = Payload env then ok \<lparr>arPath = displayPath r (new_msg agent ?fn), Replayed = True\<rparr> else fail err))
          (\<lambda>p. ok \<lparr>arPath = p, Replayed = (case existed of Inr _ \<Rightarrow> True | Inl _ \<Rightarrow> False)\<rparr>))) ?Q"
    if "ValidateEnvelope c env = None" "ParseAlias (DestAlias env) = Inr (host, agent)"
    by (rule triple_bind [OF keeps_triple [OF keeps_StatR]], rule triple_on_err [OF DeliverToExistingInbox_spec late [OF that]],
        rule triple_ok) (use that in \<open>simp add: reached_def\<close>)
  define Q where "Q = ?Q"
  show ?thesis
    using soft [folded Q_def] commit [folded Q_def]
    unfolding ApplyEnvelope_def Let_def Q_def [symmetric]
    by (auto split: option.split sum.split dest: ValidateEnvelope_soft ParseAlias_soft)
qed

lemma ApplyEnvelope_run:
  "published (map_of (fs w)) (TransferFilename (SourceHost env) (TransferID env)) (Payload env)
     (reached agent (fst (ApplyEnvelope c fm r host agent env w))) (map_of (fs (snd (ApplyEnvelope c fm r host agent env w))))
   \<and> (reached agent (fst (ApplyEnvelope c fm r host agent env w)) \<noteq> [] \<longrightarrow> ParseAlias (DestAlias env) = Inr (host, agent))"
  using triple_run [OF ApplyEnvelope_spec [of "map_of (fs w)"], of w] by blast

lemma published_new_msg:
  assumes "published g fn d rs h" and "h (new_msg a n) \<noteq> g (new_msg a n)"
  shows "a \<in> set rs \<and> n = fn \<and> g (new_msg a n) = None \<and> h (new_msg a n) = Some (Reg d)"
proof -
  from assms(1) have dn: "delivery_node fn d rs (new_msg a n) (g (new_msg a n)) (h (new_msg a n))"
    unfolding published_def delivered_only_def by (blast dest: pointwiseD)
  with assms(2) have none: "g (new_msg a n) = None" by (cases "g (new_msg a n)") (auto simp: delivery_node_def)
  with assms(2) obtain y where y: "h (new_msg a n) = Some y" by (cases "h (new_msg a n)") auto
  from dn show ?thesis unfolding none y by (auto simp: delivery_node_def attempt_tmp_def split: node.splits)
qed

text \<open>
  C18: applying an envelope is whole or nothing at every crash point. On success the payload is in the
  \<^verbatim>\<open>inbox/new\<close> of the agent the envelope is addressed to, under the name of its transfer; on an error
  that does not say the message is committed, no inbox shows anything new; and nothing that was there
  before is changed, so a different payload under the name of an applied transfer is refused.
\<close>

theorem apply_whole_or_nothing:
  assumes x: "ApplyEnvelope c fm r host agent env w = (x, w')" and fn: "fn = TransferFilename (SourceHost env) (TransferID env)"
  shows "(\<forall>res. x = Inr res \<longrightarrow> ParseAlias (DestAlias env) = Inr (host, agent)
            \<and> map_of (fs w') (new_msg agent fn) = Some (Reg (Payload env)))
     \<and> (\<forall>e a n. x = Inl e \<longrightarrow> \<not> durability_error e \<longrightarrow> map_of (fs w') (new_msg a n) = map_of (fs w) (new_msg a n))
     \<and> (\<forall>a n. map_of (fs w') (new_msg a n) \<noteq> map_of (fs w) (new_msg a n) \<longrightarrow>
          a = agent \<and> n = fn \<and> map_of (fs w') (new_msg a n) = Some (Reg (Payload env)))
     \<and> (\<forall>p n. map_of (fs w) p = Some n \<longrightarrow> map_of (fs w') p = Some n)"
proof -
  from ApplyEnvelope_run [of w env agent c fm r host] have
      p: "published (map_of (fs w)) fn (Payload env) (reached agent x) (map_of (fs w'))"
      and a: "reached agent x \<noteq> [] \<longrightarrow> ParseAlias (DestAlias env) = Inr (host, agent)"
    by (simp_all add: x fn)
  have sub: "set (reached agent x) \<subseteq> {agent}" by (auto simp: reached_def split: sum.splits)
  show ?thesis
  proof (intro conjI allI impI)
    show "ParseAlias (DestAlias env) = Inr (host, agent)" if "x = Inr res" for res
      using a that by (simp add: reached_def)
    show "map_of (fs w') (new_msg agent fn) = Some (Reg (Payload env))" if "x = Inr res" for res
      using p that by (simp add: reached_def published_def)
    show "map_of (fs w') (new_msg a n) = map_of (fs w) (new_msg a n)" if "x = Inl e" "\<not> durability_error e" for e a n
      using published_new_msg [OF p, of a n] that by (auto simp: reached_def)
    show "map_of (fs w') q = Some n" if "map_of (fs w) q = Some n" for q n
      using p that by (auto simp: published_def dest: delivered_only_old)
  next
    fix a n assume "map_of (fs w') (new_msg a n) \<noteq> map_of (fs w) (new_msg a n)"
    from published_new_msg [OF p this] sub
    show "a = agent" and "n = fn" and "map_of (fs w') (new_msg a n) = Some (Reg (Payload env))" by auto
  qed
qed

text \<open>
  A mailbox for examples, in a queue with the files of the bridge: a dropped file, the name of the local
  host and a trusted key. The application of \<open>letter\<close> to it.
\<close>

definition claude_box :: fs where
  "claude_box = ([''agents''], Dir 448) # map (\<lambda>rel. (mailbox_path ''claude'' rel, Dir 448)) mailboxComponentPaths"

definition post_office :: "bytes \<Rightarrow> bytes \<Rightarrow> fs" where
  "post_office d key = claude_box @ [(cur_msg ''claude'' ''xfer-grok-t1.md'', Reg ''hi''), ([''drop''], Reg d), ([''bridge''], Dir 448),
     (HostIDPath, Reg ''mac''), ([''bridge'', ''trusted''], Dir 448), (TrustedPath ''grok'', Reg key)]"

abbreviation calm_at :: "fs \<Rightarrow> nat \<Rightarrow> world" where "calm_at f n \<equiv> (calm f)\<lparr>tick := n\<rparr>"

abbreviation apply_letter :: "(goerr + ApplyResult) io" where
  "apply_letter \<equiv> ApplyEnvelope toy_crypto (\<lambda>_. 384) root7 ''mac'' ''claude'' letter"

lemma letter_parts: "Payload letter = ''hi''" "DestAlias letter = ''mac/claude''" "SourceHost letter = ''grok''" "TransferID letter = ''t1''"
  by (simp_all add: letter_def)

lemma apply_letter_run:
  "apply_letter =
     bind (StatR root7 (new_msg ''claude'' ''xfer-grok-t1.md'')) (\<lambda>existed.
        on_err (DeliverToExistingInbox (\<lambda>_. 384) root7 ''claude'' ''xfer-grok-t1.md'' ''hi'')
          (\<lambda>err. if \<not> isErrExist err then fail err
            else on_err (ReadRegularNoFollow root7 (new_msg ''claude'' ''xfer-grok-t1.md'')) (\<lambda>_. fail err) (\<lambda>existing.
              if existing = ''hi'' then ok \<lparr>arPath = displayPath root7 (new_msg ''claude'' ''xfer-grok-t1.md''), Replayed = True\<rparr> else fail err))
          (\<lambda>p. ok \<lparr>arPath = p, Replayed = (case existed of Inr _ \<Rightarrow> True | Inl _ \<Rightarrow> False)\<rparr>))"
  by (simp add: ApplyEnvelope_def letter_valid0 letter_parts letter_texts TransferFilename_def Let_def cong: if_cong)

text \<open>
  The agent already took the message of \<open>letter\<close>: it is in \<^verbatim>\<open>inbox/cur\<close> under the name of the transfer.
  Applying the same envelope again, as a sender does whose acknowledgement was lost, is not seen as a
  replay: only \<^verbatim>\<open>inbox/new\<close> is looked at.
\<close>

lemma taken_transfer_applied_again:
  "fst (apply_letter (calm_at (post_office d key) n)) = Inr \<lparr>arPath = ''q'' # new_msg ''claude'' ''xfer-grok-t1.md'', Replayed = False\<rparr>"
  unfolding apply_letter_run by code_simp

theorem apply_whole_or_nothing_witness:
  "map_of (fs (snd (apply_letter (calm_at (post_office [] []) 0)))) (new_msg ''claude'' ''xfer-grok-t1.md'') = Some (Reg ''hi'')"
proof -
  have fn: "''xfer-grok-t1.md'' = TransferFilename (SourceHost letter) (TransferID letter)"
    by (simp add: letter_parts TransferFilename_def)
  from apply_whole_or_nothing [OF prod.collapse [symmetric] fn, THEN conjunct1, rule_format, OF taken_transfer_applied_again]
  show ?thesis by (simp add: letter_parts)
qed

section \<open>Names of transfers\<close>

text \<open>
  The name of a transfer determines its host and identifier among identifiers of one length, such as
  those the courier makes. Identifiers of different lengths may share a name across hosts, although
  hosts and identifiers are both valid.
\<close>

lemma transfer_name_unique:
  "TransferFilename h i = TransferFilename h' i' \<Longrightarrow> length i = length i' \<Longrightarrow> h = h' \<and> i = i'"
  by (simp add: TransferFilename_def append_assoc [symmetric] del: append_assoc)

lemma transfer_name_shared:
  "TransferFilename ''mac-a'' ''b'' = TransferFilename ''mac'' ''a-b''
     \<and> ValidateHandle ''mac-a'' = None \<and> ValidateHandle ''mac'' = None
     \<and> validateTransferID ''b'' = None \<and> validateTransferID ''a-b'' = None"
  by code_simp

end
