(* ===== verification/Bridge_Courier.thy ===== *)
theory Bridge_Courier
  imports Bridge_Apply
begin

text \<open>
  The receiving commands of the bridge (\<^verbatim>\<open>cmd/amq-bridge/courier.go\<close> and \<^verbatim>\<open>apply_file.go\<close>): receipts,
  applying a dropped envelope file, and one poll of the rendezvous. The rendezvous is a service outside
  the repository: its answers, which may depend on the moment, are the parameter \<open>srv\<close>; an answer that is
  no JSON of the expected shape is an error there. Every request is recorded with the tree it was sent in.
\<close>

section \<open>Receipts\<close>

definition ReceiptTransportAccepted :: string where "ReceiptTransportAccepted = ''transport_accepted''"
definition ReceiptDestinationMaildirCommit :: string where
  "ReceiptDestinationMaildirCommit = ''destination_maildir_committed''"

record BridgeReceipt =
  brStage :: string
  brTransferID :: string
  brPayloadSHA256 :: string
  brReplayed :: bool
  brSourceMessageID :: string
  brCommittedPath :: string
  brEmittedAt :: string

definition bridge_receipt_json :: "BridgeReceipt \<Rightarrow> json" where
  "bridge_receipt_json r = JObj
     ([(''stage'', JStr (brStage r)), (''transfer_id'', JStr (brTransferID r)), (''payload_sha256'', JStr (brPayloadSHA256 r))]
      @ omit (\<not> brReplayed r) ''replayed'' (JBool (brReplayed r))
      @ omit (brSourceMessageID r = []) ''source_message_id'' (JStr (brSourceMessageID r))
      @ omit (brCommittedPath r = []) ''committed_path'' (JStr (brCommittedPath r))
      @ [(''emitted_at'', JStr (brEmittedAt r))])"

definition bridge_receipt_zero :: BridgeReceipt where
  "bridge_receipt_zero = \<lparr>brStage = [], brTransferID = [], brPayloadSHA256 = [], brReplayed = False, brSourceMessageID = [],
     brCommittedPath = [], brEmittedAt = []\<rparr>"

definition bridge_receipt_store :: "string \<Rightarrow> json \<Rightarrow> BridgeReceipt \<Rightarrow> BridgeReceipt option" where
  "bridge_receipt_store n v r =
     (if n = ''stage'' then map_option (\<lambda>s. r\<lparr>brStage := s\<rparr>) (as_str v (brStage r))
      else if n = ''transfer_id'' then map_option (\<lambda>s. r\<lparr>brTransferID := s\<rparr>) (as_str v (brTransferID r))
      else if n = ''payload_sha256'' then map_option (\<lambda>s. r\<lparr>brPayloadSHA256 := s\<rparr>) (as_str v (brPayloadSHA256 r))
      else if n = ''replayed'' then map_option (\<lambda>b. r\<lparr>brReplayed := b\<rparr>) (as_bool v (brReplayed r))
      else if n = ''source_message_id'' then map_option (\<lambda>s. r\<lparr>brSourceMessageID := s\<rparr>) (as_str v (brSourceMessageID r))
      else if n = ''committed_path'' then map_option (\<lambda>s. r\<lparr>brCommittedPath := s\<rparr>) (as_str v (brCommittedPath r))
      else if n = ''emitted_at'' then map_option (\<lambda>s. r\<lparr>brEmittedAt := s\<rparr>) (as_str v (brEmittedAt r))
      else Some r)"

definition parse_bridge_receipt :: "bytes \<Rightarrow> BridgeReceipt option" where
  "parse_bridge_receipt data =
     Option.bind (parse_json data)
       (dec_struct [''stage'', ''transfer_id'', ''payload_sha256'', ''replayed'', ''source_message_id'', ''committed_path'', ''emitted_at'']
          bridge_receipt_store bridge_receipt_zero)"

definition bridgeReceiptFilename :: "string \<Rightarrow> string \<Rightarrow> string" where
  "bridgeReceiptFilename transferID stage = transferID @ ''__'' @ stage @ ''.json''"

definition writeBridgeReceipt :: "droot \<Rightarrow> path \<Rightarrow> BridgeReceipt \<Rightarrow> (goerr + unit) io" where
  "writeBridgeReceipt r receiptRelDir receipt0 =
     bind get_now (\<lambda>t.
     let receipt = (if brEmittedAt receipt0 = [] then receipt0\<lparr>brEmittedAt := RFC3339Nano t\<rparr> else receipt0);
         data = MarshalIndent (bridge_receipt_json receipt) @ [newline];
         filename = bridgeReceiptFilename (brTransferID receipt) (brStage receipt) in
     bind (WriteFileExclusive r receiptRelDir filename data) (\<lambda>x.
     case snd x of
       None \<Rightarrow> ok ()
     | Some e \<Rightarrow>
         (if \<not> isErrExist e then fail e
          else
            guard (ReadRegularNoFollow r (receiptRelDir @ [filename])) (\<lambda>existing.
            case parse_bridge_receipt existing of
              None \<Rightarrow> fail (Msg ''parse existing receipt'')
            | Some prior \<Rightarrow>
                (if brStage prior \<noteq> brStage receipt \<or> brTransferID prior \<noteq> brTransferID receipt
                    \<or> \<not> equalFold (brPayloadSHA256 prior) (brPayloadSHA256 receipt)
                 then fail (Msg ''receipt conflicts with transfer'') else ok ())))))"

definition commit_receipt :: "Envelope \<Rightarrow> ApplyResult \<Rightarrow> nat \<Rightarrow> BridgeReceipt" where
  "commit_receipt env res t =
     \<lparr>brStage = ReceiptDestinationMaildirCommit, brTransferID = TransferID env, brPayloadSHA256 = PayloadSHA256 env,
      brReplayed = Replayed res, brSourceMessageID = SourceMessageID env, brCommittedPath = join ''/'' (arPath res),
      brEmittedAt = RFC3339Nano t\<rparr>"

section \<open>Applying a dropped file\<close>

definition maxApplyFileSize :: nat where "maxApplyFileSize = 16 * 1024 * 1024"

definition readApplyFile :: "droot \<Rightarrow> path \<Rightarrow> (goerr + bytes) io" where
  "readApplyFile r rel =
     guard (OpenRegularNoFollow r rel) (\<lambda>n.
     case read_bytes n of
       Inl e \<Rightarrow> fail (Sys e)
     | Inr content \<Rightarrow>
         (if length content > maxApplyFileSize then fail (Msg ''envelope exceeds size'')
          else guard (sys_query (\<lambda>_. Inr (take (maxApplyFileSize + 1) content))) (\<lambda>data.
            if length data > maxApplyFileSize then fail (Msg ''envelope exceeds size'') else ok data)))"

text \<open>\<^verbatim>\<open>runApplyFile\<close> after its flags: \<open>base\<close> is the root, \<open>fileRel\<close> the file below it.\<close>

definition runApplyFile :: "crypto \<Rightarrow> modes \<Rightarrow> string \<Rightarrow> path \<Rightarrow> (goerr + BridgeReceipt) io" where
  "runApplyFile c fmode b fileRel =
     guard (SnapshotDeliveryRoot b) (\<lambda>identity.
     guard (OpenDeliveryRoot b (Some identity)) (\<lambda>r.
     on_err (readApplyFile r fileRel) (\<lambda>e. fail (Wrap ''read dropped envelope'' e)) (\<lambda>raw.
     case UnmarshalEnvelope c raw of Inl e \<Rightarrow> fail (Wrap ''parse dropped envelope'' e) | Inr env \<Rightarrow>
     guard (LoadHostIDFromDeliveryRoot fmode r) (\<lambda>localHost.
     case ParseAlias (DestAlias env) of Inl e \<Rightarrow> fail e | Inr (destHost, destAgent) \<Rightarrow>
     if destHost \<noteq> localHost then fail (Msg ''bridge dest_alias host is not local host-id'')
     else
     on_err (LoadTrustedFromDeliveryRoot fmode r (SourceHost env)) (\<lambda>e. fail (Wrap ''authenticate source host'' e)) (\<lambda>key.
     case VerifyEnvelope c env (fst key) (snd key) of Some e \<Rightarrow> fail (Wrap ''authenticate transfer'' e) | None \<Rightarrow>
     on_err (ApplyEnvelope c fmode r localHost destAgent env) (\<lambda>e. fail (Wrap ''apply transfer'' e)) (\<lambda>res.
     bind get_now (\<lambda>t.
     let receipt = commit_receipt env res t in
     on_err (writeBridgeReceipt r [''bridge'', ''receipts''] receipt) (\<lambda>e. fail (Wrap ''write destination receipt'' e)) (\<lambda>_.
     ok receipt))))))))"

section \<open>Polling\<close>

record wireReceipt =
  wStage :: string
  wTransferID :: string
  wPayloadSHA256 :: string

datatype request = PollTransfers string int | AckTransfer string wireReceipt

record rendezvous =
  srv_poll :: "nat \<Rightarrow> string \<Rightarrow> int \<Rightarrow> goerr + bytes list"
  srv_ack :: "nat \<Rightarrow> string \<Rightarrow> wireReceipt \<Rightarrow> goerr + wireReceipt"

text \<open>A program that also talks to the rendezvous keeps what it sent, with the tree at that moment.\<close>

type_synonym log = "(request \<times> fs) list"
type_synonym 'a net = "world \<times> log \<Rightarrow> 'a \<times> world \<times> log"

definition locally :: "'a io \<Rightarrow> 'a net" where
  "locally m s = (case m (fst s) of (x, w) \<Rightarrow> (x, w, snd s))"

definition nret :: "'a \<Rightarrow> 'a net" where "nret x s = (x, s)"

definition nbind :: "'a net \<Rightarrow> ('a \<Rightarrow> 'b net) \<Rightarrow> 'b net" where
  "nbind m k s = (case m s of (x, s') \<Rightarrow> k x s')"

definition send :: "request \<Rightarrow> (nat \<Rightarrow> 'a) \<Rightarrow> 'a net" where
  "send q answer s =
     (answer (tick (fst s)), (fst s)\<lparr>tick := Suc (tick (fst s))\<rparr>, snd s @ [(q, fs (fst s))])"

record Courier =
  cRoot :: string
  receiveAlias :: string
  localHost :: string
  localAgent :: string
  hostID :: string
  cSourceHost :: string
  allowedDest :: "string list"
  allowedSource :: "string list"
  BatchSize :: int
  receiptRelDir :: path

definition guardPollIdentity :: "Courier \<Rightarrow> goerr option" where
  "guardPollIdentity cr =
     (if allowedSource cr = [] then Some (Msg ''poll requires a non-empty allowlist'')
      else if localHost cr \<noteq> hostID cr then Some (Msg ''poll receive alias host is not local host-id'')
      else if cSourceHost cr \<noteq> [] \<and> localHost cr \<noteq> cSourceHost cr then Some (Msg ''poll receive alias host is not local source host'')
      else None)"

definition validateWireReceipt :: "wireReceipt \<Rightarrow> string \<Rightarrow> Envelope \<Rightarrow> goerr option" where
  "validateWireReceipt receipt want env =
     (if wStage receipt \<noteq> want then Some (Msg ''unexpected rendezvous receipt stage'')
      else if wTransferID receipt \<noteq> TransferID env then Some (Msg ''rendezvous receipt transfer_id does not match'')
      else if \<not> equalFold (wPayloadSHA256 receipt) (PayloadSHA256 env) then Some (Msg ''rendezvous receipt digest does not match'')
      else None)"

fun unmarshal_all :: "crypto \<Rightarrow> bytes list \<Rightarrow> goerr + Envelope list" where
  "unmarshal_all c [] = Inr []"
| "unmarshal_all c (raw # raws) =
     (case UnmarshalEnvelope c raw of Inl e \<Rightarrow> Inl (Wrap ''decode polled envelope'' e) | Inr env \<Rightarrow>
      case unmarshal_all c raws of Inl e \<Rightarrow> Inl e | Inr envs \<Rightarrow> Inr (env # envs))"

definition pollEnvelopes :: "crypto \<Rightarrow> rendezvous \<Rightarrow> Courier \<Rightarrow> (goerr + Envelope list) net" where
  "pollEnvelopes c srv cr =
     nbind (send (PollTransfers (receiveAlias cr) (BatchSize cr)) (\<lambda>t. srv_poll srv t (receiveAlias cr) (BatchSize cr))) (\<lambda>x.
     nret (case x of Inl e \<Rightarrow> Inl e | Inr raws \<Rightarrow>
       (if int (length raws) > BatchSize cr then Inl (Msg ''rendezvous returned envelopes above batch size'') else unmarshal_all c raws)))"

definition ackEnvelope :: "rendezvous \<Rightarrow> Envelope \<Rightarrow> (goerr + unit) net" where
  "ackEnvelope srv env =
     (let receipt = \<lparr>wStage = ReceiptDestinationMaildirCommit, wTransferID = TransferID env, wPayloadSHA256 = PayloadSHA256 env\<rparr> in
      nbind (send (AckTransfer (TransferID env) receipt) (\<lambda>t. srv_ack srv t (TransferID env) receipt)) (\<lambda>x.
      nret (case x of Inl e \<Rightarrow> Inl e | Inr answer \<Rightarrow>
        (case validateWireReceipt answer ReceiptDestinationMaildirCommit env of Some e \<Rightarrow> Inl e | None \<Rightarrow> Inr ()))))"

definition openDeliveryRoot :: "Courier \<Rightarrow> (goerr + droot) io" where
  "openDeliveryRoot cr = guard (SnapshotDeliveryRoot (cRoot cr)) (\<lambda>identity. OpenDeliveryRoot (cRoot cr) (Some identity))"

text \<open>The body of the loop up to the acknowledgement: the envelope is authenticated, applied and receipted.\<close>

definition accept_envelope :: "crypto \<Rightarrow> modes \<Rightarrow> Courier \<Rightarrow> droot \<Rightarrow> Envelope \<Rightarrow> (goerr + BridgeReceipt) io" where
  "accept_envelope c fmode cr r env =
     (if DestAlias env \<noteq> receiveAlias cr then fail (Msg ''inbound destination alias does not match configured receiver'')
      else if DestAlias env \<notin> set (allowedDest cr) then fail (Msg ''inbound destination alias is not allowlisted'')
      else if SourceHost env \<notin> set (allowedSource cr) then fail (Msg ''inbound source host is not allowlisted'')
      else
      on_err (LoadTrusted fmode (SourceHost env)) (\<lambda>e. fail (Wrap ''authenticate source host'' e)) (\<lambda>key.
      case VerifyEnvelope c env (fst key) (snd key) of Some e \<Rightarrow> fail (Wrap ''authenticate transfer'' e) | None \<Rightarrow>
      on_err (ApplyEnvelope c fmode r (localHost cr) (localAgent cr) env) (\<lambda>e. fail (Wrap ''apply transfer'' e)) (\<lambda>res.
      bind get_now (\<lambda>t.
      let receipt = commit_receipt env res t in
      on_err (writeBridgeReceipt r (receiptRelDir cr) receipt) (\<lambda>e. fail (Wrap ''write destination receipt'' e)) (\<lambda>_.
      ok receipt)))))"

fun poll_each :: "crypto \<Rightarrow> modes \<Rightarrow> rendezvous \<Rightarrow> Courier \<Rightarrow> droot \<Rightarrow> BridgeReceipt list \<Rightarrow> Envelope list \<Rightarrow>
    (BridgeReceipt list \<times> goerr option) net" where
  "poll_each c fmode srv cr r receipts [] = nret (receipts, None)"
| "poll_each c fmode srv cr r receipts (env # envs) =
     nbind (locally (accept_envelope c fmode cr r env)) (\<lambda>x.
     case x of Inl e \<Rightarrow> nret (receipts, Some e) | Inr receipt \<Rightarrow>
     nbind (ackEnvelope srv env) (\<lambda>y.
     case y of Inl e \<Rightarrow> nret (receipts, Some (Wrap ''ack transfer'' e)) | Inr _ \<Rightarrow>
     poll_each c fmode srv cr r (receipts @ [receipt]) envs))"

definition PollOnce :: "crypto \<Rightarrow> modes \<Rightarrow> rendezvous \<Rightarrow> Courier \<Rightarrow> (BridgeReceipt list \<times> goerr option) net" where
  "PollOnce c fmode srv cr =
     (case guardPollIdentity cr of Some e \<Rightarrow> nret ([], Some e) | None \<Rightarrow>
      nbind (pollEnvelopes c srv cr) (\<lambda>x.
      case x of Inl e \<Rightarrow> nret ([], Some e) | Inr envs \<Rightarrow>
      (if envs = [] then nret ([], None)
       else
         nbind (locally (openDeliveryRoot cr)) (\<lambda>y.
         case y of Inl e \<Rightarrow> nret ([], Some e) | Inr r \<Rightarrow> poll_each c fmode srv cr r [] envs))))"

section \<open>What the private files say\<close>

lemma keeps_LoadTrusted [stable_rules]: "keeps P (LoadTrusted fm h)"
  unfolding LoadTrusted_def readPrivateKeyFile_def by (intro stable_rules)

lemma readPrivateKeyRootFile_spec:
  "triple (\<lambda>f. map_of f = g) (readPrivateKeyRootFile fm r p)
     (\<lambda>x f. map_of f = g \<and> (\<forall>d. x = Inr d \<longrightarrow> g p = Some (Reg d)))"
  unfolding readPrivateKeyRootFile_def
proof (rule triple_on_err [OF OpenRegularNoFollow_spec])
  fix n
  let ?A = "\<lambda>f. map_of f = g \<and> (\<forall>n'. (Inr n :: goerr + node) = Inr n' \<longrightarrow> isRegular n' \<and> g p = Some n')"
  have read: "triple ?A (sys_query (\<lambda>_. read_bytes n)) (\<lambda>x f. map_of f = g \<and> (\<forall>d. x = Inr d \<longrightarrow> g p = Some (Reg d)))"
    by (rule triple_sys_query) (auto simp: read_bytes_def split: node.splits)
  show "triple ?A
     (case validatePrivateKeyInfo fm p n of Some e \<Rightarrow> fail e | None \<Rightarrow>
      bind (sys_query (\<lambda>_. read_bytes n)) (\<lambda>d. bind sys_noop (\<lambda>closed.
      case d of Inl e \<Rightarrow> fail e | Inr data \<Rightarrow> (case closed of Inl e \<Rightarrow> fail e | Inr _ \<Rightarrow> ok data))))
     (\<lambda>x f. map_of f = g \<and> (\<forall>d. x = Inr d \<longrightarrow> g p = Some (Reg d)))"
    by (cases "validatePrivateKeyInfo fm p n"; simp only: option.case)
       (rule triple_bind [OF read], rule triple_bind [OF keeps_triple [OF keeps_sys_noop]],
        auto intro!: triple_fail triple_ok split: sum.splits)
qed (auto intro!: triple_fail)

lemma readPrivateKeyFile_spec:
  "triple (\<lambda>f. map_of f = g) (readPrivateKeyFile fm p)
     (\<lambda>x f. map_of f = g \<and> (\<forall>d. x = Inr d \<longrightarrow> g p = Some (Reg d)))"
proof -
  have look: "triple (\<lambda>f. map_of f = g) (openRegularNoFollow p)
      (\<lambda>x f. map_of f = g \<and> (\<forall>n. x = Inr n \<longrightarrow> isRegular n \<longrightarrow> g p = Some n))"
    unfolding openRegularNoFollow_def
    by (rule triple_sys_query) (auto simp: lstat_def node_at_def split: option.splits if_splits node.splits)
  have read: "triple (\<lambda>f. map_of f = g \<and> (\<forall>n'. (Inr n :: goerr + node) = Inr n' \<longrightarrow> isRegular n' \<longrightarrow> g p = Some n'))
      (on_err sys_noop (\<lambda>e. fail (Wrap ''stat queue artifact'' e)) (\<lambda>_.
        case validateRegularNoFollowFile n of Some e \<Rightarrow> fail e | None \<Rightarrow> ok n))
      (\<lambda>x f. map_of f = g \<and> (\<forall>n'. x = Inr n' \<longrightarrow> isRegular n' \<and> g p = Some n'))" for n
    by (rule triple_on_err [OF keeps_triple [OF keeps_sys_noop]])
       (auto intro!: triple_fail triple_ok simp: validateRegularNoFollowFile_def split: option.splits if_splits)
  have opn: "triple (\<lambda>f. map_of f = g) (OpenRegularNoFollowPath p)
      (\<lambda>x f. map_of f = g \<and> (\<forall>n. x = Inr n \<longrightarrow> isRegular n \<and> g p = Some n))"
    unfolding OpenRegularNoFollowPath_def
    by (rule triple_on_err [OF keeps_triple [OF keeps_sys_query]], rule triple_fail, simp)
       (auto split: option.split intro!: triple_fail triple_on_err [OF look] read)
  have "triple (\<lambda>f. map_of f = g) (ReadRegularNoFollowPath p)
      (\<lambda>x f. map_of f = g \<and> (\<forall>d. x = Inr d \<longrightarrow> g p = Some (Reg d)))"
    unfolding ReadRegularNoFollowPath_def
    by (rule triple_on_err [OF opn]) (auto intro!: triple_fail triple_sys_query simp: read_bytes_def split: node.splits)
  then show ?thesis
    unfolding readPrivateKeyFile_def
    by (intro triple_on_err [OF keeps_triple [OF keeps_sys_query]]) (auto split: option.split intro!: triple_fail)
qed

text \<open>The tree holds a trusted key for a host, and the local host's name.\<close>

definition trusts :: "tree \<Rightarrow> string \<Rightarrow> bytes \<times> string \<Rightarrow> bool" where
  "trusts g host key \<longleftrightarrow> ValidateHandle host = None \<and> (\<exists>data. g (TrustedPath host) = Some (Reg data) \<and> parse_trusted data = Inr key)"

definition named :: "tree \<Rightarrow> string \<Rightarrow> bool" where
  "named g host \<longleftrightarrow> (\<exists>data. g HostIDPath = Some (Reg data) \<and> parseHostID data = Inr host)"

lemma LoadTrusted_spec:
  "triple (\<lambda>f. map_of f = g) (LoadTrusted fm host) (\<lambda>x f. map_of f = g \<and> (\<forall>k. x = Inr k \<longrightarrow> trusts g host k))"
  unfolding LoadTrusted_def
  by (cases "ValidateHandle host"; simp only: option.case)
     (rule triple_on_err [OF readPrivateKeyFile_spec], auto intro!: triple_fail triple_ret simp: trusts_def)

lemma LoadTrustedFromDeliveryRoot_spec:
  "triple (\<lambda>f. map_of f = g) (LoadTrustedFromDeliveryRoot fm r host) (\<lambda>x f. map_of f = g \<and> (\<forall>k. x = Inr k \<longrightarrow> trusts g host k))"
  unfolding LoadTrustedFromDeliveryRoot_def
  by (cases "ValidateHandle host"; simp only: option.case)
     (rule triple_on_err [OF readPrivateKeyRootFile_spec], auto intro!: triple_fail triple_ret simp: trusts_def)

lemma LoadHostIDFromDeliveryRoot_spec:
  "triple (\<lambda>f. map_of f = g) (LoadHostIDFromDeliveryRoot fm r) (\<lambda>x f. map_of f = g \<and> (\<forall>h. x = Inr h \<longrightarrow> named g h))"
  unfolding LoadHostIDFromDeliveryRoot_def
  by (rule triple_on_err [OF readPrivateKeyRootFile_spec]) (auto intro!: triple_fail triple_ret simp: named_def)

section \<open>Writing a receipt adds one file\<close>

text \<open>
  A property of trees that survives new directories and new files whose name ends in \<^verbatim>\<open>.json\<close>.
\<close>

locale receipt_inv = tree_inv I "\<lambda>_. True" for I :: "tree \<Rightarrow> bool" +
  assumes receipt: "I g \<Longrightarrow> g p = None \<Longrightarrow> p \<noteq> [] \<Longrightarrow> hasSuffix (last p) ''.json'' \<Longrightarrow> I (g(p \<mapsto> Reg c))"
begin

lemma keeps_write_json:
  assumes "hasSuffix n ''.json''"
  shows "keeps (\<lambda>f. I (map_of f)) (writeAndSync (dir @ [n]) d)"
  unfolding keeps_def
proof (rule triple_by_map' [OF writeAndSync_spec])
  fix g f and x :: "goerr + unit"
  assume "I g" and "case x of Inl _ \<Rightarrow> map_of f = g \<or> g (dir @ [n]) = None \<and> (\<exists>c. map_of f = g(dir @ [n] \<mapsto> Reg c))
      | Inr _ \<Rightarrow> g (dir @ [n]) = None \<and> map_of f = g(dir @ [n] \<mapsto> Reg d)"
  then show "I (map_of f)" using receipt [of g "dir @ [n]"] assms by (auto split: sum.splits)
qed

lemma keeps_WriteFileExclusive:
  assumes "hasSuffix n ''.json''"
  shows "keeps (\<lambda>f. I (map_of f)) (WriteFileExclusive r dir n d)"
  unfolding WriteFileExclusive_def Let_def
  by (intro stable_rules keeps_mkdirAll keeps_write_json assms) simp

lemma keeps_writeBridgeReceipt: "keeps (\<lambda>f. I (map_of f)) (writeBridgeReceipt r dir rc)"
proof -
  have "hasSuffix (bridgeReceiptFilename t s) ''.json''" for t s
    by (simp add: bridgeReceiptFilename_def hasSuffix_def suffix_def)
  then show ?thesis
    unfolding writeBridgeReceipt_def Let_def by (intro stable_rules keeps_WriteFileExclusive)
qed

end

section \<open>What the bridge may change\<close>

text \<open>
  \<open>K\<close> says which payloads may appear in which inbox under which name. Beside them the bridge leaves
  directories, attempts in \<^verbatim>\<open>inbox/tmp\<close> and receipts.
\<close>

definition bridge_node :: "(string \<Rightarrow> string \<Rightarrow> bytes \<Rightarrow> bool) \<Rightarrow> path \<Rightarrow> node option \<Rightarrow> node option \<Rightarrow> bool" where
  "bridge_node K p x y \<longleftrightarrow>
     (case x of
        Some n \<Rightarrow> y = Some n
      | None \<Rightarrow>
          (case y of
             None \<Rightarrow> True
           | Some (Dir _) \<Rightarrow> True
           | Some (Reg d) \<Rightarrow> (\<exists>fn. attempt_tmp fn p) \<or> p \<noteq> [] \<and> hasSuffix (last p) ''.json'' \<or> (\<exists>a n. p = new_msg a n \<and> K a n d)
           | Some _ \<Rightarrow> False))"

abbreviation bridged :: "(string \<Rightarrow> string \<Rightarrow> bytes \<Rightarrow> bool) \<Rightarrow> tree \<Rightarrow> tree \<Rightarrow> bool" where
  "bridged K \<equiv> pointwise (bridge_node K)"

interpretation brn: node_policy "bridge_node K" "\<lambda>_. True" for K
  by unfold_locales (auto simp: bridge_node_def split: option.splits)

lemma bridged_receipt:
  "bridged K g0 g \<Longrightarrow> g p = None \<Longrightarrow> p \<noteq> [] \<Longrightarrow> hasSuffix (last p) ''.json'' \<Longrightarrow> bridged K g0 (g(p \<mapsto> Reg c))"
proof (rule pointwise_upd, assumption)
  assume "bridged K g0 g" and "g p = None" "p \<noteq> []" "hasSuffix (last p) ''.json''"
  moreover from this have "g0 p = None" by (cases "g0 p") (auto dest!: pointwiseD [of _ _ _ p] simp: bridge_node_def)
  ultimately show "bridge_node K p (g0 p) (Some (Reg c))" by (simp add: bridge_node_def)
qed

interpretation brr: receipt_inv "\<lambda>g. bridged K g0 g \<and> (\<forall>p n. keep p = Some n \<longrightarrow> g p = Some n)" for K g0 keep
  by unfold_locales (auto intro: brn.mkdir_policy bridged_receipt)

lemma bridged_old: "bridged K g0 g \<Longrightarrow> g0 p = Some n \<Longrightarrow> g p = Some n"
  by (drule pointwiseD [of _ _ _ p]) (simp add: bridge_node_def)

lemma bridged_published:
  assumes b: "bridged K g0 g" and p: "published g fn d rs h" and k: "\<And>a. a \<in> set rs \<Longrightarrow> K a fn d"
  shows "bridged K g0 h"
proof (rule pointwiseI)
  fix q
  from b have bq: "bridge_node K q (g0 q) (g q)" by (rule pointwiseD)
  from p have dq: "delivery_node fn d rs q (g q) (h q)"
    unfolding published_def delivered_only_def by (blast dest: pointwiseD)
  show "bridge_node K q (g0 q) (h q)"
  proof (cases "g q")
    case (Some n)
    then show ?thesis using bq dq by (simp add: delivery_node_def)
  next
    case None
    then have "g0 q = None" using bq by (cases "g0 q") (auto simp: bridge_node_def)
    then show ?thesis using None dq k
      by (auto simp: delivery_node_def bridge_node_def split: option.splits node.splits)
  qed
qed

lemma handle_no_json: "ValidateHandle h = None \<Longrightarrow> \<not> hasSuffix h ''.json''"
proof -
  assume "ValidateHandle h = None"
  then have "CHR ''.'' \<notin> set h" using handle_char_plain by (auto simp: validate_handle_iff handleRe_def list_all_iff)
  then show ?thesis by (auto simp: hasSuffix_def suffix_def)
qed

lemma bridged_trusts: "bridged K g0 g \<Longrightarrow> trusts g host key \<Longrightarrow> trusts g0 host key"
  by (drule pointwiseD [of _ _ _ "TrustedPath host"])
     (auto simp: trusts_def TrustedPath_def bridge_node_def attempt_tmp_def dest: handle_no_json split: option.splits)

lemma bridged_new_msg:
  assumes "bridged K g0 g" and "hasSuffix n ''.md''" and "g (new_msg a n) = Some (Reg d)" and "g0 (new_msg a n) \<noteq> g (new_msg a n)"
  shows "g0 (new_msg a n) = None \<and> K a n d"
proof -
  have "\<not> hasSuffix n ''.json''" using assms(2) by (auto simp: hasSuffix_def suffix_def)
  moreover have "bridge_node K (new_msg a n) (g0 (new_msg a n)) (Some (Reg d))"
    using pointwiseD [OF assms(1), of "new_msg a n"] assms(3) by simp
  ultimately show ?thesis
    using assms(3,4) by (auto simp: bridge_node_def attempt_tmp_def split: option.splits)
qed

section \<open>Only authentic payloads appear\<close>

text \<open>A payload of a verified envelope from a host the tree trusts; \<open>addressed\<close> says who may get it.\<close>

definition authentic :: "crypto \<Rightarrow> tree \<Rightarrow> (Envelope \<Rightarrow> string \<Rightarrow> bool) \<Rightarrow> string \<Rightarrow> string \<Rightarrow> bytes \<Rightarrow> bool" where
  "authentic c g addressed a n d \<longleftrightarrow>
     (\<exists>env key. trusts g (SourceHost env) key \<and> VerifyEnvelope c env (fst key) (snd key) = None \<and> addressed env a
        \<and> n = TransferFilename (SourceHost env) (TransferID env) \<and> d = Payload env)"

lemma apply_and_receipt:
  assumes k: "ParseAlias (DestAlias env) = Inr (host, agent) \<Longrightarrow> K agent (TransferFilename (SourceHost env) (TransferID env)) (Payload env)"
  shows "triple (\<lambda>f. bridged K g0 (map_of f))
     (on_err (ApplyEnvelope c fm r host agent env) (\<lambda>e. fail (Wrap ''apply transfer'' e)) (\<lambda>res.
      bind get_now (\<lambda>t.
      let receipt = commit_receipt env res t in
      on_err (writeBridgeReceipt r dir receipt) (\<lambda>e. fail (Wrap ''write destination receipt'' e)) (\<lambda>_.
      ok receipt))))
     (\<lambda>x f. bridged K g0 (map_of f) \<and> (\<forall>rc. x = Inr rc \<longrightarrow> ParseAlias (DestAlias env) = Inr (host, agent)
        \<and> map_of f (new_msg agent (TransferFilename (SourceHost env) (TransferID env))) = Some (Reg (Payload env))))"
  (is "triple _ _ ?Q")
proof (rule triple_by_map)
  fix g assume b: "bridged K g0 g"
  let ?fn = "TransferFilename (SourceHost env) (TransferID env)"
  let ?R = "\<lambda>x f. bridged K g0 (map_of f) \<and> (\<forall>res. x = Inr res \<longrightarrow> ParseAlias (DestAlias env) = Inr (host, agent)
        \<and> map_of f (new_msg agent ?fn) = Some (Reg (Payload env)))"
  have a: "triple (\<lambda>f. map_of f = g) (ApplyEnvelope c fm r host agent env) ?R"
  proof (rule triple_post [OF ApplyEnvelope_spec])
    fix x :: "goerr + ApplyResult" and f
    assume *: "published g ?fn (Payload env) (reached agent x) (map_of f)
        \<and> (reached agent x \<noteq> [] \<longrightarrow> ValidateEnvelope c env = None \<and> ParseAlias (DestAlias env) = Inr (host, agent))"
    have "bridged K g0 (map_of f)"
    proof (rule bridged_published [OF b conjunct1 [OF *]])
      fix a' assume "a' \<in> set (reached agent x)"
      moreover from this have "a' = agent" by (auto simp: reached_def split: sum.splits if_splits)
      ultimately show "K a' ?fn (Payload env)" using * k by auto
    qed
    then show "?R x f" using * by (auto simp: reached_def published_def)
  qed
  let ?keep = "[new_msg agent ?fn \<mapsto> Reg (Payload env)]"
  note wr = brr.keeps_writeBridgeReceipt [of K g0 ?keep]
  have rest: "triple (?R (Inr res)) (bind get_now (\<lambda>t. on_err (writeBridgeReceipt r dir (commit_receipt env res t))
      (\<lambda>e. fail (Wrap ''write destination receipt'' e)) (\<lambda>_. ok (commit_receipt env res t)))) ?Q" for res
  proof (rule triple_pre [where P' = "\<lambda>f. (bridged K g0 (map_of f) \<and> (\<forall>p n. ?keep p = Some n \<longrightarrow> map_of f p = Some n))
      \<and> ParseAlias (DestAlias env) = Inr (host, agent)"], rule triple_pure2)
    assume al: "ParseAlias (DestAlias env) = Inr (host, agent)"
    show "triple (\<lambda>f. bridged K g0 (map_of f) \<and> (\<forall>p n. ?keep p = Some n \<longrightarrow> map_of f p = Some n))
       (bind get_now (\<lambda>t. on_err (writeBridgeReceipt r dir (commit_receipt env res t))
      (\<lambda>e. fail (Wrap ''write destination receipt'' e)) (\<lambda>_. ok (commit_receipt env res t)))) ?Q"
      by (rule triple_bind [OF keeps_triple [OF keeps_get_now]], rule triple_on_err [OF keeps_triple [OF wr]])
         (rule triple_fail, simp, rule triple_ok, simp add: al)
  qed simp
  show "triple (\<lambda>f. map_of f = g)
     (on_err (ApplyEnvelope c fm r host agent env) (\<lambda>e. fail (Wrap ''apply transfer'' e)) (\<lambda>res.
      bind get_now (\<lambda>t.
      let receipt = commit_receipt env res t in
      on_err (writeBridgeReceipt r dir receipt) (\<lambda>e. fail (Wrap ''write destination receipt'' e)) (\<lambda>_.
      ok receipt)))) ?Q"
    unfolding Let_def by (rule triple_on_err [OF a _ rest], rule triple_fail) simp
qed

text \<open>A dropped file may reach an agent of the local host.\<close>

definition local_agent :: "tree \<Rightarrow> Envelope \<Rightarrow> string \<Rightarrow> bool" where
  "local_agent g env a \<longleftrightarrow> (\<exists>host. named g host \<and> ParseAlias (DestAlias env) = Inr (host, a))"

lemma triple_bridged_start:
  "triple (\<lambda>f. bridged K g (map_of f)) m Q \<Longrightarrow> triple (\<lambda>f. map_of f = g) m Q"
  by (erule triple_pre) (auto intro: brn.refl)

lemma runApplyFile_spec:
  "triple (\<lambda>f. map_of f = g) (runApplyFile c fm b rel)
     (\<lambda>x f. bridged (authentic c g (local_agent g)) g (map_of f))"
  (is "triple ?P _ ?Q")
proof -
  let ?K = "authentic c g (local_agent g)"
  have quit: "triple ?P (fail e) ?Q" for e
    by (rule triple_fail) (auto intro: brn.refl)
  have read: "keeps ?P (readApplyFile r rel)" for r
    unfolding readApplyFile_def by (intro stable_rules)
  have key: "triple ?P
      (case VerifyEnvelope c env (fst key) (snd key) of Some e \<Rightarrow> fail (Wrap ''authenticate transfer'' e) | None \<Rightarrow>
       on_err (ApplyEnvelope c fm r host agent env) (\<lambda>e. fail (Wrap ''apply transfer'' e)) (\<lambda>res.
       bind get_now (\<lambda>t.
       let receipt = commit_receipt env res t in
       on_err (writeBridgeReceipt r [''bridge'', ''receipts''] receipt) (\<lambda>e. fail (Wrap ''write destination receipt'' e)) (\<lambda>_.
       ok receipt)))) ?Q"
    if "trusts g (SourceHost env) key" "named g host" for env key host agent r
  proof (cases "VerifyEnvelope c env (fst key) (snd key)")
    case None
    have "?K agent (TransferFilename (SourceHost env) (TransferID env)) (Payload env)"
      if "ParseAlias (DestAlias env) = Inr (host, agent)"
      using that None \<open>trusts g (SourceHost env) key\<close> \<open>named g host\<close> unfolding authentic_def local_agent_def by blast
    from triple_bridged_start [OF triple_post [OF apply_and_receipt [where K = ?K, OF this]]] None
    show ?thesis by simp
  qed (simp add: quit)
  show ?thesis
    unfolding runApplyFile_def
    apply (rule triple_on_err [OF keeps_triple [OF keeps_SnapshotDeliveryRoot] quit])
    apply (rule triple_on_err [OF keeps_triple [OF keeps_OpenDeliveryRoot] quit])
    apply (rule triple_on_err [OF keeps_triple [OF read] quit])
    apply (rule triple_case_sum, rule quit)
    apply (rule triple_on_err [OF LoadHostIDFromDeliveryRoot_spec], rule triple_pre [OF quit], simp)
    apply (rule triple_pure2, rule triple_case_sum, rule quit, simp only: case_prod_beta)
    apply (rule triple_if, rule quit)
    apply (rule triple_on_err [OF LoadTrustedFromDeliveryRoot_spec], rule triple_pre [OF quit], simp)
    apply (rule triple_pure2, rule key, simp_all)
    done
qed

text \<open>The envelope the holder of a trusted key signed, for an authentic payload.\<close>

lemma trusted_signed:
  assumes "\<And>host pub gen. trusts g host (pub, gen) \<Longrightarrow> holder_signed c (key host) pub (S host)"
    and "trusts g (SourceHost env) k" and "VerifyEnvelope c env (fst k) (snd k) = None"
  obtains env0 where "env0 \<in> S (SourceHost env0)" "SourceHost env = SourceHost env0" "TransferID env = TransferID env0"
    "Payload env = Payload env0" "DestAlias env = DestAlias env0"
proof -
  have "holder_signed c (key (SourceHost env)) (fst k) (S (SourceHost env))"
    using assms(1) [of _ "fst k" "snd k"] assms(2) by simp
  from verified_signed [OF this assms(3)] obtain env0 where s: "env0 \<in> S (SourceHost env)"
      and env: "env = env0\<lparr>PayloadSHA256 := PayloadSHA256 env, Signature := Signature env\<rparr>" by blast
  have "SourceHost env = SourceHost env0" "TransferID env = TransferID env0" "Payload env = Payload env0" "DestAlias env = DestAlias env0"
    by (subst env, simp)+
  with s that show ?thesis by simp
qed

lemma authentic_signed:
  assumes "\<And>host pub gen. trusts g host (pub, gen) \<Longrightarrow> holder_signed c (key host) pub (S host)"
    and "authentic c g addressed a n d"
    and "\<And>e e'. DestAlias e = DestAlias e' \<Longrightarrow> SourceHost e = SourceHost e' \<Longrightarrow> addressed e a \<Longrightarrow> addressed e' a"
  shows "\<exists>env. env \<in> S (SourceHost env) \<and> addressed env a \<and> n = TransferFilename (SourceHost env) (TransferID env) \<and> d = Payload env"
proof -
  from assms(2) obtain env k where e: "trusts g (SourceHost env) k" "VerifyEnvelope c env (fst k) (snd k) = None"
      "addressed env a" "n = TransferFilename (SourceHost env) (TransferID env)" "d = Payload env"
    unfolding authentic_def by blast
  from assms(1) e(1,2) obtain env0 where "env0 \<in> S (SourceHost env0)" "SourceHost env = SourceHost env0" "TransferID env = TransferID env0"
    "Payload env = Payload env0" "DestAlias env = DestAlias env0" by (rule trusted_signed)
  with e assms(3) [of env env0] show ?thesis by auto
qed


section \<open>Acknowledged mail is committed\<close>

definition polled :: "Courier \<Rightarrow> Envelope \<Rightarrow> string \<Rightarrow> bool" where
  "polled cr env a \<longleftrightarrow> a = localAgent cr \<and> ParseAlias (DestAlias env) = Inr (localHost cr, a)
     \<and> DestAlias env = receiveAlias cr \<and> SourceHost env \<in> set (allowedSource cr)"

text \<open>An acknowledgement, sent in the tree \<open>f\<close>, is of an authentic envelope that is in the inbox there.\<close>

fun ack_true :: "crypto \<Rightarrow> tree \<Rightarrow> Courier \<Rightarrow> request \<Rightarrow> fs \<Rightarrow> bool" where
  "ack_true c g cr (PollTransfers _ _) f = True"
| "ack_true c g cr (AckTransfer tid rc) f =
     (\<exists>env key. trusts g (SourceHost env) key \<and> VerifyEnvelope c env (fst key) (snd key) = None \<and> polled cr env (localAgent cr)
        \<and> TransferID env = tid \<and> wTransferID rc = tid \<and> wPayloadSHA256 rc = PayloadSHA256 env
        \<and> map_of f (new_msg (localAgent cr) (TransferFilename (SourceHost env) tid)) = Some (Reg (Payload env)))"

abbreviation poll_policy :: "crypto \<Rightarrow> tree \<Rightarrow> Courier \<Rightarrow> tree \<Rightarrow> bool" where
  "poll_policy c g cr \<equiv> bridged (authentic c g (polled cr)) g"

definition poll_inv :: "crypto \<Rightarrow> tree \<Rightarrow> Courier \<Rightarrow> world \<times> log \<Rightarrow> bool" where
  "poll_inv c g cr s \<longleftrightarrow> poll_policy c g cr (map_of (fs (fst s))) \<and> (\<forall>(q, f) \<in> set (snd s). ack_true c g cr q f)"

lemma accept_envelope_spec:
  "triple (\<lambda>f. poll_policy c g cr (map_of f)) (accept_envelope c fm cr r env)
     (\<lambda>x f. poll_policy c g cr (map_of f) \<and> (\<forall>rc. x = Inr rc \<longrightarrow>
        (\<exists>key. trusts g (SourceHost env) key \<and> VerifyEnvelope c env (fst key) (snd key) = None) \<and> polled cr env (localAgent cr)
        \<and> map_of f (new_msg (localAgent cr) (TransferFilename (SourceHost env) (TransferID env))) = Some (Reg (Payload env))))"
  (is "triple ?P _ ?Q")
proof -
  let ?K = "authentic c g (polled cr)"
  have quit: "triple ?P (fail e) ?Q" for e by (rule triple_fail) simp
  have load: "triple ?P (LoadTrusted fm (SourceHost env)) (\<lambda>x f. ?P f \<and> (\<forall>k. x = Inr k \<longrightarrow> trusts g (SourceHost env) k))"
    by (rule triple_by_map' [OF LoadTrusted_spec]) (auto dest: bridged_trusts)
  have key: "triple ?P
      (case VerifyEnvelope c env (fst key) (snd key) of Some e \<Rightarrow> fail (Wrap ''authenticate transfer'' e) | None \<Rightarrow>
       on_err (ApplyEnvelope c fm r (localHost cr) (localAgent cr) env) (\<lambda>e. fail (Wrap ''apply transfer'' e)) (\<lambda>res.
       bind get_now (\<lambda>t.
       let receipt = commit_receipt env res t in
       on_err (writeBridgeReceipt r (receiptRelDir cr) receipt) (\<lambda>e. fail (Wrap ''write destination receipt'' e)) (\<lambda>_.
       ok receipt)))) ?Q"
    if k: "trusts g (SourceHost env) key" and d: "DestAlias env = receiveAlias cr" "SourceHost env \<in> set (allowedSource cr)" for key
  proof (cases "VerifyEnvelope c env (fst key) (snd key)")
    case None
    have p: "polled cr env (localAgent cr)" if "ParseAlias (DestAlias env) = Inr (localHost cr, localAgent cr)"
      using that d by (simp add: polled_def)
    have "?K (localAgent cr) (TransferFilename (SourceHost env) (TransferID env)) (Payload env)"
      if "ParseAlias (DestAlias env) = Inr (localHost cr, localAgent cr)"
      using p [OF that] None k unfolding authentic_def by blast
    note run = apply_and_receipt [where K = ?K and host = "localHost cr" and agent = "localAgent cr", OF this]
    show ?thesis
      unfolding None option.case by (rule triple_post [OF run]) (use p k None in blast)+
  qed (simp only: option.case, rule quit)
  show ?thesis
    unfolding accept_envelope_def
    by (intro triple_if quit, rule triple_on_err [OF load], rule triple_pre [OF quit], simp, rule triple_pure2, rule key) simp_all
qed

lemma accept_run:
  assumes "poll_inv c g cr s" and "locally (accept_envelope c fm cr r env) s = (x, s')"
  shows "poll_inv c g cr s'"
    and "x = Inr rc \<Longrightarrow> (\<exists>key. trusts g (SourceHost env) key \<and> VerifyEnvelope c env (fst key) (snd key) = None)
      \<and> polled cr env (localAgent cr)
      \<and> map_of (fs (fst s')) (new_msg (localAgent cr) (TransferFilename (SourceHost env) (TransferID env))) = Some (Reg (Payload env))"
proof -
  obtain w l where s: "s = (w, l)" by (cases s)
  obtain y w' where m: "accept_envelope c fm cr r env w = (y, w')" by (cases "accept_envelope c fm cr r env w")
  from assms(2) s m have xs: "x = y" "s' = (w', l)" by (simp_all add: locally_def)
  note t = triple_run [OF accept_envelope_spec [of c g cr fm r env], of w]
  show "poll_inv c g cr s'" using t assms(1) by (simp add: poll_inv_def xs s m)
  show "(\<exists>key. trusts g (SourceHost env) key \<and> VerifyEnvelope c env (fst key) (snd key) = None)
      \<and> polled cr env (localAgent cr)
      \<and> map_of (fs (fst s')) (new_msg (localAgent cr) (TransferFilename (SourceHost env) (TransferID env))) = Some (Reg (Payload env))"
    if "x = Inr rc"
    using t assms(1) that by (simp add: poll_inv_def xs s m)
qed

lemma ack_run:
  assumes "poll_inv c g cr s" and "ackEnvelope srv env s = (y, s')"
    and "trusts g (SourceHost env) key" "VerifyEnvelope c env (fst key) (snd key) = None" "polled cr env (localAgent cr)"
    and "map_of (fs (fst s)) (new_msg (localAgent cr) (TransferFilename (SourceHost env) (TransferID env))) = Some (Reg (Payload env))"
  shows "poll_inv c g cr s'"
proof -
  let ?rc = "\<lparr>wStage = ReceiptDestinationMaildirCommit, wTransferID = TransferID env, wPayloadSHA256 = PayloadSHA256 env\<rparr>"
  from assms(2) have "fs (fst s') = fs (fst s)" and "snd s' = snd s @ [(AckTransfer (TransferID env) ?rc, fs (fst s))]"
    by (auto simp: ackEnvelope_def Let_def nbind_def send_def nret_def)
  moreover have "ack_true c g cr (AckTransfer (TransferID env) ?rc) (fs (fst s))"
    unfolding ack_true.simps using assms(3-6) by (intro exI [of _ env] exI [of _ key]) simp
  ultimately show ?thesis using assms(1) by (simp add: poll_inv_def)
qed

lemma poll_each_inv: "poll_inv c g cr s \<Longrightarrow> poll_inv c g cr (snd (poll_each c fm srv cr r rcs envs s))"
proof (induction envs arbitrary: rcs s)
  case Nil
  then show ?case by (simp add: nret_def)
next
  case (Cons env envs)
  obtain x s1 where a: "locally (accept_envelope c fm cr r env) s = (x, s1)"
    by (cases "locally (accept_envelope c fm cr r env) s")
  note ar = accept_run [OF Cons.prems a]
  show ?case
  proof (cases x)
    case (Inl e)
    then show ?thesis using a ar(1) by (simp add: nbind_def nret_def)
  next
    case (Inr rc)
    obtain y s2 where k: "ackEnvelope srv env s1 = (y, s2)" by (cases "ackEnvelope srv env s1")
    have "poll_inv c g cr s2" using ack_run [OF ar(1) k] ar(2) [OF Inr] by blast
    then show ?thesis using a k Inr Cons.IH by (cases y) (simp_all add: nbind_def nret_def)
  qed
qed

lemma PollOnce_inv: "poll_inv c (map_of (fs w)) cr (snd (PollOnce c fm srv cr (w, [])))"
proof -
  let ?I = "poll_inv c (map_of (fs w)) cr"
  have start: "?I (w, [])" by (simp add: poll_inv_def brn.refl)
  obtain x s1 where p: "pollEnvelopes c srv cr (w, []) = (x, s1)" by (cases "pollEnvelopes c srv cr (w, [])")
  have s1: "?I s1"
    using p by (auto simp: pollEnvelopes_def nbind_def send_def nret_def poll_inv_def brn.refl)
  obtain y s2 where o2: "locally (openDeliveryRoot cr) s1 = (y, s2)" by (cases "locally (openDeliveryRoot cr) s1")
  have "keeps (\<lambda>f. poll_policy c (map_of (fs w)) cr (map_of f)) (openDeliveryRoot cr)"
    unfolding openDeliveryRoot_def by (intro stable_rules)
  then have s2: "?I s2"
    using o2 s1 by (auto simp: locally_def poll_inv_def keeps_def triple_def split: prod.splits)
  show ?thesis
    using start p s1 o2 s2 poll_each_inv [OF s2]
    by (auto simp: PollOnce_def nbind_def nret_def split: option.split sum.split)
qed


section \<open>An example\<close>

text \<open>Calls in a calm world succeed and only let time pass.\<close>

lemma calm_query: "q f = Inr x \<Longrightarrow> sys_query q (calm_at f n) = (Inr x, calm_at f (Suc n))"
  by (simp add: sys_query_def sys_def calm_def)

lemma calm_noop: "sys_noop (calm_at f n) = (Inr (), calm_at f (Suc n))"
  unfolding sys_noop_def by (rule calm_query) simp

lemma calm_identity: "sys_identity b (calm_at f n) = (Inr 7, calm_at f (Suc n))"
  by (simp add: sys_identity_def calm_def)

lemma calm_open:
  assumes "lstat p f = Inr (Reg d)"
  shows "OpenRegularNoFollow root7 p (calm_at f n) = (Inr (Reg d), calm_at f (n + 4))"
  using assms by (simp add: OpenRegularNoFollow_def VerifyBase_def root7_def on_err_def ok_def ret_def calm_identity calm_noop
      calm_query validateRegularNoFollowFile_def)

lemma calm_read_apply:
  assumes "lstat p f = Inr (Reg d)" and "length d \<le> maxApplyFileSize"
  shows "readApplyFile root7 p (calm_at f n) = (Inr d, calm_at f (n + 5))"
  using assms by (simp add: readApplyFile_def on_err_def ok_def ret_def calm_open read_bytes_def calm_query)

lemma calm_read_private:
  assumes "lstat p f = Inr (Reg d)"
  shows "readPrivateKeyRootFile (\<lambda>_. 384) root7 p (calm_at f n) = (Inr d, calm_at f (n + 6))"
  using assms by (simp add: readPrivateKeyRootFile_def on_err_def bind_def ok_def ret_def calm_open calm_noop read_bytes_def
      validatePrivateKeyInfo_def calm_query)

lemma run_on_err: "m w = (Inr x, w') \<Longrightarrow> on_err m h k w = k x w'"
  by (simp add: on_err_def)

lemma drop_run:
  assumes d: "length d \<le> maxApplyFileSize" "UnmarshalEnvelope toy_crypto d = Inr letter" "lstat [''drop''] f = Inr (Reg d)"
    and host: "lstat HostIDPath f = Inr (Reg host)" "parseHostID host = Inr ''mac''"
    and key: "lstat (TrustedPath ''grok'') f = Inr (Reg key)" "parse_trusted key = Inr (pub, ''1'')"
    and a: "apply_letter (calm_at f 20) = (Inr res, w)"
  shows "runApplyFile toy_crypto (\<lambda>_. 384) ''q'' [''drop''] (calm_at f 0) =
     on_err (writeBridgeReceipt root7 [''bridge'', ''receipts''] (commit_receipt letter res (now_ns w (tick w))))
       (\<lambda>e. fail (Wrap ''write destination receipt'' e)) (\<lambda>_. ok (commit_receipt letter res (now_ns w (tick w)))) w"
proof -
  have l: "LoadHostIDFromDeliveryRoot (\<lambda>_. 384) root7 (calm_at f n) = (Inr ''mac'', calm_at f (n + 6))"
      "LoadTrustedFromDeliveryRoot (\<lambda>_. 384) root7 ''grok'' (calm_at f n) = (Inr (pub, ''1''), calm_at f (n + 6))" for n
    using host key by (simp_all add: LoadHostIDFromDeliveryRoot_def LoadTrustedFromDeliveryRoot_def
        run_on_err calm_read_private letter_texts ret_def)
  have o: "OpenDeliveryRoot ''q'' (Some 7) (calm_at f n) = (Inr root7, calm_at f (n + 2))"
      "SnapshotDeliveryRoot ''q'' (calm_at f n) = (Inr 7, calm_at f (Suc n))" for n
    by (simp_all add: OpenDeliveryRoot_def SnapshotDeliveryRoot_def run_on_err calm_identity calm_noop ok_def ret_def root7_def)
  have a': "ApplyEnvelope toy_crypto (\<lambda>_. 384) root7 ''mac'' ''claude'' letter (calm_at f (Suc 19)) = (Inr res, w)"
    using a by simp
  have n: "(Suc 0 + 2 + 5 + 6 + 6 :: nat) = Suc 19" by simp
  show ?thesis
    unfolding runApplyFile_def
    apply (rule trans, rule run_on_err, rule o(2))
    apply (rule trans, rule run_on_err, rule o(1))
    apply (rule trans, rule run_on_err, rule calm_read_apply [OF d(3,1)])
    apply (simp only: d(2) sum.case)
    apply (rule trans, rule run_on_err, rule l(1))
    apply (simp only: letter_parts letter_texts sum.case prod.case simp_thms if_False)
    apply (rule trans, rule run_on_err, rule l(2))
    apply (simp only: prod.sel letter_verified option.case n)
    apply (rule trans, rule run_on_err, rule a')
    apply (simp only: bind_def get_now_def Let_def prod.case)
    done
qed

definition signed_letter :: "string \<Rightarrow> json" where
  "signed_letter s = JObj
     [(''version'', JNum ''1''), (''transfer_id'', JStr ''t1''), (''source_host'', JStr ''grok''), (''source_handle'', JStr ''codex''),
      (''dest_alias'', JStr ''mac/claude''), (''source_message_id'', JStr ''m1''), (''thread_id'', JStr ''th''),
      (''payload_sha256'', JStr ''6869''), (''key_generation'', JStr ''1''), (''payload'', JStr ''aGk=''), (''signature'', JStr s)]"

definition letter_json :: json where "letter_json = signed_letter (hex_str (replicate 64 (CHR ''x'')))"

definition letter_raw :: bytes where "letter_raw = MarshalIndent letter_json"

lemma post_office_files:
  "lstat [''drop''] (post_office d key) = Inr (Reg d)" "lstat HostIDPath (post_office d key) = Inr (Reg ''mac'')"
  "lstat (TrustedPath ''grok'') (post_office d key) = Inr (Reg key)"
  by code_simp+

lemma mac_host: "parseHostID ''mac'' = Inr ''mac''" by code_simp

lemma grok_trusted: "parse_trusted (trusted_text (replicate 32 (CHR ''p'')) ''1'') = Inr (replicate 32 (CHR ''p''), ''1'')"
  by code_simp

lemma letter_raw_letter: "UnmarshalEnvelope toy_crypto letter_raw = Inr letter"
proof -
  have "wf_json (signed_letter s) \<longleftrightarrow> valid_utf8 s" for s by code_simp simp
  then have "wf_json letter_json" by (simp add: letter_json_def ascii_valid)
  moreover have "strict_struct envelope_fields envelope_store envelope_zero (signed_letter s) = Some (letter\<lparr>Signature := s\<rparr>)" for s by code_simp
  ultimately show ?thesis
    by (simp add: UnmarshalEnvelope_def letter_raw_def parse_MarshalIndent letter_json_def)
       (simp add: letter_def letter_valid0 [unfolded letter_def])
qed

lemma letter_raw_short: "length letter_raw \<le> maxApplyFileSize"
proof -
  have "length letter_raw < 600" by code_simp
  then show ?thesis by (simp add: maxApplyFileSize_def)
qed

abbreviation grok_key :: bytes where "grok_key \<equiv> trusted_text (replicate 32 (CHR ''p'')) ''1''"

lemma letter_dropped:
  "map_of (fs (snd (runApplyFile toy_crypto (\<lambda>_. 384) ''q'' [''drop''] (calm_at (post_office letter_raw grok_key) 0))))
     (new_msg ''claude'' ''xfer-grok-t1.md'') = Some (Reg ''hi'')"
proof -
  let ?f = "post_office letter_raw grok_key" and ?m = "new_msg ''claude'' ''xfer-grok-t1.md''"
  obtain x w where a: "apply_letter (calm_at ?f 20) = (x, w)" by (cases "apply_letter (calm_at ?f 20)")
  with taken_transfer_applied_again [where d = letter_raw and key = grok_key and n = 20] obtain res where x: "x = Inr res" by simp
  have m: "map_of (fs w) ?m = Some (Reg ''hi'')"
    using ApplyEnvelope_run [of "calm_at ?f 20" letter "''claude''" toy_crypto "\<lambda>_. 384" root7 "''mac''"]
    by (simp add: a x reached_def published_def letter_parts TransferFilename_def)
  let ?rc = "commit_receipt letter res (now_ns w (tick w))"
  have "keeps (\<lambda>f. bridged (\<lambda>_ _ _. True) (map_of (fs w)) (map_of f) \<and> (\<forall>p n. [?m \<mapsto> Reg ''hi''] p = Some n \<longrightarrow> map_of f p = Some n))
      (on_err (writeBridgeReceipt root7 [''bridge'', ''receipts''] ?rc) (\<lambda>e. fail (Wrap ''write destination receipt'' e)) (\<lambda>_. ok ?rc))"
    by (intro stable_rules brr.keeps_writeBridgeReceipt)
  from triple_run [OF this [unfolded keeps_def], of w] m
  have "map_of (fs (snd (on_err (writeBridgeReceipt root7 [''bridge'', ''receipts''] ?rc) (\<lambda>e. fail (Wrap ''write destination receipt'' e))
      (\<lambda>_. ok ?rc) w))) ?m = Some (Reg ''hi'')"
    by (simp add: brn.refl)
  then show ?thesis
    by (subst drop_run [OF letter_raw_short letter_raw_letter post_office_files(1,2) mac_host post_office_files(3) grok_trusted a [unfolded x]])
qed


text \<open>A rendezvous that has the letter for whoever asks, and a courier of the host \<^verbatim>\<open>mac\<close>.\<close>

definition grok_server :: rendezvous where
  "grok_server = \<lparr>srv_poll = (\<lambda>_ _ _. Inr [letter_raw]), srv_ack = (\<lambda>_ _ rc. Inr rc)\<rparr>"

definition mac_courier :: Courier where
  "mac_courier = \<lparr>cRoot = ''q'', receiveAlias = ''mac/claude'', localHost = ''mac'', localAgent = ''claude'', hostID = ''mac'',
     cSourceHost = [], allowedDest = [''mac/claude''], allowedSource = [''grok''], BatchSize = 10, receiptRelDir = [''bridge'', ''receipts'']\<rparr>"


end
