(* ===== verification/Spec2Isabelle.thy ===== *)
theory Spec2Isabelle
  imports Mailbox Dlq_Safety Dlq_Retry Session_Guard Wake_Notify Keepalive_Safety Semver Owner_Transition Receipt Thread_Collect
    Drain_Safety Swarm_Bridge Swarm_Team Layout_Repair Bridge_Courier
begin

text \<open>
  A verification of the core of AMQ, a message queue for agents that share a machine. Messages are
  files: a sender stages a copy in \<^verbatim>\<open>inbox/tmp\<close> of every recipient and publishes it in \<^verbatim>\<open>inbox/new\<close>; a
  consumer claims it by moving it to \<^verbatim>\<open>inbox/cur\<close>; a message that cannot be used goes, in an envelope, to
  the dead-letter queue (DLQ), from which it can be retried; a receipt tells the sender what became of it.
  A wake process prompts an agent that has unread messages; a keepalive service has a registry of wakes and
  the terminals they prompt, and a supervisor that keeps the wakes alive. A bridge carries signed envelopes
  with messages between machines.
  The source paths below are relative to \<^verbatim>\<open>src/\<close>.

  \<^bold>\<open>The model.\<close> A program is a function of the world (\<open>Posix\<close>): a tree of files, a clock, random bytes, and
  a schedule that may make any system call fail with any error number. A failing call has no effect, but a
  failing write may leave a part of its data. A process that dies at some call leaves the tree of the
  schedule that fails every later call, so a theorem for every schedule is also one for every crash. The
  directory behind the queue's path may be exchanged at any time. Errors are values of \<open>goerr\<close>, of which
  the model keeps what callers tell apart (the Go types and the wrapped errors) and not the whole text.

  \<^bold>\<open>Foundations.\<close>
  \<^item> \<open>Amq_Prelude\<close>: Go strings, their library functions, errors, and the generic lemmas.
  \<^item> \<open>Io_Logic\<close>, \<open>Frame\<close>: pre- and postconditions that hold under every schedule; the contracts \<open>tree_inv\<close>
    (a property of trees that creating directories keeps) and \<open>node_policy\<close> (a relation between the old and
    the new node of every path); frame conditions for a set of watched paths.
  \<^item> \<open>Json_String\<close>, \<open>Json\<close>: \<^verbatim>\<open>encoding/json\<close>, escaping, layout, parser, decoding into structs, with the
    contracts \<open>codec\<close> and \<open>frontmatter\<close> and their round trips, which messages, envelopes and receipts
    interpret.
  \<^item> \<open>Clock\<close>, \<open>Time_Parse\<close>, \<open>Go_Time\<close>: formatting and parsing of times, durations of 64 bits that saturate.

  \<^bold>\<open>Components.\<close>
  \<^item> \<open>Names\<close> (\<^verbatim>\<open>internal/fsq/filename.go\<close>, \<^verbatim>\<open>layout.go\<close>), \<open>Message\<close> (\<^verbatim>\<open>internal/format\<close>): names, the message
    file, identifiers, the listing order. Round trip of messages; the streaming reader agrees with the
    parser; new identifiers give valid file names; the listing is in time order, unless a time does not
    parse, in which case the comparison is cyclic.
  \<^item> \<open>Delivery_Root\<close>, \<open>Ambient_Files\<close> (\<^verbatim>\<open>internal/fsq/delivery_root.go\<close>, \<^verbatim>\<open>atomic.go\<close>, \<^verbatim>\<open>regular_file.go\<close>,
    \<^verbatim>\<open>scan.go\<close> and others): the pinned root, its file operations, and the same on lexical paths.
  \<^item> \<open>Maildir\<close> (\<^verbatim>\<open>internal/fsq/maildir.go\<close>): delivery to several inboxes. Success is complete, an error names
    exactly the recipients that have the message, nothing is replaced and no partial message is ever seen.
  \<^item> \<open>Claim\<close> (\<^verbatim>\<open>internal/fsq/find.go\<close>, \<^verbatim>\<open>claim_rename_other.go\<close>): claiming. The message moves whole, and in
    every interleaving at most one consumer wins it.
  \<^item> \<open>Layout\<close>, \<open>Layout_Repair\<close> (\<^verbatim>\<open>internal/fsq/layout.go\<close>, \<^verbatim>\<open>layout_cap_unix.go\<close>): the inspection of mailboxes
    through directory capabilities, their validation, and their repair under a pinned configuration. A
    validated mailbox has every directory with mode 0700; a repair creates exactly what it reports.
  \<^item> \<open>Mailbox\<close>: the abstract mailboxes that deliveries and claims implement, by a simulation under every
    schedule (\<open>implements\<close>); no delivered message is lost and a name is taken once.
  \<^item> \<open>Dlq_Envelope\<close>, \<open>Dlq\<close>, \<open>Dlq_Safety\<close>, \<open>Dlq_Retry\<close> (\<^verbatim>\<open>internal/fsq/dlq.go\<close>): the envelope, its retry
    states and every operation of the DLQ. A message on its way to the DLQ is not lost; a retry is recorded
    before it is visible; refused retries touch nothing; \<^verbatim>\<open>dlq/cur\<close> is authoritative.
  \<^item> \<open>Receipt\<close> (\<^verbatim>\<open>internal/receipt\<close>): receipts. They are read back exactly, at every crash point; a wait with
    a timeout ends.
  \<^item> \<open>Thread_Collect\<close> (\<^verbatim>\<open>internal/thread\<close>): the view of a thread is complete and without duplicates.
  \<^item> \<open>Validate\<close>, \<open>Drain\<close>, \<open>Drain_Safety\<close> (\<^verbatim>\<open>internal/cli/validate.go\<close>, \<^verbatim>\<open>inbox_collect.go\<close>): draining an
    inbox, where claims, validation, the DLQ and receipts meet. No message is lost and every report is true.
  \<^item> \<open>Swarm_Tasks\<close>, \<open>Swarm_Safety\<close>, \<open>Swarm_Bridge\<close>, \<open>Swarm_Team\<close> (\<^verbatim>\<open>internal/swarm\<close>, \<^verbatim>\<open>internal/lock\<close>): the task
    list and the members that agents share with another program. An operation moves one task by its rules or
    changes nothing, a completed or foreign task is safe, a poll reports every change once, and a change of
    the members is exact.
  \<^item> \<open>Bridge_Envelope\<close>, \<open>Bridge_Apply\<close>, \<open>Bridge_Courier\<close> (\<^verbatim>\<open>internal/bridge\<close>, \<^verbatim>\<open>cmd/amq-bridge/courier.go\<close>,
    \<^verbatim>\<open>apply_file.go\<close>): the signed envelope, the private files with the trusted keys, applying an envelope, and
    the two commands that receive envelopes. What verifies was signed by the holder of the key, provided
    that identifiers have one line; an envelope is applied whole or not at all; only authentic mail enters
    an inbox, and a transfer is acknowledged only after it is committed. The contract \<open>receipt_inv\<close> says
    what the writing of receipts keeps. Lemmas show where a replay delivers a second copy, where two
    transfers share a name, and where two envelopes share a signature.
  \<^item> \<open>Session_Guard\<close> (\<^verbatim>\<open>internal/sessionguard\<close>): the table of the session-pin policy, and when a command may
    act on another root.
  \<^item> \<open>Doorbell\<close>, \<open>Wake_Notify\<close> (\<^verbatim>\<open>internal/cli/wake_doorbell.go\<close>, parts of \<^verbatim>\<open>wake.go\<close>): the state machine of
    the prompts. A bounded number of prompts, none forgotten, and one case in which a deferred prompt counts
    as delivered.
  \<^item> \<open>Owner_Transition\<close> (\<^verbatim>\<open>internal/cli/wake_owner_transition.go\<close>): when an owner of a wake may be displaced.
  \<^item> \<open>Supervisor\<close> (\<^verbatim>\<open>internal/keepalive/supervisor\<close>): the reconciler of one entry, its backoff and its states.
  \<^item> \<open>Filepath\<close>, \<open>Registry\<close>, \<open>Registry_Safety\<close> (\<^verbatim>\<open>internal/keepalive/registry\<close>): the registry, a file of entries that
    every operation changes in one transaction, from a load to at most one atomic save. The contracts
    \<open>owned_body\<close> and \<open>maintenance_body\<close> say what the body of a transaction keeps, and every operation
    interprets one of them: over any sequence of operations and failures no root and agent and no target is
    owned twice. Rolling a reattach back restores what it replaced; it needs the lease its caller holds.
  \<^item> \<open>Keepalive_Pass\<close>, \<open>Keepalive_Gc\<close>, \<open>Keepalive_Register\<close>, \<open>Keepalive_Safety\<close> (\<^verbatim>\<open>internal/keepalive/app/app.go\<close>,
    \<^verbatim>\<open>adapter/adapter.go\<close>): the commands over the registry and the supervisor. A pass writes exactly what the
    reconciler made of the entries nobody changed meanwhile, and starts wakes only for sole owners of a
    terminal; \<^verbatim>\<open>gc\<close> removes only entries whose terminal is proven absent and whose wake is confirmed to be
    retired, and \<^verbatim>\<open>retire-session\<close> retires all or none; a reattach is done, or undone, or recoverable.
  \<^item> \<open>Semver\<close> (\<^verbatim>\<open>internal/update/update.go\<close>): version comparison, with its wrap-around.

  \<^bold>\<open>Fuel and bounds.\<close> The JSON parser has as fuel the length of its input; the round trip shows that this is
  enough. A wait for a receipt has fuel; the theorem gives the number of rounds after which it has ended.
  Symbolic links are followed at most eight times, as \<^verbatim>\<open>os.Root\<close> does. Counters and durations keep their 64
  bits.

  \<^bold>\<open>Parameters.\<close> The text of a floating-point number (\<open>float_text\<close>), the text of an error where it is stored
  (\<open>err_text\<close>), probing and starting a wake process, writing to the terminal, and what other processes do
  during a sleep are arguments of the definitions. So are, for the keepalive service, SHA-256 (of which only
  that its text is not empty is ever assumed), the resolution of symbolic links, the errors of the system
  calls of a transaction, the interface of a terminal adapter, the answers of the \<^verbatim>\<open>amq\<close> commands, and the
  wording of conflicts. For the bridge they are the hash and the signature scheme (\<open>crypto\<close>) and the answers
  of the rendezvous service. The theorems on authentic mail assume that only bytes the holder of a key
  signed verify under it, and that no other payload has the digest of a signed one (\<open>holder_signed\<close>).

  \<^bold>\<open>Not modelled.\<close> The nesting limit of \<^verbatim>\<open>encoding/json\<close> and case folding of keys outside ASCII; modification
  times, and with them the cleanup of old files; names with slashes; Windows and macOS variants; hooks for
  tests; warnings and the formatting of command output. Of the components: the event loop and the terminal
  layer of the wake process and its restart and repair protocols, which are interactions with processes,
  terminals and file descriptors; the launcher and its backends (\<^verbatim>\<open>internal/launch\<close>, \<^verbatim>\<open>launchapi\<close>), which
  drive other programs; the terminal adapters, hooks and service files of the keepalive service, the JSON
  text of its registry and the waiting for its locks; the sending half of the bridge (the spool, the push
  and the file with the private key) and its HTTP client; the editor protocol and the integrations
  (\<^verbatim>\<open>internal/acp\<close>, \<^verbatim>\<open>internal/integration\<close>); reading configuration and flags.
\<close>

end
